(* ===== verification/Prelude.thy ===== *)
theory Prelude
  imports Complex_Main "HOL-Library.Word"
begin

text \<open>
  Shared vocabulary of the development.

  \<^item> \<open>byte\<close> is the \<open>uint8_t\<close> of the sources.
  \<^item> \<open>fault\<close> and \<open>'a res\<close>: C++ code can leave its specified behaviour (null dereference, a
    vector subscript past the end, a read of an indeterminate value) or throw. Both are values
    of the model: \<open>Inl fault\<close> instead of a result.
  \<^item> \<open>vec_at\<close> and \<open>slice\<close>: subscripts and iterator ranges with their bounds written out.
  \<^item> Ordered association lists: a \<open>std::map\<close> iterates in key order, and its \<open>operator[]\<close>
    inserts a default value for a missing key. The locale \<open>ordered_map\<close> states what the
    clients rely on, and is interpreted on the sorted lists used by the models.
  \<^item> The locale \<open>invariant_system\<close>: an invariant kept by every step holds in every reachable
    state; interpreted for each of the state machines of the development.
\<close>

unbundle bit_operations_syntax

type_synonym byte = "8 word"

named_theorems res_simps "evaluation of fallible computations"
named_theorems frame_simps "byte layout of IPMB frames"
named_theorems handler_simps "unfolding of command handlers"

section \<open>Faults and fallible results\<close>

datatype fault =
    Null_Deref
  | Out_Of_Bounds
  | Uninit_Read
  | Bad_Optional_Access
  | Float_Cast
  | Int_Overflow
  | Dbus_Exception
  | Json_Exception
  | Invalid_Argument
  | Runtime_Error
  | No_Return

text \<open>
  The first three, \<open>Float_Cast\<close> (a conversion to an integer type that cannot represent the value,
  or a value that is not finite) and \<open>Int_Overflow\<close> are undefined behaviour, \<open>No_Return\<close> a loop
  that has not ended on the input given; the others are exceptions that a \<open>catch (...)\<close> of the
  source intercepts.
\<close>

type_synonym 'a res = "fault + 'a"

fun is_exception :: "fault \<Rightarrow> bool" where
  "is_exception Bad_Optional_Access = True"
| "is_exception Dbus_Exception = True"
| "is_exception Json_Exception = True"
| "is_exception Invalid_Argument = True"
| "is_exception Runtime_Error = True"
| "is_exception _ = False"

definition rbind :: "'a res \<Rightarrow> ('a \<Rightarrow> 'b res) \<Rightarrow> 'b res" where
  "rbind m f = (case m of Inl e \<Rightarrow> Inl e | Inr x \<Rightarrow> f x)"

lemma rbind_simps [simp, res_simps]:
  "rbind (Inl e) f = Inl e"
  "rbind (Inr x) f = f x"
  by (simp_all add: rbind_def)

lemma rbind_Inr_iff: "rbind m f = Inr y \<longleftrightarrow> (\<exists>x. m = Inr x \<and> f x = Inr y)"
  by (cases m) simp_all

lemma rbind_Inl_iff: "rbind m f = Inl e \<longleftrightarrow> m = Inl e \<or> (\<exists>x. m = Inr x \<and> f x = Inl e)"
  by (cases m) simp_all

lemma rbind_InrE [elim]:
  assumes "rbind m f = Inr y"
  obtains x where "m = Inr x" "f x = Inr y"
  using assms by (auto simp: rbind_Inr_iff)

definition of_opt :: "fault \<Rightarrow> 'a option \<Rightarrow> 'a res" where
  "of_opt e m = (case m of None \<Rightarrow> Inl e | Some x \<Rightarrow> Inr x)"

lemma of_opt_simps [simp, res_simps]:
  "of_opt e None = Inl e"
  "of_opt e (Some x) = Inr x"
  by (simp_all add: of_opt_def)

lemma of_opt_Inr_iff [simp]: "of_opt e m = Inr x \<longleftrightarrow> m = Some x"
  by (cases m) simp_all

text \<open>\<open>vec[i]\<close> on a \<open>std::vector\<close>: no exception, undefined behaviour past the end.\<close>

definition vec_at :: "'a list \<Rightarrow> nat \<Rightarrow> 'a res" where
  "vec_at xs i = (if i < length xs then Inr (xs ! i) else Inl Out_Of_Bounds)"

lemma vec_at_in [simp, res_simps]: "i < length xs \<Longrightarrow> vec_at xs i = Inr (xs ! i)"
  by (simp add: vec_at_def)

lemma vec_at_out [simp, res_simps]: "length xs \<le> i \<Longrightarrow> vec_at xs i = Inl Out_Of_Bounds"
  by (simp add: vec_at_def)

lemma vec_at_Inr_iff: "vec_at xs i = Inr x \<longleftrightarrow> i < length xs \<and> xs ! i = x"
  by (auto simp: vec_at_def)

lemma vec_at_Cons [simp, res_simps]:
  "vec_at (x # xs) 0 = Inr x"
  "vec_at (x # xs) (Suc i) = vec_at xs i"
  "vec_at (x # xs) (numeral k) = vec_at xs (pred_numeral k)"
  by (simp_all add: vec_at_def numeral_eq_Suc)

text \<open>The range \<open>[begin + i, begin + i + n)\<close> copied out of a vector.\<close>

definition slice :: "'a list \<Rightarrow> nat \<Rightarrow> nat \<Rightarrow> 'a list res" where
  "slice xs i n = (if i + n \<le> length xs then Inr (take n (drop i xs)) else Inl Out_Of_Bounds)"

lemma slice_Inr_iff:
  "slice xs i n = Inr ys \<longleftrightarrow> i + n \<le> length xs \<and> ys = take n (drop i xs)"
  by (auto simp: slice_def)

section \<open>Bytes\<close>

lemma byte_bits_bound:
  fixes x :: byte
  assumes "unat x < 2 ^ n"
  shows "bit x i \<Longrightarrow> i < n"
proof -
  assume "bit x i"
  then have "bit (unat x) i"
    by (simp add: bit_unsigned_iff)
  moreover have "take_bit n (unat x) = unat x"
    using assms by (simp add: take_bit_nat_eq_self)
  ultimately show "i < n"
    by (metis bit_take_bit_iff)
qed

lemma byte_less_unat [simp]: "(x :: byte) < numeral k \<longleftrightarrow> unat x < unat (numeral k :: byte)"
  by (simp add: word_less_nat_alt)

lemma unat_byte_less [simp]: "unat (x :: byte) < 256"
  using unsigned_less [of x] by simp

lemma unat_of_nat_byte: "n < 256 \<Longrightarrow> unat (of_nat n :: byte) = n"
  by (simp add: unat_of_nat)

lemma of_nat_byte_mod: "(of_nat (n mod 256) :: byte) = of_nat n"
  by (simp add: word_unat_eq_iff unsigned_of_nat take_bit_eq_mod)

section \<open>Sign extension\<close>

lemma bit_top_iff:
  fixes u :: "'a::len word"
  assumes "unat u < 2 ^ Suc n"
  shows "bit u n \<longleftrightarrow> 2 ^ n \<le> unat u"
proof -
  have "unat u div 2 ^ n < 2" using assms by (simp add: less_mult_imp_div_less)
  moreover have "bit u n \<longleftrightarrow> odd (unat u div 2 ^ n)"
    by (simp add: bit_unsigned_iff flip: bit_iff_odd)
  moreover have "unat u div 2 ^ n = 0 \<longleftrightarrow> unat u < 2 ^ n"
    by (simp add: div_eq_0_iff)
  ultimately show ?thesis by (auto simp: less_2_cases_iff)
qed

lemma or_not_mask:
  fixes u :: "'a::len word"
  assumes "unat u < 2 ^ n"
  shows "u OR NOT (mask n) = u - 2 ^ n"
proof -
  have "\<not> bit u k \<or> \<not> bit (NOT (mask n) :: 'a word) k" for k
  proof -
    have "take_bit n u = u"
      using assms by (simp add: word_unat_eq_iff unsigned_take_bit_eq take_bit_nat_eq_self)
    then have "bit u k \<Longrightarrow> k < n" by (metis bit_take_bit_iff)
    then show ?thesis by (auto simp: bit_simps)
  qed
  then have "u + NOT (mask n) = u OR NOT (mask n)" by (rule disjunctive_add)
  then show ?thesis by (simp add: minus_exp_eq_not_mask [symmetric])
qed

lemma sint_word_of_int:
  assumes "LENGTH('a::len) = Suc l" "- (2 ^ l) \<le> k" "k < 2 ^ l"
  shows "sint (word_of_int k :: 'a word) = k"
  using assms by (simp add: signed_of_int signed_take_bit_int_eq_self)

lemma sint_small:
  fixes u :: "'a::len word"
  assumes "unat u < 2 ^ n" "n < LENGTH('a)"
  shows "sint (u - 2 ^ n) = int (unat u) - 2 ^ n" "sint u = int (unat u)"
proof -
  obtain l where l: "LENGTH('a) = Suc l" by (cases "LENGTH('a)") auto
  have "(2::int) ^ n \<le> 2 ^ l" using assms(2) l by simp
  moreover have "int (unat u) < 2 ^ n"
    using assms(1) by (metis of_nat_less_iff of_nat_numeral of_nat_power)
  moreover have "0 \<le> int (unat u)" by simp
  ultimately have r: "- (2 ^ l) \<le> int (unat u) - 2 ^ n" "int (unat u) - 2 ^ n < 2 ^ l"
    "- (2 ^ l) \<le> int (unat u)" "int (unat u) < 2 ^ l" by linarith+
  show "sint (u - 2 ^ n) = int (unat u) - 2 ^ n" "sint u = int (unat u)"
    using sint_word_of_int [OF l r(1,2)] sint_word_of_int [OF l r(3,4)] by simp_all
qed

text \<open>The sign extension of an \<open>n\<close>-bit field as the sources write it.\<close>

lemma sign_extend:
  fixes u :: "'a::len word"
  assumes "unat u < 2 ^ Suc n" "Suc n < LENGTH('a)"
  shows "sint (if bit u n then u OR NOT (mask (Suc n)) else u)
       = (if unat u < 2 ^ n then int (unat u) else int (unat u) - 2 ^ Suc n)"
  using bit_top_iff [OF assms(1)] or_not_mask [OF assms(1)] sint_small [OF assms] by simp

lemma and_exp_neq_0: "(u :: 'a::len word) AND 2 ^ n \<noteq> 0 \<longleftrightarrow> bit u n"
  by (simp add: and_exp_eq_0_iff_not_bit)

section \<open>Sums of lists\<close>

lemma sum_list_list_update:
  fixes xs :: "'a::ab_group_add list"
  shows "i < length xs \<Longrightarrow> sum_list (xs[i := x]) = sum_list xs - xs ! i + x"
  by (induction xs arbitrary: i) (auto split: nat.splits)

lemma sum_list_take_update:
  fixes xs :: "'a::ab_group_add list"
  assumes "i < n" "n \<le> length xs"
  shows "sum_list (take n (xs[i := x])) = sum_list (take n xs) - xs ! i + x"
  using assms by (simp add: take_update_swap sum_list_list_update)

section \<open>Ordered maps\<close>

text \<open>
  A \<open>std::map\<close> as its entries in iteration order. \<open>omap_update\<close> is \<open>m[k] = v\<close>;
  \<open>omap_subscript\<close> is the bare \<open>m[k]\<close>, which inserts the default value first.
\<close>

fun omap_update :: "'k::linorder \<Rightarrow> 'v \<Rightarrow> ('k \<times> 'v) list \<Rightarrow> ('k \<times> 'v) list" where
  "omap_update k v [] = [(k, v)]"
| "omap_update k v ((k', v') # m) =
     (if k < k' then (k, v) # (k', v') # m
      else if k = k' then (k, v) # m
      else (k', v') # omap_update k v m)"

definition omap_subscript ::
  "'v \<Rightarrow> 'k::linorder \<Rightarrow> ('k \<times> 'v) list \<Rightarrow> 'v \<times> ('k \<times> 'v) list" where
  "omap_subscript d k m =
     (case map_of m k of Some v \<Rightarrow> (v, m) | None \<Rightarrow> (d, omap_update k d m))"

definition omap_ok :: "('k::linorder \<times> 'v) list \<Rightarrow> bool" where
  "omap_ok m \<longleftrightarrow> sorted_wrt (<) (map fst m)"

lemma map_of_omap_update: "map_of (omap_update k v m) = (map_of m)(k \<mapsto> v)" if "omap_ok m"
  using that
proof (induction m)
  case (Cons p m)
  obtain k' v' where p: "p = (k', v')" by (cases p)
  have gt: "map_of m k = None" if "k < k'"
  proof -
    have "k \<notin> fst ` set m"
      using Cons.prems that by (fastforce simp: p omap_ok_def)
    then show ?thesis by (simp add: map_of_eq_None_iff)
  qed
  have "omap_ok m" using Cons.prems by (simp add: omap_ok_def)
  with Cons.IH gt show ?case by (auto simp: p fun_eq_iff)
qed simp

lemma set_keys_omap_update: "fst ` set (omap_update k v m) = insert k (fst ` set m)"
  by (induction k v m rule: omap_update.induct) auto

lemma omap_ok_update: "omap_ok m \<Longrightarrow> omap_ok (omap_update k v m)"
proof (induction k v m rule: omap_update.induct)
  case (2 k v k' v' m)
  then show ?case
    by (auto simp: omap_ok_def set_keys_omap_update simp flip: image_set)
qed (simp add: omap_ok_def)

locale ordered_map =
  fixes lookup :: "'m \<Rightarrow> 'k \<Rightarrow> 'v option"
    and update :: "'k \<Rightarrow> 'v \<Rightarrow> 'm \<Rightarrow> 'm"
    and ok :: "'m \<Rightarrow> bool"
  assumes lookup_update: "ok m \<Longrightarrow> lookup (update k v m) = (lookup m)(k \<mapsto> v)"
    and ok_update: "ok m \<Longrightarrow> ok (update k v m)"
begin

lemma lookup_update_same: "ok m \<Longrightarrow> lookup (update k v m) k = Some v"
  by (simp add: lookup_update)

lemma lookup_update_other: "ok m \<Longrightarrow> k' \<noteq> k \<Longrightarrow> lookup (update k v m) k' = lookup m k'"
  by (simp add: lookup_update)

lemma update_twice: "ok m \<Longrightarrow> lookup (update k w (update k v m)) = lookup (update k w m)"
  by (simp add: lookup_update ok_update)

end

interpretation omap: ordered_map map_of omap_update omap_ok
  by unfold_locales (simp_all add: map_of_omap_update omap_ok_update)

section \<open>Invariants of state machines\<close>

locale invariant_system =
  fixes init :: "'s \<Rightarrow> bool"
    and step :: "'s \<Rightarrow> 's \<Rightarrow> bool"
    and inv :: "'s \<Rightarrow> bool"
  assumes inv_init: "init s \<Longrightarrow> inv s"
    and inv_step: "inv s \<Longrightarrow> step s t \<Longrightarrow> inv t"
begin

lemma inv_steps: "step\<^sup>*\<^sup>* s t \<Longrightarrow> inv s \<Longrightarrow> inv t"
  by (induction rule: rtranclp_induct) (auto intro: inv_step)

lemma inv_reachable: "init s \<Longrightarrow> step\<^sup>*\<^sup>* s t \<Longrightarrow> inv t"
  by (blast intro: inv_steps inv_init)

end

end
