(* ===== verification/Ipmb_Frame.thy ===== *)
theory Ipmb_Frame
  imports Prelude
begin

text \<open>
  The IPMB wire format of ipmbbridged: \<open>ipmbdefines.hpp\<close> (frame layout), \<open>ipmbutils.cpp\<close>
  (checksums and frame validation), the bit-field setters and getters of \<open>ipmbbridged.hpp\<close>, and
  the four conversions between messages and I2C buffers of \<open>ipmbbridged.cpp\<close>.

  A frame is the list of its bytes from \<open>address\<close> on; a driver buffer has the driver's length
  byte in front. Lengths that the code narrows to \<open>uint8_t\<close> are bytes here as well.
  The theorems: a constructed frame is accepted by \<open>isFrameValid\<close> and parses back to the
  message it was built from, for every payload the checksums cover; every corruption of a
  single byte is detected; and the length at which the narrowing defeats the checksum.
\<close>

section \<open>Constants\<close>

definition ipmbMaxDataSize :: nat where "ipmbMaxDataSize = 256"
definition ipmbConnectionHeaderLength :: nat where "ipmbConnectionHeaderLength = 3"
definition ipmbResponseDataHeaderLength :: nat where "ipmbResponseDataHeaderLength = 4"
definition ipmbRequestDataHeaderLength :: nat where "ipmbRequestDataHeaderLength = 3"
definition ipmbPktLenSize :: nat where "ipmbPktLenSize = 1"
definition ipmbChecksumSize :: nat where "ipmbChecksumSize = 1"
definition ipmbChecksum2StartOffset :: nat where "ipmbChecksum2StartOffset = 3"
definition ipmbMinFrameLength :: nat where "ipmbMinFrameLength = 7"
definition ipmbMaxFrameLength :: nat where
  "ipmbMaxFrameLength = ipmbPktLenSize + ipmbConnectionHeaderLength +
     ipmbResponseDataHeaderLength + ipmbChecksumSize + ipmbMaxDataSize"

lemmas ipmb_lengths [frame_simps] =
  ipmbMaxDataSize_def ipmbConnectionHeaderLength_def ipmbResponseDataHeaderLength_def
  ipmbRequestDataHeaderLength_def ipmbPktLenSize_def ipmbChecksumSize_def
  ipmbChecksum2StartOffset_def ipmbMinFrameLength_def ipmbMaxFrameLength_def

definition ipmbNetFnResponseMask :: byte where "ipmbNetFnResponseMask = 1"
definition ipmbLunMask :: byte where "ipmbLunMask = 3"
definition ipmbRsLun :: byte where "ipmbRsLun = 0"

section \<open>Bit fields\<close>

definition ipmbNetFnLunSet :: "byte \<Rightarrow> byte \<Rightarrow> byte" where
  "ipmbNetFnLunSet netFn lun = push_bit 2 netFn OR (lun AND ipmbLunMask)"

definition ipmbSeqLunSet :: "byte \<Rightarrow> byte \<Rightarrow> byte" where
  "ipmbSeqLunSet seq lun = push_bit 2 seq OR (lun AND ipmbLunMask)"

definition ipmbAddressTo7BitSet :: "byte \<Rightarrow> byte" where
  "ipmbAddressTo7BitSet address = drop_bit 1 address"

definition ipmbRespNetFn :: "byte \<Rightarrow> byte" where
  "ipmbRespNetFn netFn = netFn OR 1"

definition ipmbNetFnGet :: "byte \<Rightarrow> byte" where
  "ipmbNetFnGet netFnLun = drop_bit 2 netFnLun"

definition ipmbLunFromNetFnLunGet :: "byte \<Rightarrow> byte" where
  "ipmbLunFromNetFnLunGet netFnLun = netFnLun AND ipmbLunMask"

definition ipmbSeqGet :: "byte \<Rightarrow> byte" where
  "ipmbSeqGet seqNumLun = drop_bit 2 seqNumLun"

definition ipmbLunFromSeqLunGet :: "byte \<Rightarrow> byte" where
  "ipmbLunFromSeqLunGet seqNumLun = seqNumLun AND ipmbLunMask"

definition ipmbReqNetFnFromRespNetFn :: "byte \<Rightarrow> byte" where
  "ipmbReqNetFnFromRespNetFn reqNetFn = reqNetFn AND NOT ipmbNetFnResponseMask"

text \<open>The frame is a response when the low bit of its network function is set.\<close>

definition ipmbIsResponse :: "byte list \<Rightarrow> bool" where
  "ipmbIsResponse frame \<longleftrightarrow> ipmbNetFnGet (frame ! 1) AND ipmbNetFnResponseMask \<noteq> 0"

lemma ipmbLunMask_mask: "ipmbLunMask = mask 2"
  by (simp add: ipmbLunMask_def mask_eq_exp_minus_1)

lemma pack_high:
  fixes a b :: byte
  assumes "unat a < 64"
  shows "drop_bit 2 (push_bit 2 a OR (b AND ipmbLunMask)) = a"
proof (rule bit_word_eqI)
  fix k
  have "bit a i \<Longrightarrow> i < 6" for i
    using byte_bits_bound [of a 6 i] assms by simp
  then show "bit (drop_bit 2 (push_bit 2 a OR (b AND ipmbLunMask))) k = bit a k"
    by (auto simp: ipmbLunMask_mask bit_simps)
qed

lemma pack_low:
  fixes a b :: byte
  assumes "unat b < 4"
  shows "(push_bit 2 a OR (b AND ipmbLunMask)) AND ipmbLunMask = b"
proof (rule bit_word_eqI)
  fix k
  have "bit b k \<Longrightarrow> k < 2 \<and> k < 8"
    using byte_bits_bound [of b 2 k] assms by simp
  then show "bit ((push_bit 2 a OR (b AND ipmbLunMask)) AND ipmbLunMask) k = bit b k"
    by (auto simp: ipmbLunMask_mask bit_simps)
qed

lemma netFnLun_get_set [frame_simps]:
  "unat netFn < 64 \<Longrightarrow> ipmbNetFnGet (ipmbNetFnLunSet netFn lun) = netFn"
  "unat lun < 4 \<Longrightarrow> ipmbLunFromNetFnLunGet (ipmbNetFnLunSet netFn lun) = lun"
  unfolding ipmbNetFnGet_def ipmbNetFnLunSet_def ipmbLunFromNetFnLunGet_def
  by (rule pack_high, assumption) (rule pack_low, assumption)

lemma seqLun_get_set [frame_simps]:
  "unat seq < 64 \<Longrightarrow> ipmbSeqGet (ipmbSeqLunSet seq lun) = seq"
  "unat lun < 4 \<Longrightarrow> ipmbLunFromSeqLunGet (ipmbSeqLunSet seq lun) = lun"
  unfolding ipmbSeqGet_def ipmbSeqLunSet_def ipmbLunFromSeqLunGet_def
  by (rule pack_high, assumption) (rule pack_low, assumption)

lemma field_bounds [simp]:
  "unat (ipmbNetFnGet x) < 64" "unat (ipmbSeqGet x) < 64"
  "unat (ipmbLunFromNetFnLunGet x) < 4" "unat (ipmbLunFromSeqLunGet x) < 4"
proof -
  have "unat x div 4 < 64" by (rule less_mult_imp_div_less) (simp add: unat_byte_less)
  then show "unat (ipmbNetFnGet x) < 64" "unat (ipmbSeqGet x) < 64"
    by (simp_all add: ipmbNetFnGet_def ipmbSeqGet_def drop_bit_eq_div unat_div_distrib)
  have "unat (x AND mask 2) < 4"
    by (simp add: take_bit_eq_mod unat_mod_distrib flip: take_bit_eq_mask)
  then show "unat (ipmbLunFromNetFnLunGet x) < 4" "unat (ipmbLunFromSeqLunGet x) < 4"
    by (simp_all add: ipmbLunFromNetFnLunGet_def ipmbLunFromSeqLunGet_def ipmbLunMask_mask)
qed

lemma respNetFn_bound:
  assumes "unat netFn < 64"
  shows "unat (ipmbRespNetFn netFn) < 64"
proof -
  have "take_bit 6 netFn = netFn"
    using assms by (simp add: word_unat_eq_iff unsigned_take_bit_eq take_bit_nat_eq_self)
  then have "take_bit 6 (ipmbRespNetFn netFn) = ipmbRespNetFn netFn"
    by (simp add: ipmbRespNetFn_def)
  then have "unat (ipmbRespNetFn netFn) = take_bit 6 (unat (ipmbRespNetFn netFn))"
    by (metis unsigned_take_bit_eq)
  also have "\<dots> < 2 ^ 6" by (rule take_bit_nat_less_exp)
  finally show ?thesis by simp
qed

section \<open>Checksums\<close>

text \<open>
  The loop \<open>for (uint8_t idx = 0; idx < length; idx++) checksum += data[idx]\<close>. \<open>data\<close> is the
  buffer from the pointer on.
\<close>

fun checksum_loop :: "byte list \<Rightarrow> nat \<Rightarrow> byte \<Rightarrow> byte" where
  "checksum_loop (d # data) (Suc n) checksum = checksum_loop data n (checksum + d)"
| "checksum_loop data n checksum = checksum"

definition ipmbChecksumValidate :: "byte list \<Rightarrow> byte \<Rightarrow> bool" where
  "ipmbChecksumValidate data len \<longleftrightarrow> checksum_loop data (unat len) 0 = 0"

definition ipmbChecksumCompute :: "byte list \<Rightarrow> byte \<Rightarrow> byte" where
  "ipmbChecksumCompute data len = NOT (checksum_loop data (unat len) 0) + 1"

definition ipmbConnectionHeaderChecksumValidate :: "byte list \<Rightarrow> bool" where
  "ipmbConnectionHeaderChecksumValidate ipmbHeader =
     ipmbChecksumValidate ipmbHeader (of_nat ipmbConnectionHeaderLength)"

definition ipmbDataChecksumValidate :: "byte list \<Rightarrow> byte \<Rightarrow> bool" where
  "ipmbDataChecksumValidate ipmbHeader len =
     ipmbChecksumValidate (drop ipmbConnectionHeaderLength ipmbHeader)
       (len - of_nat ipmbConnectionHeaderLength)"

definition isFrameValid :: "byte list \<Rightarrow> byte \<Rightarrow> bool" where
  "isFrameValid frame len =
     (if \<not> ipmbConnectionHeaderChecksumValidate frame then False
      else ipmbDataChecksumValidate frame len)"

lemma checksum_loop_sum: "checksum_loop data n c = c + sum_list (take n data)"
  by (induction data n c rule: checksum_loop.induct) (auto simp: algebra_simps)

lemma checksum_compute_neg:
  "ipmbChecksumCompute data len = - sum_list (take (unat len) data)"
  by (simp add: ipmbChecksumCompute_def checksum_loop_sum minus_eq_not_plus_1)

lemma isFrameValid_sums:
  "isFrameValid frame len \<longleftrightarrow>
     sum_list (take 3 frame) = 0 \<and> sum_list (take (unat (len - 3)) (drop 3 frame)) = 0"
  by (simp add: isFrameValid_def ipmbConnectionHeaderChecksumValidate_def
      ipmbDataChecksumValidate_def ipmbChecksumValidate_def checksum_loop_sum
      ipmbConnectionHeaderLength_def)

section \<open>Messages\<close>

datatype ipmbRequestState = Rq_invalid | Rq_valid | Rq_matched

record IpmbResponse =
  rs_address :: byte
  rs_netFn :: byte
  rs_rqLun :: byte
  rs_rsSA :: byte
  rs_seq :: byte
  rs_rsLun :: byte
  rs_cmd :: byte
  rs_completionCode :: byte
  rs_data :: "byte list"

record IpmbRequest =
  rq_address :: byte
  rq_netFn :: byte
  rq_rsLun :: byte
  rq_rqSA :: byte
  rq_seq :: byte
  rq_rqLun :: byte
  rq_cmd :: byte
  rq_data :: "byte list"
  rq_state :: ipmbRequestState
  rq_matchedResponse :: "IpmbResponse option"

definition IpmbRequest_new ::
  "byte \<Rightarrow> byte \<Rightarrow> byte \<Rightarrow> byte \<Rightarrow> byte \<Rightarrow> byte \<Rightarrow> byte \<Rightarrow> byte list \<Rightarrow> IpmbRequest" where
  "IpmbRequest_new address netFn rsLun rqSA seq rqLun cmd inputData =
     \<lparr>rq_address = address, rq_netFn = netFn, rq_rsLun = rsLun, rq_rqSA = rqSA, rq_seq = seq,
      rq_rqLun = rqLun, rq_cmd = cmd, rq_data = inputData, rq_state = Rq_invalid,
      rq_matchedResponse = None\<rparr>"

definition IpmbResponse_new ::
  "byte \<Rightarrow> byte \<Rightarrow> byte \<Rightarrow> byte \<Rightarrow> byte \<Rightarrow> byte \<Rightarrow> byte \<Rightarrow> byte \<Rightarrow> byte list \<Rightarrow> IpmbResponse" where
  "IpmbResponse_new address netFn rqLun rsSA seq rsLun cmd completionCode inputData =
     \<lparr>rs_address = address, rs_netFn = netFn, rs_rqLun = rqLun, rs_rsSA = rsSA, rs_seq = seq,
      rs_rsLun = rsLun, rs_cmd = cmd, rs_completionCode = completionCode, rs_data = inputData\<rparr>"

text \<open>
  Filling a request object from a received frame; \<open>this\<close> is the object before the call (the
  method does not assign \<open>address\<close>). The caller has checked \<open>bufferLength \<ge> 7\<close>.
\<close>

definition IpmbRequest_i2cToIpmbConstruct ::
  "IpmbRequest \<Rightarrow> byte list \<Rightarrow> nat \<Rightarrow> IpmbRequest" where
  "IpmbRequest_i2cToIpmbConstruct this ipmbBuffer bufferLength =
     this\<lparr>rq_netFn := ipmbNetFnGet (ipmbBuffer ! 1),
          rq_rsLun := ipmbLunFromNetFnLunGet (ipmbBuffer ! 1),
          rq_rqSA := ipmbBuffer ! 3,
          rq_seq := ipmbSeqGet (ipmbBuffer ! 4),
          rq_rqLun := ipmbLunFromSeqLunGet (ipmbBuffer ! 4),
          rq_cmd := ipmbBuffer ! 5,
          rq_data := rq_data this @ take (bufferLength - 7) (drop 6 ipmbBuffer)\<rparr>"

text \<open>
  For a response the data length is \<open>bufferLength - 8\<close> in \<open>size_t\<close>: below eight bytes it wraps
  to a huge value and the copied range leaves the buffer.
\<close>

definition IpmbResponse_i2cToIpmbConstruct ::
  "IpmbResponse \<Rightarrow> byte list \<Rightarrow> nat \<Rightarrow> IpmbResponse res" where
  "IpmbResponse_i2cToIpmbConstruct this ipmbBuffer bufferLength =
     (if bufferLength < 8 then Inl Out_Of_Bounds
      else Inr (this\<lparr>rs_netFn := ipmbNetFnGet (ipmbBuffer ! 1),
          rs_rqLun := ipmbLunFromNetFnLunGet (ipmbBuffer ! 1),
          rs_rsSA := ipmbBuffer ! 3,
          rs_seq := ipmbSeqGet (ipmbBuffer ! 4),
          rs_rsLun := ipmbLunFromSeqLunGet (ipmbBuffer ! 4),
          rs_cmd := ipmbBuffer ! 5,
          rs_completionCode := ipmbBuffer ! 6,
          rs_data := rs_data this @ take (bufferLength - 8) (drop 7 ipmbBuffer)\<rparr>))"

text \<open>Building the driver buffer: \<open>None\<close> is the -1 or \<open>nullptr\<close> of the sources.\<close>

definition IpmbRequest_ipmbToi2cConstruct :: "IpmbRequest \<Rightarrow> byte list option" where
  "IpmbRequest_ipmbToi2cConstruct q =
     (let n = length (rq_data q);
          bufferLength = 1 + n + ipmbRequestDataHeaderLength + ipmbConnectionHeaderLength
                         + ipmbChecksumSize
      in if bufferLength > ipmbMaxFrameLength then None
         else
           let connHeader = [rq_address q, ipmbNetFnLunSet (rq_netFn q) (rq_rsLun q)];
               checksum1 = ipmbChecksumCompute connHeader 2;
               body = [rq_rqSA q, ipmbSeqLunSet (rq_seq q) (rq_rqLun q), rq_cmd q] @ rq_data q;
               checksum2 = ipmbChecksumCompute body (of_nat (ipmbRequestDataHeaderLength + n))
           in Some (of_nat (bufferLength - 1) # connHeader @ [checksum1] @ body @ [checksum2]))"

definition IpmbResponse_ipmbToi2cConstruct :: "IpmbResponse \<Rightarrow> byte list option" where
  "IpmbResponse_ipmbToi2cConstruct p =
     (let n = length (rs_data p);
          bufferLength = 1 + n + ipmbResponseDataHeaderLength + ipmbConnectionHeaderLength
                         + ipmbChecksumSize
      in if bufferLength > ipmbMaxFrameLength then None
         else
           let connHeader = [rs_address p, ipmbNetFnLunSet (rs_netFn p) (rs_rqLun p)];
               checksum1 = ipmbChecksumCompute connHeader 2;
               body = [rs_rsSA p, ipmbSeqLunSet (rs_seq p) (rs_rsLun p), rs_cmd p,
                       rs_completionCode p] @ rs_data p;
               checksum2 = ipmbChecksumCompute body (of_nat (ipmbResponseDataHeaderLength + n))
           in Some (of_nat (bufferLength - 1) # connHeader @ [checksum1] @ body @ [checksum2]))"

section \<open>Framing\<close>

text \<open>Both message kinds share one layout: a checksummed two-byte header, then a checksummed body.\<close>

definition framed :: "byte \<Rightarrow> byte \<Rightarrow> byte list \<Rightarrow> byte list" where
  "framed address netFnLun body =
     [address, netFnLun, ipmbChecksumCompute [address, netFnLun] 2] @ body
       @ [ipmbChecksumCompute body (of_nat (length body))]"

lemma request_framed:
  assumes "length (rq_data q) \<le> 257"
  shows "IpmbRequest_ipmbToi2cConstruct q =
     Some (of_nat (length (rq_data q) + 7) #
       framed (rq_address q) (ipmbNetFnLunSet (rq_netFn q) (rq_rsLun q))
         ([rq_rqSA q, ipmbSeqLunSet (rq_seq q) (rq_rqLun q), rq_cmd q] @ rq_data q))"
  using assms
  by (simp add: IpmbRequest_ipmbToi2cConstruct_def framed_def ipmb_lengths Let_def)

lemma response_framed:
  assumes "length (rs_data p) \<le> 256"
  shows "IpmbResponse_ipmbToi2cConstruct p =
     Some (of_nat (length (rs_data p) + 8) #
       framed (rs_address p) (ipmbNetFnLunSet (rs_netFn p) (rs_rqLun p))
         ([rs_rsSA p, ipmbSeqLunSet (rs_seq p) (rs_rsLun p), rs_cmd p, rs_completionCode p]
            @ rs_data p))"
  using assms
  by (simp add: IpmbResponse_ipmbToi2cConstruct_def framed_def ipmb_lengths Let_def)

lemma framed_header_sum: "sum_list (take 3 (framed a b body)) = 0"
  by (simp add: framed_def checksum_compute_neg)

lemma drop_framed: "drop 3 (framed a b body) = body @ [ipmbChecksumCompute body (of_nat (length body))]"
  by (simp add: framed_def)

lemma length_framed [simp]: "length (framed a b body) = length body + 4"
  by (simp add: framed_def)

lemma framed_valid:
  assumes "length body < 255"
  shows "isFrameValid (framed a b body @ pad) (of_nat (length (framed a b body)))"
proof -
  have len: "unat (of_nat (length body + 4) - 3 :: byte) = length body + 1"
    using assms by (simp add: unat_of_nat_byte flip: of_nat_Suc)
  have "take (length body + 1) (drop 3 (framed a b body @ pad))
      = body @ [ipmbChecksumCompute body (of_nat (length body))]"
    by (simp add: framed_def)
  then show ?thesis
    unfolding isFrameValid_sums length_framed len
    using assms framed_header_sum [of a b body]
    by (simp add: checksum_compute_neg unat_of_nat_byte framed_def)
qed

text \<open>The two messages as their wire-visible fields.\<close>

definition request_fields ::
  "IpmbRequest \<Rightarrow> byte \<times> byte \<times> byte \<times> byte \<times> byte \<times> byte \<times> byte list" where
  "request_fields q =
     (rq_netFn q, rq_rsLun q, rq_rqSA q, rq_seq q, rq_rqLun q, rq_cmd q, rq_data q)"

definition response_fields ::
  "IpmbResponse \<Rightarrow> byte \<times> byte \<times> byte \<times> byte \<times> byte \<times> byte \<times> byte \<times> byte list" where
  "response_fields p =
     (rs_netFn p, rs_rqLun p, rs_rsSA p, rs_seq p, rs_rsLun p, rs_cmd p, rs_completionCode p,
      rs_data p)"

definition request_sized :: "IpmbRequest \<Rightarrow> bool" where
  "request_sized q \<longleftrightarrow> unat (rq_netFn q) < 64 \<and> unat (rq_rsLun q) < 4 \<and> unat (rq_seq q) < 64 \<and>
     unat (rq_rqLun q) < 4 \<and> length (rq_data q) \<le> 251"

definition response_sized :: "IpmbResponse \<Rightarrow> bool" where
  "response_sized p \<longleftrightarrow> unat (rs_netFn p) < 64 \<and> unat (rs_rqLun p) < 4 \<and> unat (rs_seq p) < 64 \<and>
     unat (rs_rsLun p) < 4 \<and> length (rs_data p) \<le> 250"

text \<open>
  What the channel relies on, for both kinds of message: an encoded message of admissible size is
  accepted and decodes to the same fields, whatever follows it in the receive buffer.
\<close>

locale frame_codec =
  fixes encode :: "'m \<Rightarrow> byte list option"
    and decode :: "byte list \<Rightarrow> nat \<Rightarrow> 'm res"
    and fields :: "'m \<Rightarrow> 'f"
    and sized :: "'m \<Rightarrow> bool"
  assumes encode_frame: "sized m \<Longrightarrow> \<exists>l f. encode m = Some (l # f) \<and> length f < 259 \<and>
      (\<forall>pad. isFrameValid (f @ pad) (of_nat (length f)) \<and>
        map_sum id fields (decode (f @ pad) (length f)) = Inr (fields m))"
begin

lemma encode_decode:
  assumes "sized m" "encode m = Some (l # f)"
  shows "isFrameValid (f @ pad) (of_nat (length f))"
    and "map_sum id fields (decode (f @ pad) (length f)) = Inr (fields m)"
  using encode_frame [OF assms(1)] assms(2) by auto

lemma encode_inj_fields:
  assumes "sized m" "sized m'" "encode m = encode m'"
  shows "fields m = fields m'"
proof -
  obtain l f where f: "encode m = Some (l # f)"
    using encode_frame [OF assms(1)] by blast
  have "Inr (fields m) = Inr (fields m')"
    using encode_decode(2) [OF assms(1) f, of "[]"] encode_decode(2) [OF assms(2), of l f "[]"]
      f assms(3) by simp
  then show ?thesis by simp
qed

end

lemma request_encode_frame:
  assumes "request_sized q" "rq_data q0 = []"
  shows "\<exists>l f. IpmbRequest_ipmbToi2cConstruct q = Some (l # f) \<and> length f < 259 \<and>
      (\<forall>pad. isFrameValid (f @ pad) (of_nat (length f)) \<and>
        map_sum id request_fields (Inr (IpmbRequest_i2cToIpmbConstruct q0 (f @ pad) (length f)) :: IpmbRequest res)
          = Inr (request_fields q))"
proof -
  define body where
    "body = [rq_rqSA q, ipmbSeqLunSet (rq_seq q) (rq_rqLun q), rq_cmd q] @ rq_data q"
  define f where "f = framed (rq_address q) (ipmbNetFnLunSet (rq_netFn q) (rq_rsLun q)) body"
  have len: "length body < 255" "length f = length body + 4"
    using assms by (simp_all add: body_def f_def request_sized_def)
  have "IpmbRequest_ipmbToi2cConstruct q = Some (of_nat (length (rq_data q) + 7) # f)"
    using assms by (simp add: request_framed f_def body_def request_sized_def)
  moreover have "isFrameValid (f @ pad) (of_nat (length f))" for pad
    unfolding f_def by (rule framed_valid [OF len(1)])
  moreover have "request_fields (IpmbRequest_i2cToIpmbConstruct q0 (f @ pad) (length f)) = request_fields q" for pad
    using assms
    by (simp add: request_fields_def IpmbRequest_i2cToIpmbConstruct_def f_def body_def framed_def
        frame_simps request_sized_def)
  ultimately show ?thesis
    using len by auto
qed

lemma response_encode_frame:
  assumes "response_sized p" "rs_data p0 = []"
  shows "\<exists>l f. IpmbResponse_ipmbToi2cConstruct p = Some (l # f) \<and> length f < 259 \<and>
      (\<forall>pad. isFrameValid (f @ pad) (of_nat (length f)) \<and>
        map_sum id response_fields (IpmbResponse_i2cToIpmbConstruct p0 (f @ pad) (length f))
          = Inr (response_fields p))"
proof -
  define body where
    "body = [rs_rsSA p, ipmbSeqLunSet (rs_seq p) (rs_rsLun p), rs_cmd p, rs_completionCode p]
              @ rs_data p"
  define f where "f = framed (rs_address p) (ipmbNetFnLunSet (rs_netFn p) (rs_rqLun p)) body"
  have len: "length body < 255" "length f = length body + 4"
    using assms by (simp_all add: body_def f_def response_sized_def)
  have "IpmbResponse_ipmbToi2cConstruct p = Some (of_nat (length (rs_data p) + 8) # f)"
    using assms by (simp add: response_framed f_def body_def response_sized_def)
  moreover have "isFrameValid (f @ pad) (of_nat (length f))" for pad
    unfolding f_def by (rule framed_valid [OF len(1)])
  moreover have "map_sum id response_fields (IpmbResponse_i2cToIpmbConstruct p0 (f @ pad) (length f))
      = Inr (response_fields p)" for pad
    using assms
    by (simp add: response_fields_def IpmbResponse_i2cToIpmbConstruct_def f_def body_def framed_def
        frame_simps response_sized_def)
  ultimately show ?thesis
    using len by auto
qed

text \<open>A freshly constructed object, before a frame is read into it.\<close>

definition IpmbRequest_empty :: IpmbRequest where
  "IpmbRequest_empty = IpmbRequest_new 0 0 0 0 0 0 0 []"

definition IpmbResponse_empty :: IpmbResponse where
  "IpmbResponse_empty = IpmbResponse_new 0 0 0 0 0 0 0 0 []"

interpretation rq_codec: frame_codec IpmbRequest_ipmbToi2cConstruct
  "\<lambda>f n. Inr (IpmbRequest_i2cToIpmbConstruct IpmbRequest_empty f n)" request_fields request_sized
  by unfold_locales
    (rule request_encode_frame, simp_all add: IpmbRequest_empty_def IpmbRequest_new_def)

interpretation rs_codec: frame_codec IpmbResponse_ipmbToi2cConstruct
  "IpmbResponse_i2cToIpmbConstruct IpmbResponse_empty" response_fields response_sized
  by unfold_locales
    (rule response_encode_frame, simp_all add: IpmbResponse_empty_def IpmbResponse_new_def)

section \<open>Properties of the wire format\<close>

definition example_request :: IpmbRequest where
  "example_request = IpmbRequest_new 0x82 0x2c 0 0x40 9 1 0x44 [3, 0]"

definition example_response :: IpmbResponse where
  "example_response = IpmbResponse_new 0x40 0x2d 1 0x82 9 0 0x44 0 [3, 7]"

text \<open>
  C19. A request whose bit fields fit their widths and whose payload has at most 251 bytes is
  encoded into a driver buffer whose frame passes \<open>isFrameValid\<close>, and reading that frame (with
  anything behind it in the receive buffer) gives back network function, LUNs, requester address,
  sequence number, command and data.
\<close>

theorem request_roundtrip:
  assumes "request_sized q"
  shows "\<exists>l f. IpmbRequest_ipmbToi2cConstruct q = Some (l # f) \<and>
    isFrameValid (f @ pad) (of_nat (length f)) \<and>
    request_fields (IpmbRequest_i2cToIpmbConstruct IpmbRequest_empty (f @ pad) (length f)) = request_fields q"
  using rq_codec.encode_frame [OF assms] by (auto simp: id_def)

theorem request_roundtrip_witness:
  "request_sized example_request \<and>
   (\<exists>l f. IpmbRequest_ipmbToi2cConstruct example_request = Some (l # f) \<and>
    isFrameValid (f @ [0, 0]) (of_nat (length f)) \<and>
    request_fields (IpmbRequest_i2cToIpmbConstruct IpmbRequest_empty (f @ [0, 0]) (length f))
      = request_fields example_request)"
proof -
  have "request_sized example_request"
    by (simp add: request_sized_def example_request_def IpmbRequest_new_def)
  with request_roundtrip [OF this, of "[0, 0]"] show ?thesis by blast
qed

text \<open>
  The same for responses, whose header is one byte longer (payloads of at most 250 bytes).
\<close>

theorem response_roundtrip:
  assumes "response_sized p"
  shows "\<exists>l f. IpmbResponse_ipmbToi2cConstruct p = Some (l # f) \<and>
    isFrameValid (f @ pad) (of_nat (length f)) \<and>
    map_sum id response_fields (IpmbResponse_i2cToIpmbConstruct IpmbResponse_empty (f @ pad) (length f))
      = Inr (response_fields p)"
  using rs_codec.encode_frame [OF assms] by auto

theorem response_roundtrip_witness:
  "response_sized example_response \<and>
   (\<exists>l f. IpmbResponse_ipmbToi2cConstruct example_response = Some (l # f) \<and>
    isFrameValid (f @ [0]) (of_nat (length f)) \<and>
    map_sum id response_fields (IpmbResponse_i2cToIpmbConstruct IpmbResponse_empty (f @ [0]) (length f))
      = Inr (response_fields example_response))"
proof -
  have "response_sized example_response"
    by (simp add: response_sized_def example_response_def IpmbResponse_new_def)
  with response_roundtrip [OF this, of "[0]"] show ?thesis by blast
qed

text \<open>
  C17. Within the length the narrowed checksum covers, corrupting any one byte of a valid frame
  makes \<open>isFrameValid\<close> reject it.
\<close>

theorem single_byte_corruption_detected:
  assumes valid: "isFrameValid f (of_nat n)" and n: "3 \<le> n" "n < 259" "n \<le> length f"
    and i: "i < n" and b: "b \<noteq> f ! i"
  shows "\<not> isFrameValid (f[i := b]) (of_nat n)"
proof -
  have len: "unat (of_nat n - 3 :: byte) = n - 3"
    using n unat_of_nat_byte [of "n - 3"] by (simp add: of_nat_diff)
  show ?thesis
  proof (cases "i < 3")
    case True
    then show ?thesis
      using valid n b
      by (simp add: isFrameValid_sums sum_list_take_update)
  next
    case False
    then have "drop 3 (f[i := b]) = (drop 3 f)[i - 3 := b]"
      by (simp add: drop_update_swap)
    then show ?thesis
      using valid n i b False
      by (simp add: isFrameValid_sums len sum_list_take_update)
  qed
qed

theorem single_byte_corruption_detected_witness:
  "isFrameValid [0x82, 0xb0, 0xce, 0x40, 0x25, 0x44, 0x57] 7 \<and>
   \<not> isFrameValid [0x82, 0xb0, 0xce, 0x40, 0x25, 0x45, 0x57] 7"
proof -
  let ?f = "[0x82, 0xb0, 0xce, 0x40, 0x25, 0x44, 0x57] :: byte list"
  have valid: "isFrameValid ?f (of_nat 7)"
    by (simp add: isFrameValid_sums take_Cons' drop_Cons')
  have "\<not> isFrameValid (?f[5 := 0x45]) (of_nat 7)"
    by (rule single_byte_corruption_detected [OF valid]) simp_all
  with valid show ?thesis by simp
qed

text \<open>
  Where the narrowing bites: a request with 252 data bytes is still accepted by
  \<open>ipmbToi2cConstruct\<close>, but its frame of 259 bytes is validated by the connection header alone,
  because the data length 256 narrows to 0: any corruption behind the header goes unnoticed.
\<close>

theorem data_checksum_blind_at_259:
  assumes "length (rq_data q) = 252" "3 \<le> i" "i < 259"
  shows "\<exists>l f. IpmbRequest_ipmbToi2cConstruct q = Some (l # f) \<and> length f = 259 \<and>
    isFrameValid (f[i := b]) (of_nat (length f))"
proof -
  define f where "f = framed (rq_address q) (ipmbNetFnLunSet (rq_netFn q) (rq_rsLun q))
     ([rq_rqSA q, ipmbSeqLunSet (rq_seq q) (rq_rqLun q), rq_cmd q] @ rq_data q)"
  have "length f = 259"
    using assms by (simp add: f_def)
  moreover have "take 3 (f[i := b]) = take 3 f"
    using assms by simp
  ultimately have "isFrameValid (f[i := b]) (of_nat (length f))"
    by (simp add: isFrameValid_sums) (simp add: f_def framed_header_sum)
  then show ?thesis
    using \<open>length f = 259\<close> assms by (simp add: request_framed f_def)
qed

end
