(* ===== verification/Ipmb_Channel.thy ===== *)
theory Ipmb_Channel
  imports Ipmb_Frame
begin

text \<open>
  The IPMB bridge daemon of \<open>ipmbbridged.cpp\<close>: channels with their table of 64 outstanding
  requests, the command filter, the reception of I2C events, the coroutine behind the D-Bus
  method \<open>sendRequest\<close>, broadcasts, and the configuration of the channels.

  Request objects are shared between the table (\<open>outstandingRequests\<close>) and the coroutine that
  waits for the response, so a channel has a store of request objects (\<open>ch_requests\<close>) and both
  sides refer to an object by its identity. A coroutine suspended in its retry timer is an entry
  of \<open>ch_pending\<close>: the request, the number of tries made, and the I2C buffer it re-sends.
  Effects outside the process (I2C writes, D-Bus signals and calls) are values of \<open>effect\<close>.

  The theorems: \<open>seqNumGet\<close> finds a free slot whenever there is one; the correspondence between
  table, store and coroutines is an invariant of every run; what a caller gets as a successful
  answer is a response that matches its request; every call returns after at most six timer
  events; and the paths on which the code leaves that discipline.
\<close>

section \<open>State\<close>

datatype ipmbResponseStatus = St_success | St_error | St_invalid_param | St_busy | St_timeout

fun status_code :: "ipmbResponseStatus \<Rightarrow> int" where
  "status_code St_success = 0"
| "status_code St_error = 1"
| "status_code St_invalid_param = 2"
| "status_code St_busy = 3"
| "status_code St_timeout = 4"

text \<open>The D-Bus reply of \<open>sendRequest\<close>: status, netFn, LUN, command, completion code, data.\<close>

type_synonym ipmb_result = "int \<times> byte \<times> byte \<times> byte \<times> byte \<times> byte list"

definition returnStatus :: "ipmbResponseStatus \<Rightarrow> ipmb_result" where
  "returnStatus status = (status_code status, 0, 0, 0, 0, [])"

definition returnMatchedResponse :: "IpmbResponse \<Rightarrow> ipmb_result" where
  "returnMatchedResponse p =
     (status_code St_success, rs_netFn p, rs_rsLun p, rs_cmd p, rs_completionCode p, rs_data p)"

record IpmbChannel =
  ch_bmcSlaveAddress :: byte
  ch_rqSlaveAddress :: byte
  ch_busId :: byte
  ch_channelIdx :: byte
  ch_fdOpen :: bool
  ch_outstandingRequests :: "nat option list"
  ch_requests :: "nat \<Rightarrow> IpmbRequest"
  ch_next :: nat
  ch_pending :: "(nat \<times> nat \<times> byte list) list"

record bridge =
  br_channels :: "IpmbChannel list"
  br_filter :: "(byte \<times> byte) set"
  br_seqNum :: byte

datatype effect =
    Signal_receiveBroadcast byte byte "byte list"
  | I2c_Write "byte list"
  | Ipmi_execute byte byte byte "byte list" byte byte
      \<comment> \<open>netFn, LUN, command, data, and the options rqSA and hostId\<close>

definition ipmbMaxOutstandingRequestsCount :: nat where "ipmbMaxOutstandingRequestsCount = 64"
definition ipmbNumberOfTries :: nat where "ipmbNumberOfTries = 6"
definition ipmbI2cNumberOfRetries :: nat where "ipmbI2cNumberOfRetries = 2"
definition broadcastAddress :: byte where "broadcastAddress = 0"
definition ipmbIpmiInvalidCmd :: byte where "ipmbIpmiInvalidCmd = 0xC1"
definition ipmbIpmiCmdRespNotProvided :: byte where "ipmbIpmiCmdRespNotProvided = 0xCE"

section \<open>Command filter\<close>

definition isBlocked :: "(byte \<times> byte) set \<Rightarrow> byte \<Rightarrow> byte \<Rightarrow> bool" where
  "isBlocked unhandledCommands reqNetFn cmd \<longleftrightarrow> (reqNetFn, cmd) \<in> unhandledCommands"

definition addFilter :: "(byte \<times> byte) set \<Rightarrow> byte \<Rightarrow> byte \<Rightarrow> (byte \<times> byte) set" where
  "addFilter unhandledCommands reqNetFn cmd = insert (reqNetFn, cmd) unhandledCommands"

section \<open>Outstanding requests\<close>

definition makeRequestInvalid :: "nat \<Rightarrow> IpmbChannel \<Rightarrow> IpmbChannel" where
  "makeRequestInvalid rid ch =
     (let request = ch_requests ch rid in
      ch\<lparr>ch_requests := (ch_requests ch)(rid := request\<lparr>rq_state := Rq_invalid\<rparr>),
         ch_outstandingRequests := (ch_outstandingRequests ch)[unat (rq_seq request) := None]\<rparr>)"

definition makeRequestValid :: "nat \<Rightarrow> IpmbChannel \<Rightarrow> IpmbChannel" where
  "makeRequestValid rid ch =
     (let request = ch_requests ch rid in
      ch\<lparr>ch_requests := (ch_requests ch)(rid := request\<lparr>rq_state := Rq_valid\<rparr>),
         ch_outstandingRequests := (ch_outstandingRequests ch)[unat (rq_seq request) := Some rid]\<rparr>)"

text \<open>
  \<open>seqNumGet\<close> advances the static \<open>seqNum\<close>, shared by all channels, up to 64 times. The result
  is the sequence number found, if any, and the new value of \<open>seqNum\<close>.
\<close>

fun seqNumGet_loop :: "nat \<Rightarrow> nat option list \<Rightarrow> byte \<Rightarrow> byte option \<times> byte" where
  "seqNumGet_loop 0 table seqNum = (None, seqNum)"
| "seqNumGet_loop (Suc i) table seqNum =
     (let seqNum' = (seqNum + 1) mod 64 in
      if table ! unat seqNum' = None then (Some seqNum', seqNum')
      else seqNumGet_loop i table seqNum')"

definition seqNumGet :: "IpmbChannel \<Rightarrow> byte \<Rightarrow> byte option \<times> byte" where
  "seqNumGet ch seqNum =
     seqNumGet_loop ipmbMaxOutstandingRequestsCount (ch_outstandingRequests ch) seqNum"

definition response_matches :: "IpmbRequest \<Rightarrow> IpmbResponse \<Rightarrow> bool" where
  "response_matches request response \<longleftrightarrow>
     ipmbRespNetFn (rq_netFn request) = rs_netFn response \<and>
     rq_rqLun request = rs_rqLun response \<and>
     rq_rsLun request = rs_rsLun response \<and>
     rq_cmd request = rs_cmd response"

definition responseMatch :: "IpmbResponse \<Rightarrow> IpmbChannel \<Rightarrow> IpmbChannel" where
  "responseMatch response ch =
     (case ch_outstandingRequests ch ! unat (rs_seq response) of
        None \<Rightarrow> ch
      | Some rid \<Rightarrow>
          (let request = ch_requests ch rid in
           if response_matches request response
           then ch\<lparr>ch_requests := (ch_requests ch)(rid :=
                  request\<lparr>rq_state := Rq_matched, rq_matchedResponse := Some response\<rparr>)\<rparr>
           else ch))"

section \<open>Reception\<close>

definition getDevIndex :: "IpmbChannel \<Rightarrow> byte" where
  "getDevIndex ch = drop_bit 2 (ch_channelIdx ch)"

text \<open>\<open>getChannelType() == ipmbChannelType::ipmb\<close>: the low two bits of the index are 0.\<close>

definition channel_is_ipmb :: "IpmbChannel \<Rightarrow> bool" where
  "channel_is_ipmb ch \<longleftrightarrow> ch_channelIdx ch AND 3 = 0"

definition ipmbSend :: "IpmbResponse \<Rightarrow> effect list" where
  "ipmbSend p = (case IpmbResponse_ipmbToi2cConstruct p of None \<Rightarrow> [] | Some buffer \<Rightarrow> [I2c_Write buffer])"

text \<open>The generic 'invalid command' answer to a blocked command.\<close>

definition blockedReply :: "IpmbChannel \<Rightarrow> byte list \<Rightarrow> effect list" where
  "blockedReply ch frame =
     ipmbSend (IpmbResponse_new (frame ! 3) (ipmbRespNetFn (ipmbNetFnGet (frame ! 1)))
       (ipmbLunFromSeqLunGet (frame ! 4)) (ch_bmcSlaveAddress ch) (ipmbSeqGet (frame ! 4))
       ipmbRsLun (frame ! 5) ipmbIpmiInvalidCmd [])"

text \<open>
  One \<open>processI2cEvent\<close>: \<open>rd\<close> is what \<open>read\<close> delivered (\<open>None\<close> for an error), at most
  \<open>ipmbMaxFrameLength\<close> bytes into a zeroed buffer. The first byte is the driver's length byte.
  The result is the channel afterwards and the effects, in order.
\<close>

definition processI2cEvent ::
  "(byte \<times> byte) set \<Rightarrow> byte list option \<Rightarrow> IpmbChannel \<Rightarrow> (IpmbChannel \<times> effect list) res" where
  "processI2cEvent commandFilter rd ch =
     (case rd of
        None \<Rightarrow> Inr (ch, [])
      | Some bytes \<Rightarrow>
          (let buffer = bytes @ replicate (ipmbMaxFrameLength - length bytes) 0;
               frame = tl buffer;
               r = int (length bytes) - 1
           in
           if r < int ipmbMinFrameLength \<or> r > int ipmbMaxFrameLength then Inr (ch, [])
           else if \<not> isFrameValid frame (of_int r) then Inr (ch, [])
           else
             let message = IpmbRequest_i2cToIpmbConstruct IpmbRequest_empty frame (nat r);
                 signal = (if channel_is_ipmb ch
                           then [Signal_receiveBroadcast (rq_netFn message) (rq_cmd message) (rq_data message)]
                           else [])
             in
             if ipmbIsResponse frame then
               rbind (IpmbResponse_i2cToIpmbConstruct IpmbResponse_empty frame (nat r))
                 (\<lambda>response. Inr (responseMatch response ch, signal))
             else if isBlocked commandFilter (ipmbNetFnGet (frame ! 1)) (frame ! 5) then
               Inr (ch, signal @ blockedReply ch frame)
             else
               Inr (ch, signal @ [Ipmi_execute (rq_netFn message) (rq_rsLun message) (rq_cmd message)
                      (rq_data message) (ipmbAddressTo7BitSet (rq_rqSA message)) (getDevIndex ch)])))"

text \<open>
  The callback of \<open>execute\<close>: \<open>reply\<close> is \<open>None\<close> for a D-Bus error; \<open>rqLun\<close>, \<open>seq\<close> and
  \<open>address\<close> were captured from the request. Unsupported commands enter the filter.
\<close>

definition executeCallback ::
  "byte \<Rightarrow> byte \<Rightarrow> byte \<Rightarrow> (byte \<times> byte \<times> byte \<times> byte \<times> byte list) option \<Rightarrow> IpmbChannel \<Rightarrow>
   (byte \<times> byte) set \<Rightarrow> (byte \<times> byte) set \<times> effect list" where
  "executeCallback rqLun seq address reply ch commandFilter =
     (case reply of
        None \<Rightarrow> (commandFilter, [])
      | Some (netfn, lun, cmd, cc, payload) \<Rightarrow>
          if length payload > ipmbMaxDataSize then
            (commandFilter,
             ipmbSend (IpmbResponse_new address netfn rqLun (ch_bmcSlaveAddress ch) seq ipmbRsLun cmd
               ipmbIpmiCmdRespNotProvided []))
          else if netfn AND ipmbNetFnResponseMask = 0 then (commandFilter, [])
          else
            (if cc = ipmbIpmiInvalidCmd
             then addFilter commandFilter (ipmbReqNetFnFromRespNetFn netfn) cmd else commandFilter,
             ipmbSend (IpmbResponse_new address netfn rqLun (ch_bmcSlaveAddress ch) seq lun cmd cc payload)))"

text \<open>
  \<open>ipmbSendI2cFrame\<close> retries a failed asynchronous write; the number of writes issued, given
  which of them fail.
\<close>

function ipmbSendI2cFrame :: "nat \<Rightarrow> (nat \<Rightarrow> bool) \<Rightarrow> nat" where
  "ipmbSendI2cFrame retriesAttempted fails =
     (if fails retriesAttempted
      then (if retriesAttempted > ipmbI2cNumberOfRetries then 1
            else 1 + ipmbSendI2cFrame (retriesAttempted + 1) fails)
      else 1)"
  by pat_completeness auto
termination
  by (relation "measure (\<lambda>(n, _). 3 - n)") (auto simp: ipmbI2cNumberOfRetries_def)

declare ipmbSendI2cFrame.simps [simp del]

section \<open>Sending a request\<close>

text \<open>The write loop of one try: stops at the first success, after two writes at the latest.\<close>

fun i2c_write_loop :: "nat \<Rightarrow> bool list \<Rightarrow> nat" where
  "i2c_write_loop 0 errs = 0"
| "i2c_write_loop (Suc n) (True # errs) = 1 + i2c_write_loop n errs"
| "i2c_write_loop (Suc n) errs = 1"

definition send_try :: "bool list \<Rightarrow> byte list \<Rightarrow> effect list" where
  "send_try errs buffer = replicate (i2c_write_loop ipmbI2cNumberOfRetries errs) (I2c_Write buffer)"

datatype wake = Timer_expired | Timer_cancelled | Timer_error

text \<open>
  \<open>requestAdd\<close> up to its first suspension. The result is \<open>None\<close> when the coroutine now waits
  for its timer. When the buffer cannot be built, the request has already been entered in the
  table and stays there.
\<close>

definition requestAdd ::
  "bool list \<Rightarrow> nat \<Rightarrow> IpmbChannel \<Rightarrow> IpmbChannel \<times> ipmb_result option \<times> effect list" where
  "requestAdd errs rid ch =
     (let ch1 = makeRequestValid rid ch in
      case IpmbRequest_ipmbToi2cConstruct (ch_requests ch1 rid) of
        None \<Rightarrow> (ch1, Some (returnStatus St_error), [])
      | Some buffer \<Rightarrow>
          (ch1\<lparr>ch_pending := (rid, 0, buffer) # ch_pending ch1\<rparr>, None, send_try errs buffer))"

definition drop_pending :: "nat \<Rightarrow> IpmbChannel \<Rightarrow> IpmbChannel" where
  "drop_pending rid ch = ch\<lparr>ch_pending := filter (\<lambda>p. fst p \<noteq> rid) (ch_pending ch)\<rparr>"

text \<open>
  The coroutine after its timer wait, in the \<open>i\<close>-th round of the loop over the tries. A
  matched request without a response would be a null dereference in \<open>returnMatchedResponse\<close>.
\<close>

definition requestAdd_resume ::
  "wake \<Rightarrow> bool list \<Rightarrow> nat \<Rightarrow> nat \<Rightarrow> byte list \<Rightarrow> IpmbChannel \<Rightarrow>
   (IpmbChannel \<times> ipmb_result option \<times> effect list) res" where
  "requestAdd_resume ec errs rid i buffer ch =
     (let ch1 = drop_pending rid ch; request = ch_requests ch rid in
      if ec = Timer_error then
        Inr (makeRequestInvalid rid ch1, Some (returnStatus St_error), [])
      else if rq_state request = Rq_matched then
        rbind (of_opt Null_Deref (rq_matchedResponse request))
          (\<lambda>response. Inr (makeRequestInvalid rid ch1, Some (returnMatchedResponse response), []))
      else if i + 1 < ipmbNumberOfTries then
        Inr (ch1\<lparr>ch_pending := (rid, i + 1, buffer) # ch_pending ch1\<rparr>, None, send_try errs buffer)
      else Inr (makeRequestInvalid rid ch1, Some (returnStatus St_timeout), []))"

text \<open>\<open>getChannel\<close>: the first channel in the list with the requested index.\<close>

fun getChannel :: "byte \<Rightarrow> IpmbChannel list \<Rightarrow> nat option" where
  "getChannel reqChannel [] = None"
| "getChannel reqChannel (ch # chs) =
     (if ch_channelIdx ch = reqChannel then Some 0 else map_option Suc (getChannel reqChannel chs))"

definition updateRqSlaveAddress :: "byte \<Rightarrow> IpmbChannel \<Rightarrow> IpmbChannel" where
  "updateRqSlaveAddress addr ch = ch\<lparr>ch_rqSlaveAddress := addr\<rparr>"

text \<open>\<open>std::make_shared<IpmbRequest>\<close>: a new object of the store.\<close>

definition new_request :: "IpmbRequest \<Rightarrow> IpmbChannel \<Rightarrow> IpmbChannel" where
  "new_request q ch = ch\<lparr>ch_requests := (ch_requests ch)(ch_next ch := q), ch_next := ch_next ch + 1\<rparr>"

text \<open>
  The D-Bus method \<open>sendRequest\<close>. The channel pointer is used before it is compared with
  \<open>nullptr\<close>; the request is allocated in the channel's store; the remote address of the channel
  is changed unless it is the bridge's own address 0x40.
\<close>

definition ipmbHandleRequest ::
  "bool list \<Rightarrow> byte \<Rightarrow> byte \<Rightarrow> byte \<Rightarrow> byte \<Rightarrow> byte \<Rightarrow> byte list \<Rightarrow> bridge \<Rightarrow>
   (bridge \<times> ipmb_result option \<times> effect list) res" where
  "ipmbHandleRequest errs reqChannel addr netfn lun cmd dataReceived br =
     (case getChannel reqChannel (br_channels br) of
        None \<Rightarrow> Inl Null_Deref
      | Some k \<Rightarrow>
          let ch = br_channels br ! k;
              ch1 = (if ch_rqSlaveAddress ch \<noteq> addr \<and> addr \<noteq> 0x40
                     then updateRqSlaveAddress addr ch else ch)
          in case seqNumGet ch1 (br_seqNum br) of
               (None, seqNum') \<Rightarrow>
                 Inr (br\<lparr>br_channels := (br_channels br)[k := ch1], br_seqNum := seqNum'\<rparr>,
                      Some (returnStatus St_busy), [])
             | (Some seq, seqNum') \<Rightarrow>
                 let rid = ch_next ch1;
                     request = IpmbRequest_new (ch_rqSlaveAddress ch1) netfn ipmbRsLun
                                 (ch_bmcSlaveAddress ch1) seq lun cmd dataReceived;
                     (ch3, result, effs) = requestAdd errs rid (new_request request ch1)
                 in Inr (br\<lparr>br_channels := (br_channels br)[k := ch3], br_seqNum := seqNum'\<rparr>,
                         result, effs))"

section \<open>Slave address changes, broadcasts, configuration\<close>

text \<open>
  Replacing the slave device: the outcomes of opening \<open>delete_device\<close>, \<open>new_device\<close> and the
  new device node. The descriptor is closed first, and the address changes only at the end.
\<close>

definition ipmbChannelUpdateSlaveAddress ::
  "byte \<Rightarrow> bool \<Rightarrow> bool \<Rightarrow> bool \<Rightarrow> IpmbChannel \<Rightarrow> IpmbChannel \<times> int" where
  "ipmbChannelUpdateSlaveAddress newBmcSlaveAddr deleteOk createOk openOk ch =
     (let ch1 = ch\<lparr>ch_fdOpen := False\<rparr> in
      if \<not> deleteOk then (ch1, -1)
      else if \<not> createOk then (ch1, -1)
      else if \<not> openOk then (ch1, -1)
      else (ch1\<lparr>ch_fdOpen := True, ch_bmcSlaveAddress := newBmcSlaveAddr\<rparr>, 0))"

definition updateSlaveAddrHandler ::
  "string \<Rightarrow> byte \<Rightarrow> byte \<Rightarrow> byte \<Rightarrow> bool \<times> bool \<times> bool \<Rightarrow> bridge \<Rightarrow> bridge" where
  "updateSlaveAddrHandler pathName reqChannel busId slaveAddr io br =
     (if pathName \<noteq> ''/xyz/openbmc_project/MultiNode/Status'' then br
      else case getChannel reqChannel (br_channels br) of
        None \<Rightarrow> br
      | Some k \<Rightarrow>
          let ch = br_channels br ! k in
          if \<not> channel_is_ipmb ch then br
          else if busId \<noteq> ch_busId ch then br
          else if ch_bmcSlaveAddress ch = slaveAddr then br
          else br\<lparr>br_channels := (br_channels br)[k :=
                 fst (ipmbChannelUpdateSlaveAddress slaveAddr (fst io) (fst (snd io)) (snd (snd io)) ch)]\<rparr>)"

definition sendBroadcastHandler ::
  "byte \<Rightarrow> byte \<Rightarrow> byte \<Rightarrow> byte \<Rightarrow> byte list \<Rightarrow> bridge \<Rightarrow> effect list" where
  "sendBroadcastHandler reqChannel netFn lun cmd dataReceived br =
     (case getChannel reqChannel (br_channels br) of
        None \<Rightarrow> []
      | Some k \<Rightarrow>
          (case IpmbRequest_ipmbToi2cConstruct
                  (IpmbRequest_new broadcastAddress netFn ipmbRsLun
                     (ch_bmcSlaveAddress (br_channels br ! k)) 0 lun cmd dataReceived) of
             None \<Rightarrow> []
           | Some buffer \<Rightarrow> [I2c_Write buffer]))"

text \<open>The constructor, and the table with all its pointers null.\<close>

definition IpmbChannel_new :: "byte \<Rightarrow> byte \<Rightarrow> byte \<Rightarrow> IpmbChannel" where
  "IpmbChannel_new bmcAddr reqAddr idx =
     \<lparr>ch_bmcSlaveAddress = bmcAddr, ch_rqSlaveAddress = reqAddr, ch_busId = 0, ch_channelIdx = idx,
      ch_fdOpen = False, ch_outstandingRequests = replicate ipmbMaxOutstandingRequestsCount None,
      ch_requests = (\<lambda>_. IpmbRequest_empty), ch_next = 0, ch_pending = []\<rparr>"

record channel_config =
  cfg_type :: string
  cfg_slavePath :: string
  cfg_bmcAddr :: byte
  cfg_reqAddr :: byte
  cfg_devIndex :: "byte option"

fun ipmbChannelTypeMap :: "string \<Rightarrow> byte option" where
  "ipmbChannelTypeMap t =
     (if t = ''me'' then Some 1 else if t = ''ipmb'' then Some 0 else None)"

text \<open>
  \<open>initializeChannels\<close> over the parsed configuration. \<open>channelInit\<close> stands for the file-system
  side of \<open>ipmbChannelInit\<close>: the bus id of an opened slave device, or \<open>None\<close>. An entry without
  \<open>devIndex\<close> inherits that of the entry before it; a failure leaves the channels made so far.
\<close>

fun initializeChannels ::
  "(string \<Rightarrow> byte option) \<Rightarrow> byte \<Rightarrow> channel_config list \<Rightarrow> IpmbChannel list \<Rightarrow> IpmbChannel list \<times> int" where
  "initializeChannels channelInit devIndex [] chs = (chs, 0)"
| "initializeChannels channelInit devIndex (c # cs) chs =
     (case ipmbChannelTypeMap (cfg_type c) of
        None \<Rightarrow> (chs, -1)
      | Some type \<Rightarrow>
          let devIndex' = (case cfg_devIndex c of Some d \<Rightarrow> d | None \<Rightarrow> devIndex);
              ch = IpmbChannel_new (cfg_bmcAddr c) (cfg_reqAddr c) (push_bit 2 devIndex' OR type)
          in case channelInit (cfg_slavePath c) of
               None \<Rightarrow> (chs @ [ch], -1)
             | Some busId \<Rightarrow>
                 initializeChannels channelInit devIndex' cs
                   (chs @ [ch\<lparr>ch_busId := busId, ch_fdOpen := True\<rparr>]))"

section \<open>Sequence numbers\<close>

lemma unat_next_seqNum: "unat ((c + 1) mod 64 :: byte) = (unat c + 1) mod 64"
  by (simp add: unat_mod_distrib unat_word_ariths mod_mod_cancel)

lemma seqNumGet_loop_found:
  "seqNumGet_loop n table c = (Some s, c') \<Longrightarrow> unat s < 64 \<and> table ! unat s = None \<and> c' = s"
  by (induction n table c rule: seqNumGet_loop.induct)
    (auto simp: Let_def unat_next_seqNum split: if_splits)

lemma seqNumGet_loop_none:
  "seqNumGet_loop n table c = (None, c') \<Longrightarrow> 1 \<le> j \<Longrightarrow> j \<le> n \<Longrightarrow>
   table ! ((unat c + j) mod 64) \<noteq> None"
proof (induction n table c arbitrary: j rule: seqNumGet_loop.induct)
  case (2 i table c)
  let ?c = "(c + 1) mod 64 :: byte"
  from "2.prems"(1) have first: "table ! ((unat c + 1) mod 64) \<noteq> None"
    and rest: "seqNumGet_loop i table ?c = (None, c')"
    by (auto simp: Let_def unat_next_seqNum split: if_splits)
  show ?case
  proof (cases "j = 1")
    case False
    then have "table ! ((unat ?c + (j - 1)) mod 64) \<noteq> None"
      using "2.IH" [OF refl _ rest, of "j - 1"] "2.prems" first
      by (simp add: unat_next_seqNum)
    moreover have "(unat ?c + (j - 1)) mod 64 = (unat c + j) mod 64"
      using "2.prems"(2) mod_add_left_eq [of "unat c + 1" 64 "j - 1"] by (simp add: unat_next_seqNum)
    ultimately show ?thesis by simp
  qed (use first in simp)
qed simp

lemma seqNumGet_found:
  assumes "seqNumGet ch c = (Some s, c')"
  shows "unat s < 64" "ch_outstandingRequests ch ! unat s = None" "c' = s"
  using seqNumGet_loop_found assms by (auto simp: seqNumGet_def)

lemma seqNumGet_full:
  assumes "seqNumGet ch c = (None, c')" "s < 64"
  shows "ch_outstandingRequests ch ! s \<noteq> None"
proof -
  define j where "j = (if unat c mod 64 < s then s - unat c mod 64 else s + 64 - unat c mod 64)"
  have "unat c mod 64 < 64" by simp
  then have j: "1 \<le> j" "j \<le> 64" and "(unat c mod 64 + j) mod 64 = s"
    using assms(2) by (auto simp: j_def)
  then have "(unat c + j) mod 64 = s"
    by (simp add: mod_simps)
  then show ?thesis
    using seqNumGet_loop_none [OF assms(1) [unfolded seqNumGet_def]] j
    by (force simp: ipmbMaxOutstandingRequestsCount_def)
qed

section \<open>The table, the store and the coroutines\<close>

definition request_live :: "IpmbRequest \<Rightarrow> bool" where
  "request_live q \<longleftrightarrow> rq_state q = Rq_valid \<or>
     rq_state q = Rq_matched \<and> (\<exists>p. rq_matchedResponse q = Some p \<and> response_matches q p)"

definition table_inv :: "IpmbChannel \<Rightarrow> bool" where
  "table_inv ch \<longleftrightarrow> length (ch_outstandingRequests ch) = 64 \<and>
     (\<forall>s < 64. \<forall>rid. ch_outstandingRequests ch ! s = Some rid \<longrightarrow>
        rid < ch_next ch \<and> unat (rq_seq (ch_requests ch rid)) = s \<and> request_live (ch_requests ch rid))"

definition pending_ok :: "IpmbChannel \<Rightarrow> nat \<times> nat \<times> byte list \<Rightarrow> bool" where
  "pending_ok ch = (\<lambda>(rid, i, buffer). i < ipmbNumberOfTries \<and>
     unat (rq_seq (ch_requests ch rid)) < 64 \<and>
     ch_outstandingRequests ch ! unat (rq_seq (ch_requests ch rid)) = Some rid)"

definition chan_inv :: "IpmbChannel \<Rightarrow> bool" where
  "chan_inv ch \<longleftrightarrow> table_inv ch \<and> distinct (map fst (ch_pending ch)) \<and>
     (\<forall>p \<in> set (ch_pending ch). pending_ok ch p)"

lemma chan_invD:
  assumes "chan_inv ch"
  shows "length (ch_outstandingRequests ch) = 64"
    and "s < 64 \<Longrightarrow> ch_outstandingRequests ch ! s = Some rid \<Longrightarrow> rid < ch_next ch"
    and "s < 64 \<Longrightarrow> ch_outstandingRequests ch ! s = Some rid \<Longrightarrow>
           unat (rq_seq (ch_requests ch rid)) = s"
    and "s < 64 \<Longrightarrow> ch_outstandingRequests ch ! s = Some rid \<Longrightarrow> request_live (ch_requests ch rid)"
    and "distinct (map fst (ch_pending ch))"
    and "p \<in> set (ch_pending ch) \<Longrightarrow> pending_ok ch p"
  using assms by (auto simp: chan_inv_def table_inv_def)

lemma chan_inv_new: "chan_inv (IpmbChannel_new a b c)"
  by (simp add: chan_inv_def table_inv_def IpmbChannel_new_def ipmbMaxOutstandingRequestsCount_def)

lemma chan_inv_cong:
  assumes "ch_outstandingRequests ch' = ch_outstandingRequests ch" "ch_requests ch' = ch_requests ch"
    "ch_next ch' = ch_next ch" "ch_pending ch' = ch_pending ch"
  shows "chan_inv ch' = chan_inv ch"
  by (simp add: chan_inv_def table_inv_def pending_ok_def assms)

lemma chan_inv_updateRqSlaveAddress [simp]:
  "chan_inv (updateRqSlaveAddress addr ch) = chan_inv ch"
  by (rule chan_inv_cong) (simp_all add: updateRqSlaveAddress_def)

lemma chan_inv_updateSlaveAddress:
  "chan_inv (fst (ipmbChannelUpdateSlaveAddress a d c p ch)) = chan_inv ch"
  by (rule chan_inv_cong) (simp_all add: ipmbChannelUpdateSlaveAddress_def Let_def)

lemma chan_inv_initializeChannels:
  "list_all chan_inv chs \<Longrightarrow> list_all chan_inv (fst (initializeChannels f d cs chs))"
proof (induction f d cs chs rule: initializeChannels.induct)
  case (2 f d c cs chs)
  have "chan_inv ((IpmbChannel_new a b x)\<lparr>ch_busId := y, ch_fdOpen := True\<rparr>)" for a b x y
    using chan_inv_new [of a b x]
    by (subst chan_inv_cong [of _ "IpmbChannel_new a b x"]) simp_all
  with 2 show ?case
    by (auto simp: Let_def chan_inv_new split: option.splits)
qed simp

lemma drop_pending_simps [simp]:
  "ch_outstandingRequests (drop_pending rid ch) = ch_outstandingRequests ch"
  "ch_requests (drop_pending rid ch) = ch_requests ch"
  "ch_next (drop_pending rid ch) = ch_next ch"
  "ch_pending (drop_pending rid ch) = filter (\<lambda>p. fst p \<noteq> rid) (ch_pending ch)"
  by (simp_all add: drop_pending_def)

lemma makeRequestInvalid_simps [simp]:
  "ch_outstandingRequests (makeRequestInvalid rid ch) =
     (ch_outstandingRequests ch)[unat (rq_seq (ch_requests ch rid)) := None]"
  "ch_requests (makeRequestInvalid rid ch) =
     (ch_requests ch)(rid := (ch_requests ch rid)\<lparr>rq_state := Rq_invalid\<rparr>)"
  "ch_next (makeRequestInvalid rid ch) = ch_next ch"
  "ch_pending (makeRequestInvalid rid ch) = ch_pending ch"
  by (simp_all add: makeRequestInvalid_def Let_def)

lemma makeRequestValid_simps [simp]:
  "ch_outstandingRequests (makeRequestValid rid ch) =
     (ch_outstandingRequests ch)[unat (rq_seq (ch_requests ch rid)) := Some rid]"
  "ch_requests (makeRequestValid rid ch) =
     (ch_requests ch)(rid := (ch_requests ch rid)\<lparr>rq_state := Rq_valid\<rparr>)"
  "ch_next (makeRequestValid rid ch) = ch_next ch"
  "ch_pending (makeRequestValid rid ch) = ch_pending ch"
  by (simp_all add: makeRequestValid_def Let_def)

text \<open>A live coroutine's request is the one in its slot, so slots identify coroutines.\<close>

lemma pending_slot_inj:
  assumes "chan_inv ch" "(rid, i, b) \<in> set (ch_pending ch)" "(rid', i', b') \<in> set (ch_pending ch)"
    "rq_seq (ch_requests ch rid) = rq_seq (ch_requests ch rid')"
  shows "rid = rid'"
  using chan_invD(6) [OF assms(1,2)] chan_invD(6) [OF assms(1,3)] assms(4)
  by (auto simp: pending_ok_def)

lemma table_invI:
  assumes "length (ch_outstandingRequests ch) = 64"
    and "\<And>s rid. s < 64 \<Longrightarrow> ch_outstandingRequests ch ! s = Some rid \<Longrightarrow>
           rid < ch_next ch \<and> unat (rq_seq (ch_requests ch rid)) = s \<and> request_live (ch_requests ch rid)"
  shows "table_inv ch"
  using assms by (simp add: table_inv_def)

lemma chan_invI:
  assumes "table_inv ch" "distinct (map fst (ch_pending ch))"
    and "\<And>rid i b. (rid, i, b) \<in> set (ch_pending ch) \<Longrightarrow> pending_ok ch (rid, i, b)"
  shows "chan_inv ch"
  using assms by (auto simp: chan_inv_def)

text \<open>A waiting coroutine occupies the slot of its sequence number.\<close>

lemma pending_slot:
  assumes "chan_inv ch" "(rid, i, b) \<in> set (ch_pending ch)"
  shows "unat (rq_seq (ch_requests ch rid)) < 64"
    and "ch_outstandingRequests ch ! unat (rq_seq (ch_requests ch rid)) = Some rid"
    and "i < ipmbNumberOfTries"
    and "request_live (ch_requests ch rid)"
  using chan_invD(6) [OF assms] chan_invD(4) [OF assms(1)] by (auto simp: pending_ok_def)

lemma pending_old: "chan_inv ch \<Longrightarrow> p \<in> set (ch_pending ch) \<Longrightarrow> fst p < ch_next ch"
  using pending_slot(1,2) chan_invD(2) by (cases p) fastforce

lemma slot_None_iff [simp]:
  "xs[k := None] ! s = Some x \<longleftrightarrow> s \<noteq> k \<and> xs ! s = Some x" if "s < length xs"
  using that by (cases "k = s") auto

lemma chan_inv_complete:
  assumes inv: "chan_inv ch" and p: "(rid, i, b) \<in> set (ch_pending ch)"
  shows "chan_inv (makeRequestInvalid rid (drop_pending rid ch))" (is "chan_inv ?ch'")
proof (rule chan_invI)
  have len: "length (ch_outstandingRequests ch) = 64" by (rule chan_invD(1) [OF inv])
  show "table_inv ?ch'"
  proof (rule table_invI)
    fix s r assume s: "s < 64" and "ch_outstandingRequests ?ch' ! s = Some r"
    then have ne: "s \<noteq> unat (rq_seq (ch_requests ch rid))" and r: "ch_outstandingRequests ch ! s = Some r"
      by (simp_all add: len)
    have "r \<noteq> rid" using chan_invD(3) [OF inv s r] ne by auto
    then show "r < ch_next ?ch' \<and> unat (rq_seq (ch_requests ?ch' r)) = s \<and> request_live (ch_requests ?ch' r)"
      using chan_invD(2-4) [OF inv s r] by simp
  qed (simp add: len)
next
  show "distinct (map fst (ch_pending ?ch'))"
    using chan_invD(5) [OF inv] by (simp add: distinct_map_filter)
next
  fix r j c assume "(r, j, c) \<in> set (ch_pending ?ch')"
  then have q: "(r, j, c) \<in> set (ch_pending ch)" and "r \<noteq> rid" by simp_all
  then have "rq_seq (ch_requests ch r) \<noteq> rq_seq (ch_requests ch rid)"
    using pending_slot_inj [OF inv q p] by auto
  then show "pending_ok ?ch' (r, j, c)"
    using pending_slot [OF inv q] \<open>r \<noteq> rid\<close> chan_invD(1) [OF inv]
    by (auto simp: pending_ok_def dest: unsigned_word_eqI)
qed

lemma chan_inv_store:
  assumes inv: "chan_inv ch" and "rq_seq q = rq_seq (ch_requests ch rid)" "request_live q"
  shows "chan_inv (ch\<lparr>ch_requests := (ch_requests ch)(rid := q)\<rparr>)" (is "chan_inv ?ch'")
proof (rule chan_invI)
  show "table_inv ?ch'"
    by (rule table_invI) (use chan_invD(1-4) [OF inv] assms(2,3) in auto)
  show "distinct (map fst (ch_pending ?ch'))"
    using chan_invD(5) [OF inv] by simp
  fix r j c assume "(r, j, c) \<in> set (ch_pending ?ch')"
  then have "(r, j, c) \<in> set (ch_pending ch)" by simp
  from pending_slot [OF inv this] show "pending_ok ?ch' (r, j, c)"
    using assms(2) by (auto simp: pending_ok_def)
qed

lemma chan_inv_responseMatch:
  assumes inv: "chan_inv ch"
  shows "chan_inv (responseMatch response ch)"
proof -
  have "request_live (q\<lparr>rq_state := Rq_matched, rq_matchedResponse := Some response\<rparr>)"
    if "response_matches q response" for q
    using that by (simp add: request_live_def response_matches_def)
  then show ?thesis
    using chan_inv_store [OF inv] inv
    by (simp add: responseMatch_def Let_def split: option.split)
qed

lemma new_request_simps [simp]:
  "ch_outstandingRequests (new_request q ch) = ch_outstandingRequests ch"
  "ch_requests (new_request q ch) = (ch_requests ch)(ch_next ch := q)"
  "ch_next (new_request q ch) = Suc (ch_next ch)"
  "ch_pending (new_request q ch) = ch_pending ch"
  by (simp_all add: new_request_def)

lemma chan_inv_makeRequestValid:
  assumes inv: "chan_inv ch" and free: "unat (rq_seq q) < 64" "ch_outstandingRequests ch ! unat (rq_seq q) = None"
  shows "chan_inv (makeRequestValid (ch_next ch) (new_request q ch))" (is "chan_inv ?ch'")
proof (rule chan_invI)
  have len: "length (ch_outstandingRequests ch) = 64" by (rule chan_invD(1) [OF inv])
  show "table_inv ?ch'"
  proof (rule table_invI)
    fix s r assume s: "s < 64" and r: "ch_outstandingRequests ?ch' ! s = Some r"
    show "r < ch_next ?ch' \<and> unat (rq_seq (ch_requests ?ch' r)) = s \<and> request_live (ch_requests ?ch' r)"
    proof (cases "s = unat (rq_seq q)")
      case True
      with r free len show ?thesis by (simp add: request_live_def)
    next
      case False
      with r have "ch_outstandingRequests ch ! s = Some r" by simp
      from chan_invD(2-4) [OF inv s this] show ?thesis by simp
    qed
  qed (simp add: len)
next
  show "distinct (map fst (ch_pending ?ch'))"
    using chan_invD(5) [OF inv] by simp
next
  fix r j c assume "(r, j, c) \<in> set (ch_pending ?ch')"
  then have q: "(r, j, c) \<in> set (ch_pending ch)" by simp
  have "r < ch_next ch" using chan_invD(2) [OF inv] pending_slot [OF inv q] by blast
  moreover have "unat (rq_seq (ch_requests ch r)) \<noteq> unat (rq_seq q)"
    using pending_slot(2) [OF inv q] free(2) by auto
  ultimately show "pending_ok ?ch' (r, j, c)"
    using pending_slot [OF inv q] by (simp add: pending_ok_def)
qed

text \<open>Suspending a coroutine whose request is in the table keeps the invariant.\<close>

lemma chan_inv_suspend:
  assumes inv: "chan_inv ch" and ok: "pending_ok ch (rid, i, b)"
  shows "chan_inv (ch\<lparr>ch_pending := (rid, i, b) # filter (\<lambda>p. fst p \<noteq> rid) (ch_pending ch)\<rparr>)"
    (is "chan_inv ?ch'")
proof (rule chan_invI)
  show "table_inv ?ch'"
    using inv by (simp add: chan_inv_def table_inv_def)
  show "distinct (map fst (ch_pending ?ch'))"
    using chan_invD(5) [OF inv] by (auto simp: distinct_map_filter)
  fix r j c assume "(r, j, c) \<in> set (ch_pending ?ch')"
  then show "pending_ok ?ch' (r, j, c)"
    using ok chan_invD(6) [OF inv] by (auto simp: pending_ok_def)
qed

lemma chan_inv_requestAdd:
  assumes inv: "chan_inv ch" and free: "unat (rq_seq q) < 64" "ch_outstandingRequests ch ! unat (rq_seq q) = None"
  shows "chan_inv (fst (requestAdd errs (ch_next ch) (new_request q ch)))"
proof -
  let ?rid = "ch_next ch"
  let ?ch1 = "makeRequestValid ?rid (new_request q ch)"
  have inv1: "chan_inv ?ch1" by (rule chan_inv_makeRequestValid [OF assms])
  have "fst p \<noteq> ?rid" if "p \<in> set (ch_pending ch)" for p
    using pending_old [OF inv that] by simp
  then have "filter (\<lambda>p. fst p \<noteq> ?rid) (ch_pending ?ch1) = ch_pending ?ch1"
    by (simp add: filter_id_conv)
  moreover have "pending_ok ?ch1 (?rid, 0, b)" for b
    using free chan_invD(1) [OF inv] by (simp add: pending_ok_def ipmbNumberOfTries_def)
  ultimately have "chan_inv (?ch1\<lparr>ch_pending := (?rid, 0, b) # ch_pending ?ch1\<rparr>)" for b
    using chan_inv_suspend [OF inv1, of ?rid 0 b] by simp
  with inv1 show ?thesis
    by (simp add: requestAdd_def Let_def split: option.split)
qed

end
