(* ===== verification/Ipmb_Bridge.thy ===== *)
theory Ipmb_Bridge
  imports Ipmb_Channel
begin

text \<open>
  The bridge daemon as a state machine. Its event loop runs one handler at a time to its next
  suspension point, so a step is one handler of \<open>Ipmb_Channel\<close>: a D-Bus \<open>sendRequest\<close>, a timer
  wake-up of a waiting coroutine, an I2C event on a channel, the reply to a forwarded command, or
  a change of a slave address. (The asynchronous writes of a try are part of the step that starts
  them: a response that arrives between a write and the timer wait has the same effect as one
  that arrives during the wait.)

  The theorems: the invariant of the reachable states, correlation of answers with requests,
  termination of a call, what the table does when it is full, slots that are lost for good, the
  faults of the two entry points, the command filter, and the addressing of configured channels.
\<close>

section \<open>Steps\<close>

definition bridge_init :: "bridge \<Rightarrow> bool" where
  "bridge_init br \<longleftrightarrow> (\<exists>f d cs. br_channels br = fst (initializeChannels f d cs []))"

inductive bridge_step :: "bridge \<Rightarrow> bridge \<Rightarrow> bool" where
  send: "ipmbHandleRequest errs reqChannel addr netfn lun cmd d br = Inr (br', result, effs) \<Longrightarrow>
     bridge_step br br'"
| wake_up: "k < length (br_channels br) \<Longrightarrow> (rid, i, buffer) \<in> set (ch_pending (br_channels br ! k)) \<Longrightarrow>
     requestAdd_resume ec errs rid i buffer (br_channels br ! k) = Inr (ch', result, effs) \<Longrightarrow>
     bridge_step br (br\<lparr>br_channels := (br_channels br)[k := ch']\<rparr>)"
| receive: "k < length (br_channels br) \<Longrightarrow>
     processI2cEvent (br_filter br) rd (br_channels br ! k) = Inr (ch', effs) \<Longrightarrow>
     bridge_step br (br\<lparr>br_channels := (br_channels br)[k := ch']\<rparr>)"
| reply: "k < length (br_channels br) \<Longrightarrow>
     executeCallback rqLun seq address rep (br_channels br ! k) (br_filter br) = (filter', effs) \<Longrightarrow>
     bridge_step br (br\<lparr>br_filter := filter'\<rparr>)"
| slave_address: "bridge_step br (updateSlaveAddrHandler path reqChannel busId slaveAddr io br)"

inductive_cases bridge_stepE: "bridge_step br br'"

definition bridge_inv :: "bridge \<Rightarrow> bool" where
  "bridge_inv br \<longleftrightarrow> list_all chan_inv (br_channels br)"

lemma bridge_inv_nth: "bridge_inv br \<Longrightarrow> k < length (br_channels br) \<Longrightarrow> chan_inv (br_channels br ! k)"
  by (simp add: bridge_inv_def list_all_length)

lemma bridge_inv_upd:
  "bridge_inv br \<Longrightarrow> chan_inv ch' \<Longrightarrow> bridge_inv (br\<lparr>br_channels := (br_channels br)[k := ch']\<rparr>)"
  by (cases "k < length (br_channels br)")
    (auto simp: bridge_inv_def list_all_length nth_list_update)

lemma bridge_inv_cong: "br_channels br' = br_channels br \<Longrightarrow> bridge_inv br' = bridge_inv br"
  by (simp add: bridge_inv_def)

lemma getChannel_Some:
  "getChannel c chs = Some k \<Longrightarrow> k < length chs \<and> ch_channelIdx (chs ! k) = c \<and>
     (\<forall>j < k. ch_channelIdx (chs ! j) \<noteq> c)"
proof (induction c chs arbitrary: k rule: getChannel.induct)
  case (2 c ch chs)
  show ?case
  proof (cases "ch_channelIdx ch = c")
    case False
    with 2 obtain k' where "getChannel c chs = Some k'" "k = Suc k'" by auto
    with "2.IH" [OF False, of k'] False show ?thesis
      by (auto simp: less_Suc_eq_0_disj)
  qed (use 2 in auto)
qed simp

lemma getChannel_None: "getChannel c chs = None \<longleftrightarrow> (\<forall>ch \<in> set chs. ch_channelIdx ch \<noteq> c)"
  by (induction c chs rule: getChannel.induct) auto

section \<open>The invariant\<close>

lemma chan_inv_resume:
  assumes inv: "chan_inv ch" and p: "(rid, i, b) \<in> set (ch_pending ch)"
    and run: "requestAdd_resume ec errs rid i b ch = Inr (ch', result, effs)"
  shows "chan_inv ch'"
proof -
  have done_inv: "chan_inv (makeRequestInvalid rid (drop_pending rid ch))"
    by (rule chan_inv_complete [OF inv p])
  have "chan_inv ((drop_pending rid ch)\<lparr>ch_pending := (rid, Suc i, b) # ch_pending (drop_pending rid ch)\<rparr>)"
    if "Suc i < ipmbNumberOfTries"
    using chan_inv_suspend [OF inv, of rid "Suc i" b] pending_slot [OF inv p] that
    by (simp add: pending_ok_def drop_pending_def)
  with done_inv show ?thesis
    using run by (auto simp: requestAdd_resume_def Let_def split: if_splits elim!: rbind_InrE)
qed

lemma chan_inv_receive:
  assumes inv: "chan_inv ch" and run: "processI2cEvent flt rd ch = Inr (ch', effs)"
  shows "chan_inv ch'"
  using run inv chan_inv_responseMatch [OF inv]
  by (auto simp: processI2cEvent_def Let_def split: option.splits if_splits elim!: rbind_InrE)

lemma ipmbHandleRequest_cases:
  assumes "ipmbHandleRequest errs reqChannel addr netfn lun cmd d br = Inr (br', result, effs)"
  obtains (busy) k ch1 c where "getChannel reqChannel (br_channels br) = Some k"
      "ch1 = br_channels br ! k \<or> ch1 = updateRqSlaveAddress addr (br_channels br ! k)"
      "seqNumGet ch1 (br_seqNum br) = (None, c)"
      "br' = br\<lparr>br_channels := (br_channels br)[k := ch1], br_seqNum := c\<rparr>"
      "result = Some (returnStatus St_busy)" "effs = []"
  | (added) k ch1 seq c q ch3 where "getChannel reqChannel (br_channels br) = Some k"
      "ch1 = br_channels br ! k \<or> ch1 = updateRqSlaveAddress addr (br_channels br ! k)"
      "seqNumGet ch1 (br_seqNum br) = (Some seq, c)"
      "q = IpmbRequest_new (ch_rqSlaveAddress ch1) netfn ipmbRsLun (ch_bmcSlaveAddress ch1) seq lun cmd d"
      "requestAdd errs (ch_next ch1) (new_request q ch1) = (ch3, result, effs)"
      "br' = br\<lparr>br_channels := (br_channels br)[k := ch3], br_seqNum := c\<rparr>"
proof -
  from assms obtain k where k: "getChannel reqChannel (br_channels br) = Some k"
    by (auto simp: ipmbHandleRequest_def split: option.splits)
  define ch1 where "ch1 = (if ch_rqSlaveAddress (br_channels br ! k) \<noteq> addr \<and> addr \<noteq> 0x40
     then updateRqSlaveAddress addr (br_channels br ! k) else br_channels br ! k)"
  have ch1: "ch1 = br_channels br ! k \<or> ch1 = updateRqSlaveAddress addr (br_channels br ! k)"
    by (simp add: ch1_def)
  obtain s c where s: "seqNumGet ch1 (br_seqNum br) = (s, c)" by (cases "seqNumGet ch1 (br_seqNum br)")
  note run = assms [unfolded ipmbHandleRequest_def k option.case Let_def, folded ch1_def, unfolded s]
  show thesis
  proof (cases s)
    case None
    then show thesis using run busy [OF k ch1] s by simp
  next
    case (Some seq)
    let ?q = "IpmbRequest_new (ch_rqSlaveAddress ch1) netfn ipmbRsLun (ch_bmcSlaveAddress ch1) seq lun cmd d"
    obtain ch3 r e where add: "requestAdd errs (ch_next ch1) (new_request ?q ch1) = (ch3, r, e)"
      by (cases "requestAdd errs (ch_next ch1) (new_request ?q ch1)")
    then show thesis using run added [OF k ch1 _ refl] s Some by simp
  qed
qed

lemma bridge_inv_send:
  assumes inv: "bridge_inv br"
    and run: "ipmbHandleRequest errs reqChannel addr netfn lun cmd d br = Inr (br', result, effs)"
  shows "bridge_inv br'"
  using run
proof (cases rule: ipmbHandleRequest_cases)
  case (busy k ch1 c)
  then have "chan_inv ch1"
    using bridge_inv_nth [OF inv] getChannel_Some by auto
  from bridge_inv_upd [OF inv this] show ?thesis
    by (simp add: busy bridge_inv_def)
next
  case (added k ch1 seq c q ch3)
  then have ch1: "chan_inv ch1"
    using bridge_inv_nth [OF inv] getChannel_Some by auto
  have "chan_inv (fst (requestAdd errs (ch_next ch1) (new_request q ch1)))"
    by (rule chan_inv_requestAdd [OF ch1])
      (use seqNumGet_found [OF added(3)] in \<open>simp_all add: added(4) IpmbRequest_new_def\<close>)
  then have "chan_inv ch3" by (simp add: added(5))
  from bridge_inv_upd [OF inv this] show ?thesis
    by (simp add: added bridge_inv_def)
qed

lemma bridge_inv_slaveAddr:
  assumes inv: "bridge_inv br"
  shows "bridge_inv (updateSlaveAddrHandler path reqChannel busId slaveAddr io br)"
proof (cases "getChannel reqChannel (br_channels br)")
  case (Some k)
  then have "chan_inv (br_channels br ! k)"
    using bridge_inv_nth [OF inv] getChannel_Some by blast
  then have "chan_inv (fst (ipmbChannelUpdateSlaveAddress slaveAddr d c p (br_channels br ! k)))" for d c p
    by (simp add: chan_inv_updateSlaveAddress)
  then show ?thesis
    using inv bridge_inv_upd [OF inv] by (simp add: updateSlaveAddrHandler_def Some Let_def)
qed (simp add: updateSlaveAddrHandler_def inv)

lemma bridge_inv_step:
  assumes inv: "bridge_inv br" and step: "bridge_step br br'"
  shows "bridge_inv br'"
  using step
proof cases
  case send
  with inv show ?thesis by (blast intro: bridge_inv_send)
next
  case (wake_up k rid i buffer ec errs ch' result effs)
  then show ?thesis
    using bridge_inv_upd [OF inv chan_inv_resume [OF bridge_inv_nth [OF inv]]] by blast
next
  case (receive k rd ch' effs)
  then show ?thesis
    using bridge_inv_upd [OF inv chan_inv_receive [OF bridge_inv_nth [OF inv]]] by blast
next
  case reply
  with inv show ?thesis by (simp add: bridge_inv_def)
next
  case slave_address
  with inv show ?thesis by (simp add: bridge_inv_slaveAddr)
qed

interpretation bridge_machine: invariant_system bridge_init bridge_step bridge_inv
proof
  show "bridge_inv br" if "bridge_init br" for br
    using that chan_inv_initializeChannels [of "[]"] by (auto simp: bridge_init_def bridge_inv_def)
qed (rule bridge_inv_step)

section \<open>Waiting coroutines\<close>

text \<open>
  A call from the point of view of its coroutine: before each timer event, any number of
  responses arrive on the channel.
\<close>

fun call_run ::
  "(IpmbResponse list \<times> wake \<times> bool list) list \<Rightarrow> nat \<Rightarrow> nat \<Rightarrow> byte list \<Rightarrow> IpmbChannel \<Rightarrow>
   (IpmbChannel \<times> ipmb_result option) res" where
  "call_run [] rid i b ch = Inr (ch, None)"
| "call_run ((ps, ec, errs) # evs) rid i b ch =
     rbind (requestAdd_resume ec errs rid i b (fold responseMatch ps ch))
       (\<lambda>(ch', result, effs). case result of
            Some r \<Rightarrow> Inr (ch', Some r)
          | None \<Rightarrow> call_run evs rid (Suc i) b ch')"

lemma responseMatch_simps [simp]:
  "ch_outstandingRequests (responseMatch p ch) = ch_outstandingRequests ch"
  "ch_next (responseMatch p ch) = ch_next ch"
  "ch_pending (responseMatch p ch) = ch_pending ch"
  "rq_seq (ch_requests (responseMatch p ch) rid) = rq_seq (ch_requests ch rid)"
  "rq_netFn (ch_requests (responseMatch p ch) rid) = rq_netFn (ch_requests ch rid)"
  "rq_rsLun (ch_requests (responseMatch p ch) rid) = rq_rsLun (ch_requests ch rid)"
  "rq_cmd (ch_requests (responseMatch p ch) rid) = rq_cmd (ch_requests ch rid)"
  by (simp_all add: responseMatch_def Let_def split: option.split)

lemma fold_responseMatch:
  "chan_inv ch \<Longrightarrow> chan_inv (fold responseMatch ps ch)"
  "ch_pending (fold responseMatch ps ch) = ch_pending ch"
  "ch_outstandingRequests (fold responseMatch ps ch) = ch_outstandingRequests ch"
  "rq_seq (ch_requests (fold responseMatch ps ch) rid) = rq_seq (ch_requests ch rid)"
  by (induction ps arbitrary: ch) (simp_all add: chan_inv_responseMatch)

lemma resume_outcome:
  assumes inv: "chan_inv ch" and p: "(rid, i, b) \<in> set (ch_pending ch)"
  shows "(\<exists>ch' effs. requestAdd_resume ec errs rid i b ch = Inr (ch', None, effs) \<and> Suc i < ipmbNumberOfTries \<and>
            ch_pending ch' = (rid, Suc i, b) # filter (\<lambda>q. fst q \<noteq> rid) (ch_pending ch) \<and>
            ch_outstandingRequests ch' = ch_outstandingRequests ch \<and> ch_requests ch' = ch_requests ch) \<or>
         (\<exists>r. requestAdd_resume ec errs rid i b ch
               = Inr (makeRequestInvalid rid (drop_pending rid ch), Some r, []) \<and>
            (r = returnStatus St_error \<or> r = returnStatus St_timeout \<or>
             (\<exists>m. rq_matchedResponse (ch_requests ch rid) = Some m \<and>
                  response_matches (ch_requests ch rid) m \<and> r = returnMatchedResponse m)))"
  using pending_slot(4) [OF inv p]
  by (auto simp: requestAdd_resume_def Let_def request_live_def simp del: split_paired_Ex)

lemma resume_keeps_pending:
  assumes "chan_inv ch" "(rid, i, b) \<in> set (ch_pending ch)"
    and "requestAdd_resume ec errs rid i b ch = Inr (ch', None, effs)"
  shows "(rid, Suc i, b) \<in> set (ch_pending ch')" "chan_inv ch'"
  using resume_outcome [OF assms(1,2), of ec errs] chan_inv_resume [OF assms] assms(3) by auto

text \<open>A slot is lost when no waiting coroutine will ever release it.\<close>

definition slot_lost :: "IpmbChannel \<Rightarrow> nat \<Rightarrow> bool" where
  "slot_lost ch s \<longleftrightarrow> (case ch_outstandingRequests ch ! s of
     None \<Rightarrow> False | Some rid \<Rightarrow> rid \<notin> fst ` set (ch_pending ch))"

lemma slot_lost_cong:
  "ch_outstandingRequests ch' = ch_outstandingRequests ch \<Longrightarrow> ch_pending ch' = ch_pending ch \<Longrightarrow>
   slot_lost ch' s = slot_lost ch s"
  by (simp add: slot_lost_def split: option.split)

lemma slot_lost_resume:
  assumes inv: "chan_inv ch" and p: "(rid, i, b) \<in> set (ch_pending ch)" and s: "s < 64" "slot_lost ch s"
    and run: "requestAdd_resume ec errs rid i b ch = Inr (ch', result, effs)"
  shows "slot_lost ch' s"
proof -
  obtain r where r: "ch_outstandingRequests ch ! s = Some r" "r \<notin> fst ` set (ch_pending ch)"
    using s by (auto simp: slot_lost_def split: option.splits)
  then have "r \<noteq> rid" using p by force
  then have ne: "s \<noteq> unat (rq_seq (ch_requests ch rid))"
    using pending_slot(2) [OF inv p] r(1) by auto
  show ?thesis
    using resume_outcome [OF inv p, of ec errs] run r \<open>r \<noteq> rid\<close> ne
    by (auto simp: slot_lost_def)
qed

lemma slot_lost_receive:
  assumes "slot_lost ch s" and "processI2cEvent flt rd ch = Inr (ch', effs)"
  shows "slot_lost ch' s"
proof -
  have "slot_lost (responseMatch p ch) s" for p
    using assms(1) slot_lost_cong [of "responseMatch p ch" ch s] by simp
  then show ?thesis
    using assms by (auto simp: processI2cEvent_def Let_def split: option.splits if_splits elim!: rbind_InrE)
qed

lemma slot_lost_requestAdd:
  assumes inv: "chan_inv ch" and free: "unat (rq_seq q) < 64" "ch_outstandingRequests ch ! unat (rq_seq q) = None"
    and s: "s < 64" "slot_lost ch s"
    and run: "requestAdd errs (ch_next ch) (new_request q ch) = (ch', result, effs)"
  shows "slot_lost ch' s"
proof -
  obtain r where r: "ch_outstandingRequests ch ! s = Some r" "r \<notin> fst ` set (ch_pending ch)"
    using s by (auto simp: slot_lost_def split: option.splits)
  have "r \<noteq> ch_next ch" using chan_invD(2) [OF inv s(1) r(1)] by simp
  moreover have "s \<noteq> unat (rq_seq q)" using free r by auto
  ultimately show ?thesis
    using run r by (force simp: requestAdd_def slot_lost_def Let_def split: option.splits)
qed

lemma updateRqSlaveAddress_table [simp]:
  "ch_outstandingRequests (updateRqSlaveAddress a ch) = ch_outstandingRequests ch"
  by (simp add: updateRqSlaveAddress_def)

lemma slot_lost_updateRq [simp]: "slot_lost (updateRqSlaveAddress a ch) s = slot_lost ch s"
  by (rule slot_lost_cong) (simp_all add: updateRqSlaveAddress_def)

lemma slot_lost_slaveAddr [simp]:
  "slot_lost (fst (ipmbChannelUpdateSlaveAddress a d c p ch)) s = slot_lost ch s"
  by (rule slot_lost_cong) (simp_all add: ipmbChannelUpdateSlaveAddress_def Let_def)

lemma slot_lost_send:
  assumes inv: "bridge_inv br" and s: "s < 64" "slot_lost (br_channels br ! k) s"
    and run: "ipmbHandleRequest errs reqChannel addr netfn lun cmd d br = Inr (br', result, effs)"
  shows "slot_lost (br_channels br' ! k) s"
  using run
proof (cases rule: ipmbHandleRequest_cases)
  case (busy j ch1 c)
  then show ?thesis
    using s by (cases "j = k") (auto dest!: getChannel_Some)
next
  case (added j ch1 seq c q ch3)
  note j = conjunct1 [OF getChannel_Some [OF added(1)]]
  have "chan_inv ch1" using added(2) bridge_inv_nth [OF inv j] by auto
  moreover have "slot_lost ch1 s" if "j = k" using added(2) s(2) that by auto
  ultimately show ?thesis
    using slot_lost_requestAdd [OF _ _ _ s(1) _ added(5)] seqNumGet_found [OF added(3)] j s(2)
    by (cases "j = k") (simp_all add: added(4,6) IpmbRequest_new_def)
qed

lemma slot_lost_step:
  assumes inv: "bridge_inv br" and s: "s < 64" "slot_lost (br_channels br ! k) s" and step: "bridge_step br br'"
  shows "slot_lost (br_channels br' ! k) s"
  using step
proof (rule bridge_stepE)
  fix j rid i b ec errs ch' result effs
  assume *: "br' = br\<lparr>br_channels := (br_channels br)[j := ch']\<rparr>" "j < length (br_channels br)"
    "(rid, i, b) \<in> set (ch_pending (br_channels br ! j))"
    "requestAdd_resume ec errs rid i b (br_channels br ! j) = Inr (ch', result, effs)"
  then show ?thesis
    using slot_lost_resume [OF bridge_inv_nth [OF inv *(2)] *(3) s(1) _ *(4)] s(2)
    by (cases "j = k") simp_all
next
  fix j rd ch' effs
  assume *: "br' = br\<lparr>br_channels := (br_channels br)[j := ch']\<rparr>" "j < length (br_channels br)"
    "processI2cEvent (br_filter br) rd (br_channels br ! j) = Inr (ch', effs)"
  then show ?thesis
    using slot_lost_receive s(2) by (cases "j = k") auto
next
  fix path reqChannel busId slaveAddr io
  assume "br' = updateSlaveAddrHandler path reqChannel busId slaveAddr io br"
  then show ?thesis
    using s(2)
    by (auto simp: updateSlaveAddrHandler_def Let_def nth_list_update split: option.split)
      (metis list_update_beyond nth_list_update not_le slot_lost_slaveAddr)
qed (use slot_lost_send [OF inv s] s(2) in auto)

lemma slot_lost_steps:
  assumes "bridge_step\<^sup>*\<^sup>* br br'" "bridge_inv br" "s < 64" "slot_lost (br_channels br ! k) s"
  shows "slot_lost (br_channels br' ! k) s"
  using assms
proof (induction rule: rtranclp_induct)
  case (step br' br'')
  then show ?case
    using slot_lost_step [OF bridge_machine.inv_steps] by blast
qed

section \<open>Properties of the bridge\<close>

text \<open>The shipped configuration: two channels of type \<open>ipmb\<close>, device indices 0 and 1.\<close>

definition ipmb_channels_json :: "channel_config list" where
  "ipmb_channels_json =
     [\<lparr>cfg_type = ''ipmb'', cfg_slavePath = ''/dev/ipmb-0'', cfg_bmcAddr = 64, cfg_reqAddr = 142, cfg_devIndex = Some 0\<rparr>,
      \<lparr>cfg_type = ''ipmb'', cfg_slavePath = ''/dev/ipmb-1'', cfg_bmcAddr = 64, cfg_reqAddr = 142, cfg_devIndex = Some 1\<rparr>]"

definition shipped_bridge :: bridge where
  "shipped_bridge =
     \<lparr>br_channels = fst (initializeChannels (\<lambda>path. Some (if path = ''/dev/ipmb-0'' then 0 else 1)) 0 ipmb_channels_json []),
      br_filter = {}, br_seqNum = 0\<rparr>"

lemma shipped_init: "bridge_init shipped_bridge"
  unfolding bridge_init_def shipped_bridge_def by auto

lemma shipped_channels:
  "br_channels shipped_bridge =
     [(IpmbChannel_new 64 142 0)\<lparr>ch_busId := 0, ch_fdOpen := True\<rparr>,
      (IpmbChannel_new 64 142 4)\<lparr>ch_busId := 1, ch_fdOpen := True\<rparr>]"
  by (simp add: shipped_bridge_def ipmb_channels_json_def Let_def)

text \<open>A \<open>Get Device ID\<close> to 0x82 on the first shipped channel.\<close>

definition example_query :: IpmbRequest where
  "example_query = IpmbRequest_new 0x82 6 0 64 1 0 1 []"

definition example_wire :: "byte list" where
  "example_wire = the (IpmbRequest_ipmbToi2cConstruct example_query)"

definition example_waiting :: IpmbChannel where
  "example_waiting =
     (let ch = updateRqSlaveAddress 0x82 (br_channels shipped_bridge ! 0) in
      fst (requestAdd [] (ch_next ch) (new_request example_query ch)))"

definition example_sent :: bridge where
  "example_sent = shipped_bridge\<lparr>br_channels := (br_channels shipped_bridge)[0 := example_waiting], br_seqNum := 1\<rparr>"

lemma example_construct: "IpmbRequest_ipmbToi2cConstruct (example_query\<lparr>rq_state := st\<rparr>) = Some example_wire"
  by (simp add: example_wire_def IpmbRequest_ipmbToi2cConstruct_def ipmb_lengths example_query_def
      IpmbRequest_new_def Let_def)

lemma seqNumGet_next:
  assumes "ch_outstandingRequests ch ! ((unat c + 1) mod 64) = None"
  shows "seqNumGet ch c = (Some ((c + 1) mod 64), (c + 1) mod 64)"
proof -
  have "seqNumGet_loop (Suc n) (ch_outstandingRequests ch) c = (Some ((c + 1) mod 64), (c + 1) mod 64)" for n
    using assms by (simp add: Let_def unat_next_seqNum)
  from this [of 63] show ?thesis
    by (simp add: seqNumGet_def ipmbMaxOutstandingRequestsCount_def del: seqNumGet_loop.simps)
qed

lemma IpmbChannel_new_simps [simp]:
  "ch_outstandingRequests (IpmbChannel_new a b c) = replicate 64 None"
  "ch_channelIdx (IpmbChannel_new a b c) = c"
  "ch_bmcSlaveAddress (IpmbChannel_new a b c) = a"
  "ch_rqSlaveAddress (IpmbChannel_new a b c) = b"
  "ch_next (IpmbChannel_new a b c) = 0"
  "ch_pending (IpmbChannel_new a b c) = []"
  by (simp_all add: IpmbChannel_new_def ipmbMaxOutstandingRequestsCount_def)

lemma shipped_seqNum [simp]: "br_seqNum shipped_bridge = 0"
  by (simp add: shipped_bridge_def)

lemma example_send:
  "ipmbHandleRequest [] 0 0x82 6 0 1 [] shipped_bridge = Inr (example_sent, None, [I2c_Write example_wire])"
proof -
  have "i2c_write_loop 2 [] = 1" by (simp add: numeral_eq_Suc)
  then show ?thesis
    using example_construct [of Rq_valid]
    by (simp add: ipmbHandleRequest_def shipped_channels example_sent_def example_waiting_def
        updateRqSlaveAddress_def Let_def requestAdd_def send_try_def ipmbI2cNumberOfRetries_def
        seqNumGet_next example_query_def ipmbRsLun_def)
qed

lemma example_steps: "bridge_step\<^sup>*\<^sup>* shipped_bridge example_sent"
  using bridge_step.send [OF example_send] by blast

lemma example_pending: "ch_pending (br_channels example_sent ! 0) = [(0, 0, example_wire)]"
  using example_construct [of Rq_valid]
  by (simp add: example_sent_def example_waiting_def shipped_channels requestAdd_def Let_def
      updateRqSlaveAddress_def)

lemma example_length: "length (br_channels example_sent) = 2"
  by (simp add: example_sent_def shipped_channels)

lemma example_inv: "chan_inv (br_channels example_sent ! 0)"
  using bridge_machine.inv_reachable [OF shipped_init example_steps] example_length
  by (simp add: bridge_inv_nth)

lemma example_request_sent:
  "ch_requests (br_channels example_sent ! 0) 0 = example_query\<lparr>rq_state := Rq_valid\<rparr>"
  using example_construct [of Rq_valid]
  by (simp add: example_sent_def example_waiting_def shipped_channels requestAdd_def Let_def
      updateRqSlaveAddress_def)

lemmas example_run = shipped_init example_steps example_length example_pending example_request_sent

text \<open>
  C16. In every reachable state of the bridge, whatever the order of sends, timer events, I2C
  events, replies and address changes, each waiting call holds the slot of its own sequence
  number in its channel's table, has made fewer than six tries, and no two waiting calls of a
  channel have the same sequence number.
\<close>

theorem reachable_calls_own_slots:
  assumes "bridge_init br0" "bridge_step\<^sup>*\<^sup>* br0 br" "k < length (br_channels br)"
    and "(rid, i, b) \<in> set (ch_pending (br_channels br ! k))"
  shows "i < ipmbNumberOfTries \<and>
    unat (rq_seq (ch_requests (br_channels br ! k) rid)) < 64 \<and>
    ch_outstandingRequests (br_channels br ! k) ! unat (rq_seq (ch_requests (br_channels br ! k) rid)) = Some rid \<and>
    distinct (map (\<lambda>p. rq_seq (ch_requests (br_channels br ! k) (fst p))) (ch_pending (br_channels br ! k)))"
proof -
  have inv: "chan_inv (br_channels br ! k)"
    using bridge_machine.inv_reachable [OF assms(1,2)] assms(3) by (rule bridge_inv_nth)
  have "inj_on (\<lambda>r. rq_seq (ch_requests (br_channels br ! k) r)) (fst ` set (ch_pending (br_channels br ! k)))"
    using pending_slot_inj [OF inv] by (auto simp: inj_on_def)
  then have "distinct (map (\<lambda>p. rq_seq (ch_requests (br_channels br ! k) (fst p))) (ch_pending (br_channels br ! k)))"
    using chan_invD(5) [OF inv] by (auto simp: distinct_map inj_on_def)
  with pending_slot [OF inv assms(4)] show ?thesis by blast
qed

theorem reachable_calls_own_slots_witness:
  "ch_pending (br_channels example_sent ! 0) = [(0, 0, example_wire)] \<and>
   ch_outstandingRequests (br_channels example_sent ! 0) ! 1 = Some 0"
  using reachable_calls_own_slots [of shipped_bridge example_sent 0 0 0 example_wire] example_run
  by (simp add: example_query_def IpmbRequest_new_def)

text \<open>
  C1. A timer event of a waiting call in a reachable state never dereferences a missing response.
  It either starts the next try, or the call returns, its slot is free again and it no longer
  waits; and a result with status 0 carries the response network function, LUN and command of
  the call's own request.
\<close>

theorem answers_match_their_requests:
  assumes "bridge_init br0" "bridge_step\<^sup>*\<^sup>* br0 br" "k < length (br_channels br)"
    and "(rid, i, b) \<in> set (ch_pending (br_channels br ! k))"
  defines "ch \<equiv> br_channels br ! k"
  defines "q \<equiv> ch_requests ch rid"
  shows "\<exists>ch' result effs. requestAdd_resume ec errs rid i b ch = Inr (ch', result, effs) \<and>
    (case result of
       None \<Rightarrow> (rid, Suc i, b) \<in> set (ch_pending ch') \<and> Suc i < ipmbNumberOfTries
     | Some (status, netFn, lun, cmd, cc, d) \<Rightarrow>
         ch_outstandingRequests ch' ! unat (rq_seq q) = None \<and> rid \<notin> fst ` set (ch_pending ch') \<and>
         (status = status_code St_success \<longrightarrow>
            netFn = ipmbRespNetFn (rq_netFn q) \<and> lun = rq_rsLun q \<and> cmd = rq_cmd q))"
proof -
  have inv: "chan_inv ch" and p: "(rid, i, b) \<in> set (ch_pending ch)"
    using bridge_inv_nth [OF bridge_machine.inv_reachable [OF assms(1,2)] assms(3)] assms(4)
    by (simp_all add: ch_def)
  have slot: "unat (rq_seq q) < length (ch_outstandingRequests ch)"
    using pending_slot(1) [OF inv p] chan_invD(1) [OF inv] by (simp add: q_def)
  show ?thesis
    using resume_outcome [OF inv p, of ec errs] slot
    by (auto simp: returnStatus_def returnMatchedResponse_def response_matches_def q_def
        simp del: split_paired_Ex)
qed

theorem answers_match_their_requests_witness:
  "\<exists>ch' result effs. requestAdd_resume Timer_cancelled [] 0 0 example_wire (br_channels example_sent ! 0)
      = Inr (ch', result, effs) \<and>
    (case result of
       None \<Rightarrow> (0, Suc 0, example_wire) \<in> set (ch_pending ch') \<and> Suc 0 < ipmbNumberOfTries
     | Some (status, netFn, lun, cmd, cc, d) \<Rightarrow>
         ch_outstandingRequests ch' ! 1 = None \<and> 0 \<notin> fst ` set (ch_pending ch') \<and>
         (status = status_code St_success \<longrightarrow> netFn = 7 \<and> lun = 0 \<and> cmd = 1))"
proof -
  have q: "unat (rq_seq (ch_requests (br_channels example_sent ! 0) 0)) = 1"
    "ipmbRespNetFn (rq_netFn (ch_requests (br_channels example_sent ! 0) 0)) = 7"
    "rq_rsLun (ch_requests (br_channels example_sent ! 0) 0) = 0"
    "rq_cmd (ch_requests (br_channels example_sent ! 0) 0) = 1"
    by (simp_all add: example_request_sent example_query_def IpmbRequest_new_def ipmbRespNetFn_def)
  show ?thesis
    using answers_match_their_requests [of shipped_bridge example_sent 0 0 0 example_wire Timer_cancelled "[]"] example_run(1-4)
    unfolding q by simp
qed

lemma call_run_returns:
  assumes "chan_inv ch" "(rid, i, b) \<in> set (ch_pending ch)" "ipmbNumberOfTries \<le> i + length evs"
  shows "\<exists>ch' r. call_run evs rid i b ch = Inr (ch', Some r) \<and> chan_inv ch' \<and>
     ch_outstandingRequests ch' ! unat (rq_seq (ch_requests ch rid)) = None \<and> rid \<notin> fst ` set (ch_pending ch')"
  using assms
proof (induction evs arbitrary: i ch)
  case Nil
  then show ?case using pending_slot(3) [OF Nil(1,2)] by simp
next
  case (Cons ev evs)
  obtain ps ec errs where ev: "ev = (ps, ec, errs)" by (cases ev)
  let ?ch = "fold responseMatch ps ch"
  have inv: "chan_inv ?ch" and p: "(rid, i, b) \<in> set (ch_pending ?ch)"
    using Cons.prems(1,2) by (simp_all add: fold_responseMatch)
  have slot: "unat (rq_seq (ch_requests ch rid)) < 64"
    using pending_slot(1) [OF Cons.prems(1,2)] .
  from resume_outcome [OF inv p, of ec errs] consider
      (again) ch' effs where "requestAdd_resume ec errs rid i b ?ch = Inr (ch', None, effs)"
        "ch_requests ch' = ch_requests ?ch"
    | (return) r where "requestAdd_resume ec errs rid i b ?ch
        = Inr (makeRequestInvalid rid (drop_pending rid ?ch), Some r, [])"
    by blast
  then show ?case
  proof cases
    case * : again
    have "\<exists>ch'' r. call_run evs rid (Suc i) b ch' = Inr (ch'', Some r) \<and> chan_inv ch'' \<and>
       ch_outstandingRequests ch'' ! unat (rq_seq (ch_requests ch' rid)) = None \<and> rid \<notin> fst ` set (ch_pending ch'')"
      by (rule Cons.IH) (use resume_keeps_pending [OF inv p *(1)] Cons.prems(3) in simp_all)
    then show ?thesis by (simp add: ev *(1,2) fold_responseMatch)
  next
    case return
    then show ?thesis
      using chan_inv_complete [OF inv p] chan_invD(1) [OF inv] slot
      by (auto simp: ev fold_responseMatch simp del: split_paired_Ex)
  qed
qed

text \<open>
  C20. A call returns: after its sixth timer event at the latest, however many responses arrive in
  between and whatever the outcomes of timer and writes, \<open>requestAdd\<close> has produced a result, the
  request's slot is free and the channel is in a consistent state.
\<close>

theorem call_returns:
  assumes "bridge_init br0" "bridge_step\<^sup>*\<^sup>* br0 br" "k < length (br_channels br)"
    and "(rid, i, b) \<in> set (ch_pending (br_channels br ! k))" and "ipmbNumberOfTries \<le> i + length evs"
  shows "\<exists>ch' r. call_run evs rid i b (br_channels br ! k) = Inr (ch', Some r) \<and> chan_inv ch' \<and>
     ch_outstandingRequests ch' ! unat (rq_seq (ch_requests (br_channels br ! k) rid)) = None \<and>
     rid \<notin> fst ` set (ch_pending ch')"
  using bridge_inv_nth [OF bridge_machine.inv_reachable [OF assms(1,2)] assms(3)] assms(4,5)
  by (rule call_run_returns)

theorem call_returns_witness:
  "\<exists>ch' r. call_run (replicate 6 ([], Timer_expired, [True, True])) 0 0 example_wire (br_channels example_sent ! 0)
      = Inr (ch', Some r) \<and> ch_outstandingRequests ch' ! 1 = None"
  using call_returns [of shipped_bridge example_sent 0 0 0 example_wire
      "replicate 6 ([], Timer_expired, [True, True])"] example_run
  by (auto simp: ipmbNumberOfTries_def example_query_def IpmbRequest_new_def simp del: split_paired_Ex)

lemma silent_run:
  assumes "rq_state (ch_requests ch rid) = Rq_valid" "i < ipmbNumberOfTries"
    and "i + length errss \<le> ipmbNumberOfTries"
  shows "map_sum id snd (call_run (map (\<lambda>errs. ([], Timer_expired, errs)) errss) rid i b ch) =
     Inr (if i + length errss = ipmbNumberOfTries then Some (returnStatus St_timeout) else None)"
  using assms
proof (induction errss arbitrary: i ch)
  case (Cons errs errss)
  let ?ch = "(drop_pending rid ch)\<lparr>ch_pending := (rid, Suc i, b) # ch_pending (drop_pending rid ch)\<rparr>"
  show ?case
  proof (cases "Suc i < ipmbNumberOfTries")
    case True
    then show ?thesis
      using Cons.IH [of ?ch "Suc i"] Cons.prems by (simp add: requestAdd_resume_def Let_def)
  next
    case False
    then show ?thesis
      using Cons.prems by (simp add: requestAdd_resume_def Let_def)
  qed
qed simp

text \<open>
  What it returns: a call that no response matches gets the timeout status after exactly six
  timer events and not before; a call that a response matched gets that response at its next
  timer event.
\<close>

theorem call_result:
  assumes "rq_state (ch_requests ch rid) = Rq_valid" "length errss \<le> ipmbNumberOfTries"
    and "ch_outstandingRequests ch ! unat (rs_seq p) = Some rid" "response_matches (ch_requests ch rid) p"
  shows "map_sum id snd (call_run (map (\<lambda>errs. ([], Timer_expired, errs)) errss) rid 0 b ch) =
       Inr (if length errss = ipmbNumberOfTries then Some (returnStatus St_timeout) else None) \<and>
     map_sum id snd (call_run (([p], Timer_cancelled, errs) # evs) rid i b ch) =
       Inr (Some (status_code St_success, rs_netFn p, rs_rsLun p, rs_cmd p, rs_completionCode p, rs_data p))"
  using silent_run [OF assms(1), of 0 errss b] assms
  by (simp add: ipmbNumberOfTries_def responseMatch_def requestAdd_resume_def Let_def returnMatchedResponse_def)

text \<open>
  Sequence numbers: \<open>seqNumGet\<close> fails only when all 64 slots of the channel are taken, and
  otherwise returns a free one, which is also the new value of the shared counter.
\<close>

theorem seqNumGet_complete:
  "case seqNumGet ch seqNum of
     (Some s, seqNum') \<Rightarrow> unat s < 64 \<and> ch_outstandingRequests ch ! unat s = None \<and> seqNum' = s
   | (None, seqNum') \<Rightarrow> (\<forall>s < 64. ch_outstandingRequests ch ! s \<noteq> None)"
  using seqNumGet_found [of ch seqNum] seqNumGet_full [of ch seqNum]
  by (cases "seqNumGet ch seqNum") (auto split: option.split)

text \<open>
  A request whose data do not fit a frame is answered with an error status, but the slot it
  was entered in is never released: in every later state of the bridge it is still occupied, with
  no call waiting that could free it. After 64 such requests the channel answers 'busy' for ever.
\<close>

theorem oversized_request_loses_slot:
  assumes "bridge_init br0" "bridge_step\<^sup>*\<^sup>* br0 br" and size: "257 < length d"
    and send: "ipmbHandleRequest errs reqChannel addr netfn lun cmd d br = Inr (br1, result, effs)"
    and "result \<noteq> Some (returnStatus St_busy)"
  shows "result = Some (returnStatus St_error) \<and> effs = [] \<and>
    (\<exists>k s. getChannel reqChannel (br_channels br) = Some k \<and> unat s < 64 \<and>
       ch_outstandingRequests (br_channels br ! k) ! unat s = None \<and> br_seqNum br1 = s \<and>
       (\<forall>br2. bridge_step\<^sup>*\<^sup>* br1 br2 \<longrightarrow> slot_lost (br_channels br2 ! k) (unat s)))"
  using send
proof (cases rule: ipmbHandleRequest_cases)
  case (added k ch1 seq c q ch3)
  have inv: "bridge_inv br" and inv1: "bridge_inv br1"
    using bridge_machine.inv_reachable [OF assms(1,2)] bridge_inv_send [OF _ send] by blast+
  note k = conjunct1 [OF getChannel_Some [OF added(1)]]
  have ch1: "chan_inv ch1" "ch_outstandingRequests ch1 = ch_outstandingRequests (br_channels br ! k)"
    using added(2) bridge_inv_nth [OF inv k] by auto
  have "IpmbRequest_ipmbToi2cConstruct (q\<lparr>rq_state := Rq_valid\<rparr>) = None"
    using size by (simp add: IpmbRequest_ipmbToi2cConstruct_def ipmb_lengths added(4) IpmbRequest_new_def)
  then have ch3: "ch3 = makeRequestValid (ch_next ch1) (new_request q ch1)"
    and res: "result = Some (returnStatus St_error)" "effs = []"
    using added(5) by (auto simp: requestAdd_def Let_def)
  have "ch_next ch1 \<notin> fst ` set (ch_pending ch1)"
    using pending_old [OF ch1(1)] by fastforce
  then have "slot_lost ch3 (unat seq)"
    using seqNumGet_found [OF added(3)] chan_invD(1) [OF ch1(1)]
    by (simp add: slot_lost_def ch3 added(4) IpmbRequest_new_def)
  then have "slot_lost (br_channels br1 ! k) (unat seq)" using k by (simp add: added(6))
  with slot_lost_steps [OF _ inv1 seqNumGet_found(1) [OF added(3)]] show ?thesis
    using res added(1,6) seqNumGet_found [OF added(3)] ch1(2) by auto
qed (use assms(5) in simp)

theorem oversized_request_loses_slot_witness:
  "\<exists>br1 effs. ipmbHandleRequest [] 0 0x82 6 0 1 (replicate 258 0) shipped_bridge
      = Inr (br1, Some (returnStatus St_error), effs) \<and>
    (\<forall>br2. bridge_step\<^sup>*\<^sup>* br1 br2 \<longrightarrow> slot_lost (br_channels br2 ! 0) 1)"
proof -
  have chan: "getChannel 0 (br_channels shipped_bridge) = Some 0"
    by (simp add: shipped_channels)
  obtain br1 result effs where send: "ipmbHandleRequest [] 0 0x82 6 0 1 (replicate 258 0) shipped_bridge
      = Inr (br1, result, effs)" and "result \<noteq> Some (returnStatus St_busy)" "br_seqNum br1 = 1"
    by (simp add: ipmbHandleRequest_def shipped_channels updateRqSlaveAddress_def Let_def requestAdd_def
        seqNumGet_next IpmbRequest_ipmbToi2cConstruct_def ipmb_lengths IpmbRequest_new_def returnStatus_def)
  with oversized_request_loses_slot [OF shipped_init rtranclp.rtrancl_refl _ send] chan show ?thesis
    by auto
qed

text \<open>
  The D-Bus method \<open>sendRequest\<close> leaves defined behaviour exactly for the channel numbers that
  no configured channel has: the null pointer is used before the test that would have answered
  with an error.
\<close>

theorem send_fault_iff:
  "ipmbHandleRequest errs reqChannel addr netfn lun cmd d br = Inl e \<longleftrightarrow>
     e = Null_Deref \<and> reqChannel \<notin> ch_channelIdx ` set (br_channels br)"
proof (cases "getChannel reqChannel (br_channels br)")
  case None
  then show ?thesis
    using getChannel_None [of reqChannel "br_channels br"] by (auto simp: ipmbHandleRequest_def)
next
  case (Some k)
  then have "reqChannel \<in> ch_channelIdx ` set (br_channels br)"
    using getChannel_Some [OF Some] by (auto simp: image_iff intro!: bexI [of _ "br_channels br ! k"])
  then show ?thesis
    by (simp add: ipmbHandleRequest_def Some Let_def split: prod.split option.split)
qed

text \<open>
  Receiving leaves defined behaviour exactly for a response frame of seven bytes with good
  checksums: it passes the minimum-length test, which is one byte too small for a response, and the
  data length wraps around.
\<close>

theorem receive_fault_iff:
  "processI2cEvent flt rd ch = Inl e \<longleftrightarrow>
     e = Out_Of_Bounds \<and> (\<exists>l f. rd = Some (l # f) \<and> length f = 7 \<and> isFrameValid f 7 \<and> ipmbIsResponse f)"
proof (cases rd)
  case (Some bytes)
  show ?thesis
  proof (cases bytes)
    case (Cons l f)
    have "isFrameValid (f @ pad) 7 = isFrameValid f 7" "ipmbIsResponse (f @ pad) = ipmbIsResponse f"
      if "length f = 7" for pad
      using that by (simp_all add: isFrameValid_sums ipmbIsResponse_def nth_append)
    then show ?thesis
      by (cases "length f = 7")
        (auto simp: processI2cEvent_def Some Cons Let_def IpmbResponse_i2cToIpmbConstruct_def
          rbind_Inl_iff ipmb_lengths)
  qed (simp add: processI2cEvent_def Some ipmb_lengths)
qed (simp add: processI2cEvent_def)

lemma filter_mono_step: "bridge_step br br' \<Longrightarrow> br_filter br \<subseteq> br_filter br'"
proof (erule bridge_stepE)
  show "br_filter br \<subseteq> br_filter br'"
    if "ipmbHandleRequest errs reqChannel addr netfn lun cmd d br = Inr (br', result, effs)"
    for errs reqChannel addr netfn lun cmd d result effs
    using that by (cases rule: ipmbHandleRequest_cases) simp_all
  show "br_filter br \<subseteq> br_filter br'"
    if "br' = br\<lparr>br_filter := flt\<rparr>" "executeCallback rqLun seq address rep ch (br_filter br) = (flt, effs)"
    for flt rqLun seq address rep ch effs
    using that by (auto simp: executeCallback_def addFilter_def split: option.splits if_splits)
qed (auto simp: updateSlaveAddrHandler_def Let_def split: option.splits)

lemma filter_mono_steps: "bridge_step\<^sup>*\<^sup>* br br' \<Longrightarrow> br_filter br \<subseteq> br_filter br'"
  by (induction rule: rtranclp_induct) (use filter_mono_step in blast)+

lemma blockedReply_frame:
  "\<exists>l g. blockedReply ch frame = [I2c_Write (l # g)] \<and>
    map_sum id response_fields (IpmbResponse_i2cToIpmbConstruct IpmbResponse_empty g (length g)) =
      Inr (ipmbRespNetFn (ipmbNetFnGet (frame ! 1)), ipmbLunFromSeqLunGet (frame ! 4), ch_bmcSlaveAddress ch,
           ipmbSeqGet (frame ! 4), 0, frame ! 5, 0xC1, [])"
proof -
  let ?p = "IpmbResponse_new (frame ! 3) (ipmbRespNetFn (ipmbNetFnGet (frame ! 1)))
       (ipmbLunFromSeqLunGet (frame ! 4)) (ch_bmcSlaveAddress ch) (ipmbSeqGet (frame ! 4))
       ipmbRsLun (frame ! 5) ipmbIpmiInvalidCmd []"
  have "response_sized ?p"
    by (simp add: response_sized_def IpmbResponse_new_def respNetFn_bound ipmbRsLun_def)
  from rs_codec.encode_frame [OF this] obtain l g
    where "IpmbResponse_ipmbToi2cConstruct ?p = Some (l # g)"
      "map_sum id response_fields (IpmbResponse_i2cToIpmbConstruct IpmbResponse_empty (g @ []) (length g))
        = Inr (response_fields ?p)"
    by blast
  then show ?thesis
    by (auto simp: blockedReply_def ipmbSend_def response_fields_def IpmbResponse_new_def ipmbRsLun_def
        ipmbIpmiInvalidCmd_def)
qed

text \<open>
  A command that the host answered once with 'invalid command' is never forwarded to the host
  again, on any channel and in any later state; a well-formed request frame for it is answered on
  the bus with completion code 0xC1, echoing sequence number, LUN and command.
\<close>

theorem unsupported_command_answered_locally:
  assumes "executeCallback rqLun seq address (Some (netfn, lun, cmd, 0xC1, payload)) ch (br_filter br) = (flt, effs0)"
    and "netfn AND 1 \<noteq> 0" "length payload \<le> ipmbMaxDataSize"
    and "bridge_step\<^sup>*\<^sup>* (br\<lparr>br_filter := flt\<rparr>) br2"
    and frame: "7 \<le> length f" "length f \<le> 264" "isFrameValid (f @ replicate (264 - length f) 0) (of_nat (length f))"
      "\<not> ipmbIsResponse f"
    and same: "ipmbNetFnGet (f ! 1) = netfn AND NOT 1" "f ! 5 = cmd"
  shows "\<exists>sig l' g. processI2cEvent (br_filter br2) (Some (l # f)) ch2 = Inr (ch2, sig @ [I2c_Write (l' # g)]) \<and>
    (\<forall>e \<in> set sig. \<exists>a b c. e = Signal_receiveBroadcast a b c) \<and>
    map_sum id response_fields (IpmbResponse_i2cToIpmbConstruct IpmbResponse_empty g (length g)) =
      Inr (ipmbRespNetFn (netfn AND NOT 1), ipmbLunFromSeqLunGet (f ! 4), ch_bmcSlaveAddress ch2,
           ipmbSeqGet (f ! 4), 0, cmd, 0xC1, [])"
proof -
  have "(netfn AND NOT 1, cmd) \<in> flt"
    using assms(1-3)
    by (auto simp: executeCallback_def addFilter_def ipmbIpmiInvalidCmd_def ipmbNetFnResponseMask_def
        ipmbReqNetFnFromRespNetFn_def)
  then have blocked: "isBlocked (br_filter br2) (ipmbNetFnGet (f ! 1)) (f ! 5)"
    using filter_mono_steps [OF assms(4)] same by (auto simp: isBlocked_def)
  let ?buf = "f @ replicate (264 - length f) 0"
  have at: "?buf ! 1 = f ! 1" "?buf ! 4 = f ! 4" "?buf ! 5 = f ! 5"
    using frame(1) by (simp_all add: nth_append)
  have blocked': "isBlocked (br_filter br2) (ipmbNetFnGet (?buf ! Suc 0)) (?buf ! 5)"
    using blocked at by simp
  have "\<not> ipmbIsResponse ?buf" using frame(4) at(1) by (simp add: ipmbIsResponse_def)
  with blockedReply_frame [of ch2 ?buf] blocked frame(1-3) show ?thesis
    unfolding at same processI2cEvent_def Let_def
    by (auto simp: ipmb_lengths blocked')
qed

text \<open>A \<open>Get Device ID\<close> request from 0x82, as it arrives after the driver's length byte.\<close>

definition example_incoming :: "byte list" where
  "example_incoming = [0x40, 0x18, 0xa8, 0x82, 0x24, 0x01, 0x59]"

definition channel_of_config :: "channel_config \<Rightarrow> IpmbChannel \<Rightarrow> bool" where
  "channel_of_config c ch \<longleftrightarrow> ch_bmcSlaveAddress ch = cfg_bmcAddr c \<and> ch_rqSlaveAddress ch = cfg_reqAddr c \<and>
     ch_fdOpen ch \<and> (channel_is_ipmb ch \<longleftrightarrow> cfg_type c = ''ipmb'') \<and>
     (case cfg_devIndex c of None \<Rightarrow> True | Some d \<Rightarrow> unat d < 64 \<longrightarrow> getDevIndex ch = d)"

lemma channel_index_fields:
  fixes d type :: byte
  assumes "type = 0 \<or> type = 1"
  shows "(push_bit 2 d OR type) AND 3 = type" "unat d < 64 \<Longrightarrow> drop_bit 2 (push_bit 2 d OR type) = d"
proof -
  have "type AND ipmbLunMask = type" using assms by (auto simp: ipmbLunMask_def)
  with pack_low [of type d] pack_high [of d type] assms
  show "(push_bit 2 d OR type) AND 3 = type" "unat d < 64 \<Longrightarrow> drop_bit 2 (push_bit 2 d OR type) = d"
    by (auto simp: ipmbLunMask_def)
qed

lemma initializeChannels_append:
  assumes "initializeChannels f d cs chs = (chs', 0)"
  shows "\<exists>new. chs' = chs @ new \<and> list_all2 channel_of_config cs new"
  using assms
proof (induction f d cs chs rule: initializeChannels.induct)
  case (2 f d c cs chs)
  let ?d = "case cfg_devIndex c of Some d \<Rightarrow> d | None \<Rightarrow> d"
  obtain type busId where type: "ipmbChannelTypeMap (cfg_type c) = Some type" and init: "f (cfg_slavePath c) = Some busId"
    using "2.prems" by (auto simp: Let_def split: option.splits)
  let ?ch = "(IpmbChannel_new (cfg_bmcAddr c) (cfg_reqAddr c) (push_bit 2 ?d OR type))\<lparr>ch_busId := busId, ch_fdOpen := True\<rparr>"
  have "type = 0 \<or> type = 1" and "type = 0 \<longleftrightarrow> cfg_type c = ''ipmb''"
    using type by (auto split: if_splits)
  then have ok: "channel_of_config c ?ch"
    using channel_index_fields
    by (auto simp: channel_of_config_def channel_is_ipmb_def getDevIndex_def split: option.split)
  have "initializeChannels f ?d cs (chs @ [?ch]) = (chs', 0)"
    using "2.prems" type init by (simp add: Let_def)
  from "2.IH" [OF type refl refl init this] ok show ?case
    by (auto simp: list_all2_Cons1)
qed simp

text \<open>
  A configuration that loads without error gives one open channel per entry, in order, with
  the entry's addresses, its type, and its device index where that fits the six bits it is packed
  into.
\<close>

theorem channels_follow_config:
  assumes "initializeChannels channelInit devIndex cs [] = (chs, 0)"
  shows "list_all2 channel_of_config cs chs"
  using initializeChannels_append [OF assms] by auto

end
