(* ===== verification/Sensor_Conversion.thy ===== *)
theory Sensor_Conversion
  imports Prelude
begin

text \<open>
  \<open>VITA4611Device::convert_sensor_reading\<close> of \<open>vita4611cm.cpp\<close>: from the raw byte of a sensor and
  the coefficients of its sensor data record to a physical value. Integer parts are kept at their
  widths (8-, 10- and 16-bit fields, 4-bit exponents); \<open>double\<close> is \<open>real\<close>, so rounding and
  overflow of floating point are not modelled. The parameters \<open>Acc\<close> and \<open>analog_characteristics\<close>
  of the function only guard empty statements and are left out.

  The theorems: the bit manipulation of the code computes the two's complement values of the
  packed fields, so that the conversion is the conversion formula of the IPMI specification; and
  a linear sensor with positive slope keeps the order of readings, so that comparing a converted
  reading with a converted threshold decides the same as comparing the raw values.
\<close>

section \<open>Raw readings and packed coefficients\<close>

text \<open>The reading by its data format; \<open>None\<close> for a sensor without analog reading.\<close>

definition analog_value :: "byte \<Rightarrow> byte \<Rightarrow> real option" where
  "analog_value analog_data_format reading =
     (if analog_data_format = 0 then Some (real (unat reading))
      else if analog_data_format = 1 then
        (if reading AND 0x80 \<noteq> 0 then Some (- real (unat (NOT reading AND 0x7F)))
         else Some (real (unat reading)))
      else if analog_data_format = 2 then Some (real_of_int (sint reading))
      else None)"

text \<open>\<open>M\<close> and \<open>B\<close>: ten bits, the two high ones in the top bits of the second byte.\<close>

definition signed_10 :: "byte \<Rightarrow> byte \<Rightarrow> int" where
  "signed_10 hi lo =
     (let u = push_bit 8 (ucast (drop_bit 6 hi)) OR ucast lo :: 16 word in
      sint (if u AND 0x0200 \<noteq> 0 then u OR 0xFC00 else u))"

text \<open>The exponents, four bits each.\<close>

definition signed_4 :: "byte \<Rightarrow> int" where
  "signed_4 e = sint (if e AND 0x08 \<noteq> 0 then e OR 0xF0 else e)"

definition linearize :: "byte \<Rightarrow> real \<Rightarrow> real" where
  "linearize linearization result =
     (if unat linearization \<ge> 0x70 then result
      else if linearization = 0x01 then (if result > 0 then ln result else result)
      else if linearization = 0x02 then (if result > 0 then log 10 result else result)
      else if linearization = 0x03 then (if result > 0 then log 2 result else result)
      else if linearization = 0x04 then exp result
      else if linearization = 0x05 then 10 powr result
      else if linearization = 0x06 then 2 powr result
      else if linearization = 0x07 then (if result \<noteq> 0 then 1 / result else result)
      else if linearization = 0x08 then result ^ 2
      else if linearization = 0x09 then result ^ 3
      else if linearization = 0x0A then (if result \<ge> 0 then sqrt result else result)
      else if linearization = 0x0B then (if result \<ge> 0 then root 3 result else result)
      else result)"

definition convert_sensor_reading ::
  "byte \<Rightarrow> byte \<Rightarrow> byte \<Rightarrow> byte \<Rightarrow> byte \<Rightarrow> byte \<Rightarrow> byte \<Rightarrow> byte \<Rightarrow> byte \<Rightarrow> real" where
  "convert_sensor_reading units_def linearization M Mtol B Bacc R_exp B_exp reading =
     (case analog_value (drop_bit 6 units_def) reading of
        None \<Rightarrow> real (unat reading)
      | Some x \<Rightarrow>
          let calc_val = real_of_int (signed_10 Mtol M) * x
                         + real_of_int (signed_10 Bacc B) * 10 powi (signed_4 B_exp);
              result = calc_val * 10 powi (signed_4 R_exp)
          in linearize linearization result)"

section \<open>Two's complement\<close>

definition twos :: "nat \<Rightarrow> nat \<Rightarrow> int" where
  "twos n u = (if u < 2 ^ (n - 1) then int u else int u - 2 ^ n)"

lemma packed_10_bound: "unat hi div 64 * 256 + unat lo < 1024" for hi lo :: byte
proof -
  have "unat hi div 64 < 4" by (rule less_mult_imp_div_less) simp
  moreover have "unat lo < 256" by simp
  ultimately show ?thesis by linarith
qed

lemma packed_10: "unat (push_bit 8 (ucast (drop_bit 6 hi)) OR ucast lo :: 16 word) = unat hi div 64 * 256 + unat lo"
  for hi lo :: byte
proof -
  have lo: "bit lo k \<Longrightarrow> k < 8" for k using bit_imp_le_length [of lo k] by simp
  have "unat (drop_bit 6 hi) = unat hi div 64"
    by (simp add: drop_bit_eq_div unat_div_distrib)
  then have d: "ucast (drop_bit 6 hi) = (of_nat (unat hi div 64) :: 16 word)"
    by (metis of_nat_unat)
  have "push_bit 8 (ucast (drop_bit 6 hi)) OR ucast lo = (push_bit 8 (ucast (drop_bit 6 hi)) + ucast lo :: 16 word)"
    by (rule disjunctive_add [symmetric]) (auto simp: bit_simps dest: lo)
  also have "\<dots> = of_nat (unat hi div 64 * 256 + unat lo)"
    unfolding d by (simp add: push_bit_eq_mult)
  finally show ?thesis
    using packed_10_bound [of hi lo] by (simp only: unat_of_nat) simp
qed

lemma signed_10_twos: "signed_10 hi lo = twos 10 (unat hi div 64 * 256 + unat lo)"
proof -
  let ?u = "push_bit 8 (ucast (drop_bit 6 hi)) OR ucast lo :: 16 word"
  have u: "unat ?u < 2 ^ Suc 9"
    unfolding packed_10 using packed_10_bound [of hi lo] by simp
  have "?u AND 0x0200 \<noteq> 0 \<longleftrightarrow> bit ?u 9" using and_exp_neq_0 [of ?u 9] by simp
  moreover have "(0xFC00 :: 16 word) = NOT (mask (Suc 9))" by (simp add: mask_eq_exp_minus_1)
  ultimately have "signed_10 hi lo = (if unat ?u < 2 ^ 9 then int (unat ?u) else int (unat ?u) - 2 ^ Suc 9)"
    unfolding signed_10_def Let_def using sign_extend [OF u] by (simp only:) simp
  then show ?thesis by (simp only: twos_def packed_10) simp
qed

lemma signed_4_twos:
  assumes "unat e < 16"
  shows "signed_4 e = twos 4 (unat e)"
proof -
  have u: "unat e < 2 ^ Suc 3" using assms by simp
  have "e AND 0x08 \<noteq> 0 \<longleftrightarrow> bit e 3" using and_exp_neq_0 [of e 3] by simp
  moreover have "(0xF0 :: byte) = NOT (mask (Suc 3))" by (simp add: mask_eq_exp_minus_1)
  ultimately have "signed_4 e = (if unat e < 2 ^ 3 then int (unat e) else int (unat e) - 2 ^ Suc 3)"
    unfolding signed_4_def using sign_extend [OF u] by (simp only:) simp
  then show ?thesis by (simp only: twos_def) simp
qed

section \<open>Properties\<close>

text \<open>
  The conversion formula of the IPMI specification (section 36.3): y = L[(M x + B 10^K1) 10^K2],
  with M and B ten-bit and K1 and K2 four-bit two's complement numbers.
\<close>

definition ipmi_formula :: "byte \<Rightarrow> int \<Rightarrow> int \<Rightarrow> int \<Rightarrow> int \<Rightarrow> real \<Rightarrow> real" where
  "ipmi_formula linearization M B K1 K2 x =
     linearize linearization ((real_of_int M * x + real_of_int B * 10 powi K1) * 10 powi K2)"

text \<open>One's and two's complement readings, arithmetically.\<close>

definition reading_value :: "nat \<Rightarrow> nat \<Rightarrow> int" where
  "reading_value fmt r =
     (if fmt = 0 \<or> r < 128 then int r else if fmt = 1 then int r - 255 else int r - 256)"

lemma reading_bit7: "(reading :: byte) AND 0x80 \<noteq> 0 \<longleftrightarrow> 128 \<le> unat reading"
  using and_exp_neq_0 [of reading 7] bit_top_iff [of reading 7] by simp

lemma ones_complement:
  assumes "128 \<le> unat (reading :: byte)"
  shows "unat (NOT reading AND 0x7F) = 255 - unat reading"
proof -
  have "unat reading \<le> 255" using unat_byte_less [of reading] by linarith
  then have "NOT reading = of_nat (255 - unat reading)"
    by (simp add: of_nat_diff not_eq_complement)
  then have "unat (NOT reading) = 255 - unat reading"
    by (simp add: unat_of_nat)
  moreover have "unat (NOT reading AND mask 7) = unat (NOT reading) mod 128"
    by (simp add: take_bit_eq_mod unat_mod_distrib flip: take_bit_eq_mask)
  ultimately show ?thesis using assms by (simp add: mask_eq_exp_minus_1)
qed

lemma twos_complement: "sint (reading :: byte) = (if unat reading < 128 then int (unat reading) else int (unat reading) - 256)"
proof (cases "unat reading < 128")
  case True
  then show ?thesis using sint_small(2) [of reading 7] by simp
next
  case False
  have "int (unat reading) < 256" using unat_byte_less [of reading] by linarith
  moreover have "128 \<le> int (unat reading)" using False by linarith
  ultimately have "- (2 ^ 7) \<le> int (unat reading) - 256" "int (unat reading) - 256 < 2 ^ 7" by simp_all
  then have "sint (word_of_int (int (unat reading) - 256) :: byte) = int (unat reading) - 256"
    by (intro sint_word_of_int [where l = 7]) simp_all
  moreover have eq: "word_of_int (int (unat reading) - 256) = reading" by simp
  ultimately have "sint reading = int (unat reading) - 256" by (simp only: eq)
  then show ?thesis using False by simp
qed

lemma analog_value_reading:
  assumes "unat fmt < 3"
  shows "analog_value fmt reading = Some (real_of_int (reading_value (unat fmt) (unat reading)))"
proof -
  have "unat reading \<le> 255" using unat_byte_less [of reading] by linarith
  have "unat fmt = 0 \<or> unat fmt = 1 \<or> unat fmt = 2" using assms by linarith
  then consider "fmt = 0" | "fmt = 1" | "fmt = 2"
    by (auto simp: word_unat_eq_iff)
  then show ?thesis
  proof cases
    case 2
    then show ?thesis
      using \<open>unat reading \<le> 255\<close> ones_complement [of reading]
      by (auto simp: analog_value_def reading_value_def reading_bit7 of_nat_diff)
  next
    case 3
    then show ?thesis by (simp add: analog_value_def reading_value_def twos_complement)
  qed (simp add: analog_value_def reading_value_def)
qed

text \<open>
  C23. For every sensor with an analog data format, all values of its coefficient bytes and
  every raw reading, \<open>convert_sensor_reading\<close> is the conversion formula of the IPMI specification
  applied to the two's complement values of the packed fields and to the reading in its data
  format.
\<close>

theorem conversion_is_ipmi_formula:
  assumes "unat units_def div 64 < 3" "unat R_exp < 16" "unat B_exp < 16"
  shows "convert_sensor_reading units_def linearization M Mtol B Bacc R_exp B_exp reading =
    ipmi_formula linearization (twos 10 (unat Mtol div 64 * 256 + unat M))
      (twos 10 (unat Bacc div 64 * 256 + unat B)) (twos 4 (unat B_exp)) (twos 4 (unat R_exp))
      (real_of_int (reading_value (unat units_def div 64) (unat reading)))"
proof -
  have "unat (drop_bit 6 units_def) = unat units_def div 64"
    by (simp add: drop_bit_eq_div unat_div_distrib)
  then show ?thesis
    using analog_value_reading [of "drop_bit 6 units_def" reading] assms
    by (simp add: convert_sensor_reading_def ipmi_formula_def signed_10_twos signed_4_twos Let_def)
qed

text \<open>A two's complement temperature sensor: M = 1, B = -2, exponents 0 and -1, reading -40.\<close>

theorem conversion_is_ipmi_formula_witness:
  "convert_sensor_reading 0x80 0 1 0 0xFE 0xC0 0x0F 0 0xD8 = ipmi_formula 0 1 (-2) 0 (-1) (-40)"
  using conversion_is_ipmi_formula [of "0x80" "0x0F" 0 0 1 0 "0xFE" "0xC0" "0xD8"]
  by (simp add: twos_def reading_value_def)

text \<open>
  A linear analog sensor with a positive slope keeps the order of its readings: the
  comparison of a converted reading with a converted threshold is the comparison of the values
  the two bytes stand for.
\<close>

theorem linear_conversion_strict_mono:
  assumes "unat units_def div 64 < 3" "linearization = 0" "0 < signed_10 Mtol M"
  shows "convert_sensor_reading units_def linearization M Mtol B Bacc R_exp B_exp r <
         convert_sensor_reading units_def linearization M Mtol B Bacc R_exp B_exp s \<longleftrightarrow>
     reading_value (unat units_def div 64) (unat r) < reading_value (unat units_def div 64) (unat s)"
proof -
  have fmt: "unat (drop_bit 6 units_def) = unat units_def div 64"
    by (simp add: drop_bit_eq_div unat_div_distrib)
  have "0 < (10::real) powi signed_4 R_exp" by (simp add: zero_less_power_int)
  then show ?thesis
    using analog_value_reading [of "drop_bit 6 units_def"] assms fmt
    by (simp add: convert_sensor_reading_def linearize_def Let_def)
qed

end
