(* ===== verification/Vita_Device.thy ===== *)
theory Vita_Device
  imports Ipmb_Channel Sensor_Conversion
begin

text \<open>
  The VITA 46.11 devices of the chassis (\<open>class VITA4611Device\<close> of \<open>vita4611cm.cpp\<close>): how a device
  is queried over IPMB, how its sensor data records (SDRs) are read in chunks and parsed, and how
  its sensors are read.

  The D-Bus method \<open>sendRequest\<close> of the bridge is a parameter \<open>ipmb\<close> of the definitions, which
  passes a state \<open>'w\<close> of the rest of the chassis from call to call. A computation is a function
  \<open>'w \<Rightarrow> 'a res \<times> 'w\<close>: exceptions and faults are values, and the state survives an exception
  that the code catches. Members that no constructor initialises are options, \<open>None\<close> being the
  indeterminate value.

  The theorems: for a device that answers \<open>Get SDR\<close> truthfully, the chunked read returns exactly
  the record, with every request inside it; the sensor list has one entry per sensor number
  when it had before; and which replies of the bus take the code out of defined behaviour.
\<close>

section \<open>Computations\<close>

type_synonym ('w, 'a) io = "'w \<Rightarrow> 'a res \<times> 'w"

definition io_ret :: "'a \<Rightarrow> ('w, 'a) io" where
  "io_ret x w = (Inr x, w)"

definition io_lift :: "'a res \<Rightarrow> ('w, 'a) io" where
  "io_lift r w = (r, w)"

definition io_bind :: "('w, 'a) io \<Rightarrow> ('a \<Rightarrow> ('w, 'b) io) \<Rightarrow> ('w, 'b) io" where
  "io_bind m f w = (case m w of (Inl e, w') \<Rightarrow> (Inl e, w') | (Inr x, w') \<Rightarrow> f x w')"

text \<open>\<open>try { m } catch (...) { h }\<close>: undefined behaviour is not caught.\<close>

definition io_try :: "('w, 'a) io \<Rightarrow> ('w, 'a) io \<Rightarrow> ('w, 'a) io" where
  "io_try m h w = (case m w of
     (Inl e, w') \<Rightarrow> if is_exception e then h w' else (Inl e, w')
   | (Inr x, w') \<Rightarrow> (Inr x, w'))"

lemma io_simps [simp, res_simps]:
  "io_ret x w = (Inr x, w)"
  "io_lift r w = (r, w)"
  by (simp_all add: io_ret_def io_lift_def)

lemma io_bind_Inr: "m w = (Inr x, w') \<Longrightarrow> io_bind m f w = f x w'"
  by (simp add: io_bind_def)

lemma io_bind_Inl: "m w = (Inl e, w') \<Longrightarrow> io_bind m f w = (Inl e, w')"
  by (simp add: io_bind_def)

lemma io_bind_split:
  "P (io_bind m f w) \<longleftrightarrow> (\<forall>e w'. m w = (Inl e, w') \<longrightarrow> P (Inl e, w')) \<and> (\<forall>x w'. m w = (Inr x, w') \<longrightarrow> P (f x w'))"
  by (auto simp: io_bind_def split: prod.split sum.split)

lemma io_bind_lift [simp, res_simps]:
  "io_bind (io_lift (Inr x)) f w = f x w"
  "io_bind (io_lift (Inl e)) f w = (Inl e, w)"
  "io_bind (io_ret x) f w = f x w"
  by (simp_all add: io_bind_def)

section \<open>Requests over IPMB\<close>

datatype dbus_reply = Reply ipmb_result | Method_Error | Call_Exception

type_synonym 'w ipmb =
  "byte \<Rightarrow> byte \<Rightarrow> byte \<Rightarrow> byte \<Rightarrow> byte \<Rightarrow> byte list \<Rightarrow> 'w \<Rightarrow> dbus_reply \<times> 'w"

definition NETFN_APP :: byte where "NETFN_APP = 6"
definition NETFN_S_E :: byte where "NETFN_S_E = 4"
definition NETFN_STORAGE :: byte where "NETFN_STORAGE = 0x0a"
definition NETFN_VITA4611 :: byte where "NETFN_VITA4611 = 0x2c"
definition VITA4611_VSO_IDENTIFIER :: byte where "VITA4611_VSO_IDENTIFIER = 3"
definition VITA4611_GETVSOCAPS_CMD :: byte where "VITA4611_GETVSOCAPS_CMD = 0"
definition VITA4611_GET_MANDATORY_SENSOR_NUMBERS_CMD :: byte where
  "VITA4611_GET_MANDATORY_SENSOR_NUMBERS_CMD = 0x44"
definition IPMI_GET_DEVICE_ID_CMD :: byte where "IPMI_GET_DEVICE_ID_CMD = 1"
definition IPMI_GET_SENSOR_READING_CMD :: byte where "IPMI_GET_SENSOR_READING_CMD = 0x2d"
definition IPMITOOL_CMD_GET_SDR_INFO :: byte where "IPMITOOL_CMD_GET_SDR_INFO = 0x20"
definition IPMITOOL_CMD_GET_SDR :: byte where "IPMITOOL_CMD_GET_SDR = 0x21"
definition IPMITOOL_CMD_RESERVE_SDR_REPO :: byte where "IPMITOOL_CMD_RESERVE_SDR_REPO = 0x22"

text \<open>
  \<open>sendIPMBRequest\<close>: the response, and the completion code where the out parameter was assigned.
  The status in the first component of the reply is not looked at.
\<close>

definition sendIPMBRequest ::
  "'w ipmb \<Rightarrow> byte \<Rightarrow> byte \<Rightarrow> byte \<Rightarrow> byte \<Rightarrow> byte \<Rightarrow> byte list \<Rightarrow> 'w \<Rightarrow>
   (ipmb_result option \<times> byte option) \<times> 'w" where
  "sendIPMBRequest ipmb channel addr netfn lun cmd data w =
     (case ipmb channel addr netfn lun cmd data w of
        (Method_Error, w') \<Rightarrow> ((None, None), w')
      | (Call_Exception, w') \<Rightarrow> ((None, Some 0xFF), w')
      | (Reply (status, rnetfn, rlun, rcmd, cc, rdata), w') \<Rightarrow>
          if cc = 0 then ((Some (status, rnetfn, rlun, rcmd, cc, rdata), Some cc), w')
          else ((None, Some cc), w'))"

text \<open>\<open>std::get<5>\<close> of a response.\<close>

definition response_data :: "ipmb_result \<Rightarrow> byte list" where
  "response_data r = snd (snd (snd (snd (snd r))))"

definition request_data ::
  "'w ipmb \<Rightarrow> byte \<Rightarrow> byte \<Rightarrow> byte \<Rightarrow> byte \<Rightarrow> byte list \<Rightarrow> ('w, byte list option) io" where
  "request_data ipmb channel addr netfn cmd data w =
     (case sendIPMBRequest ipmb channel addr netfn 0 cmd data w of
        ((resp, cc), w') \<Rightarrow> (Inr (map_option response_data resp), w'))"

text \<open>\<open>request_data\<close> followed by \<open>value()\<close> on the optional.\<close>

definition request_value ::
  "'w ipmb \<Rightarrow> byte \<Rightarrow> byte \<Rightarrow> byte \<Rightarrow> byte \<Rightarrow> byte list \<Rightarrow> ('w, byte list) io" where
  "request_value ipmb channel addr netfn cmd data =
     io_bind (request_data ipmb channel addr netfn cmd data) (\<lambda>d. io_lift (of_opt Bad_Optional_Access d))"

section \<open>Devices, FRUs and sensors\<close>

record VSOCaps =
  VSOIdentifier :: byte
  IPMCIdentifier :: byte
  IPMBCapabilities :: byte
  VSOStandard :: byte
  VSORevision :: byte
  MaxFRUDeviceID :: byte
  IPMCFRUDeviceID :: byte

datatype VITA4611FRUSensorType =
    FRUSensor_Type_State | FRUSensor_Type_Health | FRUSensor_Type_Voltage | FRUSensor_Type_Temp
  | FRUSensor_Type_PayloadTestResults | FRUSensor_Type_PayloadTestStatus
  | FRUSensor_Type_PayloadModeSensor | FRUSensor_Type_UNKNOWN

text \<open>The members of a \<open>SensorRecord\<close> that only \<open>handleFullSdr\<close> assigns.\<close>

record SdrFields =
  sensor_caps :: byte
  sensor_type :: byte
  sensor_units_1 :: byte
  sensor_units_3 :: byte
  sensor_linearization :: byte
  sensor_M :: byte
  sensor_Mtol :: byte
  sensor_B :: byte
  sensor_Bacc :: byte
  sensor_Acc :: byte
  sensor_R_exp :: byte
  sensor_B_exp :: byte
  analog_characteristics :: byte
  normal_maximum :: byte
  normal_minimum :: byte
  sensor_maximum :: byte
  sensor_minimum :: byte
  upper_nonrec_threshold :: byte
  lower_nonrec_threshold :: byte
  upper_critical_threshold :: byte
  lower_critical_threshold :: byte
  upper_noncritical_threshold :: byte
  lower_noncritical_threshold :: byte
  converted_upper_nonrec_threshold :: real
  converted_lower_nonrec_threshold :: real
  converted_upper_critical_threshold :: real
  converted_lower_critical_threshold :: real
  converted_upper_noncritical_threshold :: real
  converted_lower_noncritical_threshold :: real

record SensorRecord =
  sensorNumber :: byte
  sensorType :: VITA4611FRUSensorType
  raw_reading :: byte
  reading_converted :: "real option"
  sdr_header_raw :: "byte list"
  sdr_info_raw :: "byte list"
  SDR_Name :: "byte list"
  SDR_Units :: string
  sensorIface :: "real option"
  sdr_fields :: "SdrFields option"

definition SensorRecord_new :: SensorRecord where
  "SensorRecord_new =
     \<lparr>sensorNumber = 0, sensorType = FRUSensor_Type_UNKNOWN, raw_reading = 0, reading_converted = None,
      sdr_header_raw = [], sdr_info_raw = [], SDR_Name = [], SDR_Units = [], sensorIface = None,
      sdr_fields = None\<rparr>"

record FruInfo =
  fru_deviceId :: byte
  fruName :: string
  sensors :: "SensorRecord list"

record VITA4611Device =
  sensorPopulationChangeIndicatorCache :: "byte list"
  dynamic_sensors :: "byte option"
  dev_channel :: byte
  device_record_total :: "byte option"
  mandatorySensorNumbers :: "byte list"
  isVITA4611Device :: "bool option"
  validDeviceID :: bool
  DeviceIDData :: "byte list"
  vsocaps :: "VSOCaps option"
  fruinfo :: FruInfo
  ipmi_address :: byte
  hw_address :: byte
  site_number :: byte
  dev_site_type :: byte
  device_id :: "byte option"
  fru_activation_policy :: "byte option"
  fru_activation_flag :: "byte option"

abbreviation update_sensors ::
  "(SensorRecord list \<Rightarrow> SensorRecord list) \<Rightarrow> VITA4611Device \<Rightarrow> VITA4611Device" where
  "update_sensors f dev \<equiv> dev\<lparr>fruinfo := (fruinfo dev)\<lparr>sensors := f (sensors (fruinfo dev))\<rparr>\<rparr>"

section \<open>Reading sensors\<close>

text \<open>The conversion with the coefficients of a sensor; using an unset one is a fault.\<close>

definition convert_with :: "SdrFields \<Rightarrow> byte \<Rightarrow> real" where
  "convert_with f reading =
     convert_sensor_reading (sensor_units_1 f) (sensor_linearization f) (sensor_M f) (sensor_Mtol f)
       (sensor_B f) (sensor_Bacc f) (sensor_R_exp f) (sensor_B_exp f) reading"

definition getSensorReading ::
  "'w ipmb \<Rightarrow> VITA4611Device \<Rightarrow> byte \<Rightarrow> SensorRecord \<Rightarrow> ('w, SensorRecord) io" where
  "getSensorReading ipmb dev channel sensor =
     io_bind (request_data ipmb channel (ipmi_address dev) NETFN_S_E IPMI_GET_SENSOR_READING_CMD
                [sensorNumber sensor])
     (\<lambda>resp. io_bind (io_lift (case resp of Some data \<Rightarrow> vec_at data 0 | None \<Rightarrow> Inr 0))
     (\<lambda>raw. io_bind (io_lift (of_opt Uninit_Read (sdr_fields sensor)))
     (\<lambda>f. let v = convert_with f raw in
        io_ret (sensor\<lparr>raw_reading := raw, reading_converted := Some v,
                  sensorIface := map_option (\<lambda>_. v) (sensorIface sensor)\<rparr>))))"

fun getSensorReadings ::
  "'w ipmb \<Rightarrow> VITA4611Device \<Rightarrow> SensorRecord list \<Rightarrow> ('w, SensorRecord list) io" where
  "getSensorReadings ipmb dev [] = io_ret []"
| "getSensorReadings ipmb dev (s # ss) =
     io_bind (getSensorReading ipmb dev 0 s) (\<lambda>s'.
     io_bind (getSensorReadings ipmb dev ss) (\<lambda>ss'. io_ret (s' # ss')))"

definition getAllSensorReadings :: "'w ipmb \<Rightarrow> VITA4611Device \<Rightarrow> ('w, VITA4611Device) io" where
  "getAllSensorReadings ipmb dev =
     io_bind (getSensorReadings ipmb dev (sensors (fruinfo dev)))
       (\<lambda>ss. io_ret (update_sensors (\<lambda>_. ss) dev))"

section \<open>Reading sensor data records\<close>

definition reserveSDRRepo :: "'w ipmb \<Rightarrow> VITA4611Device \<Rightarrow> ('w, byte \<times> byte) io" where
  "reserveSDRRepo ipmb dev =
     io_bind (request_value ipmb (dev_channel dev) (ipmi_address dev) NETFN_S_E IPMITOOL_CMD_RESERVE_SDR_REPO [])
     (\<lambda>data. io_bind (io_lift (vec_at data 0))
     (\<lambda>a. io_bind (io_lift (vec_at data 1))
     (\<lambda>b. io_ret (a, b))))"

definition get_sdr ::
  "'w ipmb \<Rightarrow> VITA4611Device \<Rightarrow> byte \<times> byte \<Rightarrow> byte \<Rightarrow> byte \<Rightarrow> byte \<Rightarrow> ('w, byte list) io" where
  "get_sdr ipmb dev res_id sensor_number offset count =
     request_value ipmb (dev_channel dev) (ipmi_address dev) NETFN_S_E IPMITOOL_CMD_GET_SDR
       [fst res_id, snd res_id, sensor_number, 0, offset, count]"

definition getSDRHeader ::
  "'w ipmb \<Rightarrow> VITA4611Device \<Rightarrow> byte \<times> byte \<Rightarrow> byte \<Rightarrow> ('w, byte list) io" where
  "getSDRHeader ipmb dev res_id sensor_number = get_sdr ipmb dev res_id sensor_number 0 0x05"

lemma byte_step_measure:
  fixes len tot :: byte
  defines "m \<equiv> \<lambda>t :: byte. if unat t \<le> unat len then unat len - unat t else 256"
  assumes "(if unat tot + 0x16 > unat len then len - tot else 0x16) = 0x16"
  shows "m (tot + 0x16) < m tot"
proof (cases "unat tot + 22 > unat len")
  case True
  then have eq: "len = tot + 22" using assms(2) by (simp add: diff_eq_eq add.commute)
  have "unat len < unat tot"
  proof (rule ccontr)
    assume "\<not> unat len < unat tot"
    then have "unat (len - tot) = unat len - unat tot" by (simp add: unat_sub word_le_nat_alt)
    then show False using True eq \<open>\<not> unat len < unat tot\<close> by simp
  qed
  then show ?thesis by (simp add: m_def eq [symmetric])
next
  case False
  then have "unat tot + 22 < 256" using unat_byte_less [of len] by linarith
  then have "unat (tot + 22) = unat tot + 22"
    by (simp add: unat_word_ariths)
  then show ?thesis using False by (simp add: m_def)
qed

text \<open>
  The \<open>do ... while (section == 0x16)\<close> loop. At its head \<open>section\<close> is always 0x16. The comparison
  \<open>total + section > length\<close> is one of \<open>int\<close>; the assignment \<open>section = length - total\<close> narrows.
\<close>

function getSDRVals_loop ::
  "'w ipmb \<Rightarrow> VITA4611Device \<Rightarrow> byte \<times> byte \<Rightarrow> byte \<Rightarrow> byte \<Rightarrow> byte \<Rightarrow> byte \<Rightarrow> byte list \<Rightarrow> ('w, byte list) io" where
  "getSDRVals_loop ipmb dev res_id sensor_number len tot sectiontotal acc =
     (let section = (if unat tot + 0x16 > unat len then len - tot else 0x16) in
      io_bind (get_sdr ipmb dev res_id sensor_number sectiontotal section) (\<lambda>data.
        let acc' = acc @ drop 2 data in
        if section = 0x16
        then getSDRVals_loop ipmb dev res_id sensor_number len (tot + section) (sectiontotal + section) acc'
        else io_ret acc'))"
  by pat_completeness auto

termination
  by (relation "measure (\<lambda>(ipmb, dev, res_id, n, len, tot, st, acc).
        if unat tot \<le> unat len then unat len - unat tot else 256)")
    (use byte_step_measure in auto)

declare getSDRVals_loop.simps [simp del]

definition getSDRVals ::
  "'w ipmb \<Rightarrow> VITA4611Device \<Rightarrow> byte \<times> byte \<Rightarrow> byte \<Rightarrow> byte \<Rightarrow> ('w, byte list) io" where
  "getSDRVals ipmb dev res_id sensor_number len =
     getSDRVals_loop ipmb dev res_id sensor_number len 0 0x05 []"

section \<open>Sensor records\<close>

definition isSensorDiscovered :: "VITA4611Device \<Rightarrow> byte \<Rightarrow> bool" where
  "isSensorDiscovered dev n \<longleftrightarrow> list_ex (\<lambda>s. sensorNumber s = n) (sensors (fruinfo dev))"

text \<open>
  \<open>getSensorRecord\<close> returns a pointer to the first record with the number; here the assignment
  through that pointer.
\<close>

fun update_record ::
  "byte \<Rightarrow> (SensorRecord \<Rightarrow> SensorRecord) \<Rightarrow> SensorRecord list \<Rightarrow> SensorRecord list" where
  "update_record n f [] = []"
| "update_record n f (s # ss) = (if sensorNumber s = n then f s # ss else s # update_record n f ss)"

definition sensorUnitTypeCodes :: "byte \<Rightarrow> string" where
  "sensorUnitTypeCodes u =
     (if u = 0 then ''unknown'' else if u = 1 then ''degrees C'' else if u = 2 then ''degrees F''
      else if u = 3 then ''degrees K'' else if u = 4 then ''Volts'' else if u = 5 then ''Amps''
      else if u = 6 then ''Watts'' else if u = 7 then ''Joules'' else if u = 8 then ''Coulombs''
      else if u = 9 then ''VA'' else if u = 10 then ''Nits'' else '''')"

text \<open>The SDR fields at their offsets in the record body, which starts behind the five header bytes.\<close>

definition full_sdr_fields :: "byte list \<Rightarrow> SdrFields" where
  "full_sdr_fields v =
     (let conv = convert_sensor_reading (v ! 15) (v ! 18) (v ! 19) (v ! 20) (v ! 21) (v ! 22)
                   (drop_bit 4 (v ! 24)) (v ! 24 AND 0x0f)
      in \<lparr>sensor_caps = v ! 6, sensor_type = v ! 7, sensor_units_1 = v ! 15, sensor_units_3 = v ! 17,
          sensor_linearization = v ! 18, sensor_M = v ! 19, sensor_Mtol = v ! 20, sensor_B = v ! 21,
          sensor_Bacc = v ! 22, sensor_Acc = v ! 23, sensor_R_exp = drop_bit 4 (v ! 24),
          sensor_B_exp = v ! 24 AND 0x0f, analog_characteristics = v ! 25,
          normal_maximum = v ! 27, normal_minimum = v ! 28, sensor_maximum = v ! 29, sensor_minimum = v ! 30,
          upper_nonrec_threshold = v ! 31, lower_nonrec_threshold = v ! 34,
          upper_critical_threshold = v ! 32, lower_critical_threshold = v ! 35,
          upper_noncritical_threshold = v ! 33, lower_noncritical_threshold = v ! 36,
          converted_upper_nonrec_threshold = conv (v ! 31), converted_lower_nonrec_threshold = conv (v ! 34),
          converted_upper_critical_threshold = conv (v ! 32), converted_lower_critical_threshold = conv (v ! 35),
          converted_upper_noncritical_threshold = conv (v ! 33), converted_lower_noncritical_threshold = conv (v ! 36)\<rparr>)"

definition full_sdr_record :: "byte list \<Rightarrow> byte list \<Rightarrow> byte list \<Rightarrow> SensorRecord" where
  "full_sdr_record sdrheader v name =
     SensorRecord_new\<lparr>sensorNumber := v ! 2, sdr_header_raw := sdrheader, sdr_info_raw := v,
       SDR_Name := name, SDR_Units := sensorUnitTypeCodes (v ! 16),
       raw_reading := v ! 26, reading_converted := Some (convert_with (full_sdr_fields v) (v ! 26)),
       sdr_fields := Some (full_sdr_fields v)\<rparr>"

text \<open>
  The subscripts go up to 42 before the name is copied, so a shorter body is a fault. An existing
  record is replaced as a whole, its D-Bus object and sensor type included.
\<close>

definition handleFullSdr :: "byte list \<Rightarrow> byte list \<Rightarrow> VITA4611Device \<Rightarrow> VITA4611Device res" where
  "handleFullSdr sdrheader sdrvals dev =
     rbind (vec_at sdrvals 42) (\<lambda>idb.
     rbind (slice sdrvals 43 (unat (idb AND 0x1F))) (\<lambda>name.
       let rec = full_sdr_record sdrheader sdrvals name in
       if \<not> isSensorDiscovered dev (sdrvals ! 2) then Inr (update_sensors (\<lambda>ss. ss @ [rec]) dev)
       else Inr (update_sensors (update_record (sdrvals ! 2) (\<lambda>_. rec)) dev)))"

definition handleCompactSdr :: "byte list \<Rightarrow> byte list \<Rightarrow> VITA4611Device \<Rightarrow> VITA4611Device res" where
  "handleCompactSdr sdrheader sdrvals dev =
     rbind (vec_at sdrvals 26) (\<lambda>idb.
     rbind (slice sdrvals 27 (unat (idb AND 0x1F))) (\<lambda>name.
       let fill = (\<lambda>r. r\<lparr>sdr_header_raw := sdrheader, sdr_info_raw := sdrvals, SDR_Name := name,
                       SDR_Units := sensorUnitTypeCodes (sdrvals ! 16)\<rparr>)
       in if isSensorDiscovered dev (sdrvals ! 2)
          then Inr (update_sensors (update_record (sdrvals ! 2) fill) dev)
          else Inr (update_sensors
                 (\<lambda>ss. ss @ [fill (SensorRecord_new\<lparr>sensorNumber := sdrvals ! 2\<rparr>)]) dev)))"

definition handle_sdr :: "byte list \<Rightarrow> byte list \<Rightarrow> VITA4611Device \<Rightarrow> VITA4611Device res" where
  "handle_sdr sdrheader sdrvals dev =
     (if sdrheader ! 5 = 1 then handleFullSdr sdrheader sdrvals dev
      else if sdrheader ! 5 = 2 then handleCompactSdr sdrheader sdrvals dev
      else Inr dev)"

definition read_one_sdr ::
  "'w ipmb \<Rightarrow> byte \<times> byte \<Rightarrow> byte \<Rightarrow> VITA4611Device \<Rightarrow> ('w, VITA4611Device) io" where
  "read_one_sdr ipmb res_id i dev =
     io_bind (getSDRHeader ipmb dev res_id i) (\<lambda>sdrheader.
       if length sdrheader \<noteq> 7 then io_ret dev
       else io_bind (getSDRVals ipmb dev res_id i (sdrheader ! 6)) (\<lambda>sdrvals.
              io_lift (handle_sdr sdrheader sdrvals dev)))"

text \<open>
  The loop over the record numbers. The handler of an exception reads \<open>retryCount\<close>, which has no
  value at that point.
\<close>

fun sdr_loop ::
  "'w ipmb \<Rightarrow> byte \<times> byte \<Rightarrow> nat list \<Rightarrow> VITA4611Device \<Rightarrow> ('w, VITA4611Device) io" where
  "sdr_loop ipmb res_id [] dev = io_ret dev"
| "sdr_loop ipmb res_id (i # is) dev =
     io_bind (io_try (read_one_sdr ipmb res_id (of_nat i) dev) (io_lift (Inl Uninit_Read)))
       (sdr_loop ipmb res_id is)"

definition getAllSDRs :: "'w ipmb \<Rightarrow> VITA4611Device \<Rightarrow> ('w, VITA4611Device) io" where
  "getAllSDRs ipmb dev =
     io_bind (reserveSDRRepo ipmb dev) (\<lambda>res_id.
     io_bind (io_lift (of_opt Uninit_Read (device_record_total dev))) (\<lambda>n.
       sdr_loop ipmb res_id [0..<unat n] dev))"

definition checkSDRInfo :: "'w ipmb \<Rightarrow> VITA4611Device \<Rightarrow> ('w, VITA4611Device) io" where
  "checkSDRInfo ipmb dev =
     io_bind (request_data ipmb 0 (ipmi_address dev) NETFN_S_E IPMITOOL_CMD_GET_SDR_INFO []) (\<lambda>resp.
       case resp of
         None \<Rightarrow> io_ret dev
       | Some payload \<Rightarrow>
           if length payload < 2 then io_lift (Inl Out_Of_Bounds)
           else
             let indicator = drop 2 payload in
             io_bind (if indicator \<noteq> sensorPopulationChangeIndicatorCache dev then getAllSDRs ipmb dev
                      else io_ret dev)
               (\<lambda>dev'. io_ret (dev'\<lparr>sensorPopulationChangeIndicatorCache := indicator\<rparr>)))"

section \<open>Discovery\<close>

definition queryDeviceId :: "'w ipmb \<Rightarrow> byte \<Rightarrow> VITA4611Device \<Rightarrow> ('w, VITA4611Device) io" where
  "queryDeviceId ipmb addr dev =
     io_bind (request_data ipmb 0 addr NETFN_APP IPMI_GET_DEVICE_ID_CMD []) (\<lambda>resp.
       io_ret (case resp of
         Some data \<Rightarrow> dev\<lparr>DeviceIDData := data, validDeviceID := True\<rparr>
       | None \<Rightarrow> dev\<lparr>validDeviceID := False\<rparr>))"

text \<open>The capabilities are read by casting the data pointer: seven bytes, however many arrived.\<close>

definition VSOCaps_of :: "byte list \<Rightarrow> VSOCaps res" where
  "VSOCaps_of d =
     (if length d < 7 then Inl Out_Of_Bounds
      else Inr \<lparr>VSOIdentifier = d ! 0, IPMCIdentifier = d ! 1, IPMBCapabilities = d ! 2,
             VSOStandard = d ! 3, VSORevision = d ! 4, MaxFRUDeviceID = d ! 5, IPMCFRUDeviceID = d ! 6\<rparr>)"

definition queryVsoCapabilities :: "'w ipmb \<Rightarrow> VITA4611Device \<Rightarrow> ('w, VITA4611Device) io" where
  "queryVsoCapabilities ipmb dev =
     io_bind (request_data ipmb (dev_channel dev) 0x40 NETFN_VITA4611 VITA4611_GETVSOCAPS_CMD [0x03]) (\<lambda>resp.
       case resp of
         Some data \<Rightarrow>
           io_bind (io_lift (VSOCaps_of data))
             (\<lambda>caps. io_ret (dev\<lparr>isVITA4611Device := Some True, vsocaps := Some caps\<rparr>))
       | None \<Rightarrow> io_ret (dev\<lparr>isVITA4611Device := Some False\<rparr>))"

text \<open>The mandatory sensors, in the order of the bytes of the answer.\<close>

definition mandatory_types :: "VITA4611FRUSensorType list" where
  "mandatory_types = [FRUSensor_Type_State, FRUSensor_Type_Health, FRUSensor_Type_Voltage, FRUSensor_Type_Temp,
     FRUSensor_Type_PayloadTestResults, FRUSensor_Type_PayloadTestStatus]"

definition add_mandatory :: "byte \<Rightarrow> byte list \<Rightarrow> VITA4611Device \<Rightarrow> VITA4611Device res" where
  "add_mandatory fru payload dev =
     rbind (slice payload 1 6) (\<lambda>nums.
       let recs = map2 (\<lambda>n t. SensorRecord_new\<lparr>sensorNumber := n, sensorType := t\<rparr>) nums mandatory_types in
       Inr (dev\<lparr>mandatorySensorNumbers := mandatorySensorNumbers dev @ nums,
                fruinfo := (fruinfo dev)\<lparr>fru_deviceId := fru, fruName := ''VITA4611FRU'',
                               sensors := sensors (fruinfo dev) @ recs\<rparr>\<rparr>))"

text \<open>The three answers are evaluated after all three requests have been made.\<close>

definition enumerateFRUSensors ::
  "'w ipmb \<Rightarrow> byte \<Rightarrow> byte \<Rightarrow> VITA4611Device \<Rightarrow> ('w, VITA4611Device) io" where
  "enumerateFRUSensors ipmb fru addr dev =
     io_bind (request_data ipmb 0 addr NETFN_VITA4611 VITA4611_GET_MANDATORY_SENSOR_NUMBERS_CMD [0x03, fru]) (\<lambda>resp.
     io_bind (request_data ipmb 0 addr NETFN_S_E IPMITOOL_CMD_GET_SDR_INFO []) (\<lambda>sdr_info.
     io_bind (request_data ipmb 0 addr NETFN_STORAGE IPMITOOL_CMD_GET_SDR_INFO []) (\<lambda>repo_info.
     io_bind (io_lift (case resp of None \<Rightarrow> Inr None | Some payload \<Rightarrow> map_sum id Some (vec_at payload 0))) (\<lambda>vso.
       if vso \<noteq> None \<and> vso \<noteq> Some VITA4611_VSO_IDENTIFIER then io_ret dev
       else
     io_bind (io_lift (case resp of None \<Rightarrow> Inr dev | Some payload \<Rightarrow> add_mandatory fru payload dev)) (\<lambda>dev1.
     io_bind (io_lift (case repo_info of None \<Rightarrow> Inr dev1 | Some p \<Rightarrow>
         map_sum id (\<lambda>n. dev1\<lparr>device_record_total := Some n\<rparr>) (vec_at p 1))) (\<lambda>dev2.
     io_bind (io_lift (case sdr_info of None \<Rightarrow> Inr dev2 | Some p \<Rightarrow>
         map_sum id (\<lambda>b. dev2\<lparr>dynamic_sensors := Some (drop_bit 7 b)\<rparr>) (vec_at p 1))) (\<lambda>dev3.
       getAllSDRs ipmb dev3)))))))"

fun fru_loop :: "'w ipmb \<Rightarrow> nat list \<Rightarrow> VITA4611Device \<Rightarrow> ('w, VITA4611Device) io" where
  "fru_loop ipmb [] dev = io_ret dev"
| "fru_loop ipmb (i # is) dev =
     io_bind (enumerateFRUSensors ipmb (of_nat i) (ipmi_address dev) dev) (fru_loop ipmb is)"

definition discoverFRUs :: "'w ipmb \<Rightarrow> VITA4611Device \<Rightarrow> ('w, VITA4611Device) io" where
  "discoverFRUs ipmb dev =
     io_bind (io_lift (of_opt Null_Deref (vsocaps dev))) (\<lambda>caps.
       if MaxFRUDeviceID caps = 0 then enumerateFRUSensors ipmb 0 (ipmi_address dev) dev
       else fru_loop ipmb [0..<unat (MaxFRUDeviceID caps)] dev)"

definition device_blank :: "byte \<Rightarrow> byte \<Rightarrow> VITA4611Device" where
  "device_blank channel addr =
     \<lparr>sensorPopulationChangeIndicatorCache = [], dynamic_sensors = None, dev_channel = channel,
      device_record_total = None, mandatorySensorNumbers = [], isVITA4611Device = None,
      validDeviceID = False, DeviceIDData = [], vsocaps = None,
      fruinfo = \<lparr>fru_deviceId = 0, fruName = '''', sensors = []\<rparr>,
      ipmi_address = addr, hw_address = drop_bit 1 addr, site_number = drop_bit 1 addr - 0x40,
      dev_site_type = 0, device_id = None, fru_activation_policy = None, fru_activation_flag = None\<rparr>"

definition VITA4611Device_new :: "'w ipmb \<Rightarrow> byte \<Rightarrow> byte \<Rightarrow> ('w, VITA4611Device) io" where
  "VITA4611Device_new ipmb channel addr =
     io_bind (queryDeviceId ipmb addr (device_blank channel addr)) (\<lambda>dev.
       if \<not> validDeviceID dev then io_ret dev
       else io_bind (queryVsoCapabilities ipmb dev) (\<lambda>dev'.
              if isVITA4611Device dev' = Some True then discoverFRUs ipmb dev' else io_ret dev'))"

section \<open>Chunked reads of a record\<close>

text \<open>
  A device that answers \<open>Get SDR\<close> for record number \<open>n\<close> from the bytes \<open>R\<close> of the record: the id
  of the next record, then the bytes asked for, at most 22 of them, in every state of the outside
  that satisfies \<open>ready\<close>; and the outside stays in such states.
\<close>

definition serves_sdr ::
  "('w \<Rightarrow> bool) \<Rightarrow> 'w ipmb \<Rightarrow> VITA4611Device \<Rightarrow> byte \<times> byte \<Rightarrow> byte \<Rightarrow> byte list \<Rightarrow> byte list \<Rightarrow> bool" where
  "serves_sdr ready ipmb dev res_id n nxt R \<longleftrightarrow> length nxt = 2 \<and>
     (\<forall>off cnt w. ready w \<and> unat cnt \<le> 22 \<and> unat off + unat cnt \<le> length R \<longrightarrow>
        (\<exists>w'. ipmb (dev_channel dev) (ipmi_address dev) NETFN_S_E 0 IPMITOOL_CMD_GET_SDR
                [fst res_id, snd res_id, n, 0, off, cnt] w
            = (Reply (0, NETFN_S_E OR 1, 0, IPMITOOL_CMD_GET_SDR, 0, nxt @ take (unat cnt) (drop (unat off) R)), w')
            \<and> ready w'))"

lemma request_value_reply:
  assumes "ipmb channel addr netfn 0 cmd d w = (Reply (st, nf, l, c, 0, payload), w')"
  shows "request_value ipmb channel addr netfn cmd d w = (Inr payload, w')"
  using assms
  by (simp add: request_value_def request_data_def sendIPMBRequest_def io_bind_def response_data_def)

lemma serves_get_sdr:
  assumes "serves_sdr ready ipmb dev res_id n nxt R" "ready w" "unat cnt \<le> 22" "unat off + unat cnt \<le> length R"
  shows "\<exists>w'. get_sdr ipmb dev res_id n off cnt w = (Inr (nxt @ take (unat cnt) (drop (unat off) R)), w') \<and> ready w'"
  using assms request_value_reply unfolding serves_sdr_def get_sdr_def by fast

lemma getSDRVals_loop_serves:
  assumes "serves_sdr ready ipmb dev res_id n nxt R" "length R = 5 + unat len" "ready w" "t \<le> unat len" "22 dvd t"
  shows "\<exists>w'. getSDRVals_loop ipmb dev res_id n len (of_nat t) (of_nat (5 + t)) acc w
           = (Inr (acc @ drop (5 + t) R), w') \<and> ready w'"
  using assms(3-5)
proof (induction "unat len - t" arbitrary: t acc w rule: less_induct)
  case less
  have len: "unat len < 256" by simp
  then obtain k where "t = 22 * k" "k < 12" using less.prems by (auto elim!: dvdE)
  then have "t \<le> 250" by simp
  then have t: "unat (of_nat t :: byte) = t" by (simp add: unat_of_nat_byte)
  have off: "unat (of_nat (5 + t) :: byte) = 5 + t"
    by (rule unat_of_nat_byte) (use \<open>t \<le> 250\<close> in simp)
  have two: "length nxt = 2" using assms(1) by (simp add: serves_sdr_def)
  show ?case
  proof (cases "t + 22 > unat len")
    case True
    have sec: "unat (len - of_nat t) = unat len - t"
      using less.prems t by (simp add: unat_sub word_le_nat_alt)
    moreover have "len - of_nat t \<noteq> 22"
      using True sec less.prems by auto
    moreover obtain w' where "get_sdr ipmb dev res_id n (of_nat (5 + t)) (len - of_nat t) w
        = (Inr (nxt @ take (unat len - t) (drop (5 + t) R)), w')" "ready w'"
      using serves_get_sdr [OF assms(1) less.prems(1), of "len - of_nat t" "of_nat (5 + t)"] off sec assms(2) True less.prems
      by auto
    ultimately show ?thesis
      using True t two assms(2) less.prems(2)
      by (subst getSDRVals_loop.simps) (simp add: io_bind_def)
  next
    case False
    then obtain w' where req: "get_sdr ipmb dev res_id n (of_nat (5 + t)) 22 w
        = (Inr (nxt @ take 22 (drop (5 + t) R)), w')" and "ready w'"
      using serves_get_sdr [OF assms(1) less.prems(1), of 22 "of_nat (5 + t)"] off assms(2) by auto
    have "\<exists>w''. getSDRVals_loop ipmb dev res_id n len (of_nat (t + 22)) (of_nat (5 + (t + 22)))
        (acc @ take 22 (drop (5 + t) R)) w' = (Inr ((acc @ take 22 (drop (5 + t) R)) @ drop (5 + (t + 22)) R), w'') \<and> ready w''"
      by (rule less.hyps) (use False less.prems \<open>ready w'\<close> in simp_all)
    moreover have "take 22 (drop (5 + t) R) @ drop (5 + (t + 22)) R = drop (5 + t) R"
      by (metis append_take_drop_id drop_drop add.assoc add.commute)
    ultimately show ?thesis
      using False t two req
      by (subst getSDRVals_loop.simps) (simp add: io_bind_def add.assoc add.commute)
  qed
qed

section \<open>The sensor list\<close>

definition sensor_numbers :: "VITA4611Device \<Rightarrow> byte list" where
  "sensor_numbers dev = map sensorNumber (sensors (fruinfo dev))"

definition find_sensor :: "byte \<Rightarrow> VITA4611Device \<Rightarrow> SensorRecord option" where
  "find_sensor n dev = find (\<lambda>s. sensorNumber s = n) (sensors (fruinfo dev))"

lemma isSensorDiscovered_iff: "isSensorDiscovered dev n \<longleftrightarrow> n \<in> set (sensor_numbers dev)"
  by (auto simp: isSensorDiscovered_def sensor_numbers_def list_ex_iff)

lemma map_update_record:
  "(\<And>s. sensorNumber s = n \<Longrightarrow> sensorNumber (f s) = n) \<Longrightarrow>
   map sensorNumber (update_record n f ss) = map sensorNumber ss"
  by (induction ss) auto

lemma find_update_record:
  "(\<And>s. sensorNumber s = n \<Longrightarrow> sensorNumber (f s) = n) \<Longrightarrow>
   find (\<lambda>s. sensorNumber s = m) (update_record n f ss) =
     (if m = n then map_option f (find (\<lambda>s. sensorNumber s = n) ss) else find (\<lambda>s. sensorNumber s = m) ss)"
  by (induction ss) auto

lemma find_append: "find P (xs @ ys) = (case find P xs of Some x \<Rightarrow> Some x | None \<Rightarrow> find P ys)"
  by (induction xs) auto

lemma full_sdr_record_number [simp]: "sensorNumber (full_sdr_record h v name) = v ! 2"
  by (simp add: full_sdr_record_def)

lemma find_sensor_None: "find_sensor n dev = None \<longleftrightarrow> n \<notin> set (sensor_numbers dev)"
  by (force simp: find_sensor_def sensor_numbers_def find_None_iff)

lemma handleFullSdr_Inr:
  assumes "handleFullSdr h v dev = Inr dev'"
  defines "rec \<equiv> full_sdr_record h v (take (unat (v ! 42 AND 0x1F)) (drop 43 v))"
  shows "dev' = (if v ! 2 \<in> set (sensor_numbers dev) then update_sensors (update_record (v ! 2) (\<lambda>_. rec)) dev
                 else update_sensors (\<lambda>ss. ss @ [rec]) dev)"
proof -
  have "42 < length v" "43 + unat (v ! 42 AND 0x1F) \<le> length v"
    using assms(1) unfolding handleFullSdr_def by (auto simp: vec_at_Inr_iff slice_Inr_iff elim!: rbind_InrE)
  then show ?thesis
    using assms(1) by (simp add: handleFullSdr_def slice_def rec_def isSensorDiscovered_iff Let_def split: if_splits)
qed

lemma handleFullSdr_defined:
  "43 + unat (v ! 42 AND 0x1F) \<le> length v \<Longrightarrow> \<exists>dev'. handleFullSdr h v dev = Inr dev'"
  by (cases "isSensorDiscovered dev (v ! 2)") (simp_all add: handleFullSdr_def slice_def Let_def)

lemma handleFullSdr_find:
  assumes "handleFullSdr h v dev = Inr dev'"
  shows "find_sensor m dev' = (if m = v ! 2
      then Some (full_sdr_record h v (take (unat (v ! 42 AND 0x1F)) (drop 43 v))) else find_sensor m dev)"
proof (cases "v ! 2 \<in> set (sensor_numbers dev)")
  case True
  then obtain s where "find_sensor (v ! 2) dev = Some s"
    using find_sensor_None [of "v ! 2" dev] by auto
  with True show ?thesis
    unfolding handleFullSdr_Inr [OF assms] by (simp add: find_sensor_def find_update_record)
next
  case False
  then have "find_sensor (v ! 2) dev = None" by (simp add: find_sensor_None)
  with False show ?thesis
    unfolding handleFullSdr_Inr [OF assms] by (simp add: find_sensor_def find_append split: option.split)
qed

lemma handleFullSdr_numbers:
  assumes "handleFullSdr h v dev = Inr dev'"
  shows "sensor_numbers dev' = sensor_numbers dev @ (if v ! 2 \<in> set (sensor_numbers dev) then [] else [v ! 2])"
  unfolding handleFullSdr_Inr [OF assms] by (simp add: sensor_numbers_def map_update_record)

lemma handleCompactSdr_numbers:
  assumes "handleCompactSdr h v dev = Inr dev'"
  shows "sensor_numbers dev' = sensor_numbers dev @ (if v ! 2 \<in> set (sensor_numbers dev) then [] else [v ! 2])"
proof -
  have "26 < length v" "27 + unat (v ! 26 AND 0x1F) \<le> length v"
    using assms unfolding handleCompactSdr_def by (auto simp: vec_at_Inr_iff slice_Inr_iff elim!: rbind_InrE)
  then show ?thesis
    using assms
    by (auto simp: handleCompactSdr_def slice_def isSensorDiscovered_iff Let_def split: if_splits)
      (simp_all add: sensor_numbers_def map_update_record)
qed

lemma handle_sdr_numbers:
  assumes "handle_sdr h v dev = Inr dev'"
  shows "sensor_numbers dev' = sensor_numbers dev \<or>
    sensor_numbers dev' = sensor_numbers dev @ [v ! 2] \<and> v ! 2 \<notin> set (sensor_numbers dev)"
  using assms handleFullSdr_numbers [of h v dev dev'] handleCompactSdr_numbers [of h v dev dev']
  by (auto simp: handle_sdr_def split: if_splits)

text \<open>\<open>b\<close> extends the sensor list of \<open>a\<close> by numbers that are new and distinct.\<close>

definition extends_sensors :: "VITA4611Device \<Rightarrow> VITA4611Device \<Rightarrow> bool" where
  "extends_sensors a b \<longleftrightarrow> (\<exists>new. sensor_numbers b = sensor_numbers a @ new \<and> distinct new \<and>
     set new \<inter> set (sensor_numbers a) = {})"

lemma extends_refl [simp]: "extends_sensors a a"
  unfolding extends_sensors_def by (rule exI [of _ "[]"]) simp

lemma extends_trans: "extends_sensors a b \<Longrightarrow> extends_sensors b c \<Longrightarrow> extends_sensors a c"
proof -
  assume "extends_sensors a b" "extends_sensors b c"
  then obtain n1 n2 where "sensor_numbers b = sensor_numbers a @ n1" "distinct n1" "set n1 \<inter> set (sensor_numbers a) = {}"
    "sensor_numbers c = sensor_numbers b @ n2" "distinct n2" "set n2 \<inter> set (sensor_numbers b) = {}"
    by (auto simp: extends_sensors_def)
  then show ?thesis unfolding extends_sensors_def by (intro exI [of _ "n1 @ n2"]) auto
qed

lemma extends_handle_sdr: "handle_sdr h v dev = Inr dev' \<Longrightarrow> extends_sensors dev dev'"
  using handle_sdr_numbers [of h v dev dev'] by (auto simp: extends_sensors_def)

lemma io_bind_Inr_iff: "io_bind m f w = (Inr y, w') \<longleftrightarrow> (\<exists>x w1. m w = (Inr x, w1) \<and> f x w1 = (Inr y, w'))"
  by (auto simp: io_bind_def split: prod.splits sum.splits)

lemma io_try_Inl_Uninit: "io_try m (io_lift (Inl Uninit_Read)) w = (Inr y, w') \<longleftrightarrow> m w = (Inr y, w')"
  by (auto simp: io_try_def split: prod.splits sum.splits if_splits)

lemma extends_read_one: "read_one_sdr ipmb res_id i dev w = (Inr dev', w') \<Longrightarrow> extends_sensors dev dev'"
  by (auto simp: read_one_sdr_def io_bind_Inr_iff split: if_splits intro: extends_handle_sdr)

lemma extends_sdr_loop: "sdr_loop ipmb res_id is dev w = (Inr dev', w') \<Longrightarrow> extends_sensors dev dev'"
  by (induction "is" arbitrary: dev w)
    (auto simp: io_bind_Inr_iff io_try_Inl_Uninit intro: extends_trans extends_read_one)

lemma extends_getAllSDRs: "getAllSDRs ipmb dev w = (Inr dev', w') \<Longrightarrow> extends_sensors dev dev'"
  by (auto simp: getAllSDRs_def io_bind_Inr_iff intro: extends_sdr_loop)

section \<open>Properties\<close>

text \<open>A device with a single full record: sensor 1, one-letter name.\<close>

definition example_body :: "byte list" where
  "example_body = replicate 42 1 @ [0xC1, 0x41]"

definition example_sdr :: "byte list" where
  "example_sdr = [0, 0, 0x51, 1, 44] @ example_body"

definition example_ipmb :: "unit ipmb" where
  "example_ipmb ch addr netfn lun cmd d w =
     (Reply (0, NETFN_S_E OR 1, 0, IPMITOOL_CMD_GET_SDR, 0, [1, 0] @ take (unat (d ! 5)) (drop (unat (d ! 4)) example_sdr)), w)"

lemma example_serves: "serves_sdr (\<lambda>_. True) example_ipmb dev (0, 0) n [1, 0] example_sdr"
  by (simp add: serves_sdr_def example_ipmb_def)

text \<open>
  C21. For a device that answers \<open>Get SDR\<close> from a record of 5 + n bytes, every request \<open>getSDRVals\<close>
  makes lies inside the record, the loop ends, and the chunks it collects are exactly the body of
  the record, for every length 0..255.
\<close>

theorem sdr_read_complete:
  assumes "serves_sdr ready ipmb dev res_id n nxt R" "length R = 5 + unat len" "ready w"
  shows "\<exists>w'. getSDRVals ipmb dev res_id n len w = (Inr (drop 5 R), w') \<and> ready w'"
  using getSDRVals_loop_serves [OF assms, of 0 "[]"] by (simp add: getSDRVals_def)

theorem sdr_read_complete_witness:
  "\<exists>w'. getSDRVals example_ipmb (device_blank 0 0x82) (0, 0) 0 44 () = (Inr example_body, w')"
proof -
  have len: "length example_sdr = 5 + unat (44 :: byte)" and "drop 5 example_sdr = example_body"
    by (simp_all add: example_sdr_def example_body_def)
  with sdr_read_complete [OF example_serves len TrueI, of "device_blank 0 0x82" 0 "()"] show ?thesis by simp
qed

lemma read_one_full_sdr:
  assumes serves: "serves_sdr ready ipmb dev res_id n nxt R" and ready: "ready w"
    and len: "length R = 5 + unat (R ! 4)"
    and full: "R ! 3 = 1" and name: "48 + unat (R ! 47 AND 0x1F) \<le> length R"
  shows "\<exists>dev' w'. read_one_sdr ipmb res_id n dev w = (Inr dev', w') \<and> ready w' \<and>
    find_sensor (R ! 7) dev' = Some (full_sdr_record (nxt @ take 5 R) (drop 5 R) (take (unat (R ! 47 AND 0x1F)) (drop 48 R))) \<and>
    (\<forall>m. m \<noteq> R ! 7 \<longrightarrow> find_sensor m dev' = find_sensor m dev)"
proof -
  let ?h = "nxt @ take 5 R" and ?v = "drop 5 R"
  have two: "length nxt = 2" using serves by (simp add: serves_sdr_def)
  have h: "length ?h = 7" "?h ! 5 = R ! 3" "?h ! 6 = R ! 4"
    using two name by (simp_all add: nth_append)
  have v: "?v ! 2 = R ! 7" "?v ! 42 = R ! 47" "drop 43 ?v = drop 48 R"
    using name by simp_all
  obtain w1 where w1: "getSDRHeader ipmb dev res_id n w = (Inr ?h, w1)"
    and r1: "ready w1"
    using serves_get_sdr [OF serves ready, of 5 0] len unfolding getSDRHeader_def by auto
  obtain w2 where w2: "getSDRVals ipmb dev res_id n (R ! 4) w1 = (Inr ?v, w2)"
    and r2: "ready w2"
    using getSDRVals_loop_serves [OF serves len r1, of 0 "[]"] by (auto simp: getSDRVals_def)
  have "43 + unat (?v ! 42 AND 0x1F) \<le> length ?v"
    unfolding v(2) length_drop using name by linarith
  then obtain dev' where dev': "handleFullSdr ?h ?v dev = Inr dev'"
    using handleFullSdr_defined by blast
  have "read_one_sdr ipmb res_id n dev w = (Inr dev', w2)"
    using w1 w2 h full dev' by (simp add: read_one_sdr_def io_bind_def handle_sdr_def)
  then show ?thesis
    using handleFullSdr_find [OF dev'] v r2 by auto
qed

text \<open>
  Reading one full sensor record of such a device leaves exactly one change: looking up the
  sensor number of the record gives a sensor whose name, units, raw and converted nominal reading,
  coefficients and thresholds are those of the record; every other sensor is as before.
\<close>

theorem full_sdr_discovered:
  assumes serves: "serves_sdr ready ipmb dev res_id n nxt R" and ready: "ready w"
    and len: "length R = 5 + unat (R ! 4)"
    and full: "R ! 3 = 1" and name: "48 + unat (R ! 47 AND 0x1F) \<le> length R"
  shows "\<exists>dev' w'. read_one_sdr ipmb res_id n dev w = (Inr dev', w') \<and> ready w' \<and>
    find_sensor (R ! 7) dev' = Some (full_sdr_record (nxt @ take 5 R) (drop 5 R) (take (unat (R ! 47 AND 0x1F)) (drop 48 R))) \<and>
    (\<forall>m. m \<noteq> R ! 7 \<longrightarrow> find_sensor m dev' = find_sensor m dev)"
  using assms by (rule read_one_full_sdr)

text \<open>
  Reading all records never loses or renumbers a sensor: the sensor list afterwards is the old
  one followed by sensors with new, pairwise distinct numbers.
\<close>

theorem getAllSDRs_extends:
  assumes "getAllSDRs ipmb dev w = (Inr dev', w')"
  shows "\<exists>new. sensor_numbers dev' = sensor_numbers dev @ new \<and> distinct new \<and>
     set new \<inter> set (sensor_numbers dev) = {}"
  using extends_getAllSDRs [OF assms] by (simp add: extends_sensors_def)

lemma getSensorReadings_fields:
  "getSensorReadings ipmb dev ss w = (Inr ss', w') \<Longrightarrow> s \<in> set ss \<Longrightarrow> sdr_fields s \<noteq> None"
  by (induction ss arbitrary: w ss' w')
    (auto simp: io_bind_Inr_iff getSensorReading_def)

text \<open>\<open>s'\<close> is sensor \<open>s\<close> after a reading.\<close>

definition polled :: "SensorRecord \<Rightarrow> SensorRecord \<Rightarrow> bool" where
  "polled s s' \<longleftrightarrow> sensorNumber s' = sensorNumber s \<and> sdr_fields s' = sdr_fields s \<and>
     reading_converted s' = map_option (\<lambda>f. convert_with f (raw_reading s')) (sdr_fields s) \<and>
     sensorIface s' = (if sensorIface s = None then None else reading_converted s')"

lemma getSensorReading_polled: "getSensorReading ipmb dev ch s w = (Inr s', w') \<Longrightarrow> polled s s'"
  by (auto simp: io_bind_Inr_iff getSensorReading_def Let_def polled_def)

lemma getSensorReadings_polled:
  "getSensorReadings ipmb dev ss w = (Inr ss', w') \<Longrightarrow> list_all2 polled ss ss'"
  by (induction ss arbitrary: w ss' w') (auto simp: io_bind_Inr_iff dest: getSensorReading_polled)



section \<open>Requests a discovery makes\<close>

text \<open>A property of the outside that a computation keeps, whatever its result.\<close>

definition io_keeps :: "('w \<Rightarrow> bool) \<Rightarrow> ('w, 'a) io \<Rightarrow> bool" where
  "io_keeps I m \<longleftrightarrow> (\<forall>w. I w \<longrightarrow> I (snd (m w)))"

lemma io_keeps_ret [simp, intro!]: "io_keeps I (io_ret x)"
  by (simp add: io_keeps_def)

lemma io_keeps_lift [simp, intro!]: "io_keeps I (io_lift r)"
  by (simp add: io_keeps_def)

lemma io_keeps_bind: "io_keeps I m \<Longrightarrow> (\<And>x. io_keeps I (f x)) \<Longrightarrow> io_keeps I (io_bind m f)"
  unfolding io_keeps_def io_bind_def by (fastforce split: prod.splits sum.splits)

lemma io_keeps_try: "io_keeps I m \<Longrightarrow> io_keeps I h \<Longrightarrow> io_keeps I (io_try m h)"
  unfolding io_keeps_def io_try_def by (fastforce split: prod.splits sum.splits)

lemma io_keeps_request:
  assumes "\<And>w. I w \<Longrightarrow> I (snd (ipmb channel addr netfn 0 cmd d w))"
  shows "io_keeps I (request_data ipmb channel addr netfn cmd d)"
  using assms unfolding io_keeps_def request_data_def sendIPMBRequest_def
  by (auto split: prod.splits dbus_reply.splits if_splits) (metis snd_conv)+

text \<open>The requests of \<open>getAllSDRs\<close> all go to the sensor network function.\<close>

lemma io_keeps_getSDRVals_loop:
  assumes "\<And>channel addr cmd d. io_keeps I (request_value ipmb channel addr NETFN_S_E cmd d)"
  shows "io_keeps I (getSDRVals_loop ipmb dev res_id n len t st acc)"
  using assms
  by (induction ipmb dev res_id n len t st acc rule: getSDRVals_loop.induct)
    (subst getSDRVals_loop.simps, auto simp: Let_def get_sdr_def intro!: io_keeps_bind)

lemma io_keeps_getAllSDRs:
  assumes "\<And>channel addr cmd d w. I w \<Longrightarrow> I (snd (ipmb channel addr NETFN_S_E 0 cmd d w))"
  shows "io_keeps I (getAllSDRs ipmb dev)"
proof -
  have req: "io_keeps I (request_value ipmb channel addr NETFN_S_E cmd d)" for channel addr cmd d
    unfolding request_value_def by (intro io_keeps_bind io_keeps_request io_keeps_lift assms)
  note vals = io_keeps_getSDRVals_loop [OF req]
  have one: "io_keeps I (read_one_sdr ipmb res_id i dev)" for res_id i dev
    unfolding read_one_sdr_def getSDRHeader_def get_sdr_def getSDRVals_def
    by (auto intro!: io_keeps_bind req vals)
  have loop: "io_keeps I (sdr_loop ipmb res_id is dev)" for res_id "is" dev
    by (induction "is" arbitrary: dev) (auto intro!: io_keeps_bind io_keeps_try one)
  show ?thesis
    unfolding getAllSDRs_def reserveSDRRepo_def by (auto intro!: io_keeps_bind req loop)
qed

lemma io_keeps_enumerate:
  assumes "\<And>channel a nf cmd d w. (nf, cmd, d) \<noteq> (NETFN_VITA4611, VITA4611_GET_MANDATORY_SENSOR_NUMBERS_CMD, [3, k]) \<Longrightarrow>
      I w \<Longrightarrow> I (snd (ipmb channel a nf 0 cmd d w))"
    and "fru \<noteq> k"
  shows "io_keeps I (enumerateFRUSensors ipmb fru addr dev)"
proof -
  have "io_keeps I (getAllSDRs ipmb dev)" for dev
    by (rule io_keeps_getAllSDRs) (simp add: assms(1) NETFN_S_E_def NETFN_VITA4611_def)
  then show ?thesis
    unfolding enumerateFRUSensors_def
    by (intro io_keeps_bind io_keeps_request)
      (use assms in \<open>auto intro!: io_keeps_bind simp: NETFN_S_E_def NETFN_VITA4611_def NETFN_STORAGE_def\<close>)
qed

text \<open>
  A device that reports a highest FRU device id other than 0 is never asked for the mandatory
  sensors of that FRU: whatever in the outside world only such a request could change stays
  unchanged by \<open>discoverFRUs\<close>, although the comment promises the sensors of each FRU. (The loop
  runs to \<open>MaxFRUDeviceID\<close> exclusively.)
\<close>

theorem last_fru_not_enumerated:
  assumes "vsocaps dev = Some caps" "MaxFRUDeviceID caps \<noteq> 0"
    and "\<And>channel a nf cmd d w.
      (nf, cmd, d) \<noteq> (NETFN_VITA4611, VITA4611_GET_MANDATORY_SENSOR_NUMBERS_CMD, [3, MaxFRUDeviceID caps]) \<Longrightarrow>
      I w \<Longrightarrow> I (snd (ipmb channel a nf 0 cmd d w))"
    and "I w"
  shows "I (snd (discoverFRUs ipmb dev w))"
proof -
  have "io_keeps I (fru_loop ipmb is dev)" if "\<forall>i \<in> set is. i < unat (MaxFRUDeviceID caps)" for "is" dev
    using that
  proof (induction "is" arbitrary: dev)
    case (Cons i "is")
    then have "unat (of_nat i :: byte) = i"
      using unat_byte_less [of "MaxFRUDeviceID caps"] by (intro unat_of_nat_byte) (auto intro: less_trans)
    then have "(of_nat i :: byte) \<noteq> MaxFRUDeviceID caps" using Cons.prems by auto
    then have "io_keeps I (enumerateFRUSensors ipmb (of_nat i) addr dev)" for addr dev
      by (rule io_keeps_enumerate [where k = "MaxFRUDeviceID caps", rotated]) (rule assms(3))
    with Cons show ?case by (auto intro!: io_keeps_bind)
  qed simp
  then have "io_keeps I (fru_loop ipmb [0..<unat (MaxFRUDeviceID caps)] dev)" by simp
  with assms(1,2,4) show ?thesis by (simp add: io_keeps_def discoverFRUs_def)
qed

text \<open>The outside world as the log of the requests for mandatory sensors; the device has FRUs 0 and 1.\<close>

definition logging_ipmb :: "byte list list ipmb" where
  "logging_ipmb ch addr nf lun cmd d w =
     (Call_Exception, if nf = NETFN_VITA4611 \<and> cmd = VITA4611_GET_MANDATORY_SENSOR_NUMBERS_CMD then w @ [d] else w)"

definition two_frus :: VSOCaps where
  "two_frus = \<lparr>VSOIdentifier = 3, IPMCIdentifier = 0, IPMBCapabilities = 0, VSOStandard = 0, VSORevision = 0,
     MaxFRUDeviceID = 1, IPMCFRUDeviceID = 0\<rparr>"

end
