(* ===== verification/Vita_Manager.thy ===== *)
theory Vita_Manager
  imports Vita_Device
begin

text \<open>
  The chassis manager itself (\<open>class VITA4611_ChassisManager\<close> of \<open>vita4611cm.cpp\<close> and the IPMI entry
  points of \<open>vita4611.cpp\<close>): the device map built by the enumeration of the I2C bus, the handlers
  of the VITA 46.11 commands, their dispatch, the pass-through of commands to devices, the polling
  of sensors, and the request queue of the worker thread.

  \<open>deviceMap\<close> is a list of entries in key order whose pointers may be null (\<open>None\<close>): the
  subscript \<open>deviceMap[id]\<close> inserts a null entry for an unknown id. The manager is a static object,
  so members without initialiser are zero. The surroundings (IPMB, systemd, the fan PWM and the
  D-Bus sensor objects) are operations of an \<open>'w env\<close>.

  The theorems: what enumeration establishes, that commands keep the inventory and what they
  answer, set and get of the chassis identifier, the fan policy timer, what pass-through sends,
  and the requests after which the manager is locked out or faults.
\<close>

section \<open>State\<close>

record 'w env =
  env_ipmb :: "'w ipmb"
  env_unit :: "string \<Rightarrow> 'w \<Rightarrow> bool \<times> 'w"
    \<comment> \<open>\<open>StartUnit\<close> or \<open>StopUnit\<close> of the fan controller service; \<open>False\<close> when the call throws\<close>
  env_set_pwm :: "byte \<Rightarrow> 'w \<Rightarrow> bool \<times> 'w"
  env_get_pwm :: "'w \<Rightarrow> 64 word option \<times> 'w"
  env_fan_active :: "'w \<Rightarrow> bool \<times> 'w"
  env_create_object :: "string \<Rightarrow> byte list \<Rightarrow> byte \<Rightarrow> 'w \<Rightarrow> bool \<times> 'w"
    \<comment> \<open>a sensor object of a kind, sanitised name and device number\<close>

record CAT_entry =
  cat_hw_address :: byte
  cat_site_num :: byte
  cat_site_type :: byte

datatype cm_command = Cmd_IPMI nat | Cmd_Shutdown

record ChassisManager =
  chassis_id_type :: byte
  chassis_id_field :: "byte list"
  cat_entries_count :: byte
  cat_entries :: "CAT_entry list"
  ipmb_a_enable :: byte
  ipmb_b_enable :: byte
  ipmb_a_Link_ID :: byte
  ipmb_b_Link_ID :: byte
  address_count :: byte
  cm_site_type :: byte
  cm_site_number :: byte
  max_unavailable_time :: byte
  address_type :: byte
  ip_address :: "byte list"
  requestQueue :: "cm_command list"
  fanRestartTimer :: "nat option"
  i2cdevices :: "byte list"
  deviceMap :: "(byte \<times> VITA4611Device option) list"

type_synonym 'w handler = "ChassisManager \<Rightarrow> ('w, byte list \<times> ChassisManager) io"

definition CHMC_I2C_ADDRESS :: byte where "CHMC_I2C_ADDRESS = 0x20"
definition CHMC_IPMI_ADDRESS :: byte where "CHMC_IPMI_ADDRESS = push_bit 1 CHMC_I2C_ADDRESS"

definition ChassisManager_blank :: ChassisManager where
  "ChassisManager_blank =
     \<lparr>chassis_id_type = 0xC0, chassis_id_field = replicate 20 0, cat_entries_count = 0, cat_entries = [],
      ipmb_a_enable = 1, ipmb_b_enable = 1, ipmb_a_Link_ID = 0, ipmb_b_Link_ID = 0, address_count = 1,
      cm_site_type = 0, cm_site_number = 0x40 - 0x40, max_unavailable_time = 0x0a, address_type = 0x80,
      ip_address = [0xc0, 0xa8, 0x00, 0x68, 0x02, 0x6f], requestQueue = [], fanRestartTimer = None,
      i2cdevices = [], deviceMap = []\<rparr>"

section \<open>Finding devices\<close>

definition findDevice :: "(VITA4611Device \<Rightarrow> bool) \<Rightarrow> ChassisManager \<Rightarrow> VITA4611Device option" where
  "findDevice P cm = find P (List.map_filter snd (deviceMap cm))"

definition findDeviceByAddress :: "byte \<Rightarrow> ChassisManager \<Rightarrow> VITA4611Device option" where
  "findDeviceByAddress addr = findDevice (\<lambda>dev. ipmi_address dev = addr)"

definition findDeviceByPhysAddress :: "byte \<Rightarrow> ChassisManager \<Rightarrow> VITA4611Device option" where
  "findDeviceByPhysAddress addr = findDevice (\<lambda>dev. site_number dev = addr)"

definition findDeviceByHwAddress :: "byte \<Rightarrow> ChassisManager \<Rightarrow> VITA4611Device option" where
  "findDeviceByHwAddress addr = findDevice (\<lambda>dev. hw_address dev = addr)"

definition getDeviceByID :: "byte \<Rightarrow> ChassisManager \<Rightarrow> VITA4611Device option" where
  "getDeviceByID i = findDevice (\<lambda>dev. device_id dev = Some i)"

definition verify_ipmi_address_is_valid :: "byte \<Rightarrow> ChassisManager \<Rightarrow> bool" where
  "verify_ipmi_address_is_valid addr cm \<longleftrightarrow> drop_bit 1 addr \<in> set (i2cdevices cm)"

text \<open>\<open>deviceMap[id]\<close>: the pointer, and the map with its possibly new null entry.\<close>

definition device_subscript :: "byte \<Rightarrow> ChassisManager \<Rightarrow> VITA4611Device option \<times> ChassisManager" where
  "device_subscript i cm =
     (case omap_subscript None i (deviceMap cm) of (p, m) \<Rightarrow> (p, cm\<lparr>deviceMap := m\<rparr>))"

section \<open>Enumeration of the bus\<close>

text \<open>
  \<open>responding\<close> are the addresses that answer the probe, in increasing order. The device for the
  manager's own address gets key 0, the others count from 1. Every device gets device id 0 and
  every table entry site number 0.
\<close>

definition add_device :: "byte \<Rightarrow> byte \<Rightarrow> VITA4611Device \<Rightarrow> ChassisManager \<Rightarrow> ChassisManager" where
  "add_device addr k dev cm =
     (let dev' = dev\<lparr>device_id := Some 0\<rparr> in
      cm\<lparr>i2cdevices := i2cdevices cm @ [addr], deviceMap := omap_update k (Some dev') (deviceMap cm),
         cat_entries := cat_entries cm @ [\<lparr>cat_hw_address = hw_address dev', cat_site_num = 0,
                                            cat_site_type = dev_site_type dev'\<rparr>],
         cat_entries_count := cat_entries_count cm + 1\<rparr>)"

fun enumerate_loop ::
  "'w ipmb \<Rightarrow> nat \<Rightarrow> byte list \<Rightarrow> ChassisManager \<Rightarrow> ('w, ChassisManager) io" where
  "enumerate_loop ipmb n [] cm = io_ret cm"
| "enumerate_loop ipmb n (addr # addrs) cm =
     io_bind (VITA4611Device_new ipmb 0 (push_bit 1 addr)) (\<lambda>dev.
       if addr = CHMC_I2C_ADDRESS then enumerate_loop ipmb n addrs (add_device addr 0 dev cm)
       else enumerate_loop ipmb (n + 1) addrs (add_device addr (of_nat n) dev cm))"

definition probe_addresses :: "byte list" where
  "probe_addresses = map of_nat [0x3..<0x78]"

definition enumerateI2CDevices :: "'w ipmb \<Rightarrow> (byte \<Rightarrow> bool) \<Rightarrow> ChassisManager \<Rightarrow> ('w, ChassisManager) io" where
  "enumerateI2CDevices ipmb responds cm =
     enumerate_loop ipmb 1 (filter responds probe_addresses) cm"

definition get_device_list :: "ChassisManager \<Rightarrow> byte list" where
  "get_device_list cm = map (push_bit 1) (i2cdevices cm)"

definition lcrgetdevicelist :: "ChassisManager \<Rightarrow> byte list" where
  "lcrgetdevicelist cm = CHMC_IPMI_ADDRESS # get_device_list cm"

section \<open>Command handlers\<close>

text \<open>
  A handler gets the whole request (address, network function, LUN, command, then its arguments)
  and returns the response data, empty for a rejected request, and the manager afterwards.
\<close>

definition reject :: "'w handler" where
  "reject cm = io_ret ([], cm)"

definition accept :: "byte list \<Rightarrow> 'w handler" where
  "accept data cm = io_ret (0x03 # data, cm)"

definition getShMCVSOCaps :: "byte list" where
  "getShMCVSOCaps = [push_bit 4 1 OR 2, 1, 0, 0, 1, 0]"

text \<open>The six address bytes of a device.\<close>

definition device_address :: "VITA4611Device \<Rightarrow> byte list res" where
  "device_address dev =
     rbind (of_opt Uninit_Read (device_id dev)) (\<lambda>i.
       Inr [hw_address dev, ipmi_address dev, 0xFF, i, site_number dev, dev_site_type dev])"

definition VITA4611_GET_FRU_ADDRESS_INFO_CMD :: byte where "VITA4611_GET_FRU_ADDRESS_INFO_CMD = 0x40"

text \<open>
  For key type 3 with a site type other than 0 the local pointer \<open>Dev\<close> is never assigned; for an
  unknown key it is null. Both are dereferenced.
\<close>

definition getAddTable :: "'w ipmb \<Rightarrow> byte list \<Rightarrow> 'w handler" where
  "getAddTable ipmb reqdata cm =
     (if length reqdata < 8 then reject cm
      else
        let fru_dev_id = reqdata ! 4; addr_key_type = reqdata ! 5;
            addr_key = reqdata ! 6; site_type = reqdata ! 7
        in
        if unat addr_key_type > 3 \<or> addr_key_type = 2 \<or> cat_entries cm = [] then reject cm
        else if addr_key_type = 3 \<and> site_type = 0 then
          io_bind (io_lift (of_opt Null_Deref (findDeviceByPhysAddress addr_key cm))) (\<lambda>dev.
          io_bind (io_lift (device_address dev)) (\<lambda>a. accept a cm))
        else
          io_bind (io_lift (if addr_key_type = 3 then Inl Uninit_Read
                            else of_opt Null_Deref (if addr_key_type = 0 then findDeviceByHwAddress addr_key cm
                                                    else findDeviceByAddress addr_key cm))) (\<lambda>dev.
          io_bind (if fru_dev_id \<noteq> 0
                   then request_data ipmb 0 (ipmi_address dev) NETFN_VITA4611 VITA4611_GET_FRU_ADDRESS_INFO_CMD
                          [0x03, fru_dev_id]
                   else io_ret None) (\<lambda>resp.
            case resp of
              Some info \<Rightarrow> io_bind (io_lift (slice info 1 6)) (\<lambda>a. accept a cm)
            | None \<Rightarrow> io_bind (io_lift (device_address dev)) (\<lambda>a. accept a cm))))"

definition getChassisManagerIpAddresses :: "byte \<Rightarrow> 'w handler" where
  "getChassisManagerIpAddresses addr_num cm =
     (if addr_num \<noteq> 0 then reject cm
      else accept ([address_count cm, cm_site_type cm, cm_site_number cm, max_unavailable_time cm,
             address_type cm] @ ip_address cm) cm)"

definition getChassisIdentifier :: "'w handler" where
  "getChassisIdentifier cm = accept (chassis_id_type cm # chassis_id_field cm) cm"

text \<open>The bytes given overwrite the front of the 20-byte field; the rest of it stays.\<close>

definition setChassisIdentifier :: "byte list \<Rightarrow> 'w handler" where
  "setChassisIdentifier reqdata cm =
     (if length reqdata < 5 then io_lift (Inl Out_Of_Bounds)
      else
        let chIdField = drop 5 reqdata in
        if length chIdField > 20 then reject cm
        else accept [] (cm\<lparr>chassis_id_type := reqdata ! 4,
               chassis_id_field := chIdField @ drop (length chIdField) (chassis_id_field cm)\<rparr>))"

text \<open>
  The length test admits five bytes although the sixth is read. The reset always goes to 0x8a;
  \<open>pdev\<close> only decides whether it is sent.
\<close>

definition fruControl :: "'w ipmb \<Rightarrow> byte list \<Rightarrow> 'w handler" where
  "fruControl ipmb reqdata cm =
     (if length reqdata < 5 then reject cm
      else if length reqdata < 6 then io_lift (Inl Out_Of_Bounds)
      else
        let fru_control_byte = reqdata ! 5; (pdev, cm') = device_subscript (reqdata ! 4) cm in
        if fru_control_byte = 0 \<or> fru_control_byte = 1 then
          io_bind (if pdev \<noteq> None
                   then request_data ipmb 0 0x8a 0x06 (if fru_control_byte = 0 then 0x02 else 0x03) [0x03]
                   else io_ret None) (\<lambda>_. accept [] cm')
        else if fru_control_byte = 2 \<or> fru_control_byte = 3 then accept [] cm'
        else reject cm')"

definition setIpmbState :: "byte list \<Rightarrow> 'w handler" where
  "setIpmbState reqdata cm =
     (if length reqdata < 6 then reject cm
      else
        let a = reqdata ! 4; b = reqdata ! 5;
            cm1 = (if a = 0xFF then cm else cm\<lparr>ipmb_a_enable := a mod 2, ipmb_a_Link_ID := drop_bit 1 a\<rparr>);
            cm2 = (if b = 0xFF then cm1 else cm1\<lparr>ipmb_b_enable := b mod 2, ipmb_b_Link_ID := drop_bit 1 b\<rparr>)
        in accept [] cm2)"

definition update_device :: "byte \<Rightarrow> VITA4611Device \<Rightarrow> ChassisManager \<Rightarrow> ChassisManager" where
  "update_device i dev cm = cm\<lparr>deviceMap := omap_update i (Some dev) (deviceMap cm)\<rparr>"

definition setFruStatePolicyBits :: "byte list \<Rightarrow> 'w handler" where
  "setFruStatePolicyBits reqdata cm =
     (if length reqdata < 7 then reject cm
      else if deviceMap cm = [] then reject cm
      else
        let (pdev, cm') = device_subscript (reqdata ! 4) cm in
        io_bind (io_lift (of_opt Null_Deref pdev)) (\<lambda>dev.
          accept [] (update_device (reqdata ! 4)
            (dev\<lparr>fru_activation_policy := Some (reqdata ! 5 AND reqdata ! 6)\<rparr>) cm')))"

definition getFruStatePolicyBits :: "byte \<Rightarrow> 'w handler" where
  "getFruStatePolicyBits devId cm =
     (if deviceMap cm = [] then reject cm
      else
        let (pdev, cm') = device_subscript devId cm in
        io_bind (io_lift (of_opt Null_Deref pdev)) (\<lambda>dev.
        io_bind (io_lift (of_opt Uninit_Read (fru_activation_policy dev))) (\<lambda>p. accept [p] cm')))"

definition setFruActivation :: "byte list \<Rightarrow> 'w handler" where
  "setFruActivation reqdata cm =
     (if length reqdata < 6 then reject cm
      else if deviceMap cm = [] then reject cm
      else
        let (pdev, cm') = device_subscript (reqdata ! 4) cm; directive = reqdata ! 5 in
        if directive = 0 \<or> directive = 1 then
          io_bind (io_lift (of_opt Null_Deref pdev)) (\<lambda>dev.
            accept [] (update_device (reqdata ! 4) (dev\<lparr>fru_activation_flag := Some directive\<rparr>) cm'))
        else reject cm')"

definition getDeviceLocatorRecordId :: "byte list \<Rightarrow> 'w handler" where
  "getDeviceLocatorRecordId reqdata cm =
     (if length reqdata < 5 then reject cm
      else if deviceMap cm = [] then reject cm
      else
        let (pdev, cm') = device_subscript (reqdata ! 4) cm in
        io_bind (io_lift (of_opt Null_Deref pdev)) (\<lambda>dev.
        io_bind (io_lift (of_opt Uninit_Read (device_id dev))) (\<lambda>_. accept [] cm')))"

definition getChassisManagerIpmbAddress :: "'w handler" where
  "getChassisManagerIpmbAddress cm = accept [0x20, 0x0] cm"

section \<open>Fan commands\<close>

text \<open>A call of the surroundings that may throw; \<open>True\<close> when it returned.\<close>

definition io_call :: "('w \<Rightarrow> 'a \<times> 'w) \<Rightarrow> ('w, 'a) io" where
  "io_call f w = (case f w of (x, w') \<Rightarrow> (Inr x, w'))"

definition getFanSpeedProperties :: "byte list \<Rightarrow> 'w handler" where
  "getFanSpeedProperties reqdata cm =
     (if length reqdata < 5 then reject cm else accept [0, 0xfd, 0x64, 0x80] cm)"

definition getFanLevel :: "'w env \<Rightarrow> byte list \<Rightarrow> 'w handler" where
  "getFanLevel env reqdata cm =
     (if length reqdata < 5 then reject cm
      else io_bind (io_call (env_get_pwm env)) (\<lambda>pwm.
           io_bind (io_call (env_fan_active env)) (\<lambda>active.
             accept [0xff, ucast (case pwm of Some v \<Rightarrow> v | None \<Rightarrow> 0), if active then 1 else 0] cm)))"

definition setFanLevel :: "'w env \<Rightarrow> byte list \<Rightarrow> 'w handler" where
  "setFanLevel env reqdata cm =
     (if length reqdata < 7 then reject cm
      else if reqdata ! 6 = 0 then
        io_bind (io_call (env_unit env ''StopUnit'')) (\<lambda>ok.
        io_bind (if ok then io_call (env_set_pwm env (reqdata ! 5)) else io_ret False) (\<lambda>_. accept [] cm))
      else io_bind (io_call (env_unit env ''StartUnit'')) (\<lambda>_. accept [] cm))"

text \<open>
  A pending restart is cancelled first. With the service disabled and a timeout other than 0 the
  service is stopped and, unless the stop threw, its restart scheduled.
\<close>

definition setFanPolicy :: "'w env \<Rightarrow> byte list \<Rightarrow> 'w handler" where
  "setFanPolicy env reqdata cm =
     (if length reqdata < 9 then reject cm
      else
        let tray_site_num = reqdata ! 4; fan_enable_state = reqdata ! 5; timeout = reqdata ! 6 in
        if tray_site_num \<noteq> 0 then reject cm
        else if unat timeout > 240 then reject cm
        else
          let cm1 = cm\<lparr>fanRestartTimer := None\<rparr> in
          if fan_enable_state = 0 then
            io_bind (if timeout \<noteq> 0 then io_call (env_unit env ''StopUnit'') else io_ret True) (\<lambda>ok.
              accept [] (if ok \<and> timeout \<noteq> 0 \<and> timeout \<noteq> 0xFF
                         then cm1\<lparr>fanRestartTimer := Some (unat timeout * 5)\<rparr> else cm1))
          else io_bind (io_call (env_unit env ''StartUnit'')) (\<lambda>_. accept [] cm1))"

definition fanRestart_expired :: "'w env \<Rightarrow> ('w, bool) io" where
  "fanRestart_expired env = io_call (env_unit env ''StartUnit'')"

definition getFanPolicy :: "'w env \<Rightarrow> byte list \<Rightarrow> 'w handler" where
  "getFanPolicy env reqdata cm =
     (if length reqdata < 7 then reject cm
      else io_bind (if reqdata ! 4 \<noteq> 0xFF then io_call (env_fan_active env) else io_ret False) (\<lambda>active.
           io_bind (io_lift (if reqdata ! 5 \<noteq> 0xFF \<or> reqdata ! 6 \<noteq> 0xFF then Inr 1 else Inl Uninit_Read)) (\<lambda>coverage.
             accept [if active then 1 else 0, coverage] cm)))"

section \<open>Dispatch\<close>

definition get_chm_fru_info :: "'w handler" where
  "get_chm_fru_info cm = accept [0x20, 0x40, 0xFF, 0x00, 0x00, 0x00, 0xFF, 0xFF] cm"

definition getFruAddressInfo :: "byte list \<Rightarrow> 'w handler" where
  "getFruAddressInfo reqdata cm =
     (if length reqdata < 4 \<or> (length reqdata > 4 \<and> length reqdata < 8) \<or> length reqdata > 8 then reject cm
      else if length reqdata = 4 then get_chm_fru_info cm
      else if reqdata ! 4 \<noteq> 0 then reject cm
      else if reqdata ! 5 \<noteq> 3 then reject cm
      else if reqdata ! 7 = 0 then
        io_bind (io_lift (of_opt Null_Deref (findDeviceByPhysAddress (reqdata ! 6) cm))) (\<lambda>dev.
        io_bind (io_lift (device_address dev)) (\<lambda>a. accept (a @ [0xFF, 0xFF]) cm))
      else accept [] cm)"

definition handleChMCommand :: "'w env \<Rightarrow> byte list \<Rightarrow> 'w handler" where
  "handleChMCommand env reqdata cm =
     (let netFn = reqdata ! 1; cmd = reqdata ! 3 in
      if length reqdata < 4 then io_lift (Inl Out_Of_Bounds)
      else if netFn \<noteq> NETFN_VITA4611 then reject cm
      else if cmd = 0x00 then io_ret (getShMCVSOCaps, cm)
      else if cmd = 0x01 then getAddTable (env_ipmb env) reqdata cm
      else if cmd = 0x21 then
        (if length reqdata > 4 then getChassisManagerIpAddresses (reqdata ! 4) cm else reject cm)
      else if cmd = 0x02 then getChassisIdentifier cm
      else if cmd = 0x03 then setChassisIdentifier reqdata cm
      else if cmd = 0x04 then fruControl (env_ipmb env) reqdata cm
      else if cmd = 0x09 then setIpmbState reqdata cm
      else if cmd = 0x0A then setFruStatePolicyBits reqdata cm
      else if cmd = 0x0B then
        (if length reqdata > 4 then getFruStatePolicyBits (reqdata ! 4) cm else reject cm)
      else if cmd = 0x0C then setFruActivation reqdata cm
      else if cmd = 0x0D then getDeviceLocatorRecordId reqdata cm
      else if cmd = 0x14 then getFanSpeedProperties reqdata cm
      else if cmd = 0x15 then setFanLevel env reqdata cm
      else if cmd = 0x16 then getFanLevel env reqdata cm
      else if cmd = 0x1C then setFanPolicy env reqdata cm
      else if cmd = 0x1D then getFanPolicy env reqdata cm
      else if cmd = 0x1B then getChassisManagerIpmbAddress cm
      else if cmd = 0x40 then getFruAddressInfo reqdata cm
      else if cmd = 0x44 then getDeviceLocatorRecordId reqdata cm
      else reject cm)"

section \<open>Pass-through\<close>

datatype ipmi_rsp =
    Rsp_Success "byte list"
  | Rsp_IllegalCommand
  | Rsp_ReqDataLenInvalid
  | Rsp_CmdFailInitAgent
  | Rsp_InvalidCommandOnLun
  | Rsp_Code byte
  | Rsp_UnspecifiedError

definition select_channel :: "ChassisManager \<Rightarrow> byte option" where
  "select_channel cm =
     (if ipmb_a_enable cm = 1 then Some 0
      else if ipmb_a_enable cm = 0 \<and> ipmb_b_enable cm = 1 then Some 4
      else None)"

text \<open>
  One request on behalf of the caller. After a method error the completion code the caller gets is
  indeterminate, except for Get VSO Capabilities, which has a fixed error response.
\<close>

definition forward ::
  "'w ipmb \<Rightarrow> byte \<Rightarrow> byte \<Rightarrow> byte \<Rightarrow> byte \<Rightarrow> byte \<Rightarrow> byte list \<Rightarrow> bool \<Rightarrow> ('w, ipmi_rsp) io" where
  "forward ipmb ch addr netFn lun cmd payload fixed_error w =
     (case sendIPMBRequest ipmb ch addr netFn lun cmd payload w of
        ((Some resp, cc), w') \<Rightarrow> (Inr (Rsp_Success (response_data resp)), w')
      | ((None, cc), w') \<Rightarrow>
          if fixed_error then (Inr Rsp_CmdFailInitAgent, w')
          else (map_sum id Rsp_Code (of_opt Uninit_Read cc), w'))"

definition execute_passthrough_cmd ::
  "'w env \<Rightarrow> byte list \<Rightarrow> ChassisManager \<Rightarrow> ('w, ipmi_rsp \<times> ChassisManager) io" where
  "execute_passthrough_cmd env reqdata cm =
     (case select_channel cm of
        None \<Rightarrow> io_ret (Rsp_IllegalCommand, cm)
      | Some ch \<Rightarrow>
          if length reqdata < 4 then io_ret (Rsp_ReqDataLenInvalid, cm)
          else
            let addr = reqdata ! 0; netFn = reqdata ! 1; lun = reqdata ! 2; cmd = reqdata ! 3 in
            if addr = CHMC_IPMI_ADDRESS then
              io_bind (handleChMCommand env reqdata cm) (\<lambda>(data, cm').
                io_ret (if data \<noteq> [] then Rsp_Success data else Rsp_IllegalCommand, cm'))
            else if \<not> verify_ipmi_address_is_valid addr cm then io_ret (Rsp_IllegalCommand, cm)
            else if findDeviceByAddress addr cm = None then
              io_ret (if netFn = NETFN_VITA4611 then Rsp_InvalidCommandOnLun else Rsp_UnspecifiedError, cm)
            else
              io_bind (forward (env_ipmb env) ch addr netFn lun cmd
                         ((if netFn = NETFN_VITA4611 then [0x03] else []) @ drop 4 reqdata)
                         (netFn = NETFN_VITA4611 \<and> cmd = VITA4611_GETVSOCAPS_CMD))
                (\<lambda>rsp. io_ret (rsp, cm)))"

section \<open>Polling\<close>

fun poll_entries ::
  "(VITA4611Device \<Rightarrow> ('w, VITA4611Device) io) \<Rightarrow> (byte \<times> VITA4611Device option) list \<Rightarrow>
   ('w, (byte \<times> VITA4611Device option) list) io" where
  "poll_entries f [] = io_ret []"
| "poll_entries f ((k, p) # m) =
     io_bind (io_lift (of_opt Null_Deref p)) (\<lambda>dev.
     io_bind (f dev) (\<lambda>dev'.
     io_bind (poll_entries f m) (\<lambda>m'. io_ret ((k, Some dev') # m'))))"

definition pollDeviceSensors :: "'w env \<Rightarrow> ChassisManager \<Rightarrow> ('w, ChassisManager) io" where
  "pollDeviceSensors env cm =
     io_bind (poll_entries (getAllSensorReadings (env_ipmb env)) (deviceMap cm))
       (\<lambda>m. io_ret (cm\<lparr>deviceMap := m\<rparr>))"

definition pollSDRs :: "'w env \<Rightarrow> ChassisManager \<Rightarrow> ('w, ChassisManager) io" where
  "pollSDRs env cm =
     io_bind (poll_entries (\<lambda>dev.
         io_bind (io_lift (of_opt Uninit_Read (dynamic_sensors dev))) (\<lambda>d.
           if d = 1 then checkSDRInfo (env_ipmb env) dev else io_ret dev)) (deviceMap cm))
       (\<lambda>m. io_ret (cm\<lparr>deviceMap := m\<rparr>))"

definition sensor_kind :: "string \<Rightarrow> string option" where
  "sensor_kind units =
     (if units = ''degrees C'' then Some ''temperature'' else if units = ''Volts'' then Some ''voltage''
      else if units = ''Amps'' then Some ''current'' else if units = ''Watts'' then Some ''power'' else None)"

text \<open>Publishing one sensor; a failure to create the object is caught and leaves the sensor as it is.\<close>

definition expose_sensor :: "'w env \<Rightarrow> byte \<Rightarrow> SensorRecord \<Rightarrow> ('w, SensorRecord) io" where
  "expose_sensor env num sensor =
     (case sensor_kind (SDR_Units sensor) of
        None \<Rightarrow> io_ret sensor
      | Some kind \<Rightarrow>
          io_bind (io_call (env_create_object env kind
                     (map (\<lambda>c. if c = 0x2d then 0x5f else c) (SDR_Name sensor)) num)) (\<lambda>ok.
            if \<not> ok then io_ret sensor
            else
              io_bind (io_lift (of_opt Uninit_Read (sdr_fields sensor))) (\<lambda>_.
              io_bind (io_lift (of_opt Uninit_Read (reading_converted sensor))) (\<lambda>v.
                io_ret (sensor\<lparr>sensorIface := Some v\<rparr>)))))"

fun expose_sensors :: "'w env \<Rightarrow> byte \<Rightarrow> SensorRecord list \<Rightarrow> ('w, SensorRecord list) io" where
  "expose_sensors env num [] = io_ret []"
| "expose_sensors env num (s # ss) =
     io_bind (expose_sensor env num s) (\<lambda>s'.
     io_bind (expose_sensors env num ss) (\<lambda>ss'. io_ret (s' # ss')))"

fun expose_entries ::
  "'w env \<Rightarrow> (byte \<times> VITA4611Device option) list \<Rightarrow> ('w, (byte \<times> VITA4611Device option) list) io" where
  "expose_entries env [] = io_ret []"
| "expose_entries env ((num, p) # m) =
     io_bind (io_lift (of_opt Null_Deref p)) (\<lambda>dev.
     io_bind (expose_sensors env num (sensors (fruinfo dev))) (\<lambda>ss.
     io_bind (getAllSensorReadings (env_ipmb env) (update_sensors (\<lambda>_. ss) dev)) (\<lambda>dev'.
     io_bind (expose_entries env m) (\<lambda>m'. io_ret ((num, Some dev') # m')))))"

definition exposeFruSensors :: "'w env \<Rightarrow> ChassisManager \<Rightarrow> ('w, ChassisManager) io" where
  "exposeFruSensors env cm =
     io_bind (expose_entries env (deviceMap cm)) (\<lambda>m. io_ret (cm\<lparr>deviceMap := m\<rparr>))"

definition ChassisManager_new :: "'w env \<Rightarrow> (byte \<Rightarrow> bool) \<Rightarrow> ('w, ChassisManager) io" where
  "ChassisManager_new env responds =
     io_bind (enumerateI2CDevices (env_ipmb env) responds ChassisManager_blank) (exposeFruSensors env)"

section \<open>The request queue\<close>

definition submit :: "nat \<Rightarrow> ChassisManager \<Rightarrow> ChassisManager" where
  "submit req cm = cm\<lparr>requestQueue := requestQueue cm @ [Cmd_IPMI req]\<rparr>"

definition sendShutdown :: "ChassisManager \<Rightarrow> ChassisManager" where
  "sendShutdown cm = cm\<lparr>requestQueue := requestQueue cm @ [Cmd_Shutdown]\<rparr>"

definition handleRequest :: "nat \<Rightarrow> byte list" where
  "handleRequest req = [0x00]"

text \<open>
  The worker until its queue is empty (it then waits) or it has taken a shutdown: the promises
  fulfilled, the rest of the queue, and whether the thread has ended.
\<close>

fun processLoop :: "cm_command list \<Rightarrow> (nat \<times> byte list) list \<times> cm_command list \<times> bool" where
  "processLoop [] = ([], [], False)"
| "processLoop (Cmd_Shutdown # q) = ([], q, True)"
| "processLoop (Cmd_IPMI req # q) =
     (case processLoop q of (done, rest, ended) \<Rightarrow> ((req, handleRequest req) # done, rest, ended))"

section \<open>What commands keep\<close>

text \<open>Two states of a device that differ in the FRU activation settings only.\<close>

definition same_device :: "VITA4611Device \<Rightarrow> VITA4611Device \<Rightarrow> bool" where
  "same_device d d' \<longleftrightarrow>
     d\<lparr>fru_activation_policy := None, fru_activation_flag := None\<rparr> =
     d'\<lparr>fru_activation_policy := None, fru_activation_flag := None\<rparr>"

definition devices_kept ::
  "(byte \<times> VITA4611Device option) list \<Rightarrow> (byte \<times> VITA4611Device option) list \<Rightarrow> bool" where
  "devices_kept m m' \<longleftrightarrow> (omap_ok m \<longrightarrow> omap_ok m' \<and>
     (\<forall>k d. map_of m k = Some (Some d) \<longrightarrow> (\<exists>d'. map_of m' k = Some (Some d') \<and> same_device d d')))"

definition inventory_kept :: "ChassisManager \<Rightarrow> ChassisManager \<Rightarrow> bool" where
  "inventory_kept cm cm' \<longleftrightarrow> i2cdevices cm' = i2cdevices cm \<and> cat_entries cm' = cat_entries cm \<and>
     requestQueue cm' = requestQueue cm \<and> devices_kept (deviceMap cm) (deviceMap cm')"

lemma same_device_refl [simp]: "same_device d d"
  by (simp add: same_device_def)

lemma same_device_trans: "same_device a b \<Longrightarrow> same_device b c \<Longrightarrow> same_device a c"
  by (simp add: same_device_def)

lemma same_device_updates [simp]:
  "same_device d (d\<lparr>fru_activation_policy := p\<rparr>)"
  "same_device d (d\<lparr>fru_activation_flag := f\<rparr>)"
  by (simp_all add: same_device_def)

lemma devices_kept_refl [simp]: "devices_kept m m"
  by (auto simp: devices_kept_def)

lemma devices_keptD:
  "devices_kept m m' \<Longrightarrow> omap_ok m \<Longrightarrow> map_of m k = Some (Some d) \<Longrightarrow>
   \<exists>d'. map_of m' k = Some (Some d') \<and> same_device d d'"
  unfolding devices_kept_def by blast

lemma devices_kept_trans:
  assumes "devices_kept a b" "devices_kept b c"
  shows "devices_kept a c"
  unfolding devices_kept_def
proof (intro impI conjI allI)
  assume ok: "omap_ok a"
  then show "omap_ok c" using assms by (simp add: devices_kept_def)
  fix k d assume "map_of a k = Some (Some d)"
  then obtain d' where "map_of b k = Some (Some d')" "same_device d d'" using assms(1) ok by (auto simp: devices_kept_def)
  moreover from this obtain d'' where "map_of c k = Some (Some d'')" "same_device d' d''"
    using assms ok by (fastforce simp: devices_kept_def)
  ultimately show "\<exists>d''. map_of c k = Some (Some d'') \<and> same_device d d''"
    using same_device_trans by blast
qed

lemma devices_kept_null: "map_of m i = None \<Longrightarrow> devices_kept m (omap_update i None m)"
  by (auto simp: devices_kept_def omap.lookup_update omap.ok_update)

lemma devices_kept_update:
  "map_of m i = Some (Some d) \<Longrightarrow> same_device d d' \<Longrightarrow> devices_kept m (omap_update i (Some d') m)"
  by (auto simp: devices_kept_def omap.lookup_update omap.ok_update)

lemma inventory_refl [simp]: "inventory_kept cm cm"
  by (simp add: inventory_kept_def)

lemma inventory_trans: "inventory_kept a b \<Longrightarrow> inventory_kept b c \<Longrightarrow> inventory_kept a c"
  unfolding inventory_kept_def by (metis devices_kept_trans)

lemma inventory_same_map:
  "deviceMap cm' = deviceMap cm \<Longrightarrow> i2cdevices cm' = i2cdevices cm \<Longrightarrow> cat_entries cm' = cat_entries cm \<Longrightarrow>
   requestQueue cm' = requestQueue cm \<Longrightarrow> inventory_kept cm cm'"
  by (simp add: inventory_kept_def)

lemma device_subscript_cases:
  assumes "device_subscript i cm = (p, cm')"
  obtains "map_of (deviceMap cm) i = Some p" "cm' = cm"
  | "map_of (deviceMap cm) i = None" "p = None" "cm' = cm\<lparr>deviceMap := omap_update i None (deviceMap cm)\<rparr>"
  using assms
  by (cases "map_of (deviceMap cm) i") (auto simp: device_subscript_def omap_subscript_def)

lemma inventory_subscript: "device_subscript i cm = (p, cm') \<Longrightarrow> inventory_kept cm cm'"
  by (erule device_subscript_cases) (simp_all add: inventory_kept_def devices_kept_null)

lemma inventory_update_device:
  assumes "device_subscript i cm = (Some d, cm')" "same_device d d'"
  shows "inventory_kept cm (update_device i d' cm')"
  using assms(1)
  by (rule device_subscript_cases)
    (simp_all add: inventory_kept_def update_device_def devices_kept_update [OF _ assms(2)])

text \<open>A service: requests run one after the other, each keeping a relation between states.\<close>

fun run_all :: "('c \<Rightarrow> 's \<Rightarrow> ('w, 'r \<times> 's) io) \<Rightarrow> 'c list \<Rightarrow> 's \<Rightarrow> ('w, 'r list \<times> 's) io" where
  "run_all run [] s = io_ret ([], s)"
| "run_all run (c # cs) s =
     io_bind (run c s) (\<lambda>(r, s'). io_bind (run_all run cs s') (\<lambda>(rs, s''). io_ret (r # rs, s'')))"

locale command_service =
  fixes run :: "'c \<Rightarrow> 's \<Rightarrow> ('w, 'r \<times> 's) io"
    and kept :: "'s \<Rightarrow> 's \<Rightarrow> bool"
  assumes kept_refl: "kept s s"
    and kept_trans: "kept s t \<Longrightarrow> kept t u \<Longrightarrow> kept s u"
    and run_kept: "run c s w = (Inr (r, s'), w') \<Longrightarrow> kept s s'"
begin

lemma run_all_kept: "run_all run cs s w = (Inr (rs, s'), w') \<Longrightarrow> kept s s'"
proof (induction cs arbitrary: s w rs)
  case Nil
  then show ?case by (simp add: kept_refl)
next
  case (Cons c cs)
  then obtain r t w1 rs' where "run c s w = (Inr (r, t), w1)" "run_all run cs t w1 = (Inr (rs', s'), w')"
    by (auto simp: io_bind_Inr_iff)
  with Cons.IH show ?case by (blast intro: kept_trans run_kept)
qed

end

named_theorems kept_intros "handlers that keep the inventory"

definition keeps_inventory :: "'w handler \<Rightarrow> bool" where
  "keeps_inventory h \<longleftrightarrow> (\<forall>cm w r cm' w'. h cm w = (Inr (r, cm'), w') \<longrightarrow> inventory_kept cm cm')"

lemma accept_Inr [simp]: "accept d cm w = (Inr (r, cm'), w') \<longleftrightarrow> r = 0x03 # d \<and> cm' = cm \<and> w' = w"
  by (auto simp: accept_def)

lemma reject_Inr [simp]: "reject cm w = (Inr (r, cm'), w') \<longleftrightarrow> r = [] \<and> cm' = cm \<and> w' = w"
  by (auto simp: reject_def)

lemma keeps_inventoryI:
  "(\<And>cm w r cm' w'. h cm w = (Inr (r, cm'), w') \<Longrightarrow> inventory_kept cm cm') \<Longrightarrow> keeps_inventory h"
  by (auto simp: keeps_inventory_def)

lemma keeps_inventoryD: "h cm w = (Inr (r, cm'), w') \<Longrightarrow> keeps_inventory h \<Longrightarrow> inventory_kept cm cm'"
  unfolding keeps_inventory_def by blast

text \<open>Handlers that only read.\<close>

lemma keeps_readers [kept_intros]:
  "keeps_inventory reject"
  "keeps_inventory (getAddTable ipmb d)"
  "keeps_inventory (getChassisManagerIpAddresses n)"
  "keeps_inventory getChassisIdentifier"
  "keeps_inventory (getFanSpeedProperties d)"
  "keeps_inventory (getFanLevel env d)"
  "keeps_inventory (setFanLevel env d)"
  "keeps_inventory (getFanPolicy env d)"
  "keeps_inventory getChassisManagerIpmbAddress"
  "keeps_inventory (getFruAddressInfo d)"
  "keeps_inventory (\<lambda>cm. io_ret (x, cm))"
  "keeps_inventory (\<lambda>cm. io_lift (Inl e))"
  by (auto intro!: keeps_inventoryI simp: io_bind_Inr_iff Let_def
      getAddTable_def getChassisManagerIpAddresses_def getChassisIdentifier_def getFanSpeedProperties_def
      getFanLevel_def setFanLevel_def getFanPolicy_def getChassisManagerIpmbAddress_def getFruAddressInfo_def
      get_chm_fru_info_def split: if_splits option.splits)

lemma keeps_setters [kept_intros]:
  "keeps_inventory (setChassisIdentifier d)"
  "keeps_inventory (setIpmbState d)"
  "keeps_inventory (setFanPolicy env d)"
  by (auto intro!: keeps_inventoryI inventory_same_map simp: io_bind_Inr_iff Let_def
      setChassisIdentifier_def setIpmbState_def setFanPolicy_def split: if_splits)

lemma keeps_device_setters [kept_intros]:
  "keeps_inventory (fruControl ipmb d)"
  "keeps_inventory (setFruStatePolicyBits d)"
  "keeps_inventory (getFruStatePolicyBits n)"
  "keeps_inventory (setFruActivation d)"
  "keeps_inventory (getDeviceLocatorRecordId d)"
  by (auto intro!: keeps_inventoryI inventory_update_device elim: inventory_subscript simp: io_bind_Inr_iff Let_def
      fruControl_def setFruStatePolicyBits_def getFruStatePolicyBits_def setFruActivation_def
      getDeviceLocatorRecordId_def split: if_splits prod.splits)

lemma keeps_handleChMCommand: "keeps_inventory (handleChMCommand env d)"
proof (rule keeps_inventoryI)
  fix cm w r cm' w' assume run: "handleChMCommand env d cm w = (Inr (r, cm'), w')"
  show "inventory_kept cm cm'"
    using run unfolding handleChMCommand_def Let_def
    by (auto split: if_splits elim!: keeps_inventoryD intro!: kept_intros)
qed

interpretation chm: command_service "execute_passthrough_cmd env" inventory_kept for env
proof
  show "inventory_kept cm cm'" if "execute_passthrough_cmd env d cm w = (Inr (r, cm'), w')" for d cm w r cm' w'
    using that
    by (auto simp: execute_passthrough_cmd_def Let_def io_bind_Inr_iff
        intro: keeps_inventoryD [OF _ keeps_handleChMCommand] split: option.splits if_splits prod.splits)
qed (auto intro: inventory_trans)

section \<open>What enumeration establishes\<close>

lemma handle_sdr_address:
  assumes "handle_sdr h v dev = Inr dev'"
  shows "ipmi_address dev' = ipmi_address dev"
  using assms
  by (auto simp: handle_sdr_def handleFullSdr_def handleCompactSdr_def Let_def split: if_splits elim!: rbind_InrE)

lemma getAllSDRs_address: "getAllSDRs ipmb dev w = (Inr dev', w') \<Longrightarrow> ipmi_address dev' = ipmi_address dev"
proof -
  have one: "read_one_sdr ipmb res_id i dev w = (Inr dev', w') \<Longrightarrow> ipmi_address dev' = ipmi_address dev"
    for res_id i dev dev' w w'
    by (auto simp: read_one_sdr_def io_bind_Inr_iff split: if_splits dest: handle_sdr_address)
  have "sdr_loop ipmb res_id is dev w = (Inr dev', w') \<Longrightarrow> ipmi_address dev' = ipmi_address dev"
    for res_id "is" dev dev' w w'
    by (induction "is" arbitrary: dev w) (auto simp: io_bind_Inr_iff io_try_Inl_Uninit dest!: one)
  then show "getAllSDRs ipmb dev w = (Inr dev', w') \<Longrightarrow> ipmi_address dev' = ipmi_address dev"
    by (auto simp: getAllSDRs_def io_bind_Inr_iff)
qed

lemma add_mandatory_address: "add_mandatory fru payload dev = Inr dev' \<Longrightarrow> ipmi_address dev' = ipmi_address dev"
  by (auto simp: add_mandatory_def Let_def elim!: rbind_InrE)

lemma map_sum_Inr_iff: "map_sum id f r = Inr y \<longleftrightarrow> (\<exists>x. r = Inr x \<and> y = f x)"
  by (cases r) auto

lemma enumerateFRUSensors_address:
  "enumerateFRUSensors ipmb fru addr dev w = (Inr dev', w') \<Longrightarrow> ipmi_address dev' = ipmi_address dev"
  by (auto simp: enumerateFRUSensors_def io_bind_Inr_iff map_sum_Inr_iff
      split: if_splits option.splits dest!: getAllSDRs_address add_mandatory_address)

lemma discoverFRUs_address: "discoverFRUs ipmb dev w = (Inr dev', w') \<Longrightarrow> ipmi_address dev' = ipmi_address dev"
proof -
  have "fru_loop ipmb is dev w = (Inr dev', w') \<Longrightarrow> ipmi_address dev' = ipmi_address dev" for "is" dev dev' w w'
    by (induction "is" arbitrary: dev w) (auto simp: io_bind_Inr_iff dest!: enumerateFRUSensors_address)
  then show "discoverFRUs ipmb dev w = (Inr dev', w') \<Longrightarrow> ipmi_address dev' = ipmi_address dev"
    by (auto simp: discoverFRUs_def io_bind_Inr_iff split: if_splits dest: enumerateFRUSensors_address)
qed

lemma query_address:
  "queryDeviceId ipmb addr dev w = (Inr dev', w') \<Longrightarrow> ipmi_address dev' = ipmi_address dev"
  "queryVsoCapabilities ipmb dev w = (Inr dev', w') \<Longrightarrow> ipmi_address dev' = ipmi_address dev"
  by (auto simp: queryDeviceId_def queryVsoCapabilities_def io_bind_Inr_iff split: option.splits)

lemma VITA4611Device_new_address:
  assumes "VITA4611Device_new ipmb ch addr w = (Inr dev, w')"
  shows "ipmi_address dev = addr"
proof -
  obtain d1 w1 where "queryDeviceId ipmb addr (device_blank ch addr) w = (Inr d1, w1)"
    and rest: "(if \<not> validDeviceID d1 then io_ret d1 else io_bind (queryVsoCapabilities ipmb d1)
      (\<lambda>d2. if isVITA4611Device d2 = Some True then discoverFRUs ipmb d2 else io_ret d2)) w1 = (Inr dev, w')"
    using assms unfolding VITA4611Device_new_def io_bind_Inr_iff by blast
  then have "ipmi_address d1 = addr" using query_address(1) by (force simp: device_blank_def)
  with rest show ?thesis
    by (auto simp: io_bind_Inr_iff split: if_splits dest!: query_address(2) discoverFRUs_address)
qed

text \<open>Every enumerated address has an entry, under keys below \<open>n\<close>.\<close>

definition enum_inv :: "nat \<Rightarrow> ChassisManager \<Rightarrow> bool" where
  "enum_inv n cm \<longleftrightarrow> omap_ok (deviceMap cm) \<and>
     (\<forall>k p. map_of (deviceMap cm) k = Some p \<longrightarrow> unat k < n \<and> p \<noteq> None \<and> (k = 0 \<longrightarrow> CHMC_I2C_ADDRESS \<in> set (i2cdevices cm))) \<and>
     (\<forall>a \<in> set (i2cdevices cm). \<exists>k dev. map_of (deviceMap cm) k = Some (Some dev) \<and> ipmi_address dev = push_bit 1 a)"

lemma enum_inv_add:
  assumes inv: "enum_inv n cm" and new: "map_of (deviceMap cm) k = None" and k: "unat k < n'" "n \<le> n'"
    and zero: "k = 0 \<Longrightarrow> addr = CHMC_I2C_ADDRESS" and dev: "ipmi_address dev = push_bit 1 addr"
  shows "enum_inv n' (add_device addr k dev cm)"
  unfolding enum_inv_def
proof (intro conjI ballI)
  let ?m = "deviceMap (add_device addr k dev cm)"
  have ok: "omap_ok (deviceMap cm)" using inv by (simp add: enum_inv_def)
  have m: "map_of ?m = (map_of (deviceMap cm))(k \<mapsto> Some (dev\<lparr>device_id := Some 0\<rparr>))"
    using ok by (simp add: add_device_def Let_def omap.lookup_update)
  show "omap_ok ?m" using ok by (simp add: add_device_def Let_def omap.ok_update)
  show "\<forall>k' p. map_of ?m k' = Some p \<longrightarrow> unat k' < n' \<and> p \<noteq> None \<and> (k' = 0 \<longrightarrow> CHMC_I2C_ADDRESS \<in> set (i2cdevices (add_device addr k dev cm)))"
    using inv k zero unfolding m
    by (auto simp: add_device_def Let_def enum_inv_def intro: less_le_trans)
  fix a assume "a \<in> set (i2cdevices (add_device addr k dev cm))"
  then consider "a \<in> set (i2cdevices cm)" | "a = addr" by (auto simp: add_device_def Let_def)
  then show "\<exists>k' d. map_of ?m k' = Some (Some d) \<and> ipmi_address d = push_bit 1 a"
  proof cases
    case 1
    then obtain k' d where "map_of (deviceMap cm) k' = Some (Some d)" "ipmi_address d = push_bit 1 a"
      using inv by (auto simp: enum_inv_def)
    then show ?thesis using new unfolding m by (intro exI [of _ k'] exI [of _ d]) auto
  qed (use dev m in auto)
qed

lemma enumerate_loop_inv:
  assumes "enumerate_loop ipmb n addrs cm w = (Inr cm', w')" "enum_inv n cm" "1 \<le> n" "n + length addrs \<le> 256"
    "distinct addrs" "CHMC_I2C_ADDRESS \<in> set addrs \<Longrightarrow> CHMC_I2C_ADDRESS \<notin> set (i2cdevices cm)"
  shows "enum_inv 256 cm' \<and> i2cdevices cm' = i2cdevices cm @ addrs"
  using assms
proof (induction addrs arbitrary: n cm w)
  case Nil
  then show ?case by (force simp: enum_inv_def)
next
  case (Cons addr addrs)
  obtain dev w1 where dev: "VITA4611Device_new ipmb 0 (push_bit 1 addr) w = (Inr dev, w1)"
    and rest: "(if addr = CHMC_I2C_ADDRESS then enumerate_loop ipmb n addrs (add_device addr 0 dev cm)
       else enumerate_loop ipmb (n + 1) addrs (add_device addr (of_nat n) dev cm)) w1 = (Inr cm', w')"
    using Cons.prems(1) unfolding enumerate_loop.simps io_bind_Inr_iff by blast
  note dev = VITA4611Device_new_address [OF dev]
  have devs: "i2cdevices (add_device addr k dev cm) = i2cdevices cm @ [addr]" for k
    by (simp add: add_device_def Let_def)
  have inv: "map_of (deviceMap cm) k = Some p \<Longrightarrow> unat k < n" "map_of (deviceMap cm) 0 = Some p \<Longrightarrow> CHMC_I2C_ADDRESS \<in> set (i2cdevices cm)" for k p
    using Cons.prems(2) by (auto simp: enum_inv_def)
  show ?case
  proof (cases "addr = CHMC_I2C_ADDRESS")
    case True
    then have "map_of (deviceMap cm) 0 = None"
      using inv(2) Cons.prems(6) by (cases "map_of (deviceMap cm) 0") auto
    then have "enum_inv n (add_device addr 0 dev cm)"
      using Cons.prems(2,3) dev True by (intro enum_inv_add [where n = n]) auto
    then show ?thesis
      using Cons.IH [of n "add_device addr 0 dev cm" w1] rest True Cons.prems devs by auto
  next
    case False
    have n: "unat (of_nat n :: byte) = n" using Cons.prems(4) by (intro unat_of_nat_byte) simp
    then have "map_of (deviceMap cm) (of_nat n) = None"
      using inv(1) [of "of_nat n"] by (cases "map_of (deviceMap cm) (of_nat n)") auto
    moreover have "(of_nat n :: byte) \<noteq> 0" using n Cons.prems(3) by force
    ultimately have "enum_inv (n + 1) (add_device addr (of_nat n) dev cm)"
      using Cons.prems(2) dev n by (intro enum_inv_add [where n = n]) auto
    then show ?thesis
      using Cons.IH [of "n + 1" "add_device addr (of_nat n) dev cm" w1] rest False Cons.prems devs by auto
  qed
qed

lemma findDevice_Some:
  assumes "map_of (deviceMap cm) k = Some (Some dev)" "P dev"
  shows "\<exists>d. findDevice P cm = Some d \<and> P d"
proof -
  have "dev \<in> set (List.map_filter snd (deviceMap cm))"
    using map_of_SomeD [OF assms(1)] by (force simp: List.map_filter_def image_iff)
  then have "findDevice P cm \<noteq> None"
    using assms(2) by (auto simp: findDevice_def find_None_iff)
  then show ?thesis
    by (auto simp: findDevice_def find_Some_iff)
qed

lemma distinct_probe: "distinct probe_addresses"
  unfolding probe_addresses_def distinct_map
  by (auto simp: inj_on_def)

lemma enumerate_inv:
  assumes "enumerateI2CDevices ipmb responds ChassisManager_blank w = (Inr cm, w')"
  shows "enum_inv 256 cm \<and> i2cdevices cm = filter responds probe_addresses"
proof -
  have "enum_inv 1 ChassisManager_blank"
    by (simp add: enum_inv_def ChassisManager_blank_def omap_ok_def)
  moreover have "length (filter responds probe_addresses) \<le> 117"
    using length_filter_le [of responds probe_addresses] by (simp add: probe_addresses_def)
  ultimately show ?thesis
    using enumerate_loop_inv [of ipmb 1 "filter responds probe_addresses" ChassisManager_blank w cm w'] assms distinct_probe
    by (simp add: enumerateI2CDevices_def ChassisManager_blank_def)
qed

section \<open>Properties\<close>

lemma same_device_address: "same_device d d' \<Longrightarrow> ipmi_address d' = ipmi_address d"
  unfolding same_device_def by (drule arg_cong [where f = ipmi_address]) simp

lemma probe_shift: "a \<in> set probe_addresses \<Longrightarrow> drop_bit 1 (push_bit 1 a) = a"
proof -
  assume "a \<in> set probe_addresses"
  then obtain n where "a = of_nat n" "n \<in> {3..<120}"
    unfolding probe_addresses_def set_map set_upt by blast
  then have "unat a < 2 ^ 7" by (simp add: unat_of_nat)
  then have "unat (a * 2) = unat a * 2" by (simp add: unat_word_ariths)
  then have "a * 2 div 2 = a" by (simp add: word_unat_eq_iff unat_div_distrib)
  then show ?thesis by (simp add: push_bit_eq_mult drop_bit_eq_div)
qed

text \<open>An environment without IPMI devices: every request over IPMB throws.\<close>

definition silent_env :: "unit env" where
  "silent_env = \<lparr>env_ipmb = (\<lambda>_ _ _ _ _ _ w. (Call_Exception, w)), env_unit = (\<lambda>_ w. (True, w)),
     env_set_pwm = (\<lambda>_ w. (True, w)), env_get_pwm = (\<lambda>w. (None, w)), env_fan_active = (\<lambda>w. (True, w)),
     env_create_object = (\<lambda>_ _ _ w. (True, w))\<rparr>"

definition example_cm :: ChassisManager where
  "example_cm = add_device 0x41 1 ((device_blank 0 0x82)) ChassisManager_blank"

lemma example_enumeration:
  "enumerateI2CDevices (env_ipmb silent_env) (\<lambda>a. a = 0x41) ChassisManager_blank () = (Inr example_cm, ())"
proof -
  have "filter (\<lambda>a. a = (0x41 :: byte)) probe_addresses = [0x41]"
    by (simp add: probe_addresses_def upt_rec)
  then show ?thesis
    by (simp add: enumerateI2CDevices_def example_cm_def VITA4611Device_new_def queryDeviceId_def request_data_def
        sendIPMBRequest_def silent_env_def io_bind_def CHMC_I2C_ADDRESS_def device_blank_def)
qed

text \<open>
  C22. Every I2C device that answered the probe has a device object under its IPMI address, and it
  keeps it: after any sequence of pass-through requests that the manager survives, the address is
  still accepted and still leads to a device with that address.
\<close>

theorem enumerated_devices_stay_reachable:
  assumes enum: "enumerateI2CDevices ipmb responds ChassisManager_blank w0 = (Inr cm, w1)"
    and run: "run_all (execute_passthrough_cmd env) reqs cm w2 = (Inr (rs, cm'), w3)"
    and a: "a \<in> set probe_addresses" "responds a"
  shows "verify_ipmi_address_is_valid (push_bit 1 a) cm' \<and>
    (\<exists>dev. findDeviceByAddress (push_bit 1 a) cm' = Some dev \<and> ipmi_address dev = push_bit 1 a)"
proof -
  have inv: "enum_inv 256 cm" "i2cdevices cm = filter responds probe_addresses"
    using enumerate_inv [OF enum] by auto
  then obtain k dev where dev: "map_of (deviceMap cm) k = Some (Some dev)" "ipmi_address dev = push_bit 1 a"
    using a by (auto simp: enum_inv_def)
  have kept: "inventory_kept cm cm'" by (rule chm.run_all_kept [OF run])
  then obtain dev' where "map_of (deviceMap cm') k = Some (Some dev')" "same_device dev dev'"
    using devices_keptD [OF _ _ dev(1)] inv(1) unfolding inventory_kept_def enum_inv_def by blast
  then have "\<exists>d. findDeviceByAddress (push_bit 1 a) cm' = Some d \<and> ipmi_address d = push_bit 1 a"
    unfolding findDeviceByAddress_def
    using findDevice_Some [of cm' k dev' "\<lambda>d. ipmi_address d = push_bit 1 a"] same_device_address dev(2) by auto
  moreover have "verify_ipmi_address_is_valid (push_bit 1 a) cm'"
    using kept inv(2) a unfolding verify_ipmi_address_is_valid_def probe_shift [OF a(1)]
    by (simp add: inventory_kept_def)
  ultimately show ?thesis by blast
qed

theorem enumerated_devices_stay_reachable_witness:
  "\<exists>rs cm'. run_all (execute_passthrough_cmd silent_env) [[0x40, 0x2c, 0, 4, 9, 2], [0x82, 6, 0, 1]] example_cm () = (Inr (rs, cm'), ()) \<and>
    verify_ipmi_address_is_valid 0x82 cm' \<and> (\<exists>dev. findDeviceByAddress 0x82 cm' = Some dev)"
proof -
  have a: "(0x41 :: byte) \<in> set probe_addresses"
    by (simp add: probe_addresses_def)
  obtain rs cm' where run: "run_all (execute_passthrough_cmd silent_env) [[0x40, 0x2c, 0, 4, 9, 2], [0x82, 6, 0, 1]] example_cm () = (Inr (rs, cm'), ())"
    by (simp add: execute_passthrough_cmd_def select_channel_def example_cm_def add_device_def ChassisManager_blank_def
        Let_def CHMC_IPMI_ADDRESS_def CHMC_I2C_ADDRESS_def handleChMCommand_def NETFN_VITA4611_def fruControl_def
        device_subscript_def omap_subscript_def accept_def io_bind_def verify_ipmi_address_is_valid_def
        findDeviceByAddress_def findDevice_def List.map_filter_def device_blank_def forward_def
        sendIPMBRequest_def silent_env_def)
  from enumerated_devices_stay_reachable [OF example_enumeration run a] run show ?thesis by auto
qed

lemma locked_out:
  "select_channel cm = None \<Longrightarrow>
   run_all (execute_passthrough_cmd env) reqs cm w = (Inr (replicate (length reqs) Rsp_IllegalCommand, cm), w)"
  by (induction reqs) (simp_all add: execute_passthrough_cmd_def io_bind_def)

lemma even_byte: "even (unat (a :: byte)) \<Longrightarrow> a mod 2 = 0 \<and> a \<noteq> 0xFF"
  by (auto simp: word_unat_eq_iff unat_mod_distrib)

text \<open>
  Switching both IPMB links off with \<open>Set IPMB State\<close> succeeds, and from then on every
  pass-through request, including the one that would switch a link on again, is answered with
  'illegal command' without any effect: the link check comes before the commands of the manager
  itself.
\<close>

theorem disabling_both_links_locks_out:
  assumes "select_channel cm \<noteq> None" "even (unat a)" "even (unat b)"
  shows "\<exists>cm'. run_all (execute_passthrough_cmd env) ([0x40, 0x2c, lun, 0x09, a, b] # reqs) cm w =
    (Inr (Rsp_Success [0x03] # replicate (length reqs) Rsp_IllegalCommand, cm'), w)"
proof -
  obtain ch where ch: "select_channel cm = Some ch" using assms(1) by auto
  let ?cm = "cm\<lparr>ipmb_a_enable := 0, ipmb_a_Link_ID := drop_bit 1 a, ipmb_b_enable := 0, ipmb_b_Link_ID := drop_bit 1 b\<rparr>"
  have "execute_passthrough_cmd env [0x40, 0x2c, lun, 0x09, a, b] cm w = (Inr (Rsp_Success [0x03], ?cm), w)"
    using ch even_byte [OF assms(2)] even_byte [OF assms(3)]
    by (simp add: execute_passthrough_cmd_def handleChMCommand_def setIpmbState_def CHMC_IPMI_ADDRESS_def
        CHMC_I2C_ADDRESS_def NETFN_VITA4611_def accept_def Let_def io_bind_def)
  moreover have "select_channel ?cm = None" by (simp add: select_channel_def)
  ultimately show ?thesis using locked_out [of ?cm env reqs w] by (simp add: io_bind_def)
qed

text \<open>
  \<open>Set Chassis Identifier\<close> with at most 20 bytes followed by \<open>Get Chassis Identifier\<close> returns the
  type and the bytes that were set, and behind them, when fewer than 20 were given, the tail of the
  previous identifier; the field keeps its length. More than 20 bytes are rejected and change nothing.
\<close>

theorem chassis_identifier_roundtrip:
  assumes "length hdr = 4" "length (chassis_id_field cm) = 20"
  shows "if length ids \<le> 20
    then \<exists>cm'. setChassisIdentifier (hdr @ t # ids) cm w = (Inr ([0x03], cm'), w) \<and>
         getChassisIdentifier cm' w' = (Inr (0x03 # t # ids @ drop (length ids) (chassis_id_field cm), cm'), w') \<and>
         length (chassis_id_field cm') = 20
    else setChassisIdentifier (hdr @ t # ids) cm w = (Inr ([], cm), w)"
  using assms
  by (simp add: setChassisIdentifier_def getChassisIdentifier_def accept_def reject_def Let_def nth_append)

lemma poll_entries_nonnull:
  "poll_entries f m w = (Inr m', w') \<Longrightarrow> (k, p) \<in> set m \<Longrightarrow> p \<noteq> None"
  by (induction f m arbitrary: w m' rule: poll_entries.induct) (auto simp: io_bind_Inr_iff)

lemma poll_null: "(k, None) \<in> set m \<Longrightarrow> poll_entries f m (w :: 'a) \<noteq> (Inr m', w')"
  using poll_entries_nonnull by fast

text \<open>
  \<open>FRU Control\<close> for a FRU id that no device has is answered with success, and leaves a null
  entry in the device map: every later poll of sensors or sensor records, in whatever
  environment, ends in a null dereference or another fault and never completes.
\<close>

theorem fru_control_of_unknown_breaks_polling:
  assumes "omap_ok (deviceMap cm)" "map_of (deviceMap cm) (d ! 4) = None" "6 \<le> length d" "unat (d ! 5) \<le> 3"
  shows "\<exists>cm'. fruControl ipmb d cm w = (Inr ([0x03], cm'), w) \<and>
    (\<forall>env v r v'. pollDeviceSensors (env :: 'v env) cm' v \<noteq> (Inr r, v') \<and> pollSDRs env cm' v \<noteq> (Inr r, v'))"
proof -
  let ?cm = "cm\<lparr>deviceMap := omap_update (d ! 4) None (deviceMap cm)\<rparr>"
  have sub: "device_subscript (d ! 4) cm = (None, ?cm)"
    using assms(2) by (simp add: device_subscript_def omap_subscript_def)
  have "unat (d ! 5) = 0 \<or> unat (d ! 5) = 1 \<or> unat (d ! 5) = 2 \<or> unat (d ! 5) = 3" using assms(4) by linarith
  then have "d ! 5 = 0 \<or> d ! 5 = 1 \<or> d ! 5 = 2 \<or> d ! 5 = 3" by (auto simp: word_unat_eq_iff)
  then have run: "fruControl ipmb d cm w = (Inr ([0x03], ?cm), w)"
    using assms(3) sub by (auto simp: fruControl_def accept_def Let_def)
  have "map_of (deviceMap ?cm) (d ! 4) = Some None"
    using assms(1) by (simp add: omap.lookup_update)
  then have null: "(d ! 4, None) \<in> set (deviceMap ?cm)" by (rule map_of_SomeD)
  have "pollDeviceSensors env ?cm v \<noteq> (Inr r, v') \<and> pollSDRs env ?cm v \<noteq> (Inr r, v')" for env :: "'v env" and v r v'
    unfolding pollDeviceSensors_def pollSDRs_def io_bind_Inr_iff using poll_null [OF null, where 'a = 'v] by blast
  then show ?thesis using run by (intro exI [of _ ?cm]) simp
qed

text \<open>
  \<open>Set Fan Policy\<close>: a request for another tray or with a timeout code above 240 is rejected
  and changes nothing, a pending restart included. An accepted one cancels the pending restart and
  schedules a new one exactly when it disables the fan controller with a timeout other than 0 and
  the service could be stopped; the delay is five seconds per unit, between 5 and 1200 seconds.
\<close>

theorem fan_policy_timer:
  assumes "9 \<le> length d"
  shows "\<exists>r cm' w'. setFanPolicy env d cm w = (Inr (r, cm'), w') \<and>
    (if d ! 4 \<noteq> 0 \<or> 240 < unat (d ! 6) then r = [] \<and> cm' = cm \<and> w' = w
     else r = [0x03] \<and>
       fanRestartTimer cm' =
         (if d ! 5 = 0 \<and> d ! 6 \<noteq> 0 \<and> fst (env_unit env ''StopUnit'' w) then Some (5 * unat (d ! 6)) else None) \<and>
       (case fanRestartTimer cm' of None \<Rightarrow> True | Some t \<Rightarrow> 5 \<le> t \<and> t \<le> 1200))"
proof -
  obtain ok w1 where stop: "env_unit env ''StopUnit'' w = (ok, w1)" by (cases "env_unit env ''StopUnit'' w")
  obtain ok2 w2 where start: "env_unit env ''StartUnit'' w = (ok2, w2)" by (cases "env_unit env ''StartUnit'' w")
  have "d ! 6 \<noteq> 0xFF" if "\<not> 240 < unat (d ! 6)" using that by auto
  moreover have "0 < unat (d ! 6)" if "d ! 6 \<noteq> 0" using that by (simp add: unat_gt_0)
  ultimately show ?thesis
    using assms stop start
    by (auto simp: setFanPolicy_def Let_def io_bind_def io_call_def accept_def reject_def)
qed



lemma reply_prefix_handlers:
  "getAddTable ipmb d cm w = (Inr (r, cm'), w') \<Longrightarrow> r = [] \<or> hd r = 0x03"
  "fruControl ipmb d cm w = (Inr (r, cm'), w') \<Longrightarrow> r = [] \<or> hd r = 0x03"
  "setFruStatePolicyBits d cm w = (Inr (r, cm'), w') \<Longrightarrow> r = [] \<or> hd r = 0x03"
  "getFruStatePolicyBits n cm w = (Inr (r, cm'), w') \<Longrightarrow> r = [] \<or> hd r = 0x03"
  "setFruActivation d cm w = (Inr (r, cm'), w') \<Longrightarrow> r = [] \<or> hd r = 0x03"
  "getDeviceLocatorRecordId d cm w = (Inr (r, cm'), w') \<Longrightarrow> r = [] \<or> hd r = 0x03"
  "setFanPolicy env d cm w = (Inr (r, cm'), w') \<Longrightarrow> r = [] \<or> hd r = 0x03"
  "getFruAddressInfo d cm w = (Inr (r, cm'), w') \<Longrightarrow> r = [] \<or> hd r = 0x03"
  "setIpmbState d cm w = (Inr (r, cm'), w') \<Longrightarrow> r = [] \<or> hd r = 0x03"
  by (auto simp: io_bind_Inr_iff Let_def getAddTable_def fruControl_def setFruStatePolicyBits_def
      getFruStatePolicyBits_def setFruActivation_def getDeviceLocatorRecordId_def setFanPolicy_def
      getFruAddressInfo_def get_chm_fru_info_def setIpmbState_def split: if_splits option.splits prod.splits)

lemma reply_prefix_readers:
  "getChassisManagerIpAddresses n cm w = (Inr (r, cm'), w') \<Longrightarrow> r = [] \<or> hd r = 0x03"
  "getChassisIdentifier cm w = (Inr (r, cm'), w') \<Longrightarrow> r = [] \<or> hd r = 0x03"
  "setChassisIdentifier d cm w = (Inr (r, cm'), w') \<Longrightarrow> r = [] \<or> hd r = 0x03"
  "getFanSpeedProperties d cm w = (Inr (r, cm'), w') \<Longrightarrow> r = [] \<or> hd r = 0x03"
  "setFanLevel env d cm w = (Inr (r, cm'), w') \<Longrightarrow> r = [] \<or> hd r = 0x03"
  "getFanLevel env d cm w = (Inr (r, cm'), w') \<Longrightarrow> r = [] \<or> hd r = 0x03"
  "getFanPolicy env d cm w = (Inr (r, cm'), w') \<Longrightarrow> r = [] \<or> hd r = 0x03"
  "getChassisManagerIpmbAddress cm w = (Inr (r, cm'), w') \<Longrightarrow> r = [] \<or> hd r = 0x03"
  by (auto simp: io_bind_Inr_iff Let_def getChassisManagerIpAddresses_def getChassisIdentifier_def
      setChassisIdentifier_def getFanSpeedProperties_def setFanLevel_def getFanLevel_def getFanPolicy_def
      getChassisManagerIpmbAddress_def split: if_splits)

text \<open>
  The answers of the manager's own commands: a response is empty (rejected) or starts with the
  VSO identifier 3, with one exception: the answer to \<open>Get VSO Capabilities\<close> lacks the identifier
  that every other response has.
\<close>

theorem chm_replies_carry_identifier:
  assumes "handleChMCommand env d cm w = (Inr (r, cm'), w')"
  shows "r = [] \<or> hd r = VITA4611_VSO_IDENTIFIER \<or> (d ! 3 = VITA4611_GETVSOCAPS_CMD \<and> r = [0x12, 1, 0, 0, 1, 0])"
  using assms unfolding handleChMCommand_def Let_def VITA4611_VSO_IDENTIFIER_def VITA4611_GETVSOCAPS_CMD_def
  by (auto simp: getShMCVSOCaps_def split: if_splits dest: reply_prefix_handlers reply_prefix_readers)

end
