(* ===== verification/Bridge_Link.thy ===== *)
theory Bridge_Link
  imports Ipmb_Bridge Vita_Manager
begin

text \<open>
  The chassis manager on top of the bridge daemon. The manager's parameter \<open>ipmb\<close> is instantiated
  with the model of the daemon: \<open>bridge_ipmb\<close> runs \<open>ipmbHandleRequest\<close> and then the waiting
  coroutine to its end, with the frames that the bus delivers after each write. The bus is part of
  the outside state: a function from the buffer written to the buffers the driver delivers, before
  the next timer event.

  The contract between the two, \<open>ipmb_transport\<close>, is a locale: a request to a device that answers
  comes back as a successful reply with the device's completion code and data. It is interpreted
  on \<open>bridge_ipmb\<close>, so that the manager's lemmas hold over the bridge, from the bytes on the bus
  to the sensor list.
\<close>

section \<open>The bridge as the provider of sendRequest\<close>

type_synonym bus = "byte list \<Rightarrow> byte list list"

fun deliver :: "(byte \<times> byte) set \<Rightarrow> byte list list \<Rightarrow> IpmbChannel \<Rightarrow> IpmbChannel res" where
  "deliver flt [] ch = Inr ch"
| "deliver flt (f # fs) ch = rbind (processI2cEvent flt (Some f) ch) (\<lambda>(ch', effs). deliver flt fs ch')"

text \<open>The waiting coroutine from its \<open>i\<close>-th try on; a matched response cancels the timer.\<close>

function bridge_wait ::
  "(byte \<times> byte) set \<Rightarrow> bus \<Rightarrow> nat \<Rightarrow> nat \<Rightarrow> byte list \<Rightarrow> IpmbChannel \<Rightarrow> (IpmbChannel \<times> ipmb_result) res" where
  "bridge_wait flt bus rid i b ch =
     rbind (deliver flt (bus b) ch) (\<lambda>ch1.
       let ec = (if rq_state (ch_requests ch1 rid) = Rq_matched then Timer_cancelled else Timer_expired) in
       case requestAdd_resume ec [] rid i b ch1 of
         Inl e \<Rightarrow> Inl e
       | Inr (ch2, Some r, effs) \<Rightarrow> Inr (ch2, r)
       | Inr (ch2, None, effs) \<Rightarrow> bridge_wait flt bus rid (Suc i) b ch2)"
  by pat_completeness auto
termination
  by (relation "measure (\<lambda>(flt, bus, rid, i, b, ch). ipmbNumberOfTries - i)")
    (auto simp: requestAdd_resume_def Let_def rbind_def of_opt_def split: if_splits sum.splits option.splits)

declare bridge_wait.simps [simp del]

text \<open>A fault ends the daemon, which its caller sees as an exception of the D-Bus call.\<close>

definition bridge_ipmb :: "(bus \<times> bridge) ipmb" where
  "bridge_ipmb channel addr netfn lun cmd data = (\<lambda>(bus, br).
     case ipmbHandleRequest [] channel addr netfn lun cmd data br of
       Inl e \<Rightarrow> (Call_Exception, (bus, br))
     | Inr (br1, Some r, effs) \<Rightarrow> (Reply r, (bus, br1))
     | Inr (br1, None, effs) \<Rightarrow>
         (case getChannel channel (br_channels br1) of
            None \<Rightarrow> (Call_Exception, (bus, br1))
          | Some k \<Rightarrow>
              (case hd (ch_pending (br_channels br1 ! k)) of (rid, i, b) \<Rightarrow>
                 (case bridge_wait (br_filter br1) bus rid i b (br_channels br1 ! k) of
                    Inl e \<Rightarrow> (Call_Exception, (bus, br1))
                  | Inr (ch', r) \<Rightarrow> (Reply r, (bus, br1\<lparr>br_channels := (br_channels br1)[k := ch']\<rparr>))))))"

section \<open>A call over the bridge\<close>

text \<open>The channel has a free slot, so a call gets a sequence number.\<close>

definition link_ready :: "byte \<Rightarrow> bridge \<Rightarrow> bool" where
  "link_ready c br \<longleftrightarrow> bridge_inv br \<and>
     (case getChannel c (br_channels br) of
        None \<Rightarrow> False
      | Some k \<Rightarrow> list_ex (\<lambda>s. s = None) (ch_outstandingRequests (br_channels br ! k)))"

lemma link_readyE:
  assumes "link_ready c br"
  obtains k s where "bridge_inv br" "getChannel c (br_channels br) = Some k" "k < length (br_channels br)"
    "chan_inv (br_channels br ! k)" "ch_channelIdx (br_channels br ! k) = c"
    "s < 64" "ch_outstandingRequests (br_channels br ! k) ! s = None"
proof -
  from assms obtain k where k: "bridge_inv br" "getChannel c (br_channels br) = Some k"
      "list_ex (\<lambda>s. s = None) (ch_outstandingRequests (br_channels br ! k))"
    by (auto simp: link_ready_def split: option.splits)
  have len: "k < length (br_channels br)" "ch_channelIdx (br_channels br ! k) = c"
    using getChannel_Some [OF k(2)] by auto
  then have "chan_inv (br_channels br ! k)" using bridge_inv_nth [OF k(1)] by blast
  with that k len chan_invD(1) show thesis by (force simp: list_ex_length)
qed

lemma getChannel_update:
  "getChannel c chs = Some k \<Longrightarrow> ch_channelIdx ch' = c \<Longrightarrow> getChannel c (chs[k := ch']) = Some k"
proof (induction c chs arbitrary: k rule: getChannel.induct)
  case (2 c ch chs)
  then show ?case by (cases k) (auto split: if_splits)
qed simp

lemma link_ready_update:
  assumes "bridge_inv br" "getChannel c (br_channels br) = Some k" "chan_inv ch'" "ch_channelIdx ch' = c"
    "s < 64" "ch_outstandingRequests ch' ! s = None"
  shows "link_ready c (br\<lparr>br_channels := (br_channels br)[k := ch'], br_seqNum := n\<rparr>)"
proof -
  have "k < length (br_channels br)" using getChannel_Some [OF assms(2)] by simp
  moreover have "bridge_inv (br\<lparr>br_channels := (br_channels br)[k := ch'], br_seqNum := n\<rparr>)"
    using bridge_inv_upd [OF assms(1,3)] by (simp add: bridge_inv_def)
  ultimately show ?thesis
    using assms chan_invD(1) [OF assms(3)]
    by (auto simp: link_ready_def getChannel_update list_ex_length)
qed

text \<open>The static fields of a channel, which only address changes and \<open>sendRequest\<close> assign.\<close>

lemma channelIdx_simps [simp]:
  "ch_channelIdx (responseMatch p ch) = ch_channelIdx ch"
  "ch_channelIdx (drop_pending rid ch) = ch_channelIdx ch"
  "ch_channelIdx (makeRequestInvalid rid ch) = ch_channelIdx ch"
  "ch_channelIdx (makeRequestValid rid ch) = ch_channelIdx ch"
  "ch_channelIdx (new_request q ch) = ch_channelIdx ch"
  "ch_channelIdx (updateRqSlaveAddress a ch) = ch_channelIdx ch"
  by (simp_all add: responseMatch_def drop_pending_def makeRequestInvalid_def makeRequestValid_def
      new_request_def updateRqSlaveAddress_def Let_def split: option.split)

lemma rqSlaveAddress_simps [simp]:
  "ch_rqSlaveAddress (responseMatch p ch) = ch_rqSlaveAddress ch"
  "ch_rqSlaveAddress (drop_pending rid ch) = ch_rqSlaveAddress ch"
  "ch_rqSlaveAddress (makeRequestInvalid rid ch) = ch_rqSlaveAddress ch"
  "ch_rqSlaveAddress (makeRequestValid rid ch) = ch_rqSlaveAddress ch"
  "ch_rqSlaveAddress (new_request q ch) = ch_rqSlaveAddress ch"
  "ch_rqSlaveAddress (updateRqSlaveAddress a ch) = a"
  by (simp_all add: responseMatch_def drop_pending_def makeRequestInvalid_def makeRequestValid_def
      new_request_def updateRqSlaveAddress_def Let_def split: option.split)

lemma bmcSlaveAddress_update [simp]:
  "ch_bmcSlaveAddress (updateRqSlaveAddress a ch) = ch_bmcSlaveAddress ch"
  by (simp add: updateRqSlaveAddress_def)

text \<open>The channel as \<open>ipmbHandleRequest\<close> leaves it when the call with \<open>q\<close> has begun to wait.\<close>

definition call_started :: "IpmbChannel \<Rightarrow> IpmbRequest \<Rightarrow> byte list \<Rightarrow> nat \<Rightarrow> bool" where
  "call_started ch q wire rid \<longleftrightarrow> chan_inv ch \<and> hd (ch_pending ch) = (rid, 0, wire) \<and>
     (rid, 0, wire) \<in> set (ch_pending ch) \<and> ch_requests ch rid = q\<lparr>rq_state := Rq_valid\<rparr> \<and>
     IpmbRequest_ipmbToi2cConstruct q = Some wire \<and> ch_rqSlaveAddress ch = rq_address q"

lemma construct_state [simp]:
  "IpmbRequest_ipmbToi2cConstruct (q\<lparr>rq_state := st\<rparr>) = IpmbRequest_ipmbToi2cConstruct q"
  by (simp add: IpmbRequest_ipmbToi2cConstruct_def Let_def)

lemma requestAdd_starts:
  assumes "chan_inv ch" "unat (rq_seq q) < 64" "ch_outstandingRequests ch ! unat (rq_seq q) = None"
    and "length (rq_data q) \<le> 257" "ch_rqSlaveAddress ch = rq_address q"
  shows "\<exists>ch3 effs wire. requestAdd [] (ch_next ch) (new_request q ch) = (ch3, None, effs) \<and>
     call_started ch3 q wire (ch_next ch) \<and> ch_channelIdx ch3 = ch_channelIdx ch"
proof -
  obtain wire where wire: "IpmbRequest_ipmbToi2cConstruct q = Some wire"
    using request_framed [OF assms(4)] by blast
  let ?ch3 = "(makeRequestValid (ch_next ch) (new_request q ch))\<lparr>ch_pending := (ch_next ch, 0, wire) # ch_pending ch\<rparr>"
  have run: "requestAdd [] (ch_next ch) (new_request q ch) = (?ch3, None, send_try [] wire)"
    by (simp add: requestAdd_def Let_def wire)
  then have "chan_inv ?ch3" using chan_inv_requestAdd [OF assms(1-3), of "[]"] by simp
  then have "call_started ?ch3 q wire (ch_next ch)"
    using assms(5) by (simp add: call_started_def wire)
  then show ?thesis using run by auto
qed

definition wire_address :: "byte \<Rightarrow> IpmbChannel \<Rightarrow> byte" where
  "wire_address addr ch = (if addr = 0x40 then ch_rqSlaveAddress ch else addr)"

lemma send_starts_call:
  assumes "link_ready c br" "getChannel c (br_channels br) = Some k" "length d \<le> 257"
  shows "\<exists>ch3 effs wire rid seq. ipmbHandleRequest [] c addr netfn lun cmd d br =
       Inr (br\<lparr>br_channels := (br_channels br)[k := ch3], br_seqNum := seq\<rparr>, None, effs) \<and>
     call_started ch3 (IpmbRequest_new (wire_address addr (br_channels br ! k)) netfn 0
       (ch_bmcSlaveAddress (br_channels br ! k)) seq lun cmd d) wire rid \<and>
     unat seq < 64 \<and> ch_channelIdx ch3 = c"
proof -
  obtain s where inv: "chan_inv (br_channels br ! k)" and idx: "ch_channelIdx (br_channels br ! k) = c"
    and s: "s < 64" "ch_outstandingRequests (br_channels br ! k) ! s = None"
    using assms(1,2) by (auto elim: link_readyE)
  let ?a = "wire_address addr (br_channels br ! k)"
  define ch1 where "ch1 = (if ch_rqSlaveAddress (br_channels br ! k) \<noteq> addr \<and> addr \<noteq> 0x40
     then updateRqSlaveAddress addr (br_channels br ! k) else br_channels br ! k)"
  have ch1: "chan_inv ch1" "ch_rqSlaveAddress ch1 = ?a" "ch_channelIdx ch1 = c"
    "ch_outstandingRequests ch1 = ch_outstandingRequests (br_channels br ! k)"
    "ch_bmcSlaveAddress ch1 = ch_bmcSlaveAddress (br_channels br ! k)"
    using inv idx by (auto simp: ch1_def wire_address_def)
  obtain seq where seq: "seqNumGet ch1 (br_seqNum br) = (Some seq, seq)"
  proof (cases "seqNumGet ch1 (br_seqNum br)")
    case (Pair r c')
    then show thesis
      using that seqNumGet_found(3) seqNumGet_full [of ch1 "br_seqNum br" c' s] s ch1(4) by (cases r) auto
  qed
  let ?q = "IpmbRequest_new ?a netfn 0 (ch_bmcSlaveAddress (br_channels br ! k)) seq lun cmd d"
  have "\<exists>ch3 effs wire. requestAdd [] (ch_next ch1) (new_request ?q ch1) = (ch3, None, effs) \<and>
     call_started ch3 ?q wire (ch_next ch1) \<and> ch_channelIdx ch3 = ch_channelIdx ch1"
    by (rule requestAdd_starts)
      (use ch1 seqNumGet_found [OF seq] assms(3) in \<open>simp_all add: IpmbRequest_new_def\<close>)
  then obtain ch3 effs wire where add: "requestAdd [] (ch_next ch1) (new_request ?q ch1) = (ch3, None, effs)"
      "call_started ch3 ?q wire (ch_next ch1)" "ch_channelIdx ch3 = c"
    using ch1(3) by auto
  then have "ipmbHandleRequest [] c addr netfn lun cmd d br =
      Inr (br\<lparr>br_channels := (br_channels br)[k := ch3], br_seqNum := seq\<rparr>, None, effs)"
    using ch1 by (simp add: ipmbHandleRequest_def assms(2) Let_def seq ipmbRsLun_def flip: ch1_def)
  with add(2,3) seqNumGet_found(1) [OF seq] show ?thesis by blast
qed

text \<open>What a call leaves behind: the slot is free, the channel consistent, the addresses unchanged.\<close>

definition call_ended :: "IpmbChannel \<Rightarrow> byte \<Rightarrow> IpmbChannel \<Rightarrow> bool" where
  "call_ended ch seq ch' \<longleftrightarrow> chan_inv ch' \<and> ch_outstandingRequests ch' ! unat seq = None \<and>
     ch_channelIdx ch' = ch_channelIdx ch \<and> ch_rqSlaveAddress ch' = ch_rqSlaveAddress ch"

lemma call_endedI:
  assumes "chan_inv ch" "(rid, i, b) \<in> set (ch_pending ch)" "rq_seq (ch_requests ch rid) = seq"
    and "ch_channelIdx ch = ch_channelIdx ch0" "ch_rqSlaveAddress ch = ch_rqSlaveAddress ch0"
  shows "call_ended ch0 seq (makeRequestInvalid rid (drop_pending rid ch))"
  using chan_inv_complete [OF assms(1,2)] chan_invD(1) [OF assms(1)] pending_slot(1) [OF assms(1,2)] assms(3-5)
  by (simp add: call_ended_def)

text \<open>A bus that stays silent: the call ends with the timeout status.\<close>

lemma wait_silent:
  assumes "chan_inv ch" "(rid, i, b) \<in> set (ch_pending ch)" "rq_state (ch_requests ch rid) = Rq_valid"
    and "bus b = []"
  shows "\<exists>ch'. bridge_wait flt bus rid i b ch = Inr (ch', returnStatus St_timeout) \<and>
     call_ended ch (rq_seq (ch_requests ch rid)) ch'"
  using assms(1-3)
proof (induction "ipmbNumberOfTries - i" arbitrary: i ch rule: less_induct)
  case less
  show ?case
  proof (cases "Suc i < ipmbNumberOfTries")
    case True
    let ?ch = "(drop_pending rid ch)\<lparr>ch_pending := (rid, Suc i, b) # ch_pending (drop_pending rid ch)\<rparr>"
    have run: "requestAdd_resume Timer_expired [] rid i b ch = Inr (?ch, None, send_try [] b)"
      using True less.prems(3) by (simp add: requestAdd_resume_def Let_def)
    have "chan_inv ?ch" using chan_inv_resume [OF less.prems(1,2) run] .
    then have "\<exists>ch'. bridge_wait flt bus rid (Suc i) b ?ch = Inr (ch', returnStatus St_timeout) \<and>
       call_ended ?ch (rq_seq (ch_requests ?ch rid)) ch'"
      using True less.prems(3) by (intro less.hyps) auto
    then show ?thesis
      using less.prems(3) run assms(4) by (subst bridge_wait.simps) (simp add: call_ended_def)
  next
    case False
    then show ?thesis
      using less.prems assms(4) call_endedI [OF less.prems(1,2) refl refl refl]
      by (subst bridge_wait.simps) (simp add: requestAdd_resume_def Let_def)
  qed
qed

text \<open>A well-formed response frame, as the driver delivers it, reaches \<open>responseMatch\<close> with its fields.\<close>

lemma response_frame_received:
  assumes sized: "response_sized p" and resp: "rs_netFn p AND 1 \<noteq> 0"
    and wire: "IpmbResponse_ipmbToi2cConstruct p = Some (l # f)"
  shows "\<exists>p' effs. processI2cEvent flt (Some (l # f)) ch = Inr (responseMatch p' ch, effs) \<and>
     response_fields p' = response_fields p"
proof -
  have f: "f = framed (rs_address p) (ipmbNetFnLunSet (rs_netFn p) (rs_rqLun p))
         ([rs_rsSA p, ipmbSeqLunSet (rs_seq p) (rs_rsLun p), rs_cmd p, rs_completionCode p] @ rs_data p)"
    using wire sized by (simp add: response_framed response_sized_def)
  let ?pad = "replicate (264 - length f) 0"
  have len: "8 \<le> length f" "length f \<le> 258"
    using sized by (simp_all add: f response_sized_def)
  have valid: "isFrameValid (f @ ?pad) (of_nat (length f))"
    by (rule rs_codec.encode_decode(1) [OF sized wire])
  have nf: "(f @ ?pad) ! Suc 0 = ipmbNetFnLunSet (rs_netFn p) (rs_rqLun p)"
    by (simp add: f framed_def)
  have "ipmbIsResponse (f @ ?pad)"
    using resp sized
    by (simp add: ipmbIsResponse_def nf netFnLun_get_set response_sized_def ipmbNetFnResponseMask_def)
  moreover obtain p' where "IpmbResponse_i2cToIpmbConstruct IpmbResponse_empty (f @ ?pad) (length f) = Inr p'"
      "response_fields p' = response_fields p"
    using rs_codec.encode_decode(2) [OF sized wire, of ?pad]
    by (cases "IpmbResponse_i2cToIpmbConstruct IpmbResponse_empty (f @ ?pad) (length f)") auto
  ultimately show ?thesis
    using len valid by (simp add: processI2cEvent_def ipmb_lengths Let_def) blast
qed

lemma wait_answered:
  assumes inv: "chan_inv ch" and p: "(rid, i, b) \<in> set (ch_pending ch)"
    and bus: "bus b = [l # f]" "IpmbResponse_ipmbToi2cConstruct resp = Some (l # f)"
    and sized: "response_sized resp" "rs_netFn resp AND 1 \<noteq> 0"
    and match: "response_matches (ch_requests ch rid) resp" "rs_seq resp = rq_seq (ch_requests ch rid)"
  shows "\<exists>ch'. bridge_wait flt bus rid i b ch = Inr (ch', returnMatchedResponse resp) \<and>
     call_ended ch (rq_seq (ch_requests ch rid)) ch'"
proof -
  obtain p' effs where ev: "processI2cEvent flt (Some (l # f)) ch = Inr (responseMatch p' ch, effs)"
    and p': "response_fields p' = response_fields resp"
    using response_frame_received [OF sized bus(2)] by blast
  let ?ch = "responseMatch p' ch"
  have eq: "rs_seq p' = rs_seq resp" "response_matches (ch_requests ch rid) p'"
    "returnMatchedResponse p' = returnMatchedResponse resp"
    using p' match(1) by (simp_all add: response_fields_def response_matches_def returnMatchedResponse_def)
  have "ch_requests ?ch rid = (ch_requests ch rid)\<lparr>rq_state := Rq_matched, rq_matchedResponse := Some p'\<rparr>"
    using pending_slot(2) [OF inv p] eq match(2) by (simp add: responseMatch_def)
  moreover have "call_ended ch (rq_seq (ch_requests ch rid)) (makeRequestInvalid rid (drop_pending rid ?ch))"
    by (rule call_endedI [of _ _ i b]) (use chan_inv_responseMatch [OF inv] p in simp_all)
  ultimately show ?thesis
    using ev eq(3) bus(1)
    by (subst bridge_wait.simps) (simp add: requestAdd_resume_def Let_def)
qed

section \<open>The contract of the transport\<close>

text \<open>
  The devices of a segment: what the device at an address answers to network function, command
  and data (completion code and data), if there is one that answers.
\<close>

type_synonym segment = "byte \<Rightarrow> byte \<Rightarrow> byte \<Rightarrow> byte list \<Rightarrow> (byte \<times> byte list) option"

text \<open>
  A bus whose devices follow the IPMB specification: a request frame is answered with one response
  frame to the requester, with the response network function and the sequence number, LUNs and
  command of the request. What the bus does with other frames is left open.
\<close>

definition bus_conforms :: "segment \<Rightarrow> bus \<Rightarrow> bool" where
  "bus_conforms seg bus \<longleftrightarrow> (\<forall>a netFn rqSA seq cmd d cc r.
     unat netFn < 64 \<and> unat seq < 64 \<and> length d \<le> 251 \<and> seg a netFn cmd d = Some (cc, r) \<and> length r \<le> 250 \<longrightarrow>
     bus (of_nat (length d + 7) # framed a (ipmbNetFnLunSet netFn 0) ([rqSA, ipmbSeqLunSet seq 0, cmd] @ d)) =
       [of_nat (length r + 8) # framed rqSA (ipmbNetFnLunSet (ipmbRespNetFn netFn) 0)
          ([a, ipmbSeqLunSet seq 0, cmd, cc] @ r)])"

definition bridge_ready :: "byte \<Rightarrow> segment \<Rightarrow> bus \<times> bridge \<Rightarrow> bool" where
  "bridge_ready c seg w \<longleftrightarrow> bus_conforms seg (fst w) \<and> link_ready c (snd w)"

text \<open>What the manager relies on, for a channel and the devices on it.\<close>

locale ipmb_transport =
  fixes ipmb :: "'w ipmb"
    and ready :: "'w \<Rightarrow> bool"
    and c :: byte
    and seg :: segment
  assumes answered: "ready w \<Longrightarrow> addr \<noteq> 0x40 \<Longrightarrow> unat netfn < 64 \<Longrightarrow> length d \<le> 251 \<Longrightarrow>
      seg addr netfn cmd d = Some (cc, r) \<Longrightarrow> length r \<le> 250 \<Longrightarrow>
      \<exists>w'. ipmb c addr netfn 0 cmd d w = (Reply (0, ipmbRespNetFn netfn, 0, cmd, cc, r), w') \<and> ready w'"
begin

lemma request_data_answered:
  assumes "ready w" "addr \<noteq> 0x40" "unat netfn < 64" "length d \<le> 251" "length r \<le> 250"
    and "seg addr netfn cmd d = Some (cc, r)"
  shows "\<exists>w'. request_data ipmb c addr netfn cmd d w = (Inr (if cc = 0 then Some r else None), w') \<and> ready w'"
proof -
  obtain w' where "ipmb c addr netfn 0 cmd d w = (Reply (0, ipmbRespNetFn netfn, 0, cmd, cc, r), w')" "ready w'"
    using answered [OF assms(1-4,6,5)] by blast
  then show ?thesis by (simp add: request_data_def sendIPMBRequest_def response_data_def)
qed

text \<open>A device that serves its records on the segment serves them to the manager.\<close>

lemma serves_sdr_on_segment:
  assumes "ipmi_address dev \<noteq> 0x40" "dev_channel dev = c" "length nxt = 2"
    and "\<And>off cnt :: byte. unat cnt \<le> 22 \<Longrightarrow> unat off + unat cnt \<le> length R \<Longrightarrow>
      seg (ipmi_address dev) NETFN_S_E IPMITOOL_CMD_GET_SDR [fst res_id, snd res_id, n, 0, off, cnt]
        = Some (0, nxt @ take (unat cnt) (drop (unat off) R))"
  shows "serves_sdr ready ipmb dev res_id n nxt R"
  unfolding serves_sdr_def
proof (intro conjI allI impI)
  fix off cnt :: byte and w assume *: "ready w \<and> unat cnt \<le> 22 \<and> unat off + unat cnt \<le> length R"
  have "\<exists>w'. ipmb c (ipmi_address dev) NETFN_S_E 0 IPMITOOL_CMD_GET_SDR
          [fst res_id, snd res_id, n, 0, off, cnt] w
        = (Reply (0, ipmbRespNetFn NETFN_S_E, 0, IPMITOOL_CMD_GET_SDR, 0, nxt @ take (unat cnt) (drop (unat off) R)), w')
      \<and> ready w'"
    by (rule answered) (use assms * in \<open>simp_all add: NETFN_S_E_def min_def\<close>)
  then show "\<exists>w'. ipmb (dev_channel dev) (ipmi_address dev) NETFN_S_E 0 IPMITOOL_CMD_GET_SDR
          [fst res_id, snd res_id, n, 0, off, cnt] w
        = (Reply (0, NETFN_S_E OR 1, 0, IPMITOOL_CMD_GET_SDR, 0, nxt @ take (unat cnt) (drop (unat off) R)), w')
      \<and> ready w'"
    by (simp add: assms(2) ipmbRespNetFn_def)
qed (fact assms(3))

end

lemma bridge_ipmb_wait:
  assumes "ipmbHandleRequest [] c addr netfn lun cmd d br = Inr (br1, None, effs)"
    and "getChannel c (br_channels br1) = Some k" "hd (ch_pending (br_channels br1 ! k)) = (rid, i, b)"
    and "bridge_wait (br_filter br1) bus rid i b (br_channels br1 ! k) = Inr (ch', r)"
  shows "bridge_ipmb c addr netfn lun cmd d (bus, br) = (Reply r, (bus, br1\<lparr>br_channels := (br_channels br1)[k := ch']\<rparr>))"
  by (simp add: bridge_ipmb_def assms)

lemma bridge_ipmb_bus: "fst (snd (bridge_ipmb c addr netfn lun cmd d (bus, br))) = bus"
  by (auto simp: bridge_ipmb_def split: sum.split option.split prod.split)

lemma bridge_ready_after:
  assumes ready: "bridge_ready c seg (bus, br)" and k: "getChannel c (br_channels br) = Some k"
    and "call_ended ch3 seq ch'" "ch_channelIdx ch3 = c" "unat seq < 64"
  shows "bridge_ready c seg (bus, br\<lparr>br_channels := (br_channels br)[k := ch'], br_seqNum := n\<rparr>)"
  using assms link_ready_update [OF _ k, of ch' "unat seq" n]
  by (auto simp: bridge_ready_def call_ended_def elim: link_readyE)

lemma respNetFn_odd: "ipmbRespNetFn netFn AND 1 = 1"
  by (rule bit_word_eqI) (auto simp: ipmbRespNetFn_def bit_simps)

text \<open>The address of the last request stays the remote address of the channel.\<close>

lemma bridge_answers_wire:
  assumes ready: "bridge_ready c seg (bus, br)" and k: "getChannel c (br_channels br) = Some k"
    and sizes: "unat netfn < 64" "length d \<le> 251"
    and seg: "seg (wire_address addr (br_channels br ! k)) netfn cmd d = Some (cc, r)" "length r \<le> 250"
  shows "\<exists>br'. bridge_ipmb c addr netfn 0 cmd d (bus, br) = (Reply (0, ipmbRespNetFn netfn, 0, cmd, cc, r), (bus, br')) \<and>
     bridge_ready c seg (bus, br') \<and> getChannel c (br_channels br') = Some k \<and>
     ch_rqSlaveAddress (br_channels br' ! k) = wire_address addr (br_channels br ! k)"
proof -
  have k': "k < length (br_channels br)" using getChannel_Some [OF k] by simp
  have conf: "bus_conforms seg bus" and link: "link_ready c br"
    using ready by (auto simp: bridge_ready_def)
  let ?rqSA = "ch_bmcSlaveAddress (br_channels br ! k)" and ?a = "wire_address addr (br_channels br ! k)"
  obtain ch3 effs wire rid seq where
    send: "ipmbHandleRequest [] c addr netfn 0 cmd d br =
       Inr (br\<lparr>br_channels := (br_channels br)[k := ch3], br_seqNum := seq\<rparr>, None, effs)"
    and started: "call_started ch3 (IpmbRequest_new ?a netfn 0 ?rqSA seq 0 cmd d) wire rid"
    and seq: "unat seq < 64" "ch_channelIdx ch3 = c"
    using send_starts_call [OF link k, of d addr netfn 0 cmd] sizes by auto
  define resp where "resp = IpmbResponse_new ?rqSA (ipmbRespNetFn netfn) 0 ?a seq 0 cmd cc r"
  have sized: "response_sized resp"
    using sizes seq seg(2) respNetFn_bound
    by (simp add: response_sized_def resp_def IpmbResponse_new_def)
  have wire: "wire = of_nat (length d + 7) # framed ?a (ipmbNetFnLunSet netfn 0) ([?rqSA, ipmbSeqLunSet seq 0, cmd] @ d)"
    using started sizes by (simp add: call_started_def request_framed IpmbRequest_new_def)
  have bus: "\<exists>l f. bus wire = [l # f] \<and> IpmbResponse_ipmbToi2cConstruct resp = Some (l # f)"
    using conf sizes seq seg
    by (simp add: wire bus_conforms_def response_framed resp_def IpmbResponse_new_def)
  have "response_matches (ch_requests ch3 rid) resp" "rs_seq resp = rq_seq (ch_requests ch3 rid)" "rs_netFn resp AND 1 \<noteq> 0"
    using started
    by (simp_all add: call_started_def response_matches_def resp_def IpmbResponse_new_def IpmbRequest_new_def
        respNetFn_odd)
  then obtain ch' where wait: "bridge_wait (br_filter br) bus rid 0 wire ch3 = Inr (ch', returnMatchedResponse resp)"
    and ended: "call_ended ch3 seq ch'"
    using wait_answered [of ch3 rid 0 wire bus _ _ resp "br_filter br"] started bus sized
    by (auto simp: call_started_def IpmbRequest_new_def)
  let ?br' = "br\<lparr>br_channels := (br_channels br)[k := ch'], br_seqNum := seq\<rparr>"
  have "bridge_ipmb c addr netfn 0 cmd d (bus, br) = (Reply (returnMatchedResponse resp), (bus, ?br'))"
    using bridge_ipmb_wait [OF send, of k rid 0 wire] k' getChannel_update [OF k seq(2)] started wait
    by (simp add: call_started_def)
  moreover have "bridge_ready c seg (bus, ?br')"
    by (rule bridge_ready_after [OF ready k ended seq(2,1)])
  moreover have "ch_channelIdx ch' = c" "ch_rqSlaveAddress ch' = ?a"
    using ended started seq(2) by (simp_all add: call_ended_def call_started_def IpmbRequest_new_def)
  ultimately show ?thesis
    using k' getChannel_update [OF k]
    by (intro exI [of _ ?br']) (simp add: returnMatchedResponse_def resp_def IpmbResponse_new_def)
qed

lemma bridge_answers:
  assumes "bridge_ready c seg w" "addr \<noteq> 0x40" "unat netfn < 64" "length d \<le> 251"
    and "seg addr netfn cmd d = Some (cc, r)" "length r \<le> 250"
  shows "\<exists>w'. bridge_ipmb c addr netfn 0 cmd d w = (Reply (0, ipmbRespNetFn netfn, 0, cmd, cc, r), w') \<and>
     bridge_ready c seg w'"
proof -
  obtain bus br where w: "w = (bus, br)" by (cases w)
  obtain k where "getChannel c (br_channels br) = Some k"
    using assms(1) by (auto simp: w bridge_ready_def elim: link_readyE)
  from bridge_answers_wire [OF _ this, of seg bus netfn d addr cmd cc r] assms show ?thesis
    unfolding w wire_address_def by auto
qed

interpretation bridge_transport: ipmb_transport bridge_ipmb "bridge_ready c seg" c seg for c seg
  by unfold_locales (rule bridge_answers)

lemma bridge_silent:
  assumes link: "link_ready c br" and size: "length d \<le> 257"
  shows "\<exists>br'. bridge_ipmb c addr netfn lun cmd d (\<lambda>_. [], br) = (Reply (returnStatus St_timeout), (\<lambda>_. [], br')) \<and>
     link_ready c br'"
proof -
  obtain k where k: "getChannel c (br_channels br) = Some k" "k < length (br_channels br)" and inv: "bridge_inv br"
    using link by (auto elim: link_readyE)
  obtain ch3 effs wire rid seq where
    send: "ipmbHandleRequest [] c addr netfn lun cmd d br =
       Inr (br\<lparr>br_channels := (br_channels br)[k := ch3], br_seqNum := seq\<rparr>, None, effs)"
    and started: "call_started ch3 (IpmbRequest_new (wire_address addr (br_channels br ! k)) netfn 0
       (ch_bmcSlaveAddress (br_channels br ! k)) seq lun cmd d) wire rid"
    and seq: "unat seq < 64" "ch_channelIdx ch3 = c"
    using send_starts_call [OF link k(1) size] by blast
  obtain ch' where wait: "bridge_wait (br_filter br) (\<lambda>_. []) rid 0 wire ch3 = Inr (ch', returnStatus St_timeout)"
    and ended: "call_ended ch3 seq ch'"
    using wait_silent [of ch3 rid 0 wire "\<lambda>_. []" "br_filter br"] started
    by (auto simp: call_started_def IpmbRequest_new_def)
  have "bridge_ipmb c addr netfn lun cmd d (\<lambda>_. [], br) = (Reply (returnStatus St_timeout),
      (\<lambda>_. [], br\<lparr>br_channels := (br_channels br)[k := ch'], br_seqNum := seq\<rparr>))"
    using bridge_ipmb_wait [OF send, of k rid 0 wire] k getChannel_update [OF k(1) seq(2)] started wait
    by (simp add: call_started_def)
  moreover have "link_ready c (br\<lparr>br_channels := (br_channels br)[k := ch'], br_seqNum := seq\<rparr>)"
    using link_ready_update [OF inv k(1), of ch' "unat seq" seq] ended seq by (simp add: call_ended_def)
  ultimately show ?thesis by blast
qed

text \<open>A reply that is no answer: a successful response without data, as far as the manager can see.\<close>

lemma request_data_timeout:
  assumes "link_ready c br" "length d \<le> 257"
  shows "\<exists>br'. request_data bridge_ipmb c addr netfn cmd d (\<lambda>_. [], br) = (Inr (Some []), (\<lambda>_. [], br')) \<and>
     link_ready c br'"
  using bridge_silent [OF assms, of addr netfn 0 cmd]
  by (auto simp: request_data_def sendIPMBRequest_def returnStatus_def response_data_def)

lemma reachable_link_ready:
  assumes "bridge_init br0" "bridge_step\<^sup>*\<^sup>* br0 br" "getChannel c (br_channels br) = Some k"
    and "s < 64" "ch_outstandingRequests (br_channels br ! k) ! s = None"
  shows "link_ready c br"
proof -
  have inv: "bridge_inv br" by (rule bridge_machine.inv_reachable [OF assms(1,2)])
  then have "length (ch_outstandingRequests (br_channels br ! k)) = 64"
    using chan_invD(1) bridge_inv_nth getChannel_Some [OF assms(3)] by blast
  then show ?thesis using inv assms(3-5) by (auto simp: link_ready_def list_ex_length)
qed

lemma shipped_link_ready: "link_ready 0 shipped_bridge"
  by (rule reachable_link_ready [OF shipped_init rtranclp.rtrancl_refl, of _ 0 0])
    (simp_all add: shipped_channels)

text \<open>A bus with devices that decode the request frame by its layout; used as an example.\<close>

definition example_bus :: "segment \<Rightarrow> bus" where
  "example_bus seg w =
     (let f = tl w; a = f ! 0; netFn = ipmbNetFnGet (f ! 1); d = take (length f - 7) (drop 6 f) in
      case seg a netFn (f ! 5) d of
        None \<Rightarrow> []
      | Some (cc, r) \<Rightarrow>
          [of_nat (length r + 8) # framed (f ! 3) (ipmbNetFnLunSet (ipmbRespNetFn netFn) 0)
             ([a, f ! 4, f ! 5, cc] @ r)])"

lemma example_bus_conforms: "bus_conforms seg (example_bus seg)"
  by (auto simp: bus_conforms_def example_bus_def framed_def Let_def netFnLun_get_set)

end
