(* ===== verification/Gpio.thy ===== *)
theory Gpio
  imports Prelude
begin

text \<open>
  The discrete lines of the chassis: the command-line tool \<open>lcrpin\<close> (\<open>lcr_gpio.cpp\<close>) and the
  monitor that publishes the lines on D-Bus (\<open>lcr_gpio_mon.cpp\<close>).

  The GPIO library and D-Bus are parameters: what a read of a line returns, whether a drive of a
  line or an access to a property succeeds; \<open>None\<close> and \<open>False\<close> are exceptions. What a program does
  to them is the list of its effects, in order. A pointer into one of the pin lists is the name
  of the pin: the first entry with that name.

  The theorems: exactly which commands drive a line, and how; the monitor's published values are
  the levels it last read; and the monitor's effect on lines that are outputs.
\<close>

section \<open>Numbers and text\<close>

text \<open>\<open>std::stoi\<close>: white space, a sign, digits; what follows is ignored.\<close>

definition is_space :: "char \<Rightarrow> bool" where
  "is_space c \<longleftrightarrow> c \<in> {CHR '' '', CHR 0x09, CHR 0x0A, CHR 0x0B, CHR 0x0C, CHR 0x0D}"

definition is_digit :: "char \<Rightarrow> bool" where
  "is_digit c \<longleftrightarrow> c \<in> set ''0123456789''"

definition digit_of :: "char \<Rightarrow> int" where
  "digit_of c = int (of_char c) - 48"

definition digits_value :: "string \<Rightarrow> int" where
  "digits_value ds = foldl (\<lambda>n c. n * 10 + digit_of c) 0 ds"

definition stoi :: "string \<Rightarrow> int res" where
  "stoi s =
     (let t = dropWhile is_space s;
          (neg, u) = (case t of c # r \<Rightarrow> if c = CHR ''-'' then (True, r) else if c = CHR ''+'' then (False, r) else (False, t)
                      | [] \<Rightarrow> (False, []));
          ds = takeWhile is_digit u;
          v = (if neg then - digits_value ds else digits_value ds)
      in if ds = [] \<or> v < - (2 ^ 31) \<or> v \<ge> 2 ^ 31 then Inl Invalid_Argument else Inr v)"

section \<open>Pins\<close>

record gpio_info =
  gp_input :: bool
  gp_chip :: int
  gp_line :: int
  gp_status :: int
  gp_name :: string

definition populate_info :: "bool \<Rightarrow> int \<Rightarrow> int \<Rightarrow> int \<Rightarrow> string \<Rightarrow> gpio_info" where
  "populate_info input chip line status name =
     \<lparr>gp_input = input, gp_chip = chip, gp_line = line, gp_status = status, gp_name = name\<rparr>"

definition bp_outputs :: "gpio_info list" where
  "bp_outputs =
     [populate_info False 0 8 0 ''BP_GPIO_OUT0'', populate_info False 0 9 0 ''BP_GPIO_OUT1'',
      populate_info False 0 10 0 ''BP_GPIO_OUT2'', populate_info False 0 11 0 ''BP_GPIO_OUT3'',
      populate_info False 0 12 0 ''BP_GPIO_OUT4'', populate_info False 0 13 0 ''BP_GPIO_OUT5'',
      populate_info False 0 14 0 ''BP_GPIO_OUT6'', populate_info False 0 15 0 ''BP_GPIO_OUT7'']"

definition bp_inputs :: "gpio_info list" where
  "bp_inputs =
     [populate_info True 0 0 0 ''BP_GPIO_IN0'', populate_info True 0 1 0 ''BP_GPIO_IN1'',
      populate_info True 0 2 0 ''BP_GPIO_IN2'', populate_info True 0 3 0 ''BP_GPIO_IN3'',
      populate_info True 0 4 0 ''BP_GPIO_IN4'', populate_info True 0 5 0 ''BP_GPIO_IN5'',
      populate_info True 0 6 0 ''BP_GPIO_IN6'', populate_info True 0 7 0 ''BP_GPIO_IN7'']"

definition sysreset_pin :: gpio_info where "sysreset_pin = populate_info False 1 0 0 ''sysreset''"
definition nvmro_pin :: gpio_info where "nvmro_pin = populate_info True 2 4 0 ''nvmro''"
definition gdiscrete_pin :: gpio_info where "gdiscrete_pin = populate_info False 2 0 0 ''gdiscrete''"
definition psenable_pin :: gpio_info where "psenable_pin = populate_info False 2 3 0 ''psenable''"
definition ps1inh_pin :: gpio_info where "ps1inh_pin = populate_info False 2 2 0 ''ps1inh''"
definition ps1fail_pin :: gpio_info where "ps1fail_pin = populate_info True 3 0 0 ''ps1fail''"
definition ps2inh_pin :: gpio_info where "ps2inh_pin = populate_info False 2 1 0 ''ps2inh''"
definition ps2fail_pin :: gpio_info where "ps2fail_pin = populate_info True 3 1 0 ''ps2fail''"

lemmas pin_defs = bp_outputs_def bp_inputs_def sysreset_pin_def nvmro_pin_def gdiscrete_pin_def psenable_pin_def
  ps1inh_pin_def ps1fail_pin_def ps2inh_pin_def ps2fail_pin_def populate_info_def

record CLI =
  available_gpios :: "gpio_info list"
  chassis_gpios :: "gpio_info list"

definition build_gpio_list :: CLI where
  "build_gpio_list =
     \<lparr>available_gpios = bp_outputs @ bp_inputs @ [nvmro_pin, ps1fail_pin, ps2fail_pin],
      chassis_gpios = [sysreset_pin, nvmro_pin, gdiscrete_pin, psenable_pin, ps1inh_pin, ps1fail_pin, ps2inh_pin, ps2fail_pin]\<rparr>"

definition pin_by_name :: "string \<Rightarrow> gpio_info list \<Rightarrow> gpio_info option" where
  "pin_by_name name pins = find (\<lambda>g. gp_name g = name) pins"

fun set_status :: "string \<Rightarrow> int \<Rightarrow> gpio_info list \<Rightarrow> gpio_info list" where
  "set_status name v [] = []"
| "set_status name v (g # gs) = (if gp_name g = name then g\<lparr>gp_status := v\<rparr> # gs else g # set_status name v gs)"

section \<open>The outside\<close>

record gpio_env =
  env_read :: "int \<Rightarrow> int \<Rightarrow> int option"
  env_drive :: "int \<Rightarrow> int \<Rightarrow> bool"
  env_get :: "string \<Rightarrow> real option"
  env_set :: "string \<Rightarrow> bool"

datatype gpio_effect =
    Request_Input int int
  | Request_Output int int int
  | Property_Set string int
  | Property_Get string
  | Print_Pin string int
  | Print string

definition gpio_path :: "string \<Rightarrow> string" where
  "gpio_path name = ''/xyz/openbmc_project/gpio/'' @ name"

section \<open>lcrpin\<close>

text \<open>\<open>setgpio\<close>: the return code, the new status if it was assigned, and the effects.\<close>

definition setgpio :: "gpio_env \<Rightarrow> gpio_info \<Rightarrow> int \<Rightarrow> int \<times> int option \<times> gpio_effect list" where
  "setgpio env g v =
     (if gp_input g then (-1, None, [])
      else if v \<noteq> 0 \<and> v \<noteq> 1 then (-1, None, [])
      else if env_drive env (gp_chip g) (gp_line g)
      then (0, Some v, [Request_Output (gp_chip g) (gp_line g) v])
      else (-1, None, []))"

definition setdbusgpio :: "gpio_env \<Rightarrow> gpio_info \<Rightarrow> int \<Rightarrow> int \<times> int option \<times> gpio_effect list" where
  "setdbusgpio env g v =
     (if gp_input g then (-1, None, [])
      else if v \<noteq> 0 \<and> v \<noteq> 1 then (-1, None, [])
      else if \<not> env_set env (gpio_path (gp_name g)) then (-1, None, [])
      else if env_drive env (gp_chip g) (gp_line g)
      then (0, Some v, [Property_Set (gpio_path (gp_name g)) v, Request_Output (gp_chip g) (gp_line g) v])
      else (-1, None, [Property_Set (gpio_path (gp_name g)) v]))"

text \<open>Reading a line requests it as an input, whatever the pin is.\<close>

definition readgpio :: "gpio_env \<Rightarrow> gpio_info \<Rightarrow> int \<times> int option \<times> gpio_effect list" where
  "readgpio env g =
     (case env_read env (gp_chip g) (gp_line g) of
        Some v \<Rightarrow> (v, Some v, [Request_Input (gp_chip g) (gp_line g)])
      | None \<Rightarrow> (-1, None, []))"

text \<open>\<open>return value\<close> and the status convert a \<open>double\<close> to \<open>int\<close>; a value outside its range is undefined.\<close>

definition readdbusgpio :: "gpio_env \<Rightarrow> gpio_info \<Rightarrow> (int \<times> int option \<times> gpio_effect list) res" where
  "readdbusgpio env g =
     (case env_get env (gpio_path (gp_name g)) of
        Some x \<Rightarrow>
          let v = (if x < 0 then \<lceil>x\<rceil> else \<lfloor>x\<rfloor>) in
          if - (2 ^ 31) \<le> v \<and> v < 2 ^ 31 then Inr (v, Some v, [Property_Get (gpio_path (gp_name g))])
          else Inl Float_Cast
      | None \<Rightarrow> Inr (-1, None, []))"

definition ischassisgpio :: "CLI \<Rightarrow> gpio_info \<Rightarrow> bool" where
  "ischassisgpio cli g = list_ex (\<lambda>c. gp_name c = gp_name g) (chassis_gpios cli)"

text \<open>The pin of a command, and the list it was found in (\<open>True\<close> for the available pins).\<close>

definition find_pin :: "CLI \<Rightarrow> string \<Rightarrow> (bool \<times> gpio_info) option" where
  "find_pin cli name =
     (case pin_by_name name (available_gpios cli) of
        Some g \<Rightarrow> Some (True, g)
      | None \<Rightarrow> map_option (Pair False) (pin_by_name name (chassis_gpios cli)))"

definition store_status :: "bool \<Rightarrow> string \<Rightarrow> int option \<Rightarrow> CLI \<Rightarrow> CLI" where
  "store_status avail name v cli =
     (case v of
        None \<Rightarrow> cli
      | Some x \<Rightarrow> if avail then cli\<lparr>available_gpios := set_status name x (available_gpios cli)\<rparr>
                  else cli\<lparr>chassis_gpios := set_status name x (chassis_gpios cli)\<rparr>)"

definition display_options :: "gpio_effect list" where
  "display_options = map Print
     [''Available commands are: '', ''list : list all pins and their direction'',
      ''get : get the status of an output pin or the reading of an input pin'', ''usage : lcrpin get [PIN NAME]'',
      ''set : set an output pin to either 1 or 0'', ''usage : lcrpin set [PIN NAME] [1 OR 0]'',
      ''all : retrieve the status of all pins, both input and output'']"

definition display_PINs :: "CLI \<Rightarrow> gpio_effect list" where
  "display_PINs cli =
     Print ''Input pins:'' # map (\<lambda>g. Print (gp_name g)) (filter gp_input (available_gpios cli)) @
     Print ''Output pins:'' # map (\<lambda>g. Print (gp_name g)) (filter (\<lambda>g. \<not> gp_input g) (available_gpios cli))"

text \<open>Reading the pins of a list that satisfy a condition, each entry in place.\<close>

fun read_pins ::
  "(gpio_info \<Rightarrow> bool) \<Rightarrow> (gpio_info \<Rightarrow> (int \<times> int option \<times> gpio_effect list) res) \<Rightarrow> gpio_info list \<Rightarrow>
   (gpio_info list \<times> gpio_effect list) res" where
  "read_pins P rd [] = Inr ([], [])"
| "read_pins P rd (g # gs) =
     (if P g then
        rbind (rd g) (\<lambda>(v, st, effs).
        rbind (read_pins P rd gs) (\<lambda>(gs', effs').
          Inr ((case st of Some x \<Rightarrow> g\<lparr>gp_status := x\<rparr> | None \<Rightarrow> g) # gs', effs @ Print_Pin (gp_name g) v # effs')))
      else rbind (read_pins P rd gs) (\<lambda>(gs', effs'). Inr (g # gs', effs')))"

definition readallpins :: "gpio_env \<Rightarrow> CLI \<Rightarrow> (CLI \<times> gpio_effect list) res" where
  "readallpins env cli =
     rbind (read_pins gp_input (\<lambda>g. Inr (readgpio env g)) (available_gpios cli)) (\<lambda>(a1, e1).
     rbind (read_pins (\<lambda>g. \<not> gp_input g) (\<lambda>g. Inr (readgpio env g)) a1) (\<lambda>(a2, e2).
     rbind (read_pins (\<lambda>_. True) (readdbusgpio env) (chassis_gpios cli)) (\<lambda>(c, e3).
       Inr (cli\<lparr>available_gpios := a2, chassis_gpios := c\<rparr>,
         Print ''Input pins:'' # e1 @ Print ''Output pins:'' # e2 @ Print ''Chassis signals:'' # e3))))"

definition command_set :: "gpio_env \<Rightarrow> string \<Rightarrow> string \<Rightarrow> CLI \<Rightarrow> (int \<times> CLI \<times> gpio_effect list) res" where
  "command_set env cname csetting cli =
     (case find_pin cli cname of
        None \<Rightarrow> Inr (-1, cli, [Print ''gpio name does not exist.''])
      | Some (avail, g) \<Rightarrow>
          rbind (stoi csetting) (\<lambda>v.
            case (if ischassisgpio cli g then setdbusgpio env g v else setgpio env g v) of
              (getv, st, effs) \<Rightarrow> Inr (0, store_status avail cname st cli, effs)))"

definition command_get :: "gpio_env \<Rightarrow> string \<Rightarrow> CLI \<Rightarrow> (int \<times> CLI \<times> gpio_effect list) res" where
  "command_get env cname cli =
     (case find_pin cli cname of
        None \<Rightarrow> Inr (-1, cli, [Print ''gpio name does not exist.''])
      | Some (avail, g) \<Rightarrow>
          rbind (if ischassisgpio cli g then readdbusgpio env g else Inr (readgpio env g)) (\<lambda>(getv, st, effs).
            Inr (0, store_status avail cname st cli, effs @ [Print_Pin (gp_name g) getv])))"

text \<open>\<open>args\<close> are the arguments with the program name first.\<close>

definition process_argument :: "gpio_env \<Rightarrow> string list \<Rightarrow> CLI \<Rightarrow> (int \<times> CLI \<times> gpio_effect list) res" where
  "process_argument env args cli =
     (if length args \<le> 1 then Inr (0, cli, [])
      else let argument = args ! 1 in
        if argument = ''set'' \<or> argument = ''Set'' then
          (if length args = 4 then command_set env (args ! 2) (args ! 3) cli
           else Inr (0, cli, [Print ''Incorrect number of arguments'']))
        else if argument = ''get'' \<or> argument = ''Get'' then
          (if length args = 3 then command_get env (args ! 2) cli
           else Inr (0, cli, [Print ''Incorrect number of arguments'']))
        else if argument = ''list'' \<or> argument = ''List'' then Inr (0, cli, display_PINs cli)
        else if argument = ''help'' \<or> argument = ''Help'' then Inr (0, cli, display_options)
        else if argument = ''all'' \<or> argument = ''All'' then
          rbind (readallpins env cli) (\<lambda>(cli', effs). Inr (0, cli', effs))
        else Inr (0, cli, Print ''Unknown command.'' # display_options))"

definition lcrpin_main :: "gpio_env \<Rightarrow> string list \<Rightarrow> (int \<times> CLI \<times> gpio_effect list) res" where
  "lcrpin_main env args =
     (if length args > 1 then process_argument env args build_gpio_list
      else Inr (0, build_gpio_list, Print ''No arguments provided. Options displayed below:'' # display_options))"

section \<open>The monitor\<close>

record GpioMonitor =
  mon_gpios :: "gpio_info list"
  mon_ifaces :: "string \<rightharpoonup> int"

text \<open>The monitor's \<open>readgpio\<close>: whether the level changed, and the pin afterwards.\<close>

definition mon_readgpio :: "gpio_env \<Rightarrow> gpio_info \<Rightarrow> bool \<times> gpio_info \<times> gpio_effect list" where
  "mon_readgpio env g =
     (case env_read env (gp_chip g) (gp_line g) of
        Some v \<Rightarrow> (v \<noteq> gp_status g, g\<lparr>gp_status := v\<rparr>, [Request_Input (gp_chip g) (gp_line g)])
      | None \<Rightarrow> (False, g, []))"

text \<open>\<open>gpioIfaces[name]->value(...)\<close>: a missing name is inserted with a null pointer.\<close>

definition update_bus :: "gpio_info \<Rightarrow> (string \<rightharpoonup> int) \<Rightarrow> (string \<rightharpoonup> int) res" where
  "update_bus g ifaces =
     (case ifaces (gp_name g) of None \<Rightarrow> Inl Null_Deref | Some _ \<Rightarrow> Inr (ifaces(gp_name g \<mapsto> gp_status g)))"

fun mon_readallpins ::
  "gpio_env \<Rightarrow> gpio_info list \<Rightarrow> (string \<rightharpoonup> int) \<Rightarrow> (gpio_info list \<times> (string \<rightharpoonup> int) \<times> gpio_effect list) res" where
  "mon_readallpins env [] ifaces = Inr ([], ifaces, [])"
| "mon_readallpins env (g # gs) ifaces =
     (case mon_readgpio env g of (changed, g', effs) \<Rightarrow>
        rbind (if changed then update_bus g' ifaces else Inr ifaces) (\<lambda>ifaces1.
        rbind (mon_readallpins env gs ifaces1) (\<lambda>(gs', ifaces2, effs').
          Inr (g' # gs', ifaces2, effs @ effs'))))"

definition initallpins :: "gpio_env \<Rightarrow> gpio_info list \<Rightarrow> gpio_info list \<times> gpio_effect list" where
  "initallpins env gs =
     (map (\<lambda>g. fst (snd (mon_readgpio env g))) gs, concat (map (\<lambda>g. snd (snd (mon_readgpio env g))) gs))"

definition expose_gpio :: "gpio_info \<Rightarrow> (string \<rightharpoonup> int) \<Rightarrow> (string \<rightharpoonup> int)" where
  "expose_gpio g ifaces = ifaces(gp_name g \<mapsto> gp_status g)"

definition expose_gpios :: "gpio_info list \<Rightarrow> (string \<rightharpoonup> int)" where
  "expose_gpios gs =
     fold expose_gpio (gs @ [sysreset_pin, gdiscrete_pin, psenable_pin, ps1inh_pin, ps2inh_pin]) Map.empty"

definition monitor_pins :: "gpio_info list" where
  "monitor_pins = bp_outputs @ bp_inputs @ [nvmro_pin, ps1fail_pin, ps2fail_pin]"

definition GpioMonitor_new :: "gpio_env \<Rightarrow> GpioMonitor" where
  "GpioMonitor_new env =
     (let gs = fst (initallpins env monitor_pins) in \<lparr>mon_gpios = gs, mon_ifaces = expose_gpios gs\<rparr>)"

definition run_monitor :: "gpio_env \<Rightarrow> GpioMonitor \<Rightarrow> (GpioMonitor \<times> gpio_effect list) res" where
  "run_monitor env m =
     rbind (mon_readallpins env (mon_gpios m) (mon_ifaces m)) (\<lambda>(gs, ifaces, effs).
       Inr (m\<lparr>mon_gpios := gs, mon_ifaces := ifaces\<rparr>, effs))"

section \<open>What drives a line\<close>

definition drives :: "gpio_effect list \<Rightarrow> int \<Rightarrow> int \<Rightarrow> int \<Rightarrow> bool" where
  "drives effs c l v \<longleftrightarrow> Request_Output c l v \<in> set effs"

lemma drives_simps [simp]:
  "\<not> drives [] c l v"
  "drives (e # es) c l v \<longleftrightarrow> e = Request_Output c l v \<or> drives es c l v"
  "drives (es @ es') c l v \<longleftrightarrow> drives es c l v \<or> drives es' c l v"
  "\<not> drives (map (\<lambda>g. Print (h g)) gs) c l v"
  by (auto simp: drives_def)

lemma drives_display [simp]: "\<not> drives display_options c l v" "\<not> drives (display_PINs cli) c l v"
  by (simp_all add: display_options_def display_PINs_def)

lemma readgpio_drives: "readgpio env g = (v', st, effs) \<Longrightarrow> \<not> drives effs c l v"
  by (auto simp: readgpio_def split: option.splits)

lemma readdbusgpio_drives: "readdbusgpio env g = Inr (v', st, effs) \<Longrightarrow> \<not> drives effs c l v"
  by (auto simp: readdbusgpio_def Let_def split: option.splits if_splits)

lemma read_pins_drives:
  assumes "\<And>g v' st effs. rd g = Inr (v', st, effs) \<Longrightarrow> \<not> drives effs c l v"
    and "read_pins P rd gs = Inr (gs', effs)"
  shows "\<not> drives effs c l v"
  using assms(2)
proof (induction gs arbitrary: gs' effs)
  case (Cons g gs)
  then show ?case
    using assms(1) by (fastforce split: if_splits elim!: rbind_InrE)
qed simp

lemma readallpins_drives:
  assumes "readallpins env cli = Inr (cli', effs)"
  shows "\<not> drives effs c l v"
proof -
  have rd: "\<not> drives effs c l v" if "Inr (readgpio env g) = (Inr (v', st, effs) :: _ res)" for g v' st effs
    using readgpio_drives that by auto
  from assms obtain a1 e1 a2 e2 cs e3 where
    "read_pins gp_input (\<lambda>g. Inr (readgpio env g)) (available_gpios cli) = Inr (a1, e1)"
    "read_pins (\<lambda>g. \<not> gp_input g) (\<lambda>g. Inr (readgpio env g)) a1 = Inr (a2, e2)"
    "read_pins (\<lambda>_. True) (readdbusgpio env) (chassis_gpios cli) = Inr (cs, e3)"
    and effs: "effs = Print ''Input pins:'' # e1 @ Print ''Output pins:'' # e2 @ Print ''Chassis signals:'' # e3"
    unfolding readallpins_def by (force elim!: rbind_InrE)
  from read_pins_drives [OF rd this(1)] read_pins_drives [OF rd this(2)] read_pins_drives [OF readdbusgpio_drives this(3)]
  show ?thesis by (simp add: effs)
qed

lemma command_get_drives: "command_get env name cli = Inr (rc, cli', effs) \<Longrightarrow> \<not> drives effs c l v"
  using readgpio_drives readdbusgpio_drives
  by (auto simp: command_get_def rbind_Inr_iff split: option.splits if_splits)

text \<open>The conditions under which a \<open>set\<close> command drives a line.\<close>

definition may_drive :: "gpio_env \<Rightarrow> string \<Rightarrow> string \<Rightarrow> CLI \<Rightarrow> int \<Rightarrow> int \<Rightarrow> int \<Rightarrow> bool" where
  "may_drive env name setting cli c l v \<longleftrightarrow>
     (case find_pin cli name of
        None \<Rightarrow> False
      | Some (_, g) \<Rightarrow> \<not> gp_input g \<and> stoi setting = Inr v \<and> (v = 0 \<or> v = 1) \<and> c = gp_chip g \<and> l = gp_line g \<and>
          env_drive env c l \<and> (ischassisgpio cli g \<longrightarrow> env_set env (gpio_path (gp_name g))))"

lemma command_set_drives:
  assumes "command_set env name setting cli = Inr (rc, cli', effs)"
  shows "drives effs c l v \<longleftrightarrow> may_drive env name setting cli c l v"
  using assms
  by (auto simp: command_set_def may_drive_def setgpio_def setdbusgpio_def split: option.splits if_splits elim!: rbind_InrE)

lemma length_4_conv: "length xs = 4 \<longleftrightarrow> (\<exists>a b c d. xs = [a, b, c, d])"
  by (auto simp: numeral_eq_Suc length_Suc_conv)

lemma lcrpin_drives:
  assumes "lcrpin_main env args = Inr (rc, cli, effs)"
  shows "Request_Output c l v \<in> set effs \<longleftrightarrow>
    (\<exists>prog cmd name setting. args = [prog, cmd, name, setting] \<and> (cmd = ''set'' \<or> cmd = ''Set'') \<and>
       may_drive env name setting build_gpio_list c l v)"
proof (cases "length args = 4 \<and> (args ! 1 = ''set'' \<or> args ! 1 = ''Set'')")
  case True
  then obtain p cmd name setting where args: "args = [p, cmd, name, setting]" "cmd = ''set'' \<or> cmd = ''Set''"
    by (auto simp: length_4_conv)
  then have "command_set env name setting build_gpio_list = Inr (rc, cli, effs)"
    using assms by (auto simp: lcrpin_main_def process_argument_def)
  from command_set_drives [OF this, of c l v] show ?thesis
    using args by (auto simp: drives_def)
next
  case False
  then have "\<not> drives effs c l v"
    using assms command_get_drives readallpins_drives
    by (auto simp: lcrpin_main_def process_argument_def Let_def split: if_splits elim!: rbind_InrE)
  with False show ?thesis by (auto simp: drives_def)
qed

text \<open>
  C27. The tool drives a line exactly for a \<open>set\<close> command with four arguments that names an output
  pin and a value that reads as 0 or 1, when the line can be opened and, for a chassis signal, its
  D-Bus property could be set first. Then the line driven is the pin's, with that value; no other
  command, and no read, ever drives a line.
\<close>

theorem lcrpin_drives_iff:
  assumes "lcrpin_main env args = Inr (rc, cli, effs)"
  shows "Request_Output c l v \<in> set effs \<longleftrightarrow>
    (\<exists>prog cmd name setting. args = [prog, cmd, name, setting] \<and> (cmd = ''set'' \<or> cmd = ''Set'') \<and>
       may_drive env name setting build_gpio_list c l v)"
  by (rule lcrpin_drives [OF assms])

definition example_gpio_env :: gpio_env where
  "example_gpio_env = \<lparr>env_read = (\<lambda>c l. Some 1), env_drive = (\<lambda>c l. True), env_get = (\<lambda>_. Some 0), env_set = (\<lambda>_. True)\<rparr>"

lemma example_stoi: "stoi ''1'' = Inr 1"
  by (simp add: stoi_def is_space_def is_digit_def digits_value_def digit_of_def of_char_def)

lemma example_pin: "find_pin build_gpio_list ''BP_GPIO_OUT3'' = Some (True, populate_info False 0 11 0 ''BP_GPIO_OUT3'')"
  by (simp add: find_pin_def pin_by_name_def build_gpio_list_def pin_defs)

lemma example_set_run:
  "\<exists>rc cli effs. lcrpin_main example_gpio_env [''lcrpin'', ''set'', ''BP_GPIO_OUT3'', ''1''] = Inr (rc, cli, effs)"
  by (simp add: lcrpin_main_def process_argument_def command_set_def example_stoi example_pin split: prod.split)

lemma example_may_drive: "may_drive example_gpio_env ''BP_GPIO_OUT3'' ''1'' build_gpio_list 0 11 1"
  by (simp add: may_drive_def example_pin example_stoi populate_info_def example_gpio_env_def)

theorem lcrpin_drives_iff_witness:
  "\<exists>rc cli effs. lcrpin_main example_gpio_env [''lcrpin'', ''set'', ''BP_GPIO_OUT3'', ''1''] = Inr (rc, cli, effs) \<and>
     Request_Output 0 11 1 \<in> set effs"
proof -
  obtain rc cli effs where
    r: "lcrpin_main example_gpio_env [''lcrpin'', ''set'', ''BP_GPIO_OUT3'', ''1''] = Inr (rc, cli, effs)"
    using example_set_run by blast
  with lcrpin_drives_iff [OF r, of 0 11 1] example_may_drive show ?thesis by blast
qed

section \<open>The monitor's published values\<close>

definition pin_static :: "gpio_info \<Rightarrow> bool \<times> int \<times> int \<times> string" where
  "pin_static g = (gp_input g, gp_chip g, gp_line g, gp_name g)"

lemma mon_readgpio_static: "pin_static (fst (snd (mon_readgpio env g))) = pin_static g"
  by (simp add: mon_readgpio_def pin_static_def split: option.split)

lemma pin_static_eqD:
  "pin_static g = pin_static h \<Longrightarrow> gp_name g = gp_name h \<and> gp_chip g = gp_chip h \<and> gp_line g = gp_line h"
  by (simp add: pin_static_def)

text \<open>What a round does to one pin: its status is the level read, if it could be read.\<close>

definition polled_pin :: "gpio_env \<Rightarrow> gpio_info \<Rightarrow> gpio_info \<Rightarrow> bool" where
  "polled_pin env g g' \<longleftrightarrow> pin_static g' = pin_static g \<and>
     gp_status g' = (case env_read env (gp_chip g) (gp_line g) of Some v \<Rightarrow> v | None \<Rightarrow> gp_status g)"

lemma mon_readgpio_polled: "polled_pin env g (fst (snd (mon_readgpio env g)))"
  by (simp add: polled_pin_def mon_readgpio_def pin_static_def split: option.split)

definition published :: "(string \<rightharpoonup> int) \<Rightarrow> gpio_info list \<Rightarrow> bool" where
  "published ifaces gs \<longleftrightarrow> (\<forall>g \<in> set gs. ifaces (gp_name g) = Some (gp_status g))"

lemma mon_readallpins_published:
  assumes "distinct (map gp_name gs)" "published ifaces gs"
  shows "\<exists>gs' ifaces' effs. mon_readallpins env gs ifaces = Inr (gs', ifaces', effs) \<and>
    list_all2 (polled_pin env) gs gs' \<and> published ifaces' gs' \<and> (\<forall>n. n \<notin> gp_name ` set gs \<longrightarrow> ifaces' n = ifaces n) \<and>
    (\<forall>g \<in> set gs. env_read env (gp_chip g) (gp_line g) \<noteq> None \<longrightarrow> Request_Input (gp_chip g) (gp_line g) \<in> set effs)"
  using assms
proof (induction gs arbitrary: ifaces)
  case (Cons g gs)
  obtain changed g' effs where rd: "mon_readgpio env g = (changed, g', effs)" by (cases "mon_readgpio env g")
  have g': "polled_pin env g g'" using mon_readgpio_polled [of env g] rd by simp
  then have name: "gp_name g' = gp_name g" by (simp add: polled_pin_def pin_static_def)
  have reads: "env_read env (gp_chip g) (gp_line g) \<noteq> None \<longrightarrow> Request_Input (gp_chip g) (gp_line g) \<in> set effs"
    and same: "\<not> changed \<longrightarrow> gp_status g' = gp_status g"
    using rd by (auto simp: mon_readgpio_def split: option.splits)
  define ifaces1 where "ifaces1 = (if changed then ifaces(gp_name g \<mapsto> gp_status g') else ifaces)"
  have up: "(if changed then update_bus g' ifaces else Inr ifaces) = Inr ifaces1"
    using Cons.prems(2) name by (auto simp: ifaces1_def update_bus_def published_def)
  have own: "ifaces1 (gp_name g) = Some (gp_status g')"
    using Cons.prems(2) same by (auto simp: ifaces1_def published_def)
  have "gp_name h \<noteq> gp_name g" if "h \<in> set gs" for h
    using Cons.prems(1) imageI [OF that, of gp_name] by (metis distinct.simps(2) list.simps(9) set_map)
  then have "published ifaces1 gs" using Cons.prems(2) by (simp add: ifaces1_def published_def)
  then obtain gs' ifaces2 effs' where rest: "mon_readallpins env gs ifaces1 = Inr (gs', ifaces2, effs')"
      "list_all2 (polled_pin env) gs gs'" "published ifaces2 gs'" "\<forall>n. n \<notin> gp_name ` set gs \<longrightarrow> ifaces2 n = ifaces1 n"
      "\<forall>g \<in> set gs. env_read env (gp_chip g) (gp_line g) \<noteq> None \<longrightarrow> Request_Input (gp_chip g) (gp_line g) \<in> set effs'"
    using Cons.IH [of ifaces1] Cons.prems(1) by auto
  have "ifaces2 (gp_name g) = Some (gp_status g')" using rest(4) own Cons.prems(1) by simp
  then have "published ifaces2 (g' # gs')" using rest(3) name by (simp add: published_def)
  then show ?case
    using rd up rest g' reads
    by (intro exI [of _ "g' # gs'"] exI [of _ ifaces2] exI [of _ "effs @ effs'"]) (auto simp: ifaces1_def)
qed (simp add: published_def)

text \<open>
  The monitor between polls, and the D-Bus writes of \<open>lcrpin\<close>, which reach the objects the monitor
  publishes.
\<close>

inductive monitor_step :: "GpioMonitor \<Rightarrow> GpioMonitor \<Rightarrow> bool" where
  poll: "run_monitor env m = Inr (m', effs) \<Longrightarrow> monitor_step m m'"
| client: "lcrpin_main env args = Inr (rc, cli, effs) \<Longrightarrow> Property_Set (gpio_path name) v \<in> set effs \<Longrightarrow>
     monitor_step m (m\<lparr>mon_ifaces := (mon_ifaces m)(name \<mapsto> v)\<rparr>)"

definition mon_inv :: "GpioMonitor \<Rightarrow> bool" where
  "mon_inv m \<longleftrightarrow> map pin_static (mon_gpios m) = map pin_static monitor_pins \<and> published (mon_ifaces m) (mon_gpios m)"

lemma names_of_static: "map pin_static gs = map pin_static hs \<Longrightarrow> map gp_name gs = map gp_name hs"
  by (induction gs hs rule: list_induct2') (auto simp: pin_static_def)

lemma monitor_names_distinct: "distinct (map gp_name monitor_pins)"
  by (simp add: monitor_pins_def pin_defs)

lemma polled_static: "list_all2 (polled_pin env) gs gs' \<Longrightarrow> map pin_static gs' = map pin_static gs"
  by (induction rule: list_all2_induct) (auto simp: polled_pin_def)

lemma expose_gpio_self: "expose_gpio g m (gp_name g) = Some (gp_status g)"
  by (simp add: expose_gpio_def)

lemma expose_gpio_other: "n \<noteq> gp_name g \<Longrightarrow> expose_gpio g m n = m n"
  by (simp add: expose_gpio_def)

lemma fold_expose:
  "distinct (map gp_name gs) \<Longrightarrow> g \<in> set gs \<Longrightarrow> fold expose_gpio gs m (gp_name g) = Some (gp_status g)"
  "n \<notin> gp_name ` set gs \<Longrightarrow> fold expose_gpio gs m n = m n"
proof -
  show other: "fold expose_gpio gs m n = m n" if "n \<notin> gp_name ` set gs" for gs m n
    using that by (induction gs arbitrary: m) (simp_all add: expose_gpio_other)
  show "fold expose_gpio gs m (gp_name g) = Some (gp_status g)" if "distinct (map gp_name gs)" "g \<in> set gs"
    using that
  proof (induction gs arbitrary: m)
    case (Cons h gs)
    then show ?case
      using other [of "gp_name h" gs "expose_gpio h m"] expose_gpio_self [of h m] by (cases "g = h") auto
  qed simp
qed

lemma mon_inv_new: "mon_inv (GpioMonitor_new env)"
proof -
  define gs where "gs = fst (initallpins env monitor_pins)"
  have st: "map pin_static gs = map pin_static monitor_pins"
    by (simp add: gs_def initallpins_def mon_readgpio_static)
  let ?more = "[sysreset_pin, gdiscrete_pin, psenable_pin, ps1inh_pin, ps2inh_pin]"
  have "distinct (map gp_name (gs @ ?more))"
    using names_of_static [OF st] by (simp add: monitor_pins_def pin_defs)
  then have "published (expose_gpios gs) gs"
    using fold_expose(1) [of "gs @ ?more"] by (auto simp: published_def expose_gpios_def simp del: fold_append)
  with st show ?thesis by (simp add: mon_inv_def GpioMonitor_new_def Let_def flip: gs_def)
qed

lemma mon_inv_poll:
  assumes "mon_inv m"
  shows "\<exists>m' effs. run_monitor env m = Inr (m', effs) \<and> mon_inv m' \<and> list_all2 (polled_pin env) (mon_gpios m) (mon_gpios m') \<and>
    (\<forall>g \<in> set (mon_gpios m). env_read env (gp_chip g) (gp_line g) \<noteq> None \<longrightarrow>
       Request_Input (gp_chip g) (gp_line g) \<in> set effs)"
proof -
  have st: "map pin_static (mon_gpios m) = map pin_static monitor_pins" and pub: "published (mon_ifaces m) (mon_gpios m)"
    using assms by (auto simp: mon_inv_def)
  have "distinct (map gp_name (mon_gpios m))"
    using names_of_static [OF st] monitor_names_distinct by simp
  from mon_readallpins_published [OF this pub, of env] obtain gs' ifaces' effs where
    "mon_readallpins env (mon_gpios m) (mon_ifaces m) = Inr (gs', ifaces', effs)"
    "list_all2 (polled_pin env) (mon_gpios m) gs'" "published ifaces' gs'"
    "\<forall>g \<in> set (mon_gpios m). env_read env (gp_chip g) (gp_line g) \<noteq> None \<longrightarrow> Request_Input (gp_chip g) (gp_line g) \<in> set effs"
    by blast
  then show ?thesis
    using st polled_static by (auto simp: run_monitor_def mon_inv_def)
qed

lemma gpio_path_inj [simp]: "gpio_path a = gpio_path b \<longleftrightarrow> a = b"
  by (simp add: gpio_path_def)

text \<open>\<open>lcrpin\<close> sets the property of chassis outputs only, none of which the monitor polls.\<close>

lemma read_pins_no_set:
  assumes "\<And>g v' st effs. rd g = Inr (v', st, effs) \<Longrightarrow> Property_Set p v \<notin> set effs"
    and "read_pins P rd gs = Inr (gs', effs)"
  shows "Property_Set p v \<notin> set effs"
  using assms(2)
proof (induction gs arbitrary: gs' effs)
  case (Cons g gs)
  then show ?case
    using assms(1) by (fastforce split: if_splits elim!: rbind_InrE)
qed simp

lemma readgpio_no_set: "readgpio env g = (v', st, effs) \<Longrightarrow> Property_Set p v \<notin> set effs"
  by (auto simp: readgpio_def split: option.splits)

lemma readdbusgpio_no_set: "readdbusgpio env g = Inr (v', st, effs) \<Longrightarrow> Property_Set p v \<notin> set effs"
  by (auto simp: readdbusgpio_def Let_def split: option.splits if_splits)

lemma readallpins_no_set:
  assumes "readallpins env cli = Inr (cli', effs)"
  shows "Property_Set p v \<notin> set effs"
proof -
  have rd: "Property_Set p v \<notin> set effs" if "Inr (readgpio env g) = (Inr (v', st, effs) :: _ res)" for g v' st effs
    using readgpio_no_set that by auto
  from assms obtain a1 e1 a2 e2 cs e3 where
    "read_pins gp_input (\<lambda>g. Inr (readgpio env g)) (available_gpios cli) = Inr (a1, e1)"
    "read_pins (\<lambda>g. \<not> gp_input g) (\<lambda>g. Inr (readgpio env g)) a1 = Inr (a2, e2)"
    "read_pins (\<lambda>_. True) (readdbusgpio env) (chassis_gpios cli) = Inr (cs, e3)"
    and effs: "effs = Print ''Input pins:'' # e1 @ Print ''Output pins:'' # e2 @ Print ''Chassis signals:'' # e3"
    unfolding readallpins_def by (force elim!: rbind_InrE)
  from read_pins_no_set [OF rd this(1)] read_pins_no_set [OF rd this(2)] read_pins_no_set [OF readdbusgpio_no_set this(3)]
  show ?thesis by (simp add: effs)
qed

lemma command_get_no_set: "command_get env name cli = Inr (rc, cli', effs) \<Longrightarrow> Property_Set p v \<notin> set effs"
  using readgpio_no_set readdbusgpio_no_set
  by (auto simp: command_get_def rbind_Inr_iff split: option.splits if_splits)

lemma command_set_property:
  assumes "command_set env name setting cli = Inr (rc, cli', effs)" "Property_Set p v \<in> set effs"
  shows "\<exists>avail g. find_pin cli name = Some (avail, g) \<and> \<not> gp_input g \<and> ischassisgpio cli g \<and> p = gpio_path (gp_name g)"
  using assms
  by (auto simp: command_set_def setgpio_def setdbusgpio_def split: option.splits if_splits elim!: rbind_InrE)

definition all_pins :: "gpio_info list" where
  "all_pins = available_gpios build_gpio_list @ chassis_gpios build_gpio_list"

lemma find_pin_mem: "find_pin build_gpio_list name = Some (avail, g) \<Longrightarrow> g \<in> set all_pins"
  by (auto simp: all_pins_def find_pin_def pin_by_name_def find_Some_iff split: option.splits)

lemma chassis_outputs_not_polled:
  assumes "find_pin build_gpio_list name = Some (avail, g)" "\<not> gp_input g" "ischassisgpio build_gpio_list g"
  shows "gp_name g \<notin> gp_name ` set monitor_pins"
proof -
  have "list_all (\<lambda>g. gp_input g \<or> \<not> ischassisgpio build_gpio_list g \<or> gp_name g \<notin> gp_name ` set monitor_pins) all_pins"
    by code_simp
  then show ?thesis using find_pin_mem [OF assms(1)] assms(2,3) by (auto simp: list_all_iff)
qed

lemma lcrpin_property:
  assumes "lcrpin_main env args = Inr (rc, cli, effs)" "Property_Set (gpio_path name) v \<in> set effs"
  shows "name \<notin> gp_name ` set monitor_pins"
proof -
  obtain n s where "command_set env n s build_gpio_list = Inr (rc, cli, effs)"
    using assms command_get_no_set readallpins_no_set
    by (auto simp: lcrpin_main_def process_argument_def Let_def display_options_def display_PINs_def
        split: if_splits elim!: rbind_InrE)
  from command_set_property [OF this assms(2)] show ?thesis
    by (auto dest: chassis_outputs_not_polled simp del: image_iff)
qed

lemma mon_inv_client:
  assumes "mon_inv m" "name \<notin> gp_name ` set monitor_pins"
  shows "mon_inv (m\<lparr>mon_ifaces := (mon_ifaces m)(name \<mapsto> v)\<rparr>)"
proof -
  have "set (map gp_name (mon_gpios m)) = set (map gp_name monitor_pins)"
    using assms(1) names_of_static unfolding mon_inv_def by metis
  then show ?thesis using assms by (auto simp: mon_inv_def published_def)
qed

interpretation monitor_machine: invariant_system "\<lambda>m. \<exists>env. m = GpioMonitor_new env" monitor_step mon_inv
proof
  show "mon_inv m" if "\<exists>env. m = GpioMonitor_new env" for m using that mon_inv_new by auto
  show "mon_inv m'" if "mon_inv m" "monitor_step m m'" for m m'
    using that(2)
  proof cases
    case (poll env effs)
    then show ?thesis using mon_inv_poll [OF that(1), of env] by auto
  next
    case (client env args rc cli effs name v)
    then show ?thesis using mon_inv_client [OF that(1) lcrpin_property] by blast
  qed
qed

text \<open>
  C28. In every state the monitor can reach, with any polls and any \<open>lcrpin\<close> commands before, a poll
  runs without fault and afterwards the value published for each polled pin is the level just
  read, or the value it had where the line cannot be read.
\<close>

theorem monitor_publishes_levels:
  assumes "monitor_step\<^sup>*\<^sup>* (GpioMonitor_new env0) m"
  shows "\<exists>m' effs. run_monitor env m = Inr (m', effs) \<and>
    (\<forall>g \<in> set monitor_pins. mon_ifaces m' (gp_name g) =
       (case env_read env (gp_chip g) (gp_line g) of Some v \<Rightarrow> Some v | None \<Rightarrow> mon_ifaces m (gp_name g)))"
proof -
  have inv: "mon_inv m" using monitor_machine.inv_reachable [OF _ assms] by blast
  obtain m' effs where run: "run_monitor env m = Inr (m', effs)" and inv': "mon_inv m'"
    and polled: "list_all2 (polled_pin env) (mon_gpios m) (mon_gpios m')"
    using mon_inv_poll [OF inv, of env] by blast
  have "mon_ifaces m' (gp_name g) = (case env_read env (gp_chip g) (gp_line g) of Some v \<Rightarrow> Some v | None \<Rightarrow> mon_ifaces m (gp_name g))"
    if "g \<in> set monitor_pins" for g
  proof -
    have "pin_static g \<in> set (map pin_static (mon_gpios m))"
      using inv that by (simp add: mon_inv_def)
    then obtain h i where h: "i < length (mon_gpios m)" "h = mon_gpios m ! i" "pin_static h = pin_static g"
      by (auto simp: in_set_conv_nth)
    then have h': "polled_pin env h (mon_gpios m' ! i)" "mon_gpios m' ! i \<in> set (mon_gpios m')" "h \<in> set (mon_gpios m)"
      using polled by (auto simp: list_all2_conv_all_nth)
    then have "mon_ifaces m (gp_name h) = Some (gp_status h)"
      "mon_ifaces m' (gp_name (mon_gpios m' ! i)) = Some (gp_status (mon_gpios m' ! i))"
      using inv inv' by (simp_all add: mon_inv_def published_def)
    then show ?thesis
      using h'(1) pin_static_eqD [OF h(3)] pin_static_eqD [of "mon_gpios m' ! i" h]
      by (auto simp: polled_pin_def split: option.split)
  qed
  with run show ?thesis by blast
qed

theorem monitor_publishes_levels_witness:
  "\<exists>m' effs. run_monitor example_gpio_env (GpioMonitor_new (example_gpio_env\<lparr>env_read := (\<lambda>c l. Some 0)\<rparr>)) = Inr (m', effs) \<and>
     mon_ifaces m' ''nvmro'' = Some 1"
proof -
  have "nvmro_pin \<in> set monitor_pins" "gp_name nvmro_pin = ''nvmro''"
    by (simp_all add: monitor_pins_def nvmro_pin_def populate_info_def)
  then show ?thesis
    using monitor_publishes_levels [OF rtranclp.rtrancl_refl, of example_gpio_env "example_gpio_env\<lparr>env_read := (\<lambda>c l. Some 0)\<rparr>"]
    by (fastforce simp: example_gpio_env_def)
qed

text \<open>
  The monitor does not leave outputs alone: a backplane output that \<open>lcrpin\<close> drives is requested
  as an input by the next poll that can open the line, so the level set is driven for a tenth of a
  second only.
\<close>

theorem monitor_releases_driven_outputs:
  assumes "monitor_step\<^sup>*\<^sup>* (GpioMonitor_new env0) m"
    and "lcrpin_main env args = Inr (rc, cli, effs0)" "Request_Output c l v \<in> set effs0" "c = 0"
    and "env_read env1 c l \<noteq> None" "run_monitor env1 m = Inr (m', effs)"
  shows "Request_Input c l \<in> set effs"
proof -
  have inv: "mon_inv m" using monitor_machine.inv_reachable [OF _ assms(1)] by blast
  obtain name setting where "may_drive env name setting build_gpio_list c l v"
    using lcrpin_drives assms(2,3) by blast
  then obtain avail g where g: "find_pin build_gpio_list name = Some (avail, g)" "c = gp_chip g" "l = gp_line g"
    by (auto simp: may_drive_def split: option.splits)
  have "list_all (\<lambda>g. gp_chip g \<noteq> 0 \<or> g \<in> set monitor_pins) all_pins" by code_simp
  then have "g \<in> set monitor_pins"
    using find_pin_mem [OF g(1)] assms(4) g(2) by (auto simp: list_all_iff)
  then have "pin_static g \<in> set (map pin_static (mon_gpios m))" using inv by (simp add: mon_inv_def)
  then obtain h where "h \<in> set (mon_gpios m)" "gp_chip h = c" "gp_line h = l"
    using g(2,3) by (auto simp: pin_static_def)
  then show ?thesis
    using mon_inv_poll [OF inv, of env1] assms(5,6) by force
qed

end
