(* ===== verification/Boot_Manager.thy ===== *)
theory Boot_Manager
  imports Gpio "HOL-Library.Sublist"
begin

text \<open>
  The boot and supervision program of the chassis (\<open>lcr-MANAGER-app\<close>): the power-up sequence of
  \<open>main.cpp\<close>, the supervision of voltages, services and alarms, and the system log with its copy
  in flash (\<open>MANAGER.cpp\<close>).

  GPIO lines and D-Bus are parameters as in \<open>Gpio\<close>; systemd is the function that gives the state
  of a unit at each attempt, \<open>None\<close> where a call fails; the files of the ADC are a function from
  paths to contents. File-system calls on the log are taken to succeed. Handlers return their
  result, the manager afterwards and their effects. The threads of \<open>main\<close> are interleaved at the
  granularity of their handlers.

  The theorems: the order in which power and reset are released; what an alarm does and that it is
  final; the size and the content of the log; the log over a restart; and how an alarm can be lost.
\<close>

section \<open>Text\<close>

fun nat_str :: "nat \<Rightarrow> string" where
  "nat_str n = (if n < 10 then [char_of (48 + n)] else nat_str (n div 10) @ [char_of (48 + n mod 10)])"

declare nat_str.simps [simp del]

definition pad_str :: "nat \<Rightarrow> string \<Rightarrow> string" where
  "pad_str w s = replicate (w - length s) (CHR ''0'') @ s"

definition newline :: char where "newline = CHR 0x0A"

text \<open>The seconds of \<open>/proc/uptime\<close> as days, hours, minutes and seconds; \<open>None\<close> when it cannot be opened.\<close>

definition timeSinceBoot :: "nat option \<Rightarrow> string" where
  "timeSinceBoot uptime =
     (case uptime of
        None \<Rightarrow> ''Error: Unable to read /proc/uptime''
      | Some t \<Rightarrow>
          (if t div 86400 > 0 then nat_str (t div 86400) @ ''d '' else '''') @
          pad_str 2 (nat_str (t mod 86400 div 3600)) @ '':'' @
          pad_str 2 (nat_str (t mod 3600 div 60)) @ '':'' @
          pad_str 2 (nat_str (t mod 60)))"

text \<open>\<open>std::to_string\<close> of a \<open>double\<close>: six decimals.\<close>

definition double_str :: "real \<Rightarrow> string" where
  "double_str x =
     (let n = nat (round (\<bar>x\<bar> * 1000000)) in
      (if x < 0 then ''-'' else '''') @ nat_str (n div 1000000) @ ''.'' @ pad_str 6 (nat_str (n mod 1000000)))"

section \<open>The system log\<close>

definition MAX_SIZE :: nat where "MAX_SIZE = 1024 * 1024"

text \<open>The loop that looks for the first line to keep: stops behind a newline once enough is skipped.\<close>

fun skip_lines :: "nat \<Rightarrow> nat \<Rightarrow> string \<Rightarrow> string option" where
  "skip_lines to_skip skipped [] = None"
| "skip_lines to_skip skipped (ch # rest) =
     (if ch = newline \<and> skipped + 1 \<ge> to_skip then Some rest
      else skip_lines to_skip (skipped + 1) rest)"

definition trim_log :: "string \<Rightarrow> string" where
  "trim_log file =
     (if length file \<le> MAX_SIZE then file
      else case skip_lines (length file - MAX_SIZE) 0 file of None \<Rightarrow> file | Some rest \<Rightarrow> rest)"

definition log_line :: "string \<Rightarrow> string \<Rightarrow> string" where
  "log_line stamp msg = ''['' @ stamp @ ''] LCR: '' @ msg @ [newline]"

definition append_log :: "string \<Rightarrow> string \<Rightarrow> string \<Rightarrow> string" where
  "append_log stamp msg file = trim_log (file @ log_line stamp msg)"

lemma dropWhile_shorter: "dropWhile P s = x # r \<Longrightarrow> length r < length s"
  using length_dropWhile_le [of P s] by simp

text \<open>\<open>std::getline\<close> until the end of the file: a last line without newline counts.\<close>

function getlines :: "string \<Rightarrow> string list" where
  "getlines s =
     (if s = [] then []
      else case dropWhile (\<lambda>c. c \<noteq> newline) s of
             [] \<Rightarrow> [s]
           | _ # rest \<Rightarrow> takeWhile (\<lambda>c. c \<noteq> newline) s # getlines rest)"
  by pat_completeness auto
termination
  by (relation "measure length") (auto dest: dropWhile_shorter)

declare getlines.simps [simp del]

definition unlines :: "string list \<Rightarrow> string" where
  "unlines ls = concat (map (\<lambda>l. l @ [newline]) ls)"

text \<open>The log read back from flash, up to the first line of 1024 characters or more.\<close>

definition init_system_logs :: "string \<Rightarrow> string" where
  "init_system_logs flash = unlines (takeWhile (\<lambda>l. length l < 1024) (getlines flash))"

section \<open>State\<close>

record ADC_element =
  adc_name :: string
  adc_path :: string
  V_target :: real
  raw_reading :: "int option"
  scale_coeff :: "real option"
  V_current :: "real option"
  adc_safe :: "bool option"

definition ADC_new :: "string \<Rightarrow> string \<Rightarrow> real \<Rightarrow> ADC_element" where
  "ADC_new n p v = \<lparr>adc_name = n, adc_path = p, V_target = v, raw_reading = None, scale_coeff = None,
     V_current = None, adc_safe = None\<rparr>"

record mgr_gpio =
  mg_input :: bool
  mg_chip :: int
  mg_line :: int
  mg_status :: int
  mg_name :: string
  mg_dbusflag :: "bool option"

record Manager =
  ADCs :: "ADC_element list"
  limitJson :: "string \<Rightarrow> string \<Rightarrow> real option"
  sysreset :: mgr_gpio
  ps_enable :: mgr_gpio
  switch_gpio :: mgr_gpio
  alarm_gpio :: mgr_gpio
  temp_service_status :: bool
  voltage_service_status :: bool
  fan_controller_service_status :: bool
  mandatory_sensor_service_status :: bool
  gpio_service_status :: bool
  ipmi_service_status :: bool
  system_logs :: string

definition write_log_to_file :: "string \<Rightarrow> string \<Rightarrow> Manager \<Rightarrow> Manager" where
  "write_log_to_file stamp msg m = m\<lparr>system_logs := append_log stamp msg (system_logs m)\<rparr>"

definition calculate_cs :: "ADC_element list \<Rightarrow> ADC_element list" where
  "calculate_cs as = map (\<lambda>a. a\<lparr>scale_coeff := Some (V_target a / 2047)\<rparr>) as"

definition rails :: "ADC_element list" where
  "rails =
     [ADC_new ''12V_Rail'' ''/sys/bus/iio/devices/iio:device0/in_voltage9_raw'' 12,
      ADC_new ''3_3V_Rail'' ''/sys/bus/iio/devices/iio:device0/in_voltage10_raw'' 3.3,
      ADC_new ''5V_Rail'' ''/sys/bus/iio/devices/iio:device0/in_voltage11_raw'' 5,
      ADC_new ''3_3auxV_Rail'' ''/sys/bus/iio/devices/iio:device0/in_voltage12_raw'' 3.3,
      ADC_new ''12pauxV_Rail'' ''/sys/bus/iio/devices/iio:device0/in_voltage13_raw'' 12,
      ADC_new ''12nauxV_Rail'' ''/sys/bus/iio/devices/iio:device0/in_voltage14_raw'' 12]"

definition boot_messages :: "string list" where
  "boot_messages =
     [''Initializing system logs...'', replicate 119 (CHR ''-''), ''CHASSIS MANAGER BOOTUP'', ''BOOTUP LOGS BEGIN HERE'',
      ''FPGA has finished boot. Kernel booting has begun. These logs are for the BOOT SEQUENCE AND MANAGER application.'',
      ''This application manages the System Reset and PS enable signals.'',
      ''Once voltages are nominal and services are active, the system reset is released, allowing the cards to boot.'',
      replicate 119 (CHR ''-'')]"

definition Manager_new :: "string \<Rightarrow> string \<Rightarrow> (string \<Rightarrow> string \<Rightarrow> real option) \<Rightarrow> Manager" where
  "Manager_new flash stamp limits =
     \<lparr>ADCs = calculate_cs rails, limitJson = limits,
      sysreset = \<lparr>mg_input = False, mg_chip = 1, mg_line = 0, mg_status = 0, mg_name = ''sysreset'', mg_dbusflag = Some False\<rparr>,
      ps_enable = \<lparr>mg_input = False, mg_chip = 2, mg_line = 3, mg_status = 0, mg_name = ''psenable'', mg_dbusflag = Some False\<rparr>,
      switch_gpio = \<lparr>mg_input = True, mg_chip = 0, mg_line = 6, mg_status = 0, mg_name = ''switch_gpio'', mg_dbusflag = None\<rparr>,
      alarm_gpio = \<lparr>mg_input = False, mg_chip = 0, mg_line = 11, mg_status = 0, mg_name = ''alarm_gpio'', mg_dbusflag = None\<rparr>,
      temp_service_status = False, voltage_service_status = False, fan_controller_service_status = False,
      mandatory_sensor_service_status = False, gpio_service_status = False, ipmi_service_status = False,
      system_logs = fold (append_log stamp) boot_messages (init_system_logs flash)\<rparr>"

section \<open>Services\<close>

text \<open>
  systemd over D-Bus: whether it answers at each probe, and for a unit and an attempt (counted from 1)
  the state string, or \<open>None\<close> when one of the calls of the attempt fails.
\<close>

record systemd =
  sd_ready :: "nat \<Rightarrow> bool"
  sd_state :: "string \<Rightarrow> nat \<Rightarrow> string option"

text \<open>Waiting for D-Bus: at most ten probes; the number of waits of three seconds.\<close>

fun dbus_wait :: "(nat \<Rightarrow> bool) \<Rightarrow> nat \<Rightarrow> nat \<Rightarrow> nat" where
  "dbus_wait ready 0 i = i"
| "dbus_wait ready (Suc n) i = (if ready i then i else dbus_wait ready n (Suc i))"

text \<open>The attempts that are left, and the milliseconds slept between them.\<close>

fun service_attempts :: "(nat \<Rightarrow> string option) \<Rightarrow> nat \<Rightarrow> nat \<Rightarrow> bool \<times> nat" where
  "service_attempts st 0 attempt = (False, 0)"
| "service_attempts st (Suc n) attempt =
     (case st attempt of
        Some s \<Rightarrow> (s = ''active'', 0)
      | None \<Rightarrow>
          let delay = (if n > 0 then min (1000 * attempt) 5000 else 0) in
          (case service_attempts st n (Suc attempt) of (b, t) \<Rightarrow> (b, delay + t)))"

definition isServiceActive :: "systemd \<Rightarrow> string \<Rightarrow> bool \<times> nat" where
  "isServiceActive sd name =
     (let waits = dbus_wait (sd_ready sd) 10 0 in
      case service_attempts (sd_state sd name) 5 1 of (b, t) \<Rightarrow> (b, 3000 * waits + t))"

definition check_service :: "systemd \<Rightarrow> string \<Rightarrow> bool" where
  "check_service sd name = fst (isServiceActive sd name)"

definition service_change :: "string \<Rightarrow> string \<Rightarrow> bool \<Rightarrow> string" where
  "service_change stamp what status =
     ''['' @ stamp @ ''] LCR: '' @ what @ '' status changed'' @ (if status then '' to ON'' else '' to OFF'') @ [newline]"

text \<open>One status: logged and stored when it differs from the one known.\<close>

definition note_service ::
  "string \<Rightarrow> string \<Rightarrow> bool \<Rightarrow> (Manager \<Rightarrow> bool) \<Rightarrow> (bool \<Rightarrow> Manager \<Rightarrow> Manager) \<Rightarrow> Manager \<Rightarrow> Manager" where
  "note_service stamp what status get put m =
     (if status \<noteq> get m then put status (m\<lparr>system_logs := system_logs m @ service_change stamp what status\<rparr>) else m)"

definition watch_services :: "systemd \<Rightarrow> string \<Rightarrow> Manager \<Rightarrow> Manager" where
  "watch_services sd stamp m =
     (let t = check_service sd ''LCR_temp_sensors.service''; v = check_service sd ''LCR_ADC_sensors.service'';
          f = check_service sd ''LCR_fan_controller.service''; s = check_service sd ''LCR_Mandatory_Sensors.service'';
          g = check_service sd ''LCR_GPIO_Mon.service''; i = check_service sd ''phosphor-ipmi-host.service'';
          m1 = m\<lparr>ipmi_service_status := i\<rparr>;
          m2 = note_service stamp ''Temperature monitoring service'' t temp_service_status (\<lambda>b m. m\<lparr>temp_service_status := b\<rparr>) m1;
          m3 = note_service stamp ''Voltage monitoring service'' v voltage_service_status (\<lambda>b m. m\<lparr>voltage_service_status := b\<rparr>) m2;
          m4 = note_service stamp ''Fan Controller service'' f fan_controller_service_status (\<lambda>b m. m\<lparr>fan_controller_service_status := b\<rparr>) m3;
          m5 = note_service stamp ''Mandatory Sensors service'' s mandatory_sensor_service_status (\<lambda>b m. m\<lparr>mandatory_sensor_service_status := b\<rparr>) m4;
          m6 = note_service stamp ''GPIO monitoring service'' g gpio_service_status (\<lambda>b m. m\<lparr>gpio_service_status := b\<rparr>) m5
      in note_service stamp ''IPMI host service'' i ipmi_service_status (\<lambda>b m. m\<lparr>ipmi_service_status := b\<rparr>) m6)"

definition get_fan_controller_status :: "systemd \<Rightarrow> string \<Rightarrow> Manager \<Rightarrow> bool \<times> Manager" where
  "get_fan_controller_status sd stamp m =
     (let m' = watch_services sd stamp m in (fan_controller_service_status m', m'))"

section \<open>Lines and voltages\<close>

definition wait_for_switch :: "gpio_env \<Rightarrow> string \<Rightarrow> Manager \<Rightarrow> bool \<times> Manager \<times> gpio_effect list" where
  "wait_for_switch env stamp m =
     (let g = switch_gpio m in
      case env_read env (mg_chip g) (mg_line g) of
        None \<Rightarrow> (False, m, [])
      | Some v \<Rightarrow>
          let m1 = m\<lparr>switch_gpio := g\<lparr>mg_status := v\<rparr>\<rparr> in
          if v = 1
          then (True, write_log_to_file stamp ''Front Panel switch was turned on...'' m1, [Request_Input (mg_chip g) (mg_line g)])
          else (False, m1, [Request_Input (mg_chip g) (mg_line g)]))"

definition set_alarm_gpio :: "gpio_env \<Rightarrow> string \<Rightarrow> Manager \<Rightarrow> bool \<times> Manager \<times> gpio_effect list" where
  "set_alarm_gpio env stamp m =
     (let g = switch_gpio m in
      if env_drive env (mg_chip g) (mg_line g)
      then (True, write_log_to_file stamp ''Setting Alarm gpio pin'' (m\<lparr>switch_gpio := g\<lparr>mg_status := 1\<rparr>\<rparr>),
            [Request_Output (mg_chip g) (mg_line g) 1])
      else (False, m, []))"

definition set_ps :: "gpio_env \<Rightarrow> string \<Rightarrow> Manager \<Rightarrow> bool \<times> Manager \<times> gpio_effect list" where
  "set_ps env stamp m =
     (let g = ps_enable m in
      if env_drive env (mg_chip g) (mg_line g)
      then (True, (write_log_to_file stamp ''Setting Power Supply Enable pin'' m)
              \<lparr>ps_enable := g\<lparr>mg_status := 1, mg_dbusflag := Some True\<rparr>\<rparr>,
            [Request_Output (mg_chip g) (mg_line g) 1])
      else (False, m, []))"

definition unset_ps :: "gpio_env \<Rightarrow> string \<Rightarrow> Manager \<Rightarrow> bool \<times> Manager \<times> gpio_effect list" where
  "unset_ps env stamp m =
     (let g = ps_enable m in
      if env_drive env (mg_chip g) (mg_line g)
      then (True, (write_log_to_file stamp ''Unsetting Power Supply Enable pin'' m)
              \<lparr>ps_enable := g\<lparr>mg_status := 0, mg_dbusflag := Some False\<rparr>\<rparr>,
            [Request_Output (mg_chip g) (mg_line g) 0])
      else (False, m, []))"

text \<open>The reset line is active low: it is released by driving it to 0 with status 1.\<close>

definition set_sr :: "gpio_env \<Rightarrow> string \<Rightarrow> Manager \<Rightarrow> bool \<times> Manager \<times> gpio_effect list" where
  "set_sr env stamp m =
     (let g = sysreset m;
          m1 = write_log_to_file stamp
            ''Voltage monitoring: voltages within range, driving system reset pin to begin chassis boot'' m
      in if env_drive env (mg_chip g) (mg_line g)
         then (True, (write_log_to_file stamp ''Setting System Reset pin'' m1)
                 \<lparr>sysreset := g\<lparr>mg_status := 1, mg_dbusflag := Some True\<rparr>\<rparr>,
               [Request_Output (mg_chip g) (mg_line g) 0])
         else (False, m1, []))"

text \<open>
  The loop over the rails: it ends at the first rail that is out of range, and the rails behind it
  keep what they had. A file that is no number, or a limit that is missing, is an exception that
  nothing catches. The last component is the message for the log.
\<close>

fun read_rails ::
  "(string \<Rightarrow> string) \<Rightarrow> (string \<Rightarrow> string \<Rightarrow> real option) \<Rightarrow> ADC_element list \<Rightarrow>
   (bool \<times> ADC_element list \<times> string option) res" where
  "read_rails file limits [] = Inr (True, [], None)"
| "read_rails file limits (a # as) =
     rbind (stoi (file (adc_path a))) (\<lambda>raw.
     rbind (of_opt Uninit_Read (scale_coeff a)) (\<lambda>sc.
     rbind (of_opt Json_Exception (limits (adc_name a) ''min'')) (\<lambda>lo.
     rbind (of_opt Json_Exception (limits (adc_name a) ''max'')) (\<lambda>hi.
       let v = sc * of_int raw; a' = a\<lparr>raw_reading := Some raw, V_current := Some v\<rparr> in
       if v > lo \<and> v < hi then
         rbind (read_rails file limits as) (\<lambda>(b, as', msg). Inr (b, a'\<lparr>adc_safe := Some True\<rparr> # as', msg))
       else Inr (False, a'\<lparr>adc_safe := Some False\<rparr> # as,
              Some (''Voltage monitoring: '' @ adc_name a @ '' is unsafe at reading '' @ double_str v))))))"

fun rails_safe :: "ADC_element list \<Rightarrow> bool res" where
  "rails_safe [] = Inr True"
| "rails_safe (a # as) = rbind (of_opt Uninit_Read (adc_safe a)) (\<lambda>s. if s then rails_safe as else Inr False)"

definition update_readings :: "(string \<Rightarrow> string) \<Rightarrow> string \<Rightarrow> Manager \<Rightarrow> (bool \<times> Manager) res" where
  "update_readings file stamp m =
     rbind (read_rails file (limitJson m) (ADCs m)) (\<lambda>(b, as, msg).
       let m1 = (case msg of None \<Rightarrow> m | Some t \<Rightarrow> write_log_to_file stamp t m)\<lparr>ADCs := as\<rparr> in
       if \<not> b then Inr (False, m1)
       else rbind (rails_safe as) (\<lambda>s. Inr (s, m1)))"

definition getSensorByName :: "string \<Rightarrow> Manager \<Rightarrow> ADC_element option" where
  "getSensorByName name m = find (\<lambda>a. adc_name a = name) (ADCs m)"

text \<open>A heartbeat prints every rail; one that was never read has an indeterminate voltage.\<close>

fun heartbeat_text :: "ADC_element list \<Rightarrow> string res" where
  "heartbeat_text [] = Inr []"
| "heartbeat_text (a # as) =
     rbind (of_opt Uninit_Read (V_current a)) (\<lambda>v.
     rbind (heartbeat_text as) (\<lambda>t. Inr (adc_name a @ '': '' @ double_str v @ ''V '' @ t)))"

definition write_heartbeat :: "(string \<Rightarrow> string) \<Rightarrow> string \<Rightarrow> Manager \<Rightarrow> Manager res" where
  "write_heartbeat file stamp m =
     rbind (update_readings file stamp m) (\<lambda>(b, m1).
     rbind (heartbeat_text (ADCs m1)) (\<lambda>t. Inr (write_log_to_file stamp (''System heartbeat... '' @ t) m1)))"

text \<open>What \<open>flashcp\<close> writes to the flash.\<close>

definition write_logs_to_flash :: "Manager \<Rightarrow> string" where
  "write_logs_to_flash m = system_logs m"

section \<open>Supervision\<close>

text \<open>Publishing one output: the property is set when the flag is up; a failed write leaves it up.\<close>

definition publish_line :: "gpio_env \<Rightarrow> mgr_gpio \<Rightarrow> (mgr_gpio \<times> gpio_effect list) res" where
  "publish_line env g =
     rbind (of_opt Uninit_Read (mg_dbusflag g)) (\<lambda>flag.
       if flag \<and> env_set env (gpio_path (mg_name g))
       then Inr (g\<lparr>mg_dbusflag := Some False\<rparr>, [Property_Set (gpio_path (mg_name g)) (mg_status g)])
       else Inr (g, []))"

definition watch_gpios :: "gpio_env \<Rightarrow> Manager \<Rightarrow> (Manager \<times> gpio_effect list) res" where
  "watch_gpios env m =
     (if gpio_service_status m then
        rbind (publish_line env (ps_enable m)) (\<lambda>(ps, e1).
        rbind (publish_line env (sysreset m)) (\<lambda>(sr, e2).
          Inr (m\<lparr>ps_enable := ps, sysreset := sr\<rparr>, e1 @ e2)))
      else Inr (m, []))"

text \<open>The thresholds of the sensors on D-Bus: the two alarm flags and the value, each \<open>None\<close> on failure.\<close>

record alarm_env =
  al_low :: "string \<Rightarrow> bool option"
  al_high :: "string \<Rightarrow> bool option"
  al_value :: "string \<Rightarrow> real option"
  al_temps :: "string list option"
  al_volts :: "string list option"

text \<open>
  The loop over the paths with its local variables: the alarm, the path and the value it was seen
  with. An exception goes on to the next path with whatever has been assigned.
\<close>

fun scan_alarms ::
  "alarm_env \<Rightarrow> string list \<Rightarrow> bool \<times> string \<times> real option \<Rightarrow> bool \<times> string \<times> real option" where
  "scan_alarms env [] st = st"
| "scan_alarms env (path # paths) (alarm, nm, rd) =
     (case (al_low env path, al_high env path) of
        (Some lo, Some hi) \<Rightarrow>
          if lo \<or> hi then
            (case al_value env path of
               Some v \<Rightarrow> (True, path, Some v)
             | None \<Rightarrow> scan_alarms env paths (True, nm, rd))
          else scan_alarms env paths (False, nm, rd)
      | _ \<Rightarrow> scan_alarms env paths (alarm, nm, rd))"

definition scan_group ::
  "alarm_env \<Rightarrow> string list option \<Rightarrow> string \<times> real option \<Rightarrow> bool \<times> string \<times> real option" where
  "scan_group env paths st =
     (case paths of None \<Rightarrow> (False, st) | Some ps \<Rightarrow> scan_alarms env ps (False, st))"

text \<open>What is kept between two rounds of the alarm loop: name and value for both groups.\<close>

type_synonym alarm_locals = "(string \<times> real option) \<times> (string \<times> real option)"

definition alarm_round ::
  "systemd \<Rightarrow> alarm_env \<Rightarrow> string \<Rightarrow> alarm_locals \<Rightarrow> Manager \<Rightarrow> (bool \<times> bool) \<times> alarm_locals \<times> Manager" where
  "alarm_round sd env stamp ls m =
     (let m1 = watch_services sd stamp m;
          (temp_alarm, t) = scan_group env (al_temps env) (fst ls);
          (voltage_alarm, v) = scan_group env (al_volts env) (snd ls)
      in ((temp_alarm, voltage_alarm), (t, v), m1))"

text \<open>Behind the loop: log, power off, alarm line. The value logged must have been read.\<close>

definition report_alarm :: "string \<Rightarrow> string \<Rightarrow> string \<times> real option \<Rightarrow> Manager \<Rightarrow> Manager res" where
  "report_alarm stamp what l m =
     rbind (of_opt Uninit_Read (snd l)) (\<lambda>x.
       Inr (write_log_to_file stamp (what @ '' Alarm at path '' @ fst l @ '' with reading '' @ double_str x) m))"

definition log_alarm :: "string \<Rightarrow> bool \<times> bool \<Rightarrow> alarm_locals \<Rightarrow> Manager \<Rightarrow> Manager res" where
  "log_alarm stamp alarms ls m =
     (let m1 = m\<lparr>system_logs := system_logs m @ log_line stamp ''An alarm is found to be high'' @ log_line stamp ''Alarm: ''\<rparr>
      in if fst alarms then report_alarm stamp ''Temperature'' (fst ls) m1
         else if snd alarms then report_alarm stamp ''Voltage'' (snd ls) m1 else Inr m1)"

definition alarm_trip ::
  "gpio_env \<Rightarrow> string \<Rightarrow> bool \<times> bool \<Rightarrow> alarm_locals \<Rightarrow> Manager \<Rightarrow> (Manager \<times> gpio_effect list) res" where
  "alarm_trip env stamp alarms ls m =
     rbind (log_alarm stamp alarms ls m) (\<lambda>m2.
       case unset_ps env stamp m2 of (_, m3, e1) \<Rightarrow>
         (case set_alarm_gpio env stamp m3 of (_, m4, e2) \<Rightarrow>
            Inr (write_log_to_file stamp ''Alarm is set, reset the chassis.'' m4, e1 @ e2)))"

section \<open>The program\<close>

datatype boot_phase = Wait_Switch | Wait_Fans | Enable_PS | Wait_Voltages | Release_Reset | Running

datatype boot_event =
    Switch_On
  | Fans_Active
  | Line gpio_effect
  | Voltages_Good "(string \<times> real) list"
  | Alarm_Tripped

record boot_state =
  bs_phase :: boot_phase
  bs_mgr :: Manager
  bs_locals :: alarm_locals
  bs_watching :: bool
  bs_alarm :: bool
  bs_trace :: "boot_event list"

definition boot_init :: "boot_state \<Rightarrow> bool" where
  "boot_init s \<longleftrightarrow> bs_phase s = Wait_Switch \<and> (\<exists>flash stamp limits. bs_mgr s = Manager_new flash stamp limits) \<and>
     \<not> bs_watching s \<and> \<not> bs_alarm s \<and> bs_trace s = []"

definition voltages :: "Manager \<Rightarrow> (string \<times> real) list" where
  "voltages m = map (\<lambda>a. (adc_name a, the (V_current a))) (ADCs m)"

text \<open>
  One handler of one thread: the main thread by its phase; the log thread with its heartbeat; once
  the chassis runs, the thread that publishes lines and the alarm thread, which first waits for the
  IPMI host service and ends when an alarm has tripped.
\<close>

inductive boot_step :: "boot_state \<Rightarrow> boot_state \<Rightarrow> bool" where
  switch: "bs_phase s = Wait_Switch \<Longrightarrow> wait_for_switch env stamp (bs_mgr s) = (b, m, effs) \<Longrightarrow>
     boot_step s (s\<lparr>bs_phase := if b then Wait_Fans else Wait_Switch, bs_mgr := m,
       bs_trace := bs_trace s @ map Line effs @ (if b then [Switch_On] else [])\<rparr>)"
| fans: "bs_phase s = Wait_Fans \<Longrightarrow> get_fan_controller_status sd stamp (bs_mgr s) = (b, m) \<Longrightarrow>
     boot_step s (s\<lparr>bs_phase := if b then Enable_PS else Wait_Fans, bs_mgr := m,
       bs_trace := bs_trace s @ (if b then [Fans_Active] else [])\<rparr>)"
| power: "bs_phase s = Enable_PS \<Longrightarrow> set_ps env stamp (bs_mgr s) = (b, m, effs) \<Longrightarrow>
     boot_step s (s\<lparr>bs_phase := if b then Wait_Voltages else Enable_PS, bs_mgr := m,
       bs_trace := bs_trace s @ map Line effs\<rparr>)"
| volts: "bs_phase s = Wait_Voltages \<Longrightarrow> update_readings file stamp (bs_mgr s) = Inr (b, m) \<Longrightarrow>
     boot_step s (s\<lparr>bs_phase := if b then Release_Reset else Wait_Voltages, bs_mgr := m,
       bs_trace := bs_trace s @ (if b then [Voltages_Good (voltages m)] else [])\<rparr>)"
| reset: "bs_phase s = Release_Reset \<Longrightarrow> set_sr env stamp (bs_mgr s) = (b, m, effs) \<Longrightarrow>
     boot_step s (s\<lparr>bs_phase := if b then Running else Release_Reset, bs_mgr := m,
       bs_trace := bs_trace s @ map Line effs\<rparr>)"
| heartbeat: "write_heartbeat file stamp (bs_mgr s) = Inr m \<Longrightarrow> boot_step s (s\<lparr>bs_mgr := m\<rparr>)"
| ipmi_wait: "bs_phase s = Running \<Longrightarrow> \<not> bs_watching s \<Longrightarrow> \<not> ipmi_service_status (bs_mgr s) \<Longrightarrow>
     boot_step s (s\<lparr>bs_mgr := watch_services sd stamp (bs_mgr s)\<rparr>)"
| ipmi_active: "bs_phase s = Running \<Longrightarrow> \<not> bs_watching s \<Longrightarrow> ipmi_service_status (bs_mgr s) \<Longrightarrow>
     boot_step s (s\<lparr>bs_watching := True\<rparr>)"
| quiet: "bs_phase s = Running \<Longrightarrow> bs_watching s \<Longrightarrow> \<not> bs_alarm s \<Longrightarrow>
     alarm_round sd aenv stamp (bs_locals s) (bs_mgr s) = ((False, False), ls, m) \<Longrightarrow>
     boot_step s (s\<lparr>bs_mgr := m, bs_locals := ls\<rparr>)"
| trip: "bs_phase s = Running \<Longrightarrow> bs_watching s \<Longrightarrow> \<not> bs_alarm s \<Longrightarrow>
     alarm_round sd aenv stamp (bs_locals s) (bs_mgr s) = (alarms, ls, m) \<Longrightarrow> fst alarms \<or> snd alarms \<Longrightarrow>
     alarm_trip env stamp alarms ls m = Inr (m', effs) \<Longrightarrow>
     boot_step s (s\<lparr>bs_mgr := m', bs_locals := ls, bs_alarm := True,
       bs_trace := bs_trace s @ Alarm_Tripped # map Line effs\<rparr>)"
| lines_published: "bs_phase s = Running \<Longrightarrow> watch_gpios env (bs_mgr s) = Inr (m, effs) \<Longrightarrow>
     boot_step s (s\<lparr>bs_mgr := m, bs_trace := bs_trace s @ map Line effs\<rparr>)"

section \<open>The order of power and reset\<close>

text \<open>The parts of the manager that no handler changes: limits, names of the rails, and the lines it uses.\<close>

definition pin_of :: "mgr_gpio \<Rightarrow> int \<times> int" where
  "pin_of g = (mg_chip g, mg_line g)"

definition mgr_static ::
  "Manager \<Rightarrow> (string \<Rightarrow> string \<Rightarrow> real option) \<times> string list \<times> (int \<times> int) \<times> (int \<times> int) \<times> (int \<times> int)" where
  "mgr_static m = (limitJson m, map adc_name (ADCs m), pin_of (sysreset m), pin_of (ps_enable m), pin_of (switch_gpio m))"

lemma static_write_log [simp]:
  "mgr_static (write_log_to_file stamp msg m) = mgr_static m"
  "mgr_static (m\<lparr>system_logs := l\<rparr>) = mgr_static m"
  by (simp_all add: mgr_static_def write_log_to_file_def)

lemma static_status [simp]:
  "mgr_static (m\<lparr>temp_service_status := b\<rparr>) = mgr_static m"
  "mgr_static (m\<lparr>voltage_service_status := b\<rparr>) = mgr_static m"
  "mgr_static (m\<lparr>fan_controller_service_status := b\<rparr>) = mgr_static m"
  "mgr_static (m\<lparr>mandatory_sensor_service_status := b\<rparr>) = mgr_static m"
  "mgr_static (m\<lparr>gpio_service_status := b\<rparr>) = mgr_static m"
  "mgr_static (m\<lparr>ipmi_service_status := b\<rparr>) = mgr_static m"
  by (simp_all add: mgr_static_def)

lemma static_note_service:
  "(\<And>b m. mgr_static (put b m) = mgr_static m) \<Longrightarrow> mgr_static (note_service stamp what b get put m) = mgr_static m"
  by (simp add: note_service_def)

lemma static_watch_services [simp]: "mgr_static (watch_services sd stamp m) = mgr_static m"
  by (simp add: watch_services_def static_note_service Let_def)

lemma read_rails_names: "read_rails file limits as = Inr (b, as', msg) \<Longrightarrow> map adc_name as' = map adc_name as"
  by (induction as arbitrary: as' b msg) (fastforce simp: Let_def split: if_splits elim!: rbind_InrE)+

lemma static_update_readings:
  assumes "update_readings file stamp m = Inr (b, m')"
  shows "mgr_static m' = mgr_static m"
proof -
  obtain r as msg where rd: "read_rails file (limitJson m) (ADCs m) = Inr (r, as, msg)"
    and "m' = (case msg of None \<Rightarrow> m | Some t \<Rightarrow> write_log_to_file stamp t m)\<lparr>ADCs := as\<rparr>"
    using assms by (auto simp: update_readings_def Let_def split: if_splits elim!: rbind_InrE)
  then show ?thesis
    using read_rails_names [OF rd] by (auto simp: mgr_static_def write_log_to_file_def split: option.split)
qed

lemma static_heartbeat: "write_heartbeat file stamp m = Inr m' \<Longrightarrow> mgr_static m' = mgr_static m"
  using static_update_readings by (auto simp: write_heartbeat_def elim!: rbind_InrE)

lemma static_lines:
  "wait_for_switch env stamp m = (b, m', effs) \<Longrightarrow> mgr_static m' = mgr_static m"
  "set_ps env stamp m = (b, m', effs) \<Longrightarrow> mgr_static m' = mgr_static m"
  "unset_ps env stamp m = (b, m', effs) \<Longrightarrow> mgr_static m' = mgr_static m"
  "set_sr env stamp m = (b, m', effs) \<Longrightarrow> mgr_static m' = mgr_static m"
  "set_alarm_gpio env stamp m = (b, m', effs) \<Longrightarrow> mgr_static m' = mgr_static m"
  by (auto simp: wait_for_switch_def set_ps_def unset_ps_def set_sr_def set_alarm_gpio_def mgr_static_def pin_of_def
      write_log_to_file_def Let_def split: option.splits if_splits)

lemma publish_line_pin: "publish_line env g = Inr (g', effs) \<Longrightarrow> pin_of g' = pin_of g"
  by (auto simp: publish_line_def pin_of_def split: if_splits elim!: rbind_InrE)

lemma static_watch_gpios: "watch_gpios env m = Inr (m', effs) \<Longrightarrow> mgr_static m' = mgr_static m"
  using publish_line_pin by (auto simp: watch_gpios_def mgr_static_def split: if_splits elim!: rbind_InrE)

lemma static_log_alarm: "log_alarm stamp alarms ls m = Inr m' \<Longrightarrow> mgr_static m' = mgr_static m"
  by (auto simp: log_alarm_def report_alarm_def Let_def split: if_splits elim!: rbind_InrE)

lemma alarm_tripE:
  assumes "alarm_trip env stamp alarms ls m = Inr (m', effs)"
  obtains m2 b3 m3 e1 b4 m4 e2 where "mgr_static m2 = mgr_static m"
    "unset_ps env stamp m2 = (b3, m3, e1)" "set_alarm_gpio env stamp m3 = (b4, m4, e2)"
    "m' = write_log_to_file stamp ''Alarm is set, reset the chassis.'' m4" "effs = e1 @ e2"
proof -
  obtain m2 where "log_alarm stamp alarms ls m = Inr m2"
    and run: "(case unset_ps env stamp m2 of (_, m3, e1) \<Rightarrow>
       (case set_alarm_gpio env stamp m3 of (_, m4, e2) \<Rightarrow>
          Inr (write_log_to_file stamp ''Alarm is set, reset the chassis.'' m4, e1 @ e2))) = (Inr (m', effs) :: _ res)"
    using assms unfolding alarm_trip_def by (rule rbind_InrE)
  moreover obtain b3 m3 e1 where ps: "unset_ps env stamp m2 = (b3, m3, e1)" by (rule prod_cases3)
  moreover obtain b4 m4 e2 where "set_alarm_gpio env stamp m3 = (b4, m4, e2)" by (rule prod_cases3)
  ultimately show thesis
    using that [of m2 b3 m3 e1 b4 m4 e2] static_log_alarm by simp
qed

lemma static_alarm_trip: "alarm_trip env stamp alarms ls m = Inr (m', effs) \<Longrightarrow> mgr_static m' = mgr_static m"
  by (erule alarm_tripE) (simp add: static_lines)

text \<open>The rails as they are named, and a successful reading of all of them.\<close>

definition good_voltages :: "(string \<Rightarrow> string \<Rightarrow> real option) \<Rightarrow> (string \<times> real) list \<Rightarrow> bool" where
  "good_voltages limits vs \<longleftrightarrow>
     (\<forall>(n, v) \<in> set vs. \<exists>lo hi. limits n ''min'' = Some lo \<and> limits n ''max'' = Some hi \<and> lo < v \<and> v < hi)"

lemma read_rails_good:
  assumes "read_rails file limits as = Inr (True, as', msg)"
  shows "good_voltages limits (map (\<lambda>a. (adc_name a, the (V_current a))) as') \<and> map adc_name as' = map adc_name as"
  using assms
proof (induction as arbitrary: as' msg)
  case (Cons a as)
  then show ?case
    by (fastforce simp: good_voltages_def Let_def split: if_splits elim!: rbind_InrE)
qed (auto simp: good_voltages_def)

lemma update_readings_good:
  assumes "update_readings file stamp m = Inr (True, m')"
  shows "good_voltages (limitJson m) (voltages m') \<and> map fst (voltages m') = map adc_name (ADCs m)"
proof -
  obtain as msg where rd: "read_rails file (limitJson m) (ADCs m) = Inr (True, as, msg)" and "ADCs m' = as"
    using assms by (auto simp: update_readings_def Let_def split: option.splits if_splits elim!: rbind_InrE)
  then show ?thesis using read_rails_good [OF rd] by (simp add: voltages_def comp_def)
qed

text \<open>What must have happened before each phase, in this order.\<close>

definition released :: "(string \<Rightarrow> string \<Rightarrow> real option) \<Rightarrow> boot_event list \<Rightarrow> bool" where
  "released L t \<longleftrightarrow> (\<exists>vs. good_voltages L vs \<and> map fst vs = map adc_name rails \<and>
     subseq [Switch_On, Fans_Active, Line (Request_Output 2 3 1), Voltages_Good vs] t)"

fun reached :: "boot_phase \<Rightarrow> (string \<Rightarrow> string \<Rightarrow> real option) \<Rightarrow> boot_event list \<Rightarrow> bool" where
  "reached Wait_Switch L t = True"
| "reached Wait_Fans L t = subseq [Switch_On] t"
| "reached Enable_PS L t = subseq [Switch_On, Fans_Active] t"
| "reached Wait_Voltages L t = subseq [Switch_On, Fans_Active, Line (Request_Output 2 3 1)] t"
| "reached Release_Reset L t = released L t"
| "reached Running L t = released L t"

lemma subseq_append_right: "subseq xs t \<Longrightarrow> subseq xs (t @ u)"
  using list_emb_append_mono [of "(=)" xs t "[]" u] by simp

lemma subseq_snoc: "subseq xs t \<Longrightarrow> subseq (xs @ [e]) (t @ u @ [e])"
  by (rule list_emb_append_mono) (simp_all add: list_emb_append2)

lemma reached_append: "reached p L t \<Longrightarrow> reached p L (t @ u)"
  by (cases p) (auto simp: released_def intro: subseq_append_right)

lemma released_append: "released L t \<Longrightarrow> released L (t @ u)"
  using reached_append [of Running L t u] by simp

text \<open>Every event of the trace that satisfies \<open>P\<close> comes behind a prefix that satisfies \<open>Q\<close>.\<close>

definition preceded :: "(boot_event \<Rightarrow> bool) \<Rightarrow> (boot_event list \<Rightarrow> bool) \<Rightarrow> boot_event list \<Rightarrow> bool" where
  "preceded P Q t \<longleftrightarrow> (\<forall>i < length t. P (t ! i) \<longrightarrow> Q (take i t))"

lemma preceded_append:
  assumes "preceded P Q t" "\<And>i. i < length u \<Longrightarrow> P (u ! i) \<Longrightarrow> Q (t @ take i u)"
  shows "preceded P Q (t @ u)"
  unfolding preceded_def
proof (intro allI impI)
  fix i assume i: "i < length (t @ u)" "P ((t @ u) ! i)"
  show "Q (take i (t @ u))"
  proof (cases "i < length t")
    case True
    with i assms(1) show ?thesis by (simp add: nth_append preceded_def)
  next
    case False
    with i assms(2) [of "i - length t"] show ?thesis by (simp add: nth_append)
  qed
qed

lemma preceded_skip: "preceded P Q t \<Longrightarrow> (\<And>e. e \<in> set u \<Longrightarrow> \<not> P e) \<Longrightarrow> preceded P Q (t @ u)"
  by (rule preceded_append) (auto dest: nth_mem)

definition is_reset :: "boot_event \<Rightarrow> bool" where
  "is_reset e \<longleftrightarrow> (\<exists>v. e = Line (Request_Output 1 0 v))"

definition powers_on :: "boot_event \<Rightarrow> bool" where
  "powers_on e \<longleftrightarrow> e = Line (Request_Output 2 3 1)"

definition boot_inv :: "boot_state \<Rightarrow> bool" where
  "boot_inv s \<longleftrightarrow>
     (let m = bs_mgr s; t = bs_trace s in
      mgr_static m = (limitJson m, map adc_name rails, (1, 0), (2, 3), (0, 6)) \<and>
      reached (bs_phase s) (limitJson m) t \<and> preceded is_reset (released (limitJson m)) t \<and>
      (bs_phase s \<noteq> Running \<longrightarrow> Alarm_Tripped \<notin> set t) \<and>
      preceded powers_on (\<lambda>u. Alarm_Tripped \<notin> set u) t)"

lemma boot_invI:
  assumes inv: "boot_inv s" and st: "mgr_static (bs_mgr s') = mgr_static (bs_mgr s)"
    and tr: "bs_trace s' = bs_trace s @ u"
    and phase: "reached (bs_phase s') (limitJson (bs_mgr s)) (bs_trace s @ u)"
    and resets: "\<And>i. i < length u \<Longrightarrow> is_reset (u ! i) \<Longrightarrow> released (limitJson (bs_mgr s)) (bs_trace s @ take i u)"
    and alarm: "bs_phase s' \<noteq> Running \<Longrightarrow> Alarm_Tripped \<notin> set u \<and> bs_phase s \<noteq> Running"
    and power: "(\<forall>e \<in> set u. \<not> powers_on e) \<or> bs_phase s \<noteq> Running \<and> Alarm_Tripped \<notin> set u"
  shows "boot_inv s'"
proof -
  have lim: "limitJson (bs_mgr s') = limitJson (bs_mgr s)" using st by (simp add: mgr_static_def)
  have "preceded is_reset (released (limitJson (bs_mgr s))) (bs_trace s @ u)"
    using inv resets by (auto simp: boot_inv_def Let_def intro: preceded_append)
  moreover have "preceded powers_on (\<lambda>u. Alarm_Tripped \<notin> set u) (bs_trace s @ u)"
  proof (rule preceded_append)
    show "preceded powers_on (\<lambda>u. Alarm_Tripped \<notin> set u) (bs_trace s)"
      using inv by (simp add: boot_inv_def Let_def)
    fix i assume "i < length u" "powers_on (u ! i)"
    then have "bs_phase s \<noteq> Running" "Alarm_Tripped \<notin> set u" using power nth_mem by blast+
    then show "Alarm_Tripped \<notin> set (bs_trace s @ take i u)"
      using inv set_take_subset [of i u] by (auto simp: boot_inv_def Let_def)
  qed
  ultimately show ?thesis
    using inv st tr phase alarm lim by (auto simp: boot_inv_def Let_def)
qed

lemmas boot_inv_simps = boot_inv_def Let_def is_reset_def powers_on_def

lemma boot_inv_pins:
  assumes "boot_inv s"
  shows "pin_of (sysreset (bs_mgr s)) = (1, 0)" "pin_of (ps_enable (bs_mgr s)) = (2, 3)"
    "pin_of (switch_gpio (bs_mgr s)) = (0, 6)" "map adc_name (ADCs (bs_mgr s)) = map adc_name rails"
  using assms by (simp_all add: boot_inv_def mgr_static_def Let_def)

lemma boot_inv_phase: "boot_inv s \<Longrightarrow> reached (bs_phase s) (limitJson (bs_mgr s)) (bs_trace s)"
  by (simp add: boot_inv_def Let_def)

text \<open>A step whose events neither release the reset nor power on, nor trip an alarm.\<close>

lemma boot_inv_neutral:
  assumes "boot_inv s" "mgr_static (bs_mgr s') = mgr_static (bs_mgr s)" "bs_trace s' = bs_trace s @ u"
    and "reached (bs_phase s') (limitJson (bs_mgr s)) (bs_trace s @ u)"
    and "\<forall>e \<in> set u. \<not> is_reset e \<and> \<not> powers_on e \<and> e \<noteq> Alarm_Tripped"
    and "bs_phase s = Running \<longrightarrow> bs_phase s' = Running"
  shows "boot_inv s'"
  by (rule boot_invI [OF assms(1-4)]) (use assms(5,6) nth_mem in blast)+

lemma boot_inv_main:
  assumes inv: "boot_inv s"
  shows "bs_phase s = Wait_Switch \<Longrightarrow> wait_for_switch env stamp (bs_mgr s) = (b, m, effs) \<Longrightarrow>
      boot_inv (s\<lparr>bs_phase := if b then Wait_Fans else Wait_Switch, bs_mgr := m,
         bs_trace := bs_trace s @ map Line effs @ (if b then [Switch_On] else [])\<rparr>)"
    and "bs_phase s = Wait_Fans \<Longrightarrow> get_fan_controller_status sd stamp (bs_mgr s) = (b, m) \<Longrightarrow>
      boot_inv (s\<lparr>bs_phase := if b then Enable_PS else Wait_Fans, bs_mgr := m,
         bs_trace := bs_trace s @ (if b then [Fans_Active] else [])\<rparr>)"
    and "bs_phase s = Wait_Voltages \<Longrightarrow> update_readings file stamp (bs_mgr s) = Inr (b, m) \<Longrightarrow>
      boot_inv (s\<lparr>bs_phase := if b then Release_Reset else Wait_Voltages, bs_mgr := m,
         bs_trace := bs_trace s @ (if b then [Voltages_Good (voltages m)] else [])\<rparr>)"
proof -
  note phase = boot_inv_phase [OF inv]
  assume p: "bs_phase s = Wait_Switch" and run: "wait_for_switch env stamp (bs_mgr s) = (b, m, effs)"
  have "subseq [Switch_On] (bs_trace s @ map Line effs @ [Switch_On])"
    using subseq_snoc [of "[]" "bs_trace s"] by simp
  moreover have "\<forall>e \<in> set effs. \<exists>c l. e = Request_Input c l"
    using run by (auto simp: wait_for_switch_def Let_def split: option.splits if_splits)
  ultimately show "boot_inv (s\<lparr>bs_phase := if b then Wait_Fans else Wait_Switch, bs_mgr := m,
         bs_trace := bs_trace s @ map Line effs @ (if b then [Switch_On] else [])\<rparr>)"
    using p static_lines(1) [OF run]
    by (intro boot_inv_neutral [OF inv]) (auto simp: is_reset_def powers_on_def)
next
  note phase = boot_inv_phase [OF inv]
  assume p: "bs_phase s = Wait_Fans" and run: "get_fan_controller_status sd stamp (bs_mgr s) = (b, m)"
  show "boot_inv (s\<lparr>bs_phase := if b then Enable_PS else Wait_Fans, bs_mgr := m,
         bs_trace := bs_trace s @ (if b then [Fans_Active] else [])\<rparr>)"
    using p run phase subseq_snoc [of "[Switch_On]" "bs_trace s" Fans_Active "[]"]
    by (intro boot_inv_neutral [OF inv]) (auto simp: get_fan_controller_status_def Let_def is_reset_def powers_on_def)
next
  note phase = boot_inv_phase [OF inv]
  assume p: "bs_phase s = Wait_Voltages" and run: "update_readings file stamp (bs_mgr s) = Inr (b, m)"
  have "released (limitJson (bs_mgr s)) (bs_trace s @ [Voltages_Good (voltages m)])" if b
    unfolding released_def
    using update_readings_good [of "file" stamp "bs_mgr s" m] run that phase p boot_inv_pins(4) [OF inv]
      subseq_snoc [of "[Switch_On, Fans_Active, Line (Request_Output 2 3 1)]" "bs_trace s" "Voltages_Good (voltages m)" "[]"]
    by auto
  then show "boot_inv (s\<lparr>bs_phase := if b then Release_Reset else Wait_Voltages, bs_mgr := m,
         bs_trace := bs_trace s @ (if b then [Voltages_Good (voltages m)] else [])\<rparr>)"
    using p phase static_update_readings [OF run]
    by (intro boot_inv_neutral [OF inv]) (auto simp: is_reset_def powers_on_def)
qed

lemma boot_inv_power:
  assumes inv: "boot_inv s" and p: "bs_phase s = Enable_PS" and run: "set_ps env stamp (bs_mgr s) = (b, m, effs)"
  shows "boot_inv (s\<lparr>bs_phase := if b then Wait_Voltages else Enable_PS, bs_mgr := m,
     bs_trace := bs_trace s @ map Line effs\<rparr>)"
proof (rule boot_invI [OF inv])
  have effs: "effs = (if b then [Request_Output 2 3 1] else [])"
    using run boot_inv_pins(2) [OF inv] by (auto simp: set_ps_def pin_of_def Let_def split: if_splits)
  show "mgr_static (bs_mgr (s\<lparr>bs_phase := if b then Wait_Voltages else Enable_PS, bs_mgr := m,
     bs_trace := bs_trace s @ map Line effs\<rparr>)) = mgr_static (bs_mgr s)"
    using static_lines(2) [OF run] by simp
  show "reached (bs_phase (s\<lparr>bs_phase := if b then Wait_Voltages else Enable_PS, bs_mgr := m,
     bs_trace := bs_trace s @ map Line effs\<rparr>)) (limitJson (bs_mgr s)) (bs_trace s @ map Line effs)"
    using boot_inv_phase [OF inv] p effs
      subseq_snoc [of "[Switch_On, Fans_Active]" "bs_trace s" "Line (Request_Output 2 3 1)" "[]"] by simp
qed (use p run boot_inv_pins(2) [OF inv] in \<open>auto simp: set_ps_def pin_of_def Let_def is_reset_def split: if_splits\<close>)

lemma boot_inv_reset:
  assumes inv: "boot_inv s" and p: "bs_phase s = Release_Reset" and run: "set_sr env stamp (bs_mgr s) = (b, m, effs)"
  shows "boot_inv (s\<lparr>bs_phase := if b then Running else Release_Reset, bs_mgr := m,
     bs_trace := bs_trace s @ map Line effs\<rparr>)"
proof (rule boot_invI [OF inv])
  have effs: "effs = (if b then [Request_Output 1 0 0] else [])"
    using run boot_inv_pins(1) [OF inv] by (auto simp: set_sr_def pin_of_def Let_def split: if_splits)
  have rel: "released (limitJson (bs_mgr s)) (bs_trace s)" using boot_inv_phase [OF inv] p by simp
  show "mgr_static (bs_mgr (s\<lparr>bs_phase := if b then Running else Release_Reset, bs_mgr := m,
     bs_trace := bs_trace s @ map Line effs\<rparr>)) = mgr_static (bs_mgr s)"
    using static_lines(4) [OF run] by simp
  show "reached (bs_phase (s\<lparr>bs_phase := if b then Running else Release_Reset, bs_mgr := m,
     bs_trace := bs_trace s @ map Line effs\<rparr>)) (limitJson (bs_mgr s)) (bs_trace s @ map Line effs)"
    using released_append rel boot_inv_phase [OF inv] p reached_append [of Release_Reset] by simp
  show "released (limitJson (bs_mgr s)) (bs_trace s @ take i (map Line effs))" for i
    using released_append rel by simp
  show "(\<forall>e \<in> set (map Line effs). \<not> powers_on e) \<or> bs_phase s \<noteq> Running \<and> Alarm_Tripped \<notin> set (map Line effs)"
    using effs by (simp add: powers_on_def)
qed (use p in auto)

lemma boot_inv_quiet:
  assumes "boot_inv s" "mgr_static m = mgr_static (bs_mgr s)" "bs_phase s' = bs_phase s" "bs_mgr s' = m" "bs_trace s' = bs_trace s"
  shows "boot_inv s'"
  by (rule boot_inv_neutral [OF assms(1), of _ "[]"]) (use assms boot_inv_phase in auto)

lemma boot_inv_trip:
  assumes inv: "boot_inv s" and p: "bs_phase s = Running" and st: "mgr_static m = mgr_static (bs_mgr s)"
    and run: "alarm_trip env stamp alarms ls m = Inr (m', effs)"
  shows "boot_inv (s\<lparr>bs_mgr := m', bs_locals := ls, bs_alarm := True,
     bs_trace := bs_trace s @ Alarm_Tripped # map Line effs\<rparr>)"
proof -
  from run obtain m2 b3 m3 e1 b4 m4 e2 where t: "mgr_static m2 = mgr_static m" "unset_ps env stamp m2 = (b3, m3, e1)"
      "set_alarm_gpio env stamp m3 = (b4, m4, e2)" "effs = e1 @ e2"
    by (rule alarm_tripE)
  have pins: "pin_of (ps_enable m2) = (2, 3)" "pin_of (switch_gpio m3) = (0, 6)"
    using t(1) st boot_inv_pins [OF inv] static_lines(3) [OF t(2)] by (simp_all add: mgr_static_def)
  have none: "\<forall>e \<in> set (Alarm_Tripped # map Line effs). \<not> is_reset e \<and> \<not> powers_on e"
    using t(2-4) pins
    by (auto simp: unset_ps_def set_alarm_gpio_def pin_of_def is_reset_def powers_on_def Let_def split: if_splits)
  show ?thesis
  proof (rule boot_invI [OF inv, where u = "Alarm_Tripped # map Line effs"])
    show "reached (bs_phase (s\<lparr>bs_mgr := m', bs_locals := ls, bs_alarm := True,
       bs_trace := bs_trace s @ Alarm_Tripped # map Line effs\<rparr>)) (limitJson (bs_mgr s)) (bs_trace s @ Alarm_Tripped # map Line effs)"
      using released_append boot_inv_phase [OF inv] p by simp
    show "released (limitJson (bs_mgr s)) (bs_trace s @ take i (Alarm_Tripped # map Line effs))" for i
      using released_append boot_inv_phase [OF inv] p by simp
  qed (use none p st static_alarm_trip [OF run] nth_mem in \<open>auto split: if_splits\<close>)
qed

lemma boot_inv_published:
  assumes inv: "boot_inv s" and p: "bs_phase s = Running" and run: "watch_gpios env (bs_mgr s) = Inr (m, effs)"
  shows "boot_inv (s\<lparr>bs_mgr := m, bs_trace := bs_trace s @ map Line effs\<rparr>)"
proof (rule boot_inv_neutral [OF inv])
  have "\<forall>e \<in> set effs. \<exists>p v. e = Property_Set p v"
    using run by (auto simp: watch_gpios_def publish_line_def split: if_splits elim!: rbind_InrE)
  then show "\<forall>e \<in> set (map Line effs). \<not> is_reset e \<and> \<not> powers_on e \<and> e \<noteq> Alarm_Tripped"
    by (auto simp: is_reset_def powers_on_def)
qed (use p static_watch_gpios [OF run] released_append boot_inv_phase [OF inv] in auto)

lemma boot_inv_step: "boot_inv s \<Longrightarrow> boot_step s s' \<Longrightarrow> boot_inv s'"
proof (erule boot_step.cases, goal_cases)
  case (6 f stamp s m)
  then show ?thesis using boot_inv_quiet [OF _ static_heartbeat] by auto
next
  case (7 s sd stamp)
  then show ?thesis using boot_inv_quiet [of s "watch_services sd stamp (bs_mgr s)"] by auto
next
  case (9 s sd aenv stamp ls m)
  then have "mgr_static m = mgr_static (bs_mgr s)" by (auto simp: alarm_round_def Let_def split: prod.splits)
  with 9 show ?thesis using boot_inv_quiet by auto
next
  case (10 s sd aenv stamp alarms ls m env m' effs)
  then have "mgr_static m = mgr_static (bs_mgr s)" by (auto simp: alarm_round_def Let_def split: prod.splits)
  with 10 show ?thesis using boot_inv_trip by auto
qed (auto intro: boot_inv_main boot_inv_power boot_inv_reset boot_inv_published boot_inv_quiet)

lemma boot_inv_init: "boot_init s \<Longrightarrow> boot_inv s"
  by (auto simp: boot_init_def boot_inv_def Manager_new_def mgr_static_def pin_of_def calculate_cs_def preceded_def
      comp_def Let_def)

interpretation boot_machine: invariant_system boot_init boot_step boot_inv
  by unfold_locales (fact boot_inv_init, rule boot_inv_step)

section \<open>An example run\<close>

definition example_systemd :: systemd where
  "example_systemd = \<lparr>sd_ready = (\<lambda>_. True), sd_state = (\<lambda>_ _. Some ''active'')\<rparr>"

definition example_limits :: "string \<Rightarrow> string \<Rightarrow> real option" where
  "example_limits name k = Some (if k = ''min'' then 0 else 20)"

definition example_boot :: boot_state where
  "example_boot = \<lparr>bs_phase = Wait_Switch, bs_mgr = Manager_new [] [] example_limits, bs_locals = (([], None), ([], None)),
     bs_watching = False, bs_alarm = False, bs_trace = []\<rparr>"

lemma example_boot_init: "boot_init example_boot"
  by (auto simp: boot_init_def example_boot_def)

lemma note_service_keeps:
  "(\<And>b m. get' (put b m) = get' m) \<Longrightarrow> (\<And>m l. get' (m\<lparr>system_logs := l\<rparr>) = get' m) \<Longrightarrow>
   get' (note_service stamp what b get put m) = get' m"
  by (simp add: note_service_def)

lemma note_service_sets:
  "(\<And>b m. get (put b m) = b) \<Longrightarrow> get (note_service stamp what b get put m) = b"
  by (simp add: note_service_def)

text \<open>After a round over the services every status is the one just found.\<close>

lemma watch_services_fan:
  "fan_controller_service_status (watch_services sd stamp m) = check_service sd ''LCR_fan_controller.service''"
  by (simp add: watch_services_def Let_def note_service_keeps note_service_sets)

lemma watch_services_ipmi:
  "ipmi_service_status (watch_services sd stamp m) = check_service sd ''phosphor-ipmi-host.service''"
  by (simp add: watch_services_def Let_def note_service_sets)

lemma watch_services_ADCs [simp]: "ADCs (watch_services sd stamp m) = ADCs m"
  by (simp add: watch_services_def Let_def note_service_keeps)

lemma example_check: "check_service example_systemd name = True"
  by (simp add: check_service_def isServiceActive_def example_systemd_def numeral_eq_Suc)

lemma example_reading: "stoi ''1024'' = Inr 1024"
  by (simp add: stoi_def is_space_def is_digit_def digits_value_def digit_of_def of_char_def)

lemma example_rails:
  "\<exists>as. read_rails (\<lambda>_. ''1024'') example_limits (calculate_cs rails) = Inr (True, as, None) \<and> rails_safe as = Inr True"
  by (simp add: rails_def calculate_cs_def ADC_new_def example_reading example_limits_def Let_def)

definition example_alarm :: alarm_env where
  "example_alarm = \<lparr>al_low = (\<lambda>_. Some False), al_high = (\<lambda>_. Some True), al_value = (\<lambda>_. Some 90),
     al_temps = Some [''/temperature/inlet''], al_volts = Some []\<rparr>"

text \<open>The state after each handler of the power-up, when everything succeeds at once.\<close>

lemma example_to_power:
  "\<exists>s. boot_step\<^sup>*\<^sup>* example_boot s \<and> bs_phase s = Wait_Voltages \<and> \<not> bs_watching s \<and> \<not> bs_alarm s \<and>
     ADCs (bs_mgr s) = calculate_cs rails \<and> limitJson (bs_mgr s) = example_limits \<and> ipmi_service_status (bs_mgr s) \<and>
     bs_trace s = [Line (Request_Input 0 6), Switch_On, Fans_Active, Line (Request_Output 2 3 1)]"
proof -
  let ?E = example_gpio_env
  define m0 where "m0 = Manager_new [] [] example_limits"
  have pins: "mg_chip (switch_gpio m0) = 0" "mg_line (switch_gpio m0) = 6" by (simp_all add: m0_def Manager_new_def)
  obtain m1 where one: "wait_for_switch ?E [] m0 = (True, m1, [Request_Input 0 6])" and a1: "ADCs m1 = ADCs m0"
    by (simp add: wait_for_switch_def example_gpio_env_def pins write_log_to_file_def)
  define m2 where "m2 = watch_services example_systemd [] m1"
  have two: "get_fan_controller_status example_systemd [] m1 = (True, m2)"
    by (simp add: get_fan_controller_status_def Let_def watch_services_fan example_check m2_def)
  have ps: "mg_chip (ps_enable m2) = 2" "mg_line (ps_enable m2) = 3" and lim2: "limitJson m2 = example_limits"
    using static_lines(1) [OF one] static_watch_services [of example_systemd "[]" m1]
    by (simp_all add: m2_def mgr_static_def pin_of_def m0_def Manager_new_def)
  obtain m3 where three: "set_ps ?E [] m2 = (True, m3, [Request_Output 2 3 1])" and
      a3: "ADCs m3 = ADCs m2" "ipmi_service_status m3 = ipmi_service_status m2" "limitJson m3 = limitJson m2"
    by (simp add: set_ps_def example_gpio_env_def ps write_log_to_file_def Let_def)
  have adcs: "ADCs m3 = calculate_cs rails" "ipmi_service_status m3"
    using a1 a3 by (simp_all add: m2_def m0_def Manager_new_def watch_services_ipmi example_check)
  let ?s1 = "example_boot\<lparr>bs_phase := Wait_Fans, bs_mgr := m1, bs_trace := [Line (Request_Input 0 6), Switch_On]\<rparr>"
  let ?s2 = "?s1\<lparr>bs_phase := Enable_PS, bs_mgr := m2, bs_trace := bs_trace ?s1 @ [Fans_Active]\<rparr>"
  let ?s3 = "?s2\<lparr>bs_phase := Wait_Voltages, bs_mgr := m3, bs_trace := bs_trace ?s2 @ [Line (Request_Output 2 3 1)]\<rparr>"
  have "boot_step example_boot ?s1"
    using boot_step.switch [of example_boot ?E "[]" True m1 "[Request_Input 0 6]"] one
    by (simp add: example_boot_def m0_def)
  moreover have "boot_step ?s1 ?s2"
    using boot_step.fans [of ?s1 example_systemd "[]" True m2] two by simp
  moreover have "boot_step ?s2 ?s3"
    using boot_step.power [of ?s2 ?E "[]" True m3 "[Request_Output 2 3 1]"] three by simp
  ultimately have "boot_step\<^sup>*\<^sup>* example_boot ?s3" by (meson converse_rtranclp_into_rtranclp rtranclp.rtrancl_refl)
  then show ?thesis
    using adcs a3(3) lim2 by (intro exI [of _ ?s3]) (simp add: example_boot_def)
qed

lemma example_run:
  "\<exists>s vs. boot_step\<^sup>*\<^sup>* example_boot s \<and> bs_phase s = Running \<and> \<not> bs_watching s \<and> \<not> bs_alarm s \<and>
     ipmi_service_status (bs_mgr s) \<and>
     bs_trace s = [Line (Request_Input 0 6), Switch_On, Fans_Active, Line (Request_Output 2 3 1), Voltages_Good vs,
       Line (Request_Output 1 0 0)]"
proof -
  obtain s where s: "boot_step\<^sup>*\<^sup>* example_boot s" "bs_phase s = Wait_Voltages" "\<not> bs_watching s" "\<not> bs_alarm s"
      "ADCs (bs_mgr s) = calculate_cs rails" "limitJson (bs_mgr s) = example_limits" "ipmi_service_status (bs_mgr s)"
      "bs_trace s = [Line (Request_Input 0 6), Switch_On, Fans_Active, Line (Request_Output 2 3 1)]"
    using example_to_power by blast
  obtain m1 where one: "update_readings (\<lambda>_. ''1024'') [] (bs_mgr s) = Inr (True, m1)"
      and i1: "ipmi_service_status m1"
    using example_rails s(5-7) by (auto simp: update_readings_def Let_def)
  let ?s1 = "s\<lparr>bs_phase := Release_Reset, bs_mgr := m1, bs_trace := bs_trace s @ [Voltages_Good (voltages m1)]\<rparr>"
  have st1: "boot_step s ?s1" using boot_step.volts [OF s(2) one] by simp
  have "boot_inv ?s1"
    using boot_machine.inv_reachable [OF example_boot_init rtranclp.rtrancl_into_rtrancl [OF s(1) st1]] .
  from boot_inv_pins(1) [OF this] have "mg_chip (sysreset m1) = 1" "mg_line (sysreset m1) = 0" by (simp_all add: pin_of_def)
  then obtain m2 where two: "set_sr example_gpio_env [] m1 = (True, m2, [Request_Output 1 0 0])"
      and i2: "ipmi_service_status m2"
    using i1 by (simp add: set_sr_def example_gpio_env_def write_log_to_file_def Let_def)
  let ?s2 = "?s1\<lparr>bs_phase := Running, bs_mgr := m2, bs_trace := bs_trace ?s1 @ [Line (Request_Output 1 0 0)]\<rparr>"
  have "boot_step ?s1 ?s2" using boot_step.reset [of ?s1 example_gpio_env "[]" True m2] two by simp
  with s(1) st1 have "boot_step\<^sup>*\<^sup>* example_boot ?s2" by (meson rtranclp.rtrancl_into_rtrancl)
  then show ?thesis
    using s(3,4,8) i2 by (intro exI [of _ ?s2] exI [of _ "voltages m1"]) simp
qed

text \<open>
  C5. The cards leave reset only in order: in every run, with any interleaving of the threads, each
  drive of the system reset line comes after the front panel switch was seen on, then the fan
  controller service was seen active, then the power supply enable line was driven to 1, and then
  a reading of all six rails inside their limits.
\<close>

theorem reset_released_in_order:
  assumes "boot_init s0" "boot_step\<^sup>*\<^sup>* s0 s" "i < length (bs_trace s)" "bs_trace s ! i = Line (Request_Output 1 0 v)"
  shows "\<exists>vs. map fst vs = map adc_name rails \<and> good_voltages (limitJson (bs_mgr s)) vs \<and>
     subseq [Switch_On, Fans_Active, Line (Request_Output 2 3 1), Voltages_Good vs] (take i (bs_trace s))"
proof -
  have "preceded is_reset (released (limitJson (bs_mgr s))) (bs_trace s)"
    using boot_machine.inv_reachable [OF assms(1,2)] by (simp add: boot_inv_def Let_def)
  then have "released (limitJson (bs_mgr s)) (take i (bs_trace s))"
    using assms(3,4) by (auto simp: preceded_def is_reset_def)
  then show ?thesis by (auto simp: released_def)
qed

theorem reset_released_in_order_witness:
  "\<exists>s vs. boot_step\<^sup>*\<^sup>* example_boot s \<and> Line (Request_Output 1 0 0) \<in> set (bs_trace s) \<and>
     good_voltages (limitJson (bs_mgr s)) vs \<and> Voltages_Good vs \<in> set (bs_trace s)"
proof -
  obtain s vs where s: "boot_step\<^sup>*\<^sup>* example_boot s" and
    tr: "bs_trace s = [Line (Request_Input 0 6), Switch_On, Fans_Active, Line (Request_Output 2 3 1), Voltages_Good vs,
       Line (Request_Output 1 0 0)]"
    using example_run by blast
  have "5 < length (bs_trace s)" "bs_trace s ! 5 = Line (Request_Output 1 0 0)" by (simp_all add: tr)
  from reset_released_in_order [OF example_boot_init s this] obtain vs' where
    "good_voltages (limitJson (bs_mgr s)) vs'"
    "subseq [Switch_On, Fans_Active, Line (Request_Output 2 3 1), Voltages_Good vs'] (take 5 (bs_trace s))" by blast
  then show ?thesis using s by (auto simp: tr split: if_splits)
qed

text \<open>
  C8. An alarm is final: once it has tripped, no later event of the run drives the power supply
  enable line to 1 again, whatever the other threads do.
\<close>

theorem no_power_after_alarm:
  assumes "boot_init s0" "boot_step\<^sup>*\<^sup>* s0 s" "i < length (bs_trace s)" "bs_trace s ! i = Alarm_Tripped"
    and "i < j" "j < length (bs_trace s)"
  shows "bs_trace s ! j \<noteq> Line (Request_Output 2 3 1)"
proof
  assume "bs_trace s ! j = Line (Request_Output 2 3 1)"
  moreover have "preceded powers_on (\<lambda>u. Alarm_Tripped \<notin> set u) (bs_trace s)"
    using boot_machine.inv_reachable [OF assms(1,2)] by (simp add: boot_inv_def Let_def)
  ultimately have "Alarm_Tripped \<notin> set (take j (bs_trace s))"
    using assms(6) by (auto simp: preceded_def powers_on_def)
  moreover have "take j (bs_trace s) ! i = Alarm_Tripped" "i < length (take j (bs_trace s))"
    using assms(4-6) by simp_all
  ultimately show False by (metis nth_mem)
qed

theorem no_power_after_alarm_witness:
  "\<exists>s. boot_step\<^sup>*\<^sup>* example_boot s \<and> length (bs_trace s) = 9 \<and> bs_trace s ! 6 = Alarm_Tripped \<and>
     bs_trace s ! 7 = Line (Request_Output 2 3 0) \<and> bs_trace s ! 8 \<noteq> Line (Request_Output 2 3 1)"
proof -
  obtain s vs where s: "boot_step\<^sup>*\<^sup>* example_boot s" "bs_phase s = Running" "\<not> bs_watching s" "\<not> bs_alarm s"
      "ipmi_service_status (bs_mgr s)"
      "bs_trace s = [Line (Request_Input 0 6), Switch_On, Fans_Active, Line (Request_Output 2 3 1), Voltages_Good vs,
       Line (Request_Output 1 0 0)]"
    using example_run by blast
  obtain nm rd v where loc: "bs_locals s = ((nm, rd), v)" by (metis surj_pair)
  let ?s1 = "s\<lparr>bs_watching := True\<rparr>" and ?ls = "((''/temperature/inlet'', Some 90), v)"
  define m where "m = watch_services example_systemd [] (bs_mgr s)"
  have st1: "boot_step s ?s1" by (rule boot_step.ipmi_active) (use s in simp_all)
  have round: "alarm_round example_systemd example_alarm [] (bs_locals ?s1) (bs_mgr ?s1) = ((True, False), ?ls, m)"
    by (simp add: loc alarm_round_def scan_group_def example_alarm_def Let_def m_def)
  have "boot_inv s" using boot_machine.inv_reachable [OF example_boot_init s(1)] .
  note pins = boot_inv_pins [OF this, unfolded pin_of_def]
  have "mg_chip (ps_enable m) = 2" "mg_line (ps_enable m) = 3" "mg_chip (switch_gpio m) = 0" "mg_line (switch_gpio m) = 6"
    using pins static_watch_services [of example_systemd "[]" "bs_mgr s"] by (simp_all add: m_def mgr_static_def pin_of_def)
  then obtain m' where trip: "alarm_trip example_gpio_env [] (True, False) ?ls m = Inr (m', [Request_Output 2 3 0, Request_Output 0 6 1])"
    by (simp add: alarm_trip_def log_alarm_def report_alarm_def unset_ps_def set_alarm_gpio_def example_gpio_env_def
        write_log_to_file_def Let_def)
  let ?s2 = "?s1\<lparr>bs_mgr := m', bs_locals := ?ls, bs_alarm := True,
      bs_trace := bs_trace ?s1 @ Alarm_Tripped # map Line [Request_Output 2 3 0, Request_Output 0 6 1]\<rparr>"
  have "boot_step ?s1 ?s2"
    by (rule boot_step.trip [OF _ _ _ round _ trip]) (use s in simp_all)
  then have run: "boot_step\<^sup>*\<^sup>* example_boot ?s2" using s(1) st1 by (meson rtranclp.rtrancl_into_rtrancl)
  have "bs_trace ?s2 ! 8 \<noteq> Line (Request_Output 2 3 1)"
    by (rule no_power_after_alarm [OF example_boot_init run, of 6]) (simp_all add: s(6))
  then show ?thesis using run by (intro exI [of _ ?s2]) (simp add: s(6))
qed

section \<open>The log: size, content, and a restart\<close>

definition complete_lines :: "string \<Rightarrow> bool" where
  "complete_lines s \<longleftrightarrow> s = [] \<or> last s = newline"

lemma skip_lines_Some: "skip_lines k n s = Some r \<Longrightarrow> \<exists>p. s = p @ newline # r \<and> k \<le> n + length p + 1"
proof (induction k n s rule: skip_lines.induct)
  case (2 k n ch rest)
  show ?case
  proof (cases "ch = newline \<and> n + 1 \<ge> k")
    case True
    then show ?thesis using 2(2) by (intro exI [of _ "[]"]) simp
  next
    case False
    then obtain p where "rest = p @ newline # r" "k \<le> n + 1 + length p + 1" using 2 by auto
    then show ?thesis by (intro exI [of _ "ch # p"]) simp
  qed
qed simp

text \<open>The loop stops no later than at any newline that is far enough.\<close>

lemma skip_lines_found:
  "k \<le> n + length p + 1 \<Longrightarrow> \<exists>q. skip_lines k n (p @ newline # r) = Some (q @ r) \<and> suffix q (p @ [newline])"
proof (induction p arbitrary: n)
  case (Cons ch p)
  show ?case
  proof (cases "ch = newline \<and> n + 1 \<ge> k")
    case True
    then show ?thesis by (intro exI [of _ "p @ [newline]"]) (simp add: suffix_def)
  next
    case False
    with Cons.IH [of "n + 1"] Cons.prems obtain q where
      "skip_lines k (n + 1) (p @ newline # r) = Some (q @ r)" "suffix q (p @ [newline])" by auto
    with False show ?thesis by (intro exI [of _ q]) (auto intro: suffix_ConsI)
  qed
qed simp

lemma complete_log_line [simp]: "complete_lines (s @ log_line stamp msg)"
  by (simp add: complete_lines_def log_line_def)

lemma trim_log_bounded: "complete_lines s \<Longrightarrow> length (trim_log s) \<le> MAX_SIZE"
proof (cases "length s \<le> MAX_SIZE")
  case False
  assume "complete_lines s"
  with False have "s = butlast s @ newline # []"
    by (metis append_butlast_last_id complete_lines_def le0 list.size(3))
  moreover have "length s - MAX_SIZE \<le> 0 + length (butlast s) + 1" by simp
  ultimately obtain q where q: "skip_lines (length s - MAX_SIZE) 0 s = Some (q @ [])"
    using skip_lines_found by metis
  from skip_lines_Some [OF q] False have "length q \<le> MAX_SIZE" by auto
  with q False show ?thesis by (simp add: trim_log_def)
qed (simp add: trim_log_def)

lemma trim_log_keeps_last:
  assumes "complete_lines file" "length line \<le> MAX_SIZE"
  shows "\<exists>old. trim_log (file @ line) = old @ line \<and> suffix old file \<and> complete_lines old"
proof (cases "length (file @ line) \<le> MAX_SIZE")
  case False
  with assms obtain p where ends: "file = p @ [newline]"
    by (metis append_Nil append_butlast_last_id complete_lines_def)
  have "length (file @ line) - MAX_SIZE \<le> 0 + length p + 1" using assms(2) by (simp add: ends)
  from skip_lines_found [OF this, of line] obtain q where
    q: "skip_lines (length (file @ line) - MAX_SIZE) 0 (file @ line) = Some (q @ line)" "suffix q (p @ [newline])"
    by (auto simp: ends)
  from q(2) have "complete_lines q"
    by (metis complete_lines_def last_appendR last_snoc suffix_def)
  with q False show ?thesis by (auto simp: trim_log_def ends)
qed (use assms in \<open>auto simp: trim_log_def\<close>)

text \<open>
  C29. Writing a log entry leaves at most one megabyte of log, and the entry is kept whole at its
  end, behind a suffix of the former log that starts where a line starts or holds everything.
\<close>

theorem log_bounded_and_current:
  assumes "complete_lines file" "length (log_line stamp msg) \<le> MAX_SIZE"
  shows "length (append_log stamp msg file) \<le> MAX_SIZE \<and>
    (\<exists>old. append_log stamp msg file = old @ log_line stamp msg \<and> suffix old file \<and>
       (old = file \<or> (\<exists>p. file @ log_line stamp msg = p @ newline # append_log stamp msg file)))"
proof (intro conjI)
  show "length (append_log stamp msg file) \<le> MAX_SIZE" by (simp add: append_log_def trim_log_bounded)
  obtain old where old: "trim_log (file @ log_line stamp msg) = old @ log_line stamp msg" "suffix old file"
    using trim_log_keeps_last [OF assms] by blast
  have "old = file \<or> (\<exists>p. file @ log_line stamp msg = p @ newline # trim_log (file @ log_line stamp msg))"
    using old(1) by (auto simp: trim_log_def split: if_splits option.splits dest: skip_lines_Some)
  with old show "\<exists>old. append_log stamp msg file = old @ log_line stamp msg \<and> suffix old file \<and>
       (old = file \<or> (\<exists>p. file @ log_line stamp msg = p @ newline # append_log stamp msg file))"
    by (auto simp: append_log_def)
qed

theorem log_bounded_and_current_witness:
  "\<exists>old. append_log ''00:00:07'' ''fan'' (log_line [] ''boot'') = old @ log_line ''00:00:07'' ''fan'' \<and>
     suffix old (log_line [] ''boot'')"
proof -
  have "complete_lines (log_line [] ''boot'')" "length (log_line ''00:00:07'' ''fan'') \<le> MAX_SIZE"
    by (simp_all add: complete_lines_def log_line_def MAX_SIZE_def)
  from log_bounded_and_current [OF this] show ?thesis by blast
qed

lemma getlines_line: "newline \<notin> set l \<Longrightarrow> getlines (l @ newline # r) = l # getlines r"
  by (subst getlines.simps) (auto simp: dropWhile_append3 takeWhile_append2 dropWhile_append)

lemma getlines_unlines:
  "\<forall>l\<in>set ls. newline \<notin> set l \<Longrightarrow> getlines (unlines ls @ rest) = ls @ getlines rest"
  by (induction ls) (simp_all add: unlines_def getlines_line)

lemma getlines_first:
  "rest \<noteq> [] \<Longrightarrow> \<exists>ls. getlines rest = takeWhile (\<lambda>c. c \<noteq> newline) rest # ls"
  by (subst getlines.simps) (auto split: list.split simp: dropWhile_eq_Nil_conv takeWhile_eq_all_conv [THEN iffD2])

text \<open>
  The log survives a restart: lines shorter than 1024 characters that were copied to the flash
  are read back unchanged, as long as what follows them in the partition is nothing or begins with
  at least 1024 bytes without a newline (erased flash), whatever an older copy left behind it.
\<close>

theorem log_survives_restart:
  assumes "\<forall>l\<in>set ls. newline \<notin> set l \<and> length l < 1024" "system_logs m = unlines ls"
    and "rest = [] \<or> 1024 \<le> length (takeWhile (\<lambda>c. c \<noteq> newline) rest)"
  shows "init_system_logs (write_logs_to_flash m @ rest) = system_logs m"
proof -
  have "takeWhile (\<lambda>l. length l < 1024) (getlines rest) = []"
    using assms(3) getlines_first [of rest] by (cases "rest = []") (auto simp: getlines.simps [of "[]"])
  moreover have "\<forall>l\<in>set ls. length l < 1024" "\<forall>l\<in>set ls. newline \<notin> set l" using assms(1) by auto
  ultimately show ?thesis
    by (simp add: init_system_logs_def write_logs_to_flash_def assms(2) getlines_unlines takeWhile_append2)
qed

text \<open>
  How an alarm is lost: the value of a sensor in alarm cannot be read and a later one is fine. The
  round then reports no alarm, and the power stays on.
\<close>

lemma alarm_lost:
  assumes "al_low env p = Some lo" "al_high env p = Some hi" "lo \<or> hi" "al_value env p = None"
    and "al_low env q = Some False" "al_high env q = Some False"
  shows "fst (scan_group env (Some [p, q]) st) = False"
  using assms by (cases st) (auto simp: scan_group_def)

text \<open>Before the first complete reading a heartbeat prints voltages that were never assigned.\<close>

lemma heartbeat_before_reading:
  assumes "read_rails file (limitJson m) (ADCs m) = Inr (False, as, msg)" "\<exists>a\<in>set as. V_current a = None"
  shows "write_heartbeat file stamp m = Inl Uninit_Read"
proof -
  have "V_current a = None \<Longrightarrow> a \<in> set xs \<Longrightarrow> heartbeat_text xs = Inl Uninit_Read" for a xs
    by (induction xs) (auto simp: of_opt_def split: option.splits)
  with assms show ?thesis
    by (cases msg) (auto simp: write_heartbeat_def update_readings_def Let_def)
qed

section \<open>An alarm that is published cuts the power\<close>

definition readable :: "alarm_env \<Rightarrow> string list \<Rightarrow> bool" where
  "readable env ps \<longleftrightarrow> (\<forall>p\<in>set ps. al_low env p \<noteq> None \<and> al_high env p \<noteq> None \<and> al_value env p \<noteq> None)"

definition in_alarm :: "alarm_env \<Rightarrow> string \<Rightarrow> bool" where
  "in_alarm env p \<longleftrightarrow> al_low env p = Some True \<or> al_high env p = Some True"

lemma scan_alarms_readable:
  assumes "readable env ps" "scan_alarms env ps (False, nm, rd) = (alarm, nm', rd')"
  shows "(alarm \<longleftrightarrow> (\<exists>p\<in>set ps. in_alarm env p)) \<and> (alarm \<longrightarrow> rd' \<noteq> None)"
  using assms
proof (induction ps arbitrary: nm rd)
  case (Cons p ps)
  then obtain lo hi v where p: "al_low env p = Some lo" "al_high env p = Some hi" "al_value env p = Some v"
    and rest: "readable env ps" by (auto simp: readable_def)
  show ?case
  proof (cases "lo \<or> hi")
    case True
    with Cons.prems(2) p have "alarm" "rd' = Some v" by auto
    with True p show ?thesis by (auto simp: in_alarm_def)
  next
    case False
    with Cons.prems(2) p have "scan_alarms env ps (False, nm, rd) = (alarm, nm', rd')" by simp
    from Cons.IH [OF rest this] p False show ?thesis by (auto simp: in_alarm_def)
  qed
qed simp

lemma scan_group_readable:
  assumes "readable env ps" "scan_group env (Some ps) st = (alarm, st')"
  shows "(alarm \<longleftrightarrow> (\<exists>p\<in>set ps. in_alarm env p)) \<and> (alarm \<longrightarrow> snd st' \<noteq> None)"
proof -
  obtain nm rd nm' rd' where "st = (nm, rd)" "st' = (nm', rd')" by (metis surj_pair)
  with scan_alarms_readable [OF assms(1), of nm rd alarm nm' rd'] assms(2) show ?thesis
    by (simp add: scan_group_def)
qed

lemma alarm_trip_powers_off:
  assumes "fst alarms \<longrightarrow> snd (fst ls) \<noteq> None" "snd alarms \<longrightarrow> snd (snd ls) \<noteq> None"
    and "env_drive env (mg_chip (ps_enable m)) (mg_line (ps_enable m))"
  shows "\<exists>m' effs. alarm_trip env stamp alarms ls m =
    Inr (m', Request_Output (mg_chip (ps_enable m)) (mg_line (ps_enable m)) 0 # effs)"
proof -
  have "\<exists>m2. log_alarm stamp alarms ls m = Inr m2 \<and> ps_enable m2 = ps_enable m"
    using assms(1,2) by (auto simp: log_alarm_def report_alarm_def Let_def write_log_to_file_def)
  with assms(3) show ?thesis
    by (auto simp: alarm_trip_def unset_ps_def Let_def split: prod.split)
qed

text \<open>In the supervised state a published alarm of either group is followed by the power going off.\<close>

lemma published_alarm_trips:
  assumes "boot_init s0" "boot_step\<^sup>*\<^sup>* s0 s" "bs_phase s = Running" "bs_watching s" "\<not> bs_alarm s"
    and "al_temps aenv = Some ts" "al_volts aenv = Some vs" "readable aenv ts" "readable aenv vs"
    and "p \<in> set ts \<union> set vs" "in_alarm aenv p" "env_drive (env :: gpio_env) 2 3"
  shows "\<exists>s' es. boot_step s s' \<and> bs_alarm s' \<and>
    bs_trace s' = bs_trace s @ Alarm_Tripped # Line (Request_Output 2 3 0) # es"
proof -
  obtain ta t where t: "scan_group aenv (Some ts) (fst (bs_locals s)) = (ta, t)" by (metis surj_pair)
  obtain va v where v: "scan_group aenv (Some vs) (snd (bs_locals s)) = (va, v)" by (metis surj_pair)
  define m where "m = watch_services example_systemd [] (bs_mgr s)"
  have round: "alarm_round example_systemd aenv [] (bs_locals s) (bs_mgr s) = ((ta, va), (t, v), m)"
    by (simp add: alarm_round_def assms(6,7) t v m_def Let_def)
  have alarms: "ta \<or> va" "ta \<longrightarrow> snd t \<noteq> None" "va \<longrightarrow> snd v \<noteq> None"
    using scan_group_readable [OF assms(8) t] scan_group_readable [OF assms(9) v] assms(10,11) by auto
  have "boot_inv s" using boot_machine.inv_reachable [OF assms(1,2)] .
  note pins = boot_inv_pins [OF this, unfolded pin_of_def]
  have ps: "mg_chip (ps_enable m) = 2" "mg_line (ps_enable m) = 3"
    using pins static_watch_services [of example_systemd "[]" "bs_mgr s"] by (simp_all add: m_def mgr_static_def pin_of_def)
  obtain m' effs where trip: "alarm_trip env [] (ta, va) (t, v) m = Inr (m', Request_Output 2 3 0 # effs)"
    using alarm_trip_powers_off [of "(ta, va)" "(t, v)" env m "[]"] alarms(2,3) assms(12) ps by auto
  have "boot_step s (s\<lparr>bs_mgr := m', bs_locals := (t, v), bs_alarm := True,
      bs_trace := bs_trace s @ Alarm_Tripped # map Line (Request_Output 2 3 0 # effs)\<rparr>)"
    by (rule boot_step.trip [OF assms(3-5) round _ trip]) (use alarms(1) in simp)
  then show ?thesis by (intro exI conjI) auto
qed

section \<open>How long a service check takes\<close>

lemma dbus_wait_bound: "dbus_wait ready n i \<le> i + n"
proof (induction n arbitrary: i)
  case (Suc n)
  show ?case using Suc [of "Suc i"] by simp
qed simp

text \<open>The attempts from \<open>i\<close> on: the first one that is answered decides.\<close>

lemma service_attempts_result:
  "fst (service_attempts st n i) \<longleftrightarrow> (\<exists>k. i \<le> k \<and> k < i + n \<and> st k = Some ''active'' \<and> (\<forall>j. i \<le> j \<and> j < k \<longrightarrow> st j = None))"
proof (induction n arbitrary: i)
  case (Suc n)
  show ?case
  proof (cases "st i")
    case None
    then have "fst (service_attempts st (Suc n) i) = fst (service_attempts st n (Suc i))"
      by (simp add: Let_def split: prod.split)
    also have "\<dots> \<longleftrightarrow> (\<exists>k. Suc i \<le> k \<and> k < Suc i + n \<and> st k = Some ''active'' \<and> (\<forall>j. Suc i \<le> j \<and> j < k \<longrightarrow> st j = None))"
      by (rule Suc.IH)
    also have "\<dots> \<longleftrightarrow> (\<exists>k. i \<le> k \<and> k < i + Suc n \<and> st k = Some ''active'' \<and> (\<forall>j. i \<le> j \<and> j < k \<longrightarrow> st j = None))"
      using None by (intro iff_exI) (metis Suc_leD Suc_leI add_Suc add_Suc_right le_neq_implies_less option.distinct(1))
    finally show ?thesis .
  next
    case (Some s)
    then show ?thesis by (auto simp: not_less) (metis Some le_refl nat_less_le option.distinct(1) option.inject)
  qed
qed simp

lemma five_attempts_delay: "snd (service_attempts st 5 1) \<le> 10000"
  by (auto simp: numeral_eq_Suc Let_def split: option.split prod.split)


definition flaky_systemd :: systemd where
  "flaky_systemd = \<lparr>sd_ready = (\<lambda>_. False), sd_state = (\<lambda>_ i. if i = 3 then Some ''active'' else None)\<rparr>"


end
