(* ===== verification/Fan_Loop.thy ===== *)
theory Fan_Loop
  imports Prelude
begin

text \<open>
  The fan controller of \<open>lcr-fanloop-app\<close>: the PID regulator (\<open>pid.cpp\<close>) and the control loop
  around it (\<open>fan_manipulation.cpp\<close>).

  A \<open>double\<close> is a real number; where the code divides by zero or takes a power that is not a
  number, the model has a fault instead of an infinity or NaN. The parsed JSON file is a pair of
  lookup functions, \<open>None\<close> where \<open>get\<close> throws; D-Bus reads and writes are functions that may
  fail. Members that no constructor initialises are options.

  The theorems: the regulator keeps its integral and output inside the configured limits and the
  output's slew rate; a round of the loop leaves every fan's duty cycle in its range; the linear
  characteristic is monotone in the temperature; and what the loop does when sensors are lost.
\<close>

section \<open>The regulator\<close>

record limits_t =
  lim_min :: real
  lim_max :: real

record pid_info_t =
  pi_initialized :: bool
  checkHysterWithSetpt :: bool
  pi_ts :: real
  pi_integral :: real
  pi_lastOutput :: real
  pi_lastError :: real
  proportionalCoeff :: real
  integralCoeff :: real
  derivativeCoeff :: real
  feedFwdOffset :: real
  feedFwdGain :: real
  integralLimit :: limits_t
  outLim :: limits_t
  slewNeg :: real
  slewPos :: real
  positiveHysteresis :: real
  negativeHysteresis :: real

definition pid_info_new :: pid_info_t where
  "pid_info_new = \<lparr>pi_initialized = False, checkHysterWithSetpt = False, pi_ts = 0, pi_integral = 0, pi_lastOutput = 0, pi_lastError = 0,
     proportionalCoeff = 0, integralCoeff = 0, derivativeCoeff = 0, feedFwdOffset = 0, feedFwdGain = 0,
     integralLimit = \<lparr>lim_min = 0, lim_max = 0\<rparr>, outLim = \<lparr>lim_min = 0, lim_max = 0\<rparr>,
     slewNeg = 0, slewPos = 0, positiveHysteresis = 0, negativeHysteresis = 0\<rparr>"

definition clamp :: "real \<Rightarrow> real \<Rightarrow> real \<Rightarrow> real" where
  "clamp x lo hi = (if x < lo then lo else if x > hi then hi else x)"

abbreviation clamp_to :: "limits_t \<Rightarrow> real \<Rightarrow> real" where
  "clamp_to l x \<equiv> clamp x (lim_min l) (lim_max l)"

text \<open>The output after the slew-rate limits, and whether either limit is configured.\<close>

definition slew :: "pid_info_t \<Rightarrow> real \<Rightarrow> real" where
  "slew p out0 =
     (let minOut = pi_lastOutput p + slewNeg p * pi_ts p;
          out1 = (if slewNeg p \<noteq> 0 \<and> out0 < minOut then minOut else out0);
          maxOut = pi_lastOutput p + slewPos p * pi_ts p
      in if slewPos p \<noteq> 0 \<and> out1 > maxOut then maxOut else out1)"

definition pid :: "pid_info_t \<Rightarrow> real \<Rightarrow> real \<Rightarrow> (real \<times> pid_info_t) res" where
  "pid p input setpt =
     (if pi_ts p = 0 then Inl Float_Cast
      else
        let err = setpt - input;
            proportionalTerm = proportionalCoeff p * err;
            integralTerm = (if integralCoeff p \<noteq> 0
              then clamp_to (integralLimit p) (pi_integral p + err * integralCoeff p * pi_ts p) else 0);
            derivativeTerm = derivativeCoeff p * ((err - pi_lastError p) / pi_ts p);
            feedFwdTerm = (setpt + feedFwdOffset p) * feedFwdGain p;
            out0 = clamp_to (outLim p) (proportionalTerm + integralTerm + derivativeTerm + feedFwdTerm);
            out1 = (if pi_initialized p then slew p out0 else out0);
            integralTerm' = (if pi_initialized p \<and> (slewNeg p \<noteq> 0 \<or> slewPos p \<noteq> 0)
              then out1 - proportionalTerm else integralTerm)
        in Inr (out1, p\<lparr>pi_integral := clamp_to (integralLimit p) integralTerm', pi_initialized := True,
                        pi_lastError := err, pi_lastOutput := out1\<rparr>))"

section \<open>The loop\<close>

record temperature_sensor =
  ts_path :: string
  ts_name :: string
  ts_value :: "real option"

record fan =
  fan_path :: string
  fan_pwm :: int

record fan_loop =
  fl_linear :: "bool option"
  fl_ts :: "real option"
  temp_min :: "real option"
  temp_max :: "real option"
  fl_setpoint :: "real option"
  temps :: "temperature_sensor list"
  fans :: "fan list"
  controller :: pid_info_t

text \<open>The parsed file: \<open>get<double>\<close> and \<open>get<bool>\<close> along a path of keys.\<close>

record json_file =
  json_double :: "string list \<Rightarrow> real option"
  json_bool :: "string list \<Rightarrow> bool option"

text \<open>The last component of an object path: \<open>path.substr(1 + path.rfind('/'))\<close>, empty without a slash.\<close>

definition path_name :: "string \<Rightarrow> string" where
  "path_name path =
     (if CHR ''/'' \<in> set path then rev (takeWhile (\<lambda>c. c \<noteq> CHR ''/'') (rev path)) else [])"

definition initialize_temps :: "string list \<Rightarrow> temperature_sensor list" where
  "initialize_temps paths = map (\<lambda>path. \<lparr>ts_path = path, ts_name = path_name path, ts_value = None\<rparr>) paths"

text \<open>
  The assignments of \<open>initialize_controller\<close> in their order. A \<open>get\<close> that throws ends the list:
  what was assigned before it stays, and the exception is swallowed.
\<close>

fun assign_all :: "('s \<Rightarrow> 's option) list \<Rightarrow> 's \<Rightarrow> 's" where
  "assign_all [] s = s"
| "assign_all (a # as) s = (case a s of None \<Rightarrow> s | Some s' \<Rightarrow> assign_all as s')"

definition set_number :: "json_file \<Rightarrow> string list \<Rightarrow> (real \<Rightarrow> fan_loop \<Rightarrow> fan_loop) \<Rightarrow> fan_loop \<Rightarrow> fan_loop option" where
  "set_number f key put s = map_option (\<lambda>v. put v s) (json_double f key)"

abbreviation update_controller :: "(pid_info_t \<Rightarrow> pid_info_t) \<Rightarrow> fan_loop \<Rightarrow> fan_loop" where
  "update_controller g s \<equiv> s\<lparr>controller := g (controller s)\<rparr>"

definition initialize_controller :: "json_file \<Rightarrow> fan_loop \<Rightarrow> fan_loop" where
  "initialize_controller f s =
     assign_all
       [\<lambda>s. map_option (\<lambda>b. s\<lparr>fl_linear := Some b\<rparr>) (json_bool f [''linear'']),
        set_number f [''setpoint''] (\<lambda>v s. s\<lparr>fl_setpoint := Some v\<rparr>),
        set_number f [''ts''] (\<lambda>v s. update_controller (\<lambda>p. p\<lparr>pi_ts := v\<rparr>) (s\<lparr>fl_ts := Some v\<rparr>)),
        set_number f [''proportionalCoeff''] (\<lambda>v. update_controller (\<lambda>p. p\<lparr>proportionalCoeff := v\<rparr>)),
        set_number f [''integralCoeff''] (\<lambda>v. update_controller (\<lambda>p. p\<lparr>integralCoeff := v\<rparr>)),
        set_number f [''derivativeCoeff''] (\<lambda>v. update_controller (\<lambda>p. p\<lparr>derivativeCoeff := v\<rparr>)),
        set_number f [''feedFwdOffset''] (\<lambda>v. update_controller (\<lambda>p. p\<lparr>feedFwdOffset := v\<rparr>)),
        set_number f [''feedFwdGain''] (\<lambda>v. update_controller (\<lambda>p. p\<lparr>feedFwdGain := v\<rparr>)),
        set_number f [''integralLimit'', ''min''] (\<lambda>v. update_controller (\<lambda>p. p\<lparr>integralLimit := (integralLimit p)\<lparr>lim_min := v\<rparr>\<rparr>)),
        set_number f [''integralLimit'', ''max''] (\<lambda>v. update_controller (\<lambda>p. p\<lparr>integralLimit := (integralLimit p)\<lparr>lim_max := v\<rparr>\<rparr>)),
        set_number f [''outLim'', ''min''] (\<lambda>v. update_controller (\<lambda>p. p\<lparr>outLim := (outLim p)\<lparr>lim_min := v\<rparr>\<rparr>)),
        set_number f [''outLim'', ''max''] (\<lambda>v. update_controller (\<lambda>p. p\<lparr>outLim := (outLim p)\<lparr>lim_max := v\<rparr>\<rparr>)),
        set_number f [''slewNeg''] (\<lambda>v. update_controller (\<lambda>p. p\<lparr>slewNeg := v\<rparr>)),
        set_number f [''slewPos''] (\<lambda>v. update_controller (\<lambda>p. p\<lparr>slewPos := v\<rparr>)),
        set_number f [''positiveHysteresis''] (\<lambda>v. update_controller (\<lambda>p. p\<lparr>positiveHysteresis := v\<rparr>)),
        set_number f [''negativeHysteresis''] (\<lambda>v. update_controller (\<lambda>p. p\<lparr>negativeHysteresis := v\<rparr>))]
       (update_controller (\<lambda>p. p\<lparr>pi_initialized := True\<rparr>) s)"

definition get_fan_pwms :: "string list \<Rightarrow> fan_loop \<Rightarrow> fan_loop" where
  "get_fan_pwms paths s = s\<lparr>fans := map (\<lambda>f. f\<lparr>fan_pwm := 0\<rparr>) (fans s @ map (\<lambda>p. \<lparr>fan_path = p, fan_pwm = 0\<rparr>) paths)\<rparr>"

text \<open>Only the first path of the mapper's answer is read; a failing read ends the program.\<close>

definition get_temp_thresholds ::
  "string list \<Rightarrow> (string \<Rightarrow> string \<Rightarrow> real option) \<Rightarrow> fan_loop \<Rightarrow> fan_loop res" where
  "get_temp_thresholds paths prop s =
     (case paths of
        [] \<Rightarrow> Inr s
      | path # _ \<Rightarrow>
          rbind (of_opt Dbus_Exception (prop path ''CriticalLow'')) (\<lambda>lo.
          rbind (of_opt Dbus_Exception (prop path ''CriticalHigh'')) (\<lambda>hi.
            Inr (s\<lparr>temp_min := Some lo, temp_max := Some hi\<rparr>))))"

definition fan_loop_new ::
  "string list \<Rightarrow> json_file \<Rightarrow> string list \<Rightarrow> string list \<Rightarrow> (string \<Rightarrow> string \<Rightarrow> real option) \<Rightarrow> fan_loop res" where
  "fan_loop_new temp_paths f fan_paths threshold_paths prop =
     get_temp_thresholds threshold_paths prop
       (get_fan_pwms fan_paths
         (initialize_controller f
           \<lparr>fl_linear = None, fl_ts = None, temp_min = None, temp_max = None, fl_setpoint = None,
            temps = initialize_temps temp_paths, fans = [], controller = pid_info_new\<rparr>))"

text \<open>A sensor that cannot be read gets the value -20.\<close>

definition read_temperatures :: "(string \<Rightarrow> real option) \<Rightarrow> fan_loop \<Rightarrow> fan_loop" where
  "read_temperatures prop s =
     s\<lparr>temps := map (\<lambda>t. t\<lparr>ts_value := Some (case prop (ts_path t) of Some v \<Rightarrow> v | None \<Rightarrow> -20)\<rparr>) (temps s)\<rparr>"

text \<open>\<open>(int)x\<close>: truncation towards zero, undefined outside the range of \<open>int\<close>.\<close>

definition int_range :: "int \<Rightarrow> int res" where
  "int_range i = (if - (2 ^ 31) \<le> i \<and> i < 2 ^ 31 then Inr i else Inl Int_Overflow)"

definition double_to_int :: "real \<Rightarrow> int res" where
  "double_to_int x =
     (let i = (if x < 0 then \<lceil>x\<rceil> else \<lfloor>x\<rfloor>) in
      if - (2 ^ 31) \<le> i \<and> i < 2 ^ 31 then Inr i else Inl Float_Cast)"

text \<open>The running maximum starts at 0.\<close>

fun high_temperature :: "real \<Rightarrow> temperature_sensor list \<Rightarrow> real res" where
  "high_temperature h [] = Inr h"
| "high_temperature h (t # ts) =
     (case ts_value t of
        None \<Rightarrow> Inl Uninit_Read
      | Some v \<Rightarrow> high_temperature (if v > h then v else h) ts)"

text \<open>
  The linear characteristic: the power is not a number below the set point and infinite when the
  range is empty; the two tests behind it replace the value outside the range.
\<close>

definition linear_duty :: "real \<Rightarrow> real \<Rightarrow> real \<Rightarrow> real res" where
  "linear_duty temp_high setpt tmax =
     (let norm = tmax - setpt; ratio = (temp_high - setpt) / norm;
          calc_val = (if norm = 0 \<or> ratio < 0 then None else Some (ratio powr 1.6 * 255))
      in if temp_high < setpt then Inr 0
         else if temp_high > tmax then Inr 255
         else of_opt Float_Cast calc_val)"

definition linear_update :: "real \<Rightarrow> int \<Rightarrow> int res" where
  "linear_update calc_val pwm =
     rbind (double_to_int calc_val) (\<lambda>v. Inr (if v < 75 then 75 else v))"

definition pid_update :: "real \<Rightarrow> int \<Rightarrow> int res" where
  "pid_update out pwm =
     rbind (double_to_int out) (\<lambda>o_int.
     rbind (int_range (pwm - o_int)) (\<lambda>v. Inr (if v > 255 then 255 else if v < 0 then 0 else v)))"

text \<open>
  The loop over the fans: new duty cycle, then \<open>setProperty\<close> of the target, which throws where
  the write fails. The result is the writes made, the fans, and the fault that ended the loop.
\<close>

fun drive_fans ::
  "(int \<Rightarrow> int res) \<Rightarrow> (string \<Rightarrow> bool) \<Rightarrow> fan list \<Rightarrow> (string \<times> int) list \<times> fan list \<times> unit res" where
  "drive_fans upd ok [] = ([], [], Inr ())"
| "drive_fans upd ok (f # fs) =
     (case upd (fan_pwm f) of
        Inl e \<Rightarrow> ([], f # fs, Inl e)
      | Inr p \<Rightarrow>
          if ok (fan_path f)
          then (case drive_fans upd ok fs of (ws, fs', r) \<Rightarrow> ((fan_path f, p) # ws, f\<lparr>fan_pwm := p\<rparr> # fs', r))
          else ([], f\<lparr>fan_pwm := p\<rparr> # fs, Inl Dbus_Exception))"

definition drive :: "(int \<Rightarrow> int res) \<Rightarrow> (string \<Rightarrow> bool) \<Rightarrow> fan_loop \<Rightarrow> (string \<times> int) list \<times> fan_loop \<times> unit res" where
  "drive upd ok s = (case drive_fans upd ok (fans s) of (ws, fs, r) \<Rightarrow> (ws, s\<lparr>fans := fs\<rparr>, r))"

text \<open>One round; the set point is read from the file again each time.\<close>

definition control_loop ::
  "json_file \<Rightarrow> (string \<Rightarrow> bool) \<Rightarrow> fan_loop \<Rightarrow> (string \<times> int) list \<times> fan_loop \<times> unit res" where
  "control_loop f ok s =
     (case json_double f [''setpoint''] of
        None \<Rightarrow> ([], s, Inl Json_Exception)
      | Some setpt \<Rightarrow>
          let s1 = s\<lparr>fl_setpoint := Some setpt\<rparr> in
          (case high_temperature 0 (temps s1) of
             Inl e \<Rightarrow> ([], s1, Inl e)
           | Inr temp_high \<Rightarrow>
               (case (temp_max s1, fl_linear s1) of
                  (Some tmax, Some True) \<Rightarrow>
                    (case linear_duty temp_high setpt tmax of
                       Inl e \<Rightarrow> (case fans s1 of [] \<Rightarrow> ([], s1, Inr ()) | _ \<Rightarrow> ([], s1, Inl e))
                     | Inr calc_val \<Rightarrow> drive (linear_update calc_val) ok s1)
                | (Some tmax, Some False) \<Rightarrow>
                    (case pid (controller s1) temp_high setpt of
                       Inl e \<Rightarrow> ([], s1, Inl e)
                     | Inr (out, c) \<Rightarrow>
                         drive (pid_update (if temp_high < setpt then 0 else out)) ok (s1\<lparr>controller := c\<rparr>))
                | _ \<Rightarrow> ([], s1, Inl Uninit_Read))))"

text \<open>The body of \<open>main\<close>'s loop, \<open>n\<close> rounds with the outside of each round; a fault ends the program.\<close>

fun fan_rounds ::
  "(json_file \<times> (string \<Rightarrow> real option) \<times> (string \<Rightarrow> bool)) list \<Rightarrow> fan_loop \<Rightarrow> (string \<times> int) list \<times> fan_loop \<times> unit res" where
  "fan_rounds [] s = ([], s, Inr ())"
| "fan_rounds ((f, prop, ok) # es) s =
     (case control_loop f ok (read_temperatures prop s) of
        (ws, s', Inl e) \<Rightarrow> (ws, s', Inl e)
      | (ws, s', Inr _) \<Rightarrow> (case fan_rounds es s' of (ws', s'', r) \<Rightarrow> (ws @ ws', s'', r)))"

section \<open>The linear characteristic\<close>

lemma double_to_int_range:
  assumes "0 \<le> x" "x \<le> 255"
  shows "\<exists>i. double_to_int x = Inr i \<and> 0 \<le> i \<and> i \<le> 255 \<and> i = \<lfloor>x\<rfloor>"
proof -
  have "0 \<le> \<lfloor>x\<rfloor>" "\<lfloor>x\<rfloor> \<le> 255" using assms floor_mono [of x 255] by simp_all
  then show ?thesis using assms(1) by (simp add: double_to_int_def Let_def)
qed

lemma linear_duty_range:
  assumes "linear_duty th s t = Inr c"
  shows "0 \<le> c \<and> c \<le> 255"
proof -
  have "(th - s) / (t - s) \<le> 1" if "s \<le> th" "th \<le> t" "t \<noteq> s"
    using that by (simp add: divide_le_eq_1)
  then show ?thesis
    using assms powr_mono2 [of "1.6 :: real" "(th - s) / (t - s)" 1]
    by (auto simp: linear_duty_def Let_def of_opt_def not_less split: if_splits)
qed

lemma linear_duty_defined: "linear_duty th s t = Inl e \<longleftrightarrow> e = Float_Cast \<and> th = s \<and> t = s"
  by (auto simp: linear_duty_def Let_def divide_less_0_iff)

lemma linear_duty_mono:
  assumes "th1 \<le> th2" "linear_duty th1 s t = Inr c1" "linear_duty th2 s t = Inr c2"
  shows "c1 \<le> c2"
proof (cases "s \<le> th1 \<and> th2 \<le> t")
  case True
  then have eq: "c1 = ((th1 - s) / (t - s)) powr 1.6 * 255" "c2 = ((th2 - s) / (t - s)) powr 1.6 * 255"
    and r: "0 \<le> (th1 - s) / (t - s)" "(th1 - s) / (t - s) \<le> (th2 - s) / (t - s)"
    using assms by (auto simp: linear_duty_def Let_def of_opt_def divide_right_mono split: if_splits)
  show ?thesis using powr_mono2 [OF _ r, of "1.6"] by (simp add: eq)
next
  case False
  then have "c1 = 0 \<or> c2 = 255"
    using assms by (auto simp: linear_duty_def Let_def split: if_splits)
  then show ?thesis
    using linear_duty_range [OF assms(2)] linear_duty_range [OF assms(3)] by auto
qed

lemma linear_update_range:
  assumes "0 \<le> c" "c \<le> 255"
  shows "linear_update c p = Inr (max 75 \<lfloor>c\<rfloor>) \<and> max 75 \<lfloor>c\<rfloor> \<le> 255"
  using double_to_int_range [OF assms] by (auto simp: linear_update_def)

text \<open>
  In linear mode the duty cycle of every fan is between 75 and 255 and does not fall when the
  highest temperature rises; below the set point it is 75, above both set point and critical
  temperature 255. The only temperature for which it is not defined is the set point itself when
  that equals the critical temperature.
\<close>

theorem linear_characteristic:
  assumes "th1 \<le> th2" "setpt \<noteq> tmax \<or> th1 \<noteq> setpt \<and> th2 \<noteq> setpt"
  shows "\<exists>p1 p2. rbind (linear_duty th1 setpt tmax) (\<lambda>c. linear_update c p) = Inr p1 \<and>
     rbind (linear_duty th2 setpt tmax) (\<lambda>c. linear_update c p) = Inr p2 \<and> 75 \<le> p1 \<and> p1 \<le> p2 \<and> p2 \<le> 255 \<and>
     (th1 < setpt \<longrightarrow> p1 = 75) \<and> (setpt \<le> th1 \<and> tmax < th1 \<longrightarrow> p1 = 255)"
proof -
  have "linear_duty th1 setpt tmax \<noteq> Inl e" "linear_duty th2 setpt tmax \<noteq> Inl e" for e
    using assms(2) linear_duty_defined by auto
  then obtain c1 c2 where c: "linear_duty th1 setpt tmax = Inr c1" "linear_duty th2 setpt tmax = Inr c2"
    by (metis sum.exhaust)
  note r1 = linear_duty_range [OF c(1)] and r2 = linear_duty_range [OF c(2)]
  have "\<lfloor>c1\<rfloor> \<le> \<lfloor>c2\<rfloor>" using linear_duty_mono [OF assms(1) c] by (rule floor_mono)
  moreover have "c1 = 0" if "th1 < setpt" using c(1) that by (simp add: linear_duty_def)
  moreover have "c1 = 255" if "setpt \<le> th1" "tmax < th1" using c(1) that by (simp add: linear_duty_def)
  ultimately show ?thesis
    using linear_update_range [of c1 p] linear_update_range [of c2 p] r1 r2 by (auto simp: c)
qed

theorem linear_characteristic_witness:
  "\<exists>p1 p2. rbind (linear_duty 10 15 100) (\<lambda>c. linear_update c 0) = Inr p1 \<and>
     rbind (linear_duty 60 15 100) (\<lambda>c. linear_update c 0) = Inr p2 \<and> p1 = 75 \<and> p1 \<le> p2 \<and> p2 \<le> 255"
  using linear_characteristic [of 10 60 15 100 0] by auto

section \<open>Duty cycles\<close>

definition pwm_ok :: "fan list \<Rightarrow> bool" where
  "pwm_ok fs \<longleftrightarrow> (\<forall>f \<in> set fs. 0 \<le> fan_pwm f \<and> fan_pwm f \<le> 255)"

lemma drive_fans_range:
  assumes "\<And>p v. upd p = Inr v \<Longrightarrow> lo \<le> v \<and> v \<le> 255" "0 \<le> lo" "pwm_ok fs"
    and "drive_fans upd ok fs = (ws, fs', r)"
  shows "pwm_ok fs' \<and> (\<forall>w \<in> set ws. lo \<le> snd w \<and> snd w \<le> 255)"
  using assms(3,4)
proof (induction fs arbitrary: ws fs' r)
  case (Cons f fs)
  show ?case
  proof (cases "upd (fan_pwm f)")
    case (Inr p)
    then have p: "lo \<le> p" "p \<le> 255" using assms(1) by blast+
    obtain ws1 fs1 r1 where d: "drive_fans upd ok fs = (ws1, fs1, r1)" by (cases "drive_fans upd ok fs")
    have "pwm_ok fs" using Cons.prems(1) by (simp add: pwm_ok_def)
    from Cons.IH [OF this d] show ?thesis
      using Cons.prems Inr d p assms(2) by (auto simp: pwm_ok_def split: if_splits)
  qed (use Cons.prems in auto)
qed (simp add: pwm_ok_def)

lemma linear_update_in: "linear_duty th s t = Inr c \<Longrightarrow> linear_update c p = Inr v \<Longrightarrow> 75 \<le> v \<and> v \<le> 255"
  using linear_duty_range [of th s t c] linear_update_range [of c p] by auto

lemma pid_update_in: "pid_update c p = Inr v \<Longrightarrow> 0 \<le> v \<and> v \<le> 255"
  by (auto simp: pid_update_def split: if_splits elim!: rbind_InrE)

lemma control_loop_range:
  assumes "pwm_ok (fans s)" "control_loop f ok s = (ws, s', r)"
  shows "pwm_ok (fans s') \<and> fl_linear s' = fl_linear s \<and>
     (\<forall>w \<in> set ws. (if fl_linear s = Some True then 75 else 0) \<le> snd w \<and> snd w \<le> 255)"
proof -
  have lin: "pwm_ok fs' \<and> (\<forall>w \<in> set ws. 75 \<le> snd w \<and> snd w \<le> 255)"
    if "linear_duty th x t = Inr c" "drive_fans (linear_update c) ok (fans s) = (ws, fs', r)" for th x t c ws fs' r
    by (rule drive_fans_range [OF linear_update_in [OF that(1)] _ assms(1) that(2)]) simp_all
  have reg: "pwm_ok fs' \<and> (\<forall>w \<in> set ws. 0 \<le> snd w \<and> snd w \<le> 255)"
    if "drive_fans (pid_update c) ok (fans s) = (ws, fs', r)" for c ws fs' r
    by (rule drive_fans_range [OF pid_update_in _ assms(1) that]) simp_all
  show ?thesis
    using assms lin reg
    by (auto simp: control_loop_def drive_def Let_def split: option.splits sum.splits prod.splits bool.splits list.splits)
qed

text \<open>
  C18. Whatever the sensors, the configuration file and the D-Bus writes do, round after round, and
  also when a fault ends the program: every fan's duty cycle stays between 0 and 255, so does
  every value written to a fan target, and in linear mode no target below 75 is written.
\<close>

theorem duty_cycles_stay_in_range:
  assumes "pwm_ok (fans s)" "fan_rounds es s = (ws, s', r)"
  shows "pwm_ok (fans s') \<and>
     (\<forall>(path, v) \<in> set ws. (if fl_linear s = Some True then 75 else 0) \<le> v \<and> v \<le> 255)"
  using assms
proof (induction es s arbitrary: ws s' r rule: fan_rounds.induct)
  case (2 f reads ok es s)
  let ?s0 = "read_temperatures reads s"
  obtain ws1 s1 r1 where c: "control_loop f ok ?s0 = (ws1, s1, r1)" by (cases "control_loop f ok ?s0")
  have s0: "pwm_ok (fans ?s0)" "fl_linear ?s0 = fl_linear s"
    using "2.prems"(1) by (simp_all add: read_temperatures_def)
  note step = control_loop_range [OF s0(1) c, unfolded s0(2)]
  show ?case
  proof (cases r1)
    case (Inl e)
    then show ?thesis using "2.prems"(2) c step by auto
  next
    case (Inr u)
    obtain ws2 s2 r2 where rest: "fan_rounds es s1 = (ws2, s2, r2)" by (cases "fan_rounds es s1")
    then have "ws = ws1 @ ws2" "s' = s2" using "2.prems"(2) c Inr by simp_all
    then show ?thesis
      using "2.IH" [OF c [symmetric] refl Inr _ rest] step by (auto split: if_splits)
  qed
qed simp

definition example_pid_json :: json_file where
  "example_pid_json = \<lparr>json_double = (\<lambda>k. if k = [''setpoint''] then Some 15 else if k = [''ts''] then Some 1 else None),
     json_bool = (\<lambda>k. if k = [''linear''] then Some True else None)\<rparr>"

definition example_loop :: fan_loop where
  "example_loop = \<lparr>fl_linear = Some True, fl_ts = Some 1, temp_min = Some 0, temp_max = Some 100, fl_setpoint = Some 15,
     temps = initialize_temps [''/temperature/inlet''], fans = [\<lparr>fan_path = ''/fanpwm/Pwm_1'', fan_pwm = 0\<rparr>],
     controller = pid_info_new\<rparr>"

theorem duty_cycles_stay_in_range_witness:
  "case fan_rounds [(example_pid_json, \<lambda>_. Some 60, \<lambda>_. True), (example_pid_json, \<lambda>_. Some 120, \<lambda>_. True)] example_loop of
     (ws, s', r) \<Rightarrow> pwm_ok (fans s') \<and> (\<forall>(path, v) \<in> set ws. 75 \<le> v \<and> v \<le> 255)"
proof -
  let ?es = "[(example_pid_json, \<lambda>_. Some 60, \<lambda>_. True), (example_pid_json, \<lambda>_. Some 120, \<lambda>_. True)]"
  have ok: "pwm_ok (fans example_loop)" "fl_linear example_loop = Some True"
    by (simp_all add: example_loop_def pwm_ok_def)
  obtain ws s' r where run: "fan_rounds ?es example_loop = (ws, s', r)" by (rule prod_cases3)
  show ?thesis
    using duty_cycles_stay_in_range [OF ok(1) run] unfolding run ok(2) by simp
qed

section \<open>Limits of the regulator\<close>

definition in_limits :: "limits_t \<Rightarrow> real \<Rightarrow> bool" where
  "in_limits l x \<longleftrightarrow> lim_min l \<le> x \<and> x \<le> lim_max l"

text \<open>A sensible configuration: proper intervals, a positive period, slew rates of the right sign.\<close>

definition pid_ok :: "pid_info_t \<Rightarrow> bool" where
  "pid_ok p \<longleftrightarrow> 0 < pi_ts p \<and> lim_min (integralLimit p) \<le> lim_max (integralLimit p) \<and>
     lim_min (outLim p) \<le> lim_max (outLim p) \<and> slewNeg p \<le> 0 \<and> 0 \<le> slewPos p \<and> in_limits (outLim p) (pi_lastOutput p)"

definition slew_ok :: "pid_info_t \<Rightarrow> real \<Rightarrow> bool" where
  "slew_ok p out \<longleftrightarrow> (slewNeg p \<noteq> 0 \<longrightarrow> pi_lastOutput p + slewNeg p * pi_ts p \<le> out) \<and>
     (slewPos p \<noteq> 0 \<longrightarrow> out \<le> pi_lastOutput p + slewPos p * pi_ts p)"

lemma clamp_in_limits: "lim_min l \<le> lim_max l \<Longrightarrow> in_limits l (clamp_to l x)"
  by (simp add: in_limits_def clamp_def)

lemma slew_in_limits:
  assumes "pid_ok p" "in_limits (outLim p) out0"
  shows "in_limits (outLim p) (slew p out0) \<and> slew_ok p (slew p out0)"
proof -
  obtain a b where ab: "slewNeg p * pi_ts p = a" "slewPos p * pi_ts p = b" and sign: "a \<le> 0" "0 \<le> b"
    using assms(1) by (simp add: pid_ok_def mult_nonpos_nonneg)
  show ?thesis
    using assms sign unfolding slew_def slew_ok_def ab by (auto simp: pid_ok_def in_limits_def Let_def)
qed

text \<open>
  C26. With proper intervals, a positive sample time and slew rates of the right sign, a step of the
  regulator always yields a result; the output is inside the output limits and, once the regulator
  is initialised, moves by no more than the configured slew rates; the stored integral is inside
  the integral limits; and all this holds again for the next step.
\<close>

theorem pid_step_within_limits:
  assumes "pid_ok p"
  shows "\<exists>out p'. pid p input setpt = Inr (out, p') \<and> in_limits (outLim p) out \<and>
     (pi_initialized p \<longrightarrow> slew_ok p out) \<and> in_limits (integralLimit p) (pi_integral p') \<and>
     pi_lastOutput p' = out \<and> pi_lastError p' = setpt - input \<and> pi_initialized p' \<and> pid_ok p'"
proof -
  have out: "in_limits (outLim p) (clamp_to (outLim p) x)" for x
    using assms by (simp add: pid_ok_def clamp_in_limits)
  have int: "in_limits (integralLimit p) (clamp_to (integralLimit p) x)" for x
    using assms by (simp add: pid_ok_def clamp_in_limits)
  show ?thesis
    using assms slew_in_limits [OF assms out] out int
    by (simp add: pid_def Let_def pid_ok_def)
qed

theorem pid_step_within_limits_witness:
  "\<exists>out p'. pid (pid_info_new\<lparr>pi_ts := 1, proportionalCoeff := 2, pi_initialized := True, slewNeg := -5, slewPos := 5,
        outLim := \<lparr>lim_min = -100, lim_max = 100\<rparr>\<rparr>) 60 15 = Inr (out, p') \<and> -5 \<le> out \<and> out \<le> 5 \<and> pid_ok p'"
  using pid_step_within_limits [of "pid_info_new\<lparr>pi_ts := 1, proportionalCoeff := 2, pi_initialized := True,
      slewNeg := -5, slewPos := 5, outLim := \<lparr>lim_min = -100, lim_max = 100\<rparr>\<rparr>" 60 15]
  by (auto simp: pid_ok_def in_limits_def slew_ok_def pid_info_new_def)

section \<open>Lost sensors\<close>

lemma high_temperature_below:
  "list_all (\<lambda>t. \<exists>v. ts_value t = Some v \<and> v \<le> h) ts \<Longrightarrow> high_temperature h ts = Inr h"
  by (induction ts) auto

lemma drive_fans_const:
  assumes "\<And>p. upd p = Inr v" "\<And>path. ok path"
  shows "drive_fans upd ok fs = (map (\<lambda>f. (fan_path f, v)) fs, map (\<lambda>f. f\<lparr>fan_pwm := v\<rparr>) fs, Inr ())"
  by (induction fs) (simp_all add: assms)

text \<open>
  When no temperature sensor can be read, the loop takes the chassis for cold: the highest
  temperature is 0 instead of unknown, and with a positive set point in linear mode every fan is
  sent to the minimum duty cycle 75, whatever it was before.
\<close>

theorem lost_sensors_slow_the_fans:
  assumes "fl_linear s = Some True" "temp_max s = Some tmax" "json_double f [''setpoint''] = Some setpt" "0 < setpt"
  shows "control_loop f (\<lambda>_. True) (read_temperatures (\<lambda>_. None) s) =
     (map (\<lambda>x. (fan_path x, 75)) (fans s),
      (read_temperatures (\<lambda>_. None) s)\<lparr>fl_setpoint := Some setpt, fans := map (\<lambda>x. x\<lparr>fan_pwm := 75\<rparr>) (fans s)\<rparr>, Inr ())"
proof -
  have "list_all (\<lambda>t. \<exists>v. ts_value t = Some v \<and> v \<le> 0) (temps (read_temperatures (\<lambda>_. None) s))"
    by (simp add: read_temperatures_def list_all_iff)
  note high = high_temperature_below [OF this]
  have duty: "linear_duty 0 setpt tmax = Inr 0" using assms(4) by (simp add: linear_duty_def)
  have "linear_update 0 p = Inr 75" for p by (simp add: linear_update_def double_to_int_def)
  then have "drive_fans (linear_update 0) (\<lambda>_. True) (fans s) =
      (map (\<lambda>x. (fan_path x, 75)) (fans s), map (\<lambda>x. x\<lparr>fan_pwm := 75\<rparr>) (fans s), Inr ())"
    by (rule drive_fans_const) simp
  then show ?thesis
    using assms duty high by (simp add: control_loop_def drive_def read_temperatures_def Let_def)
qed

theorem lost_sensors_slow_the_fans_witness:
  "fst (control_loop example_pid_json (\<lambda>_. True)
     (read_temperatures (\<lambda>_. None) (example_loop\<lparr>fans := [\<lparr>fan_path = ''/fanpwm/Pwm_1'', fan_pwm = 255\<rparr>]\<rparr>)))
   = [(''/fanpwm/Pwm_1'', 75)]"
  using lost_sensors_slow_the_fans [of "example_loop\<lparr>fans := [\<lparr>fan_path = ''/fanpwm/Pwm_1'', fan_pwm = 255\<rparr>]\<rparr>" 100
      example_pid_json 15]
  by (simp add: example_loop_def example_pid_json_def)

end
