(* ===== verification/Chassis_Sensors.thy ===== *)
theory Chassis_Sensors
  imports Boot_Manager Fan_Loop
begin

text \<open>
  The sensor applications of the chassis: the voltage daemon (\<open>lcr-ADC-app\<close>), the temperature daemon
  (\<open>lcr-temperature-app\<close>), the health sensor (\<open>lcr-mandatory-sensors-app\<close>), and the tools that
  display them and change their thresholds (\<open>lcr-interface-app\<close>) and keep the thresholds in flash
  (\<open>lcr-memory-app\<close>).

  The files under \<open>/sys\<close> and the thresholds file are parameters; the D-Bus objects that a daemon
  publishes are part of its state. The rails of the voltage daemon are those of \<open>Boot_Manager\<close>, whose
  element type has one more field, which the daemon does not use.

  The theorems: alarms follow readings and thresholds, a changed threshold takes effect, what the
  health sensor reports, and when thresholds survive in flash.
\<close>

section \<open>Published sensors\<close>

record dbus_sensor =
  sn_value :: real
  sn_minValue :: real
  sn_maxValue :: real
  sn_criticalHigh :: real
  sn_criticalLow :: real
  sn_alarmHigh :: bool
  sn_alarmLow :: bool

type_synonym limits = "string \<Rightarrow> string \<Rightarrow> real option"

definition json_limits :: "limits \<Rightarrow> string \<Rightarrow> (real \<times> real) res" where
  "json_limits lims key =
     rbind (of_opt Json_Exception (lims key ''max'')) (\<lambda>hi.
     rbind (of_opt Json_Exception (lims key ''min'')) (\<lambda>lo. Inr (lo, hi)))"

definition new_sensor :: "real \<Rightarrow> real \<Rightarrow> real \<Rightarrow> real \<Rightarrow> dbus_sensor" where
  "new_sensor mn mx lo hi = \<lparr>sn_value = 0, sn_minValue = mn, sn_maxValue = mx, sn_criticalHigh = hi, sn_criticalLow = lo,
     sn_alarmHigh = False, sn_alarmLow = False\<rparr>"

text \<open>What a round sends: thresholds, value, and the two alarm flags.\<close>

definition send_value :: "real \<Rightarrow> real \<times> real \<Rightarrow> dbus_sensor \<Rightarrow> dbus_sensor" where
  "send_value v l s = s\<lparr>sn_criticalHigh := snd l, sn_criticalLow := fst l, sn_value := v,
     sn_alarmHigh := v > snd l, sn_alarmLow := v < fst l\<rparr>"

text \<open>\<open>sensors[name]->...\<close>: a name that is not there gives a null pointer.\<close>

definition send_to :: "string \<Rightarrow> real \<Rightarrow> real \<times> real \<Rightarrow> (string \<rightharpoonup> dbus_sensor) \<Rightarrow> (string \<rightharpoonup> dbus_sensor) res" where
  "send_to name v l sensors =
     (case sensors name of None \<Rightarrow> Inl Null_Deref | Some s \<Rightarrow> Inr (sensors(name \<mapsto> send_value v l s)))"

text \<open>A loop whose body can throw: the exception ends the program.\<close>

fun for_each :: "('e \<Rightarrow> 's \<Rightarrow> 's res) \<Rightarrow> 'e list \<Rightarrow> 's \<Rightarrow> 's res" where
  "for_each body [] s = Inr s"
| "for_each body (x # xs) s = rbind (body x s) (for_each body xs)"

lemma for_each_snoc: "for_each body (xs @ [x]) s = rbind (for_each body xs s) (body x)"
  by (induction xs arbitrary: s) (simp_all add: rbind_def split: sum.split)

section \<open>Voltages\<close>

record ADC_sensor =
  as_ADCs :: "ADC_element list"
  as_limits :: limits
  as_sensors :: "string \<rightharpoonup> dbus_sensor"

fun adc_update_readings :: "(string \<Rightarrow> string) \<Rightarrow> ADC_element list \<Rightarrow> ADC_element list res" where
  "adc_update_readings file [] = Inr []"
| "adc_update_readings file (a # as) =
     rbind (stoi (file (adc_path a))) (\<lambda>raw.
     rbind (of_opt Uninit_Read (scale_coeff a)) (\<lambda>sc.
     rbind (adc_update_readings file as) (\<lambda>as'.
       Inr (a\<lparr>raw_reading := Some raw, V_current := Some (sc * of_int raw)\<rparr> # as'))))"

definition adc_expose :: "limits \<Rightarrow> ADC_element \<Rightarrow> (string \<rightharpoonup> dbus_sensor) \<Rightarrow> (string \<rightharpoonup> dbus_sensor) res" where
  "adc_expose lims a sensors =
     rbind (json_limits lims (adc_name a)) (\<lambda>(lo, hi). Inr (sensors(adc_name a \<mapsto> new_sensor 0 24 lo hi)))"

definition ADC_sensor_new :: "(string \<Rightarrow> string) \<Rightarrow> limits \<Rightarrow> ADC_sensor res" where
  "ADC_sensor_new file lims =
     rbind (adc_update_readings file (calculate_cs rails)) (\<lambda>as.
     rbind (for_each (adc_expose lims) as Map.empty) (\<lambda>sensors.
       Inr \<lparr>as_ADCs = as, as_limits = lims, as_sensors = sensors\<rparr>))"

definition adc_send :: "limits \<Rightarrow> ADC_element \<Rightarrow> (string \<rightharpoonup> dbus_sensor) \<Rightarrow> (string \<rightharpoonup> dbus_sensor) res" where
  "adc_send lims a sensors =
     rbind (json_limits lims (adc_name a)) (\<lambda>l.
     rbind (of_opt Uninit_Read (V_current a)) (\<lambda>v. send_to (adc_name a) v l sensors))"

text \<open>The thresholds file is read again in each round.\<close>

definition adc_send_all_readings :: "limits \<Rightarrow> ADC_sensor \<Rightarrow> ADC_sensor res" where
  "adc_send_all_readings lims s =
     rbind (for_each (adc_send lims) (as_ADCs s) (as_sensors s)) (\<lambda>sensors.
       Inr (s\<lparr>as_limits := lims, as_sensors := sensors\<rparr>))"

definition adc_round :: "(string \<Rightarrow> string) \<Rightarrow> limits \<Rightarrow> ADC_sensor \<Rightarrow> ADC_sensor res" where
  "adc_round file lims s =
     rbind (adc_update_readings file (as_ADCs s)) (\<lambda>as. adc_send_all_readings lims (s\<lparr>as_ADCs := as\<rparr>))"

section \<open>Temperatures\<close>

text \<open>
  An entry of \<open>/sys/class/hwmon\<close>: path, whether it is a directory, and its entries with name,
  whether they are regular files, and the first line if they can be opened.
\<close>

record hwmon_entry =
  hw_path :: string
  hw_is_dir :: bool
  hw_files :: "(string \<times> bool \<times> string option) list"

definition isValidDirectory :: "hwmon_entry \<Rightarrow> bool" where
  "isValidDirectory d \<longleftrightarrow> hw_is_dir d \<and>
     list_ex (\<lambda>(n, regular, line). regular \<and> n = ''name'' \<and>
       (case line of None \<Rightarrow> False | Some l \<Rightarrow> filter (\<lambda>c. c \<noteq> newline \<and> c \<noteq> CHR 0x0D) l = ''tmp100'')) (hw_files d)"

definition explore_dir :: "hwmon_entry list \<Rightarrow> string list" where
  "explore_dir entries = map hw_path (filter isValidDirectory entries)"

record sensorElement =
  dirName :: string
  directory_path :: string
  reading_path :: string
  max_path :: string
  hyst_path :: string
  cur_reading :: "int option"
  temp1_max :: "int option"
  temp1_max_hyst :: "int option"

definition dir_name :: "string \<Rightarrow> string" where
  "dir_name d = (if CHR ''/'' \<in> set d then path_name d else d)"

definition new_element :: "string \<Rightarrow> sensorElement" where
  "new_element d =
     (let p = d @ ''/'' in
      \<lparr>dirName = dir_name d, directory_path = p, reading_path = p @ ''temp1_input'', max_path = p @ ''temp1_max'',
       hyst_path = p @ ''temp1_max_hyst'', cur_reading = None, temp1_max = None, temp1_max_hyst = None\<rparr>)"

text \<open>
  \<open>stream >> int\<close>: nothing is assigned at the end of the file, 0 where there is no number, and the
  nearest bound for a number out of range.
\<close>

definition extract_int :: "string \<Rightarrow> int option \<Rightarrow> int option" where
  "extract_int s old =
     (let t = dropWhile is_space s;
          (neg, u) = (case t of c # r \<Rightarrow> if c = CHR ''-'' then (True, r) else if c = CHR ''+'' then (False, r) else (False, t)
                      | [] \<Rightarrow> (False, []));
          ds = takeWhile is_digit u;
          v = (if neg then - digits_value ds else digits_value ds)
      in if t = [] then old else Some (max (- (2 ^ 31)) (min (2 ^ 31 - 1) v)))"

text \<open>\<open>get_file_conts\<close> reads into copies of the elements: only its return code is left of it.\<close>

definition get_file_conts :: "(string \<Rightarrow> string option) \<Rightarrow> sensorElement list \<Rightarrow> int \<times> sensorElement list" where
  "get_file_conts file items =
     (if list_all (\<lambda>s. file (max_path s) \<noteq> None \<and> file (hyst_path s) \<noteq> None) items then 0 else 1, items)"

text \<open>The first file that cannot be opened ends the round of readings.\<close>

fun update_reading :: "(string \<Rightarrow> string option) \<Rightarrow> sensorElement list \<Rightarrow> int \<times> sensorElement list" where
  "update_reading file [] = (0, [])"
| "update_reading file (s # ss) =
     (case file (reading_path s) of
        None \<Rightarrow> (1, s # ss)
      | Some c \<Rightarrow>
          (case update_reading file ss of (r, ss') \<Rightarrow> (r, s\<lparr>cur_reading := extract_int c (cur_reading s)\<rparr> # ss')))"

record Temp_Sensor =
  sensorItems :: "sensorElement list"
  tp_limits :: limits
  tp_sensors :: "string \<rightharpoonup> dbus_sensor"

definition expose_reading :: "string \<Rightarrow> Temp_Sensor \<Rightarrow> Temp_Sensor res" where
  "expose_reading name t =
     rbind (json_limits (tp_limits t) ''TempLimits'') (\<lambda>(lo, hi).
       Inr (t\<lparr>tp_sensors := (tp_sensors t)(name \<mapsto> new_sensor (-40) 80 lo hi)\<rparr>))"

definition Temp_Sensor_new :: "hwmon_entry list \<Rightarrow> (string \<Rightarrow> string option) \<Rightarrow> limits \<Rightarrow> Temp_Sensor res" where
  "Temp_Sensor_new entries file lims =
     (let items = snd (update_reading file (snd (get_file_conts file (map new_element (explore_dir entries))))) in
      for_each expose_reading (map dirName items) \<lparr>sensorItems = items, tp_limits = lims, tp_sensors = Map.empty\<rparr>)"

definition send_reading :: "limits \<Rightarrow> sensorElement \<Rightarrow> Temp_Sensor \<Rightarrow> Temp_Sensor res" where
  "send_reading lims s t =
     rbind (json_limits lims ''TempLimits'') (\<lambda>l.
     rbind (of_opt Uninit_Read (cur_reading s)) (\<lambda>r.
     rbind (send_to (dirName s) (of_int r / 1000) l (tp_sensors t)) (\<lambda>sensors.
       Inr (t\<lparr>tp_limits := lims, tp_sensors := sensors\<rparr>))))"

text \<open>The thresholds file is read again for each sensor.\<close>

definition send_all_readings :: "(string \<Rightarrow> limits) \<Rightarrow> Temp_Sensor \<Rightarrow> Temp_Sensor res" where
  "send_all_readings lims t = for_each (\<lambda>s. send_reading (lims (dirName s)) s) (sensorItems t) t"

definition temp_round :: "(string \<Rightarrow> string option) \<Rightarrow> (string \<Rightarrow> limits) \<Rightarrow> Temp_Sensor \<Rightarrow> Temp_Sensor res" where
  "temp_round file lims t = send_all_readings lims (t\<lparr>sensorItems := snd (update_reading file (sensorItems t))\<rparr>)"

section \<open>Health\<close>

text \<open>The loop of \<open>alarm_check\<close>: an exception ends it with what was found so far.\<close>

fun alarm_check_loop :: "alarm_env \<Rightarrow> bool \<Rightarrow> string list \<Rightarrow> bool" where
  "alarm_check_loop env active [] = active"
| "alarm_check_loop env active (p # ps) =
     (case al_low env p of
        None \<Rightarrow> active
      | Some True \<Rightarrow> alarm_check_loop env True ps
      | Some False \<Rightarrow>
          (case al_high env p of
             None \<Rightarrow> active
           | Some b \<Rightarrow> alarm_check_loop env (active \<or> b) ps))"

definition alarm_check :: "alarm_env \<Rightarrow> string list option \<Rightarrow> bool" where
  "alarm_check env paths = (case paths of None \<Rightarrow> False | Some ps \<Rightarrow> alarm_check_loop env False ps)"

definition health_status :: "alarm_env \<Rightarrow> string list option \<Rightarrow> byte" where
  "health_status env tachs =
     (let alarmactive = alarm_check env (al_temps env);
          alarmactive = alarm_check env tachs;
          alarmactive = alarm_check env (al_volts env)
      in if alarmactive then 0x02 else 0x01)"

text \<open>The voltage and the temperature state do not catch exceptions.\<close>

fun group_alarm :: "alarm_env \<Rightarrow> bool \<Rightarrow> string list \<Rightarrow> bool res" where
  "group_alarm env active [] = Inr active"
| "group_alarm env active (p # ps) =
     rbind (of_opt Dbus_Exception (al_low env p)) (\<lambda>lo.
       if lo then group_alarm env True ps
       else rbind (of_opt Dbus_Exception (al_high env p)) (\<lambda>hi. group_alarm env (active \<or> hi) ps))"

definition group_status :: "alarm_env \<Rightarrow> string list option \<Rightarrow> byte res" where
  "group_status env paths =
     rbind (of_opt Dbus_Exception paths) (\<lambda>ps.
     rbind (group_alarm env False ps) (\<lambda>b. Inr (if b then 0x02 else 0x01)))"

text \<open>The published object: \<open>None\<close> before it exists, \<open>Some None\<close> before a value is set.\<close>

record FRUHealthState =
  fh_sensor :: "byte option option"

definition health_expose_sensor :: "FRUHealthState \<Rightarrow> FRUHealthState" where
  "health_expose_sensor s = s\<lparr>fh_sensor := Some None\<rparr>"

definition update_interface :: "alarm_env \<Rightarrow> string list option \<Rightarrow> FRUHealthState \<Rightarrow> FRUHealthState res" where
  "update_interface env tachs s =
     (case fh_sensor s of None \<Rightarrow> Inl Null_Deref | Some _ \<Rightarrow> Inr (s\<lparr>fh_sensor := Some (Some (health_status env tachs))\<rparr>))"

text \<open>The program: the object is exposed and updated, then updated in every round.\<close>

definition health_main :: "(alarm_env \<times> string list option) list \<Rightarrow> FRUHealthState res" where
  "health_main es = for_each (\<lambda>(env, tachs). update_interface env tachs) es (health_expose_sensor \<lparr>fh_sensor = None\<rparr>)"

section \<open>Thresholds in flash\<close>

definition run_save_vars :: "string \<Rightarrow> string" where
  "run_save_vars thresholds = thresholds"

text \<open>The copying loop; \<open>lineo[0]\<close> of an empty line is the terminating null character.\<close>

fun copy_lines :: "int \<Rightarrow> int \<Rightarrow> string list \<Rightarrow> string list" where
  "copy_lines lim_lines line_count [] = []"
| "copy_lines lim_lines line_count (l # ls) =
     (if line_count < lim_lines then
        (if length l < 32 \<and> (l = [] \<or> hd l \<noteq> CHR ''}'') then l # copy_lines lim_lines (line_count + 1) ls else [])
      else [])"

text \<open>
  The counter \<open>lines_to_read\<close> is never initialised: \<open>garbage\<close> is the value it happens to have.
\<close>

definition run_read_vars :: "int \<Rightarrow> string \<Rightarrow> string \<Rightarrow> string res" where
  "run_read_vars garbage thresholds flash =
     rbind (int_range (garbage + int (length (getlines thresholds)))) (\<lambda>lines_to_read.
     rbind (if getlines flash = [] then Inr 0 else int_range (lines_to_read - 2)) (\<lambda>n.
       Inr (unlines (copy_lines n 0 (getlines flash)) @ ''}'' @ [newline])))"

text \<open>\<open>default\<close>: the defaults go to the flash and are read back; thresholds file and flash afterwards.\<close>

definition run_set_defaults :: "int \<Rightarrow> string \<Rightarrow> string \<Rightarrow> string \<Rightarrow> (string \<times> string) res" where
  "run_set_defaults garbage defaults thresholds rest =
     (let flash = run_save_vars defaults @ rest in
      rbind (run_read_vars garbage thresholds flash) (\<lambda>t. Inr (t, flash)))"

text \<open>The program: arguments, defaults, thresholds file, flash, and what a shorter copy leaves behind it.\<close>

definition memory_main :: "int \<Rightarrow> string list \<Rightarrow> string \<Rightarrow> string \<times> string \<Rightarrow> string \<Rightarrow> (string \<times> string) res" where
  "memory_main garbage args defaults st rest =
     (if length args \<le> 1 then Inr st
      else if args ! 1 = ''save'' then Inr (fst st, run_save_vars (fst st) @ rest)
      else if args ! 1 = ''load'' then rbind (run_read_vars garbage (fst st) (snd st)) (\<lambda>t. Inr (t, snd st))
      else if args ! 1 = ''default'' then run_set_defaults garbage defaults (fst st) rest
      else Inr st)"

section \<open>The command line interface\<close>

text \<open>\<open>std::stod\<close> on decimal numbers; hexadecimal, infinity and not-a-number are left out.\<close>

definition stod :: "string \<Rightarrow> real res" where
  "stod s =
     (let t = dropWhile is_space s;
          (neg, u) = (case t of c # r \<Rightarrow> if c = CHR ''-'' then (True, r) else if c = CHR ''+'' then (False, r) else (False, t)
                      | [] \<Rightarrow> (False, []));
          ds = takeWhile is_digit u; u1 = dropWhile is_digit u;
          (fs, u2) = (case u1 of c # r \<Rightarrow> if c = CHR ''.'' then (takeWhile is_digit r, dropWhile is_digit r) else ([], u1)
                      | [] \<Rightarrow> ([], []));
          v = of_int (digits_value (ds @ fs)) / 10 ^ length fs;
          (eneg, es) = (case u2 of c # r \<Rightarrow> if c = CHR ''e'' \<or> c = CHR ''E''
                          then (case r of d # r' \<Rightarrow> if d = CHR ''-'' then (True, takeWhile is_digit r')
                                                    else if d = CHR ''+'' then (False, takeWhile is_digit r')
                                                    else (False, takeWhile is_digit r)
                                | [] \<Rightarrow> (False, []))
                          else (False, [])
                        | [] \<Rightarrow> (False, []));
          e = nat (digits_value es);
          w = (if eneg then v / 10 ^ e else v * 10 ^ e)
      in if ds @ fs = [] then Inl Invalid_Argument else Inr (if neg then - w else w))"

definition tolower :: "char \<Rightarrow> char" where
  "tolower c = (let n = of_char c :: nat in if 65 \<le> n \<and> n \<le> 90 then char_of (n + 32) else c)"

text \<open>The D-Bus objects as the tool sees them: paths below a stub, properties, and whether a write succeeds.\<close>

record cli_env =
  ce_paths :: "string \<Rightarrow> string list option"
  ce_double :: "string \<Rightarrow> string \<Rightarrow> real option"
  ce_bool :: "string \<Rightarrow> string \<Rightarrow> bool option"
  ce_set :: "string \<Rightarrow> string \<Rightarrow> bool"

datatype cli_output =
    Percentage string real
  | Reading string real string
  | Thresholds string real bool real bool
  | Message string
  | Set_Property string string real

definition temperature_stub :: string where "temperature_stub = ''/xyz/openbmc_project/sensors/temperature''"
definition voltage_stub :: string where "voltage_stub = ''/xyz/openbmc_project/sensors/voltage''"
definition tach_stub :: string where "tach_stub = ''/xyz/openbmc_project/sensors/fan_tach''"
definition pwm_stub :: string where "pwm_stub = ''/xyz/openbmc_project/sensors/fan_pwm''"

text \<open>A name that is taken from the path if it has a slash, and otherwise stays as it was.\<close>

definition name_of_path :: "string \<Rightarrow> string \<Rightarrow> string" where
  "name_of_path prev path = (if CHR ''/'' \<in> set path then path_name path else prev)"

definition threshold_row :: "cli_env \<Rightarrow> string \<Rightarrow> string \<Rightarrow> cli_output res" where
  "threshold_row env name path =
     rbind (of_opt Dbus_Exception (ce_double env path ''CriticalLow'')) (\<lambda>lo.
     rbind (of_opt Dbus_Exception (ce_bool env path ''CriticalAlarmLow'')) (\<lambda>alo.
     rbind (of_opt Dbus_Exception (ce_double env path ''CriticalHigh'')) (\<lambda>hi.
     rbind (of_opt Dbus_Exception (ce_bool env path ''CriticalAlarmHigh'')) (\<lambda>ahi.
       Inr (Thresholds name lo alo hi ahi)))))"

definition reading_row :: "cli_env \<Rightarrow> string \<Rightarrow> string \<Rightarrow> string \<Rightarrow> cli_output list res" where
  "reading_row env unit_name name path =
     rbind (of_opt Dbus_Exception (ce_double env path ''Value'')) (\<lambda>v.
     rbind (threshold_row env name path) (\<lambda>row. Inr [Reading name v unit_name, row]))"

definition percentage_row :: "cli_env \<Rightarrow> string \<Rightarrow> string \<Rightarrow> cli_output list res" where
  "percentage_row env name path =
     rbind (of_opt Dbus_Exception (ce_double env path ''Value'')) (\<lambda>v. Inr [Percentage name v])"

text \<open>
  A loop over paths that prints a row each: what was printed, the last name, and the exception that
  ended it. With \<open>keep\<close> the name lives outside the loop.
\<close>

fun print_rows ::
  "bool \<Rightarrow> (string \<Rightarrow> string \<Rightarrow> cli_output list res) \<Rightarrow> string \<Rightarrow> string list \<Rightarrow> cli_output list \<times> string \<times> unit res" where
  "print_rows keep row prev [] = ([], prev, Inr ())"
| "print_rows keep row prev (p # ps) =
     (let name = name_of_path (if keep then prev else []) p in
      case row name p of
        Inl e \<Rightarrow> ([], name, Inl e)
      | Inr r \<Rightarrow> (case print_rows keep row name ps of (rs, n, st) \<Rightarrow> (r @ rs, n, st)))"

definition print_group ::
  "cli_env \<Rightarrow> bool \<Rightarrow> (string \<Rightarrow> string \<Rightarrow> cli_output list res) \<Rightarrow> string \<Rightarrow> string \<Rightarrow> cli_output list \<times> string \<times> unit res" where
  "print_group env keep row prev stub =
     (case ce_paths env stub of None \<Rightarrow> ([], prev, Inl Dbus_Exception) | Some ps \<Rightarrow> print_rows keep row prev ps)"

text \<open>Output followed by more output, unless an exception ended it.\<close>

definition out_then :: "cli_output list \<times> unit res \<Rightarrow> cli_output list \<times> unit res \<Rightarrow> cli_output list \<times> unit res" where
  "out_then a b = (case a of (o1, Inl e) \<Rightarrow> (o1, Inl e) | (o1, Inr _) \<Rightarrow> (o1 @ fst b, snd b))"

definition say :: "string \<Rightarrow> cli_output list \<times> unit res" where
  "say s = ([Message s], Inr ())"

definition rule_line :: string where "rule_line = replicate 92 (CHR ''_'')"

definition display_fans :: "cli_env \<Rightarrow> cli_output list \<times> unit res" where
  "display_fans env =
     out_then (say rule_line)
       (case print_group env True (percentage_row env) [] pwm_stub of (o1, name, r1) \<Rightarrow>
          out_then (o1, r1)
            (case print_group env True (reading_row env ''RPM'') name tach_stub of (o2, _, r2) \<Rightarrow>
               out_then (o2, r2) (say rule_line)))"

definition display_group :: "cli_env \<Rightarrow> string \<Rightarrow> string \<Rightarrow> cli_output list \<times> unit res" where
  "display_group env unit_name stub =
     out_then (say rule_line)
       (case print_group env False (reading_row env unit_name) [] stub of (o1, _, r1) \<Rightarrow> out_then (o1, r1) (say rule_line))"

definition display_temps :: "cli_env \<Rightarrow> cli_output list \<times> unit res" where
  "display_temps env = display_group env ''C'' temperature_stub"

definition display_ADC :: "cli_env \<Rightarrow> cli_output list \<times> unit res" where
  "display_ADC env = display_group env ''V'' voltage_stub"

definition alarm_group :: "cli_env \<Rightarrow> string \<Rightarrow> string \<Rightarrow> cli_output list \<times> unit res" where
  "alarm_group env title stub =
     out_then (say title)
       (case print_group env False (\<lambda>name path. rbind (threshold_row env name path) (\<lambda>row. Inr [row])) [] stub of
          (o1, _, r1) \<Rightarrow> (o1, r1))"

definition display_alarms :: "cli_env \<Rightarrow> cli_output list \<times> unit res" where
  "display_alarms env =
     out_then (alarm_group env ''Temperatures'' temperature_stub)
       (out_then (alarm_group env ''Voltages'' voltage_stub) (alarm_group env ''Fans'' tach_stub))"

definition display_all :: "cli_env \<Rightarrow> cli_output list \<times> unit res" where
  "display_all env =
     out_then (say ''_FANS_'') (out_then (display_fans env)
       (out_then (say ''_TEMPERATURES_'') (out_then (display_temps env)
         (out_then (say ''_VOLTAGES_'') (out_then (display_ADC env)
           (out_then (say ''_ALARMS_'') (display_alarms env)))))))"

text \<open>\<open>j[key][which] = v\<close> on the thresholds file.\<close>

definition set_limit :: "string \<Rightarrow> string \<Rightarrow> real \<Rightarrow> limits \<Rightarrow> limits" where
  "set_limit key which v lims = lims(key := (lims key)(which := Some v))"

text \<open>
  The loop over the objects of one type: output, the document as changed so far, and the exception
  that ended it. The key under which the limit is stored, if it is stored at all, depends on the type.
\<close>

fun set_loop ::
  "cli_env \<Rightarrow> string \<Rightarrow> string \<Rightarrow> real \<Rightarrow> string option \<Rightarrow> string \<Rightarrow> string list \<Rightarrow> limits \<Rightarrow> cli_output list \<times> limits \<times> unit res" where
  "set_loop env item hl v key prev [] j = ([], j, Inr ())"
| "set_loop env item hl v key prev (p # ps) j =
     (let name = name_of_path prev p in
      if name = item then
        (if hl = ''high'' \<or> hl = ''low'' then
           let prop_name = (if hl = ''high'' then ''CriticalHigh'' else ''CriticalLow'');
               j' = (case key of None \<Rightarrow> j | Some k \<Rightarrow> set_limit k (if hl = ''high'' then ''max'' else ''min'') v j)
           in if ce_set env p prop_name
              then (case set_loop env item hl v key name ps j' of (os, j'', r) \<Rightarrow>
                      (Message ''setting'' # Set_Property p prop_name v # os, j'', r))
              else ([Message ''setting''], j, Inl Dbus_Exception)
         else (case set_loop env item hl v key name ps j of (os, j', r) \<Rightarrow>
                 (Message ''argument must be High or Low'' # os, j', r)))
      else set_loop env item hl v key name ps j)"

definition set_type :: "string \<Rightarrow> string \<Rightarrow> (string \<times> string option) option" where
  "set_type typ item =
     (if typ = ''fan'' \<or> typ = ''fans'' then Some (tach_stub, None)
      else if typ = ''voltage'' then Some (voltage_stub, Some item)
      else if typ = ''temperature'' then Some (temperature_stub, Some ''TempLimits'')
      else None)"

text \<open>The document is written back at the end, also when nothing changed, but not after an exception.\<close>

definition set_threshold ::
  "cli_env \<Rightarrow> string \<Rightarrow> string \<Rightarrow> string \<Rightarrow> real \<Rightarrow> limits option \<Rightarrow> cli_output list \<times> limits option \<times> unit res" where
  "set_threshold env typ item highorlow v file =
     (case file of
        None \<Rightarrow> ([], file, Inl Json_Exception)
      | Some j \<Rightarrow>
          (case set_type (map tolower typ) item of
             None \<Rightarrow> ([Message ''Unknown type''], Some j, Inr ())
           | Some (stub, key) \<Rightarrow>
               (case ce_paths env stub of
                  None \<Rightarrow> ([Message ''set called''], file, Inl Dbus_Exception)
                | Some ps \<Rightarrow>
                    (case set_loop env item (map tolower highorlow) v key [] ps j of
                       (os, j', Inr _) \<Rightarrow> (Message ''set called'' # os, Some j', Inr ())
                     | (os, j', Inl e) \<Rightarrow> (Message ''set called'' # os, file, Inl e)))))"

text \<open>
  \<open>process_argument\<close> with \<open>nargs\<close> one less than the number of arguments, as \<open>main\<close> calls it: with
  more than one argument only \<open>set\<close> does anything.
\<close>

definition cli_process_argument ::
  "cli_env \<Rightarrow> nat \<Rightarrow> string list \<Rightarrow> limits option \<Rightarrow> cli_output list \<times> limits option \<times> unit res" where
  "cli_process_argument env nargs args file =
     (if nargs > 1 then
        (if args ! 1 = ''set'' then
           (if nargs = 5 then
              (case stod (args ! 5) of
                 Inl e \<Rightarrow> ([], file, Inl e)
               | Inr v \<Rightarrow> set_threshold env (args ! 2) (args ! 3) (args ! 4) v file)
            else ([Message ''Incorrect number of arguments for set command''], file, Inr ()))
         else ([], file, Inr ()))
      else
        let arg = map tolower (args ! 1);
            show = (\<lambda>(os, r). (os, file, r))
        in if arg = ''temperature'' \<or> arg = ''temperatures'' then show (display_temps env)
           else if arg = ''voltage'' \<or> arg = ''voltages'' then show (display_ADC env)
           else if arg = ''fan'' \<or> arg = ''fans'' then show (display_fans env)
           else if arg = ''all'' then show (display_all env)
           else if arg = ''alarm'' \<or> arg = ''alarms'' then show (display_alarms env)
           else if arg = ''set'' then ([Message ''more arguments required for the set command''], file, Inr ())
           else ([Message ''unrecognized command''], file, Inr ()))"

definition cli_main :: "cli_env \<Rightarrow> string list \<Rightarrow> limits option \<Rightarrow> cli_output list \<times> limits option \<times> unit res" where
  "cli_main env args file =
     (if length args > 1 then cli_process_argument env (length args - 1) args file
      else (map Message
        [''Available commands are:'', ''temperature: display all temperatures and threshold statuses'',
         ''fans: display all fans and threshold statuses'', ''voltage: display all voltage readings and threshold statuses'',
         ''alarms: display all alarm statuses and their thresholds'', ''all: display all available information'',
         ''set: set the thresholds for the alarms''], file, Inr ()))"

section \<open>Publishing a list of readings\<close>

text \<open>What a sensor shows after a value was sent with its limits.\<close>

definition shows_value :: "dbus_sensor \<Rightarrow> real \<Rightarrow> real \<Rightarrow> real \<Rightarrow> bool" where
  "shows_value d v lo hi \<longleftrightarrow> sn_value d = v \<and> sn_criticalLow d = lo \<and> sn_criticalHigh d = hi \<and>
     (sn_alarmLow d \<longleftrightarrow> v < lo) \<and> (sn_alarmHigh d \<longleftrightarrow> v > hi)"

lemma shows_send_value: "shows_value (send_value v l d) v (fst l) (snd l)"
  by (simp add: shows_value_def send_value_def)

text \<open>
  The contract of the two daemons' loops: an element that is ready and has an object is sent to
  this object, and nothing else changes.
\<close>

locale publisher =
  fixes send :: "'e \<Rightarrow> 's \<Rightarrow> 's res"
    and key :: "'e \<Rightarrow> string"
    and sensors :: "'s \<Rightarrow> string \<rightharpoonup> dbus_sensor"
    and ready :: "'e \<Rightarrow> bool"
    and reading :: "'e \<Rightarrow> real"
    and lim_of :: "'e \<Rightarrow> real \<times> real"
  assumes send_ready: "ready e \<Longrightarrow> sensors s (key e) = Some d \<Longrightarrow>
    \<exists>s'. send e s = Inr s' \<and> sensors s' = (sensors s)(key e \<mapsto> send_value (reading e) (lim_of e) d)"
begin

lemma all_published:
  assumes "\<forall>e\<in>set es. ready e \<and> key e \<in> dom (sensors s)" "distinct (map key es)"
  shows "\<exists>s'. for_each send es s = Inr s' \<and> dom (sensors s') = dom (sensors s) \<and>
    (\<forall>e\<in>set es. \<exists>d. sensors s' (key e) = Some d \<and> shows_value d (reading e) (fst (lim_of e)) (snd (lim_of e))) \<and>
    (\<forall>n. n \<notin> key ` set es \<longrightarrow> sensors s' n = sensors s n)"
  using assms
proof (induction es arbitrary: s)
  case (Cons e es)
  then obtain d where "ready e" "sensors s (key e) = Some d" by auto
  from send_ready [OF this] obtain s1 where
    s1: "send e s = Inr s1" "sensors s1 = (sensors s)(key e \<mapsto> send_value (reading e) (lim_of e) d)" by blast
  have dom1: "dom (sensors s1) = dom (sensors s)" using s1(2) \<open>sensors s (key e) = Some d\<close> by auto
  then have "\<forall>e\<in>set es. ready e \<and> key e \<in> dom (sensors s1)" using Cons.prems by simp
  from Cons.IH [OF this] Cons.prems(2) obtain s' where s': "for_each send es s1 = Inr s'" "dom (sensors s') = dom (sensors s1)"
    "\<forall>e\<in>set es. \<exists>d. sensors s' (key e) = Some d \<and> shows_value d (reading e) (fst (lim_of e)) (snd (lim_of e))"
    "\<forall>n. n \<notin> key ` set es \<longrightarrow> sensors s' n = sensors s1 n" by auto
  have "sensors s' (key e) = Some (send_value (reading e) (lim_of e) d)"
    using s'(4) s1(2) Cons.prems(2) by simp
  then have "\<forall>x\<in>set (e # es). \<exists>d. sensors s' (key x) = Some d \<and> shows_value d (reading x) (fst (lim_of x)) (snd (lim_of x))"
    using s'(3) shows_send_value by auto
  moreover have "\<forall>n. n \<notin> key ` set (e # es) \<longrightarrow> sensors s' n = sensors s n" using s'(4) s1(2) by simp
  ultimately show ?case using s1(1) s'(1,2) dom1 by (intro exI [of _ s']) simp
qed simp

end

definition adc_ready :: "limits \<Rightarrow> ADC_element \<Rightarrow> bool" where
  "adc_ready lims a \<longleftrightarrow> V_current a \<noteq> None \<and> lims (adc_name a) ''min'' \<noteq> None \<and> lims (adc_name a) ''max'' \<noteq> None"

definition pair_of :: "limits \<Rightarrow> string \<Rightarrow> real \<times> real" where
  "pair_of lims key = (the (lims key ''min''), the (lims key ''max''))"

interpretation adc_publisher:
  publisher "adc_send lims" adc_name "\<lambda>m. m" "adc_ready lims" "\<lambda>a. the (V_current a)" "\<lambda>a. pair_of lims (adc_name a)" for lims
  by unfold_locales (auto simp: adc_ready_def adc_send_def json_limits_def send_to_def pair_of_def)

definition temp_ready :: "(string \<Rightarrow> limits) \<Rightarrow> sensorElement \<Rightarrow> bool" where
  "temp_ready lims s \<longleftrightarrow> cur_reading s \<noteq> None \<and> lims (dirName s) ''TempLimits'' ''min'' \<noteq> None \<and>
     lims (dirName s) ''TempLimits'' ''max'' \<noteq> None"

interpretation temp_publisher:
  publisher "\<lambda>s. send_reading (lims (dirName s)) s" dirName tp_sensors "temp_ready lims"
    "\<lambda>s. of_int (the (cur_reading s)) / 1000" "\<lambda>s. pair_of (lims (dirName s)) ''TempLimits''" for lims
  by unfold_locales (auto simp: temp_ready_def send_reading_def json_limits_def send_to_def pair_of_def)

section \<open>The voltage daemon\<close>

text \<open>What no round changes of a rail.\<close>

definition rail_static :: "ADC_element \<Rightarrow> string \<times> string \<times> real option" where
  "rail_static a = (adc_name a, adc_path a, scale_coeff a)"

lemma adc_update_readings_static:
  "adc_update_readings file as = Inr as' \<Longrightarrow> map rail_static as' = map rail_static as"
  by (induction as arbitrary: as') (auto simp: rail_static_def elim!: rbind_InrE)

lemma adc_update_readings_total:
  assumes "\<forall>a\<in>set as. scale_coeff a \<noteq> None \<and> stoi (file (adc_path a)) = Inr (raw (adc_path a))"
  shows "adc_update_readings file as =
    Inr (map (\<lambda>a. a\<lparr>raw_reading := Some (raw (adc_path a)), V_current := Some (the (scale_coeff a) * of_int (raw (adc_path a)))\<rparr>) as)"
  using assms by (induction as) auto

lemma send_to_dom: "send_to n v l sensors = Inr sensors' \<Longrightarrow> dom sensors' = dom sensors"
  by (auto simp: send_to_def split: option.splits if_splits)

lemma adc_send_dom: "adc_send lims a sensors = Inr sensors' \<Longrightarrow> dom sensors' = dom sensors"
  by (auto simp: adc_send_def dest!: send_to_dom elim!: rbind_InrE)

lemma adc_send_loop_dom: "for_each (adc_send lims) as sensors = Inr sensors' \<Longrightarrow> dom sensors' = dom sensors"
proof (induction as arbitrary: sensors)
  case (Cons a as)
  then obtain sensors1 where "adc_send lims a sensors = Inr sensors1" "for_each (adc_send lims) as sensors1 = Inr sensors'"
    by (auto elim!: rbind_InrE)
  with Cons.IH [of sensors1] adc_send_dom show ?case by metis
qed simp

lemma adc_expose_dom1: "adc_expose lims a sensors = Inr sensors' \<Longrightarrow> dom sensors' = insert (adc_name a) (dom sensors)"
  by (auto simp: adc_expose_def elim!: rbind_InrE split: if_splits)

lemma adc_expose_dom:
  "for_each (adc_expose lims) as sensors = Inr sensors' \<Longrightarrow> dom sensors' = dom sensors \<union> adc_name ` set as"
proof (induction as arbitrary: sensors)
  case (Cons a as)
  then obtain sensors1 where one: "adc_expose lims a sensors = Inr sensors1"
    and rest: "for_each (adc_expose lims) as sensors1 = Inr sensors'"
    by (auto elim!: rbind_InrE)
  show ?case using Cons.IH [OF rest] adc_expose_dom1 [OF one] by simp
qed simp

definition adc_inv :: "ADC_sensor \<Rightarrow> bool" where
  "adc_inv s \<longleftrightarrow> map rail_static (as_ADCs s) = map rail_static (calculate_cs rails) \<and>
     adc_name ` set (calculate_cs rails) \<subseteq> dom (as_sensors s)"

inductive adc_step :: "ADC_sensor \<Rightarrow> ADC_sensor \<Rightarrow> bool" where
  round: "adc_round file lims s = Inr s' \<Longrightarrow> adc_step s s'"

lemma adc_inv_new:
  assumes "ADC_sensor_new file lims = Inr s"
  shows "adc_inv s"
proof -
  obtain as sensors where as: "adc_update_readings file (calculate_cs rails) = Inr as"
    and sensors: "for_each (adc_expose lims) as Map.empty = Inr sensors"
    and s: "s = \<lparr>as_ADCs = as, as_limits = lims, as_sensors = sensors\<rparr>"
    using assms by (auto simp: ADC_sensor_new_def elim!: rbind_InrE)
  have st: "map rail_static as = map rail_static (calculate_cs rails)" by (rule adc_update_readings_static [OF as])
  then have "map fst (map rail_static as) = map fst (map rail_static (calculate_cs rails))" by simp
  then have "map adc_name as = map adc_name (calculate_cs rails)" by (simp add: rail_static_def comp_def)
  then have "adc_name ` set as = adc_name ` set (calculate_cs rails)" by (metis set_map)
  with st adc_expose_dom [OF sensors] show ?thesis by (simp add: adc_inv_def s)
qed

lemma adc_inv_round:
  assumes "adc_round file lims s = Inr s'" "adc_inv s"
  shows "adc_inv s'"
proof -
  obtain as sensors where "adc_update_readings file (as_ADCs s) = Inr as" "for_each (adc_send lims) as (as_sensors s) = Inr sensors"
    "s' = s\<lparr>as_ADCs := as, as_limits := lims, as_sensors := sensors\<rparr>"
    using assms(1) by (auto simp: adc_round_def adc_send_all_readings_def elim!: rbind_InrE)
  with assms(2) adc_update_readings_static adc_send_loop_dom show ?thesis by (fastforce simp: adc_inv_def)
qed

interpretation adc_machine: invariant_system "\<lambda>s. \<exists>file lims. ADC_sensor_new file lims = Inr s" adc_step adc_inv
  by unfold_locales (auto elim!: adc_step.cases intro: adc_inv_new adc_inv_round)

lemma rails_distinct: "distinct (map adc_name (calculate_cs rails))"
  by (simp add: calculate_cs_def rails_def ADC_new_def)

lemma static_member:
  assumes "map rail_static as = map rail_static bs" "b \<in> set bs"
  obtains a where "a \<in> set as" "rail_static a = rail_static b"
proof -
  have "rail_static b \<in> rail_static ` set as" using assms by (metis image_eqI set_map)
  with that show ?thesis by auto
qed

lemma static_names: "map rail_static as = map rail_static bs \<Longrightarrow> map adc_name as = map adc_name bs"
proof -
  assume "map rail_static as = map rail_static bs"
  then have "map fst (map rail_static as) = map fst (map rail_static bs)" by simp
  then show ?thesis by (simp add: rail_static_def comp_def)
qed

lemma calculated_rail:
  "a \<in> set (calculate_cs rails) \<longleftrightarrow> (\<exists>r\<in>set rails. a = r\<lparr>scale_coeff := Some (V_target r / 2047)\<rparr>)"
  by (auto simp: calculate_cs_def)

text \<open>
  In every state the voltage daemon can reach, a round with readable rails and complete limits
  runs without fault, and afterwards every rail is published with the voltage just measured and
  the limits of the file, with the high alarm exactly above the upper limit and the low alarm
  exactly below the lower limit.
\<close>

lemma adc_round_publishes:
  assumes "ADC_sensor_new file0 lims0 = Inr s0" "adc_step\<^sup>*\<^sup>* s0 s"
    and "\<forall>r\<in>set rails. stoi (file (adc_path r)) = Inr (raw (adc_path r)) \<and>
      lims (adc_name r) ''min'' = Some (lo (adc_name r)) \<and> lims (adc_name r) ''max'' = Some (hi (adc_name r))"
  shows "\<exists>s'. adc_round file lims s = Inr s' \<and> (\<forall>r\<in>set rails. \<exists>d. as_sensors s' (adc_name r) = Some d \<and>
    shows_value d (V_target r / 2047 * of_int (raw (adc_path r))) (lo (adc_name r)) (hi (adc_name r)))"
proof -
  let ?new = "\<lambda>a. a\<lparr>raw_reading := Some (raw (adc_path a)), V_current := Some (the (scale_coeff a) * of_int (raw (adc_path a)))\<rparr>"
  have inv: "adc_inv s" using adc_machine.inv_reachable assms(1,2) by blast
  then have st: "map rail_static (as_ADCs s) = map rail_static (calculate_cs rails)" by (simp add: adc_inv_def)
  have member: "\<exists>r\<in>set rails. adc_name a = adc_name r \<and> adc_path a = adc_path r \<and> scale_coeff a = Some (V_target r / 2047)"
    if a: "a \<in> set (as_ADCs s)" for a
  proof -
    obtain b where "b \<in> set (calculate_cs rails)" "rail_static b = rail_static a"
      using static_member [OF st [symmetric] a] .
    then show ?thesis by (auto simp: calculated_rail rail_static_def) (metis (no_types))
  qed
  then have "\<forall>a\<in>set (as_ADCs s). scale_coeff a \<noteq> None \<and> stoi (file (adc_path a)) = Inr (raw (adc_path a))"
    using assms(3) by fastforce
  note upd = adc_update_readings_total [OF this]
  have "adc_name ` set (as_ADCs s) \<subseteq> dom (as_sensors s)"
    using inv static_names [OF st] unfolding adc_inv_def by (metis set_map)
  moreover have "adc_ready lims (?new a)" if "a \<in> set (as_ADCs s)" for a
    using member [OF that] assms(3) by (auto simp: adc_ready_def)
  ultimately have "\<forall>a\<in>set (map ?new (as_ADCs s)). adc_ready lims a \<and> adc_name a \<in> dom (as_sensors s)"
    by auto
  moreover have "distinct (map adc_name (map ?new (as_ADCs s)))"
    using rails_distinct static_names [OF st] by (simp add: comp_def)
  ultimately obtain sensors where sensors: "for_each (adc_send lims) (map ?new (as_ADCs s)) (as_sensors s) = Inr sensors"
    "\<forall>a\<in>set (map ?new (as_ADCs s)). \<exists>d. sensors (adc_name a) = Some d \<and>
      shows_value d (the (V_current a)) (fst (pair_of lims (adc_name a))) (snd (pair_of lims (adc_name a)))"
    using adc_publisher.all_published [of "map ?new (as_ADCs s)" lims "as_sensors s"] by blast
  have "\<exists>d. sensors (adc_name r) = Some d \<and>
      shows_value d (V_target r / 2047 * of_int (raw (adc_path r))) (lo (adc_name r)) (hi (adc_name r))"
    if "r \<in> set rails" for r
  proof -
    from that have "r\<lparr>scale_coeff := Some (V_target r / 2047)\<rparr> \<in> set (calculate_cs rails)" by (auto simp: calculated_rail)
    from static_member [OF st this] obtain a where "a \<in> set (as_ADCs s)" "adc_name a = adc_name r"
      "adc_path a = adc_path r" "scale_coeff a = Some (V_target r / 2047)" by (auto simp: rail_static_def)
    with sensors(2) assms(3) that show ?thesis by (fastforce simp: pair_of_def)
  qed
  with upd sensors(1) show ?thesis
    by (simp add: adc_round_def adc_send_all_readings_def)
qed

lemma adc_expose_total:
  "\<forall>a\<in>set as. lims (adc_name a) ''min'' \<noteq> None \<and> lims (adc_name a) ''max'' \<noteq> None \<Longrightarrow>
   \<exists>sensors'. for_each (adc_expose lims) as sensors = Inr sensors'"
  by (induction as arbitrary: sensors) (auto simp: adc_expose_def json_limits_def)

definition example_lims :: limits where
  "example_lims key which = (if which = ''min'' then Some 5 else if which = ''max'' then Some 20 else None)"

definition example_volts :: "string \<Rightarrow> string" where
  "example_volts path = ''1000''"

lemma stoi_1000: "stoi ''1000'' = Inr 1000"
  by (simp add: stoi_def is_space_def is_digit_def digits_value_def digit_of_def of_char_def)

lemma example_adc: "\<exists>s. ADC_sensor_new example_volts example_lims = Inr s"
proof -
  have "\<forall>a\<in>set (calculate_cs rails). scale_coeff a \<noteq> None \<and> stoi (example_volts (adc_path a)) = Inr ((\<lambda>_. 1000) (adc_path a))"
    by (simp add: calculate_cs_def example_volts_def stoi_1000 del: not_None_eq)
  note upd = adc_update_readings_total [OF this]
  have "\<exists>sensors'. for_each (adc_expose example_lims) as Map.empty = Inr sensors'" for as
    by (rule adc_expose_total) (simp add: example_lims_def)
  then show ?thesis by (simp add: ADC_sensor_new_def upd rbind_Inr_iff)
qed

section \<open>The temperature daemon\<close>

lemma update_reading_split:
  assumes "\<forall>x\<in>set pre. file (reading_path x) \<noteq> None" "post = [] \<or> file (reading_path (hd post)) = None"
  shows "snd (update_reading file (pre @ post)) =
    map (\<lambda>x. x\<lparr>cur_reading := extract_int (the (file (reading_path x))) (cur_reading x)\<rparr>) pre @ post"
  using assms(1)
proof (induction pre)
  case Nil
  then show ?case using assms(2) by (cases post) auto
qed (auto split: prod.splits)

lemma extract_int_keeps: "old \<noteq> None \<Longrightarrow> extract_int c old \<noteq> None"
  by (auto simp: extract_int_def Let_def split: prod.splits)

text \<open>
  A temperature sensor that cannot be opened stops the readings behind it: the sensors before it
  are published with the value just read, those from it on with the value of some earlier round,
  and their alarms are computed from this stale value.
\<close>

theorem unreadable_sensor_freezes_later_ones:
  assumes "sensorItems t = pre @ post" "\<forall>x\<in>set pre. file (reading_path x) \<noteq> None"
    and "post = [] \<or> file (reading_path (hd post)) = None" "distinct (map dirName (sensorItems t))"
    and "\<forall>x\<in>set (sensorItems t). cur_reading x \<noteq> None \<and> tp_sensors t (dirName x) \<noteq> None"
    and "\<forall>n. lims n ''TempLimits'' ''min'' = Some lo \<and> lims n ''TempLimits'' ''max'' = Some hi"
  shows "\<exists>t'. temp_round file lims t = Inr t' \<and>
    (\<forall>x\<in>set pre. \<exists>d. tp_sensors t' (dirName x) = Some d \<and>
      shows_value d (of_int (the (extract_int (the (file (reading_path x))) (cur_reading x))) / 1000) lo hi) \<and>
    (\<forall>x\<in>set post. \<exists>d. tp_sensors t' (dirName x) = Some d \<and> shows_value d (of_int (the (cur_reading x)) / 1000) lo hi)"
proof -
  let ?fresh = "\<lambda>x. x\<lparr>cur_reading := extract_int (the (file (reading_path x))) (cur_reading x)\<rparr>"
  let ?t = "t\<lparr>sensorItems := map ?fresh pre @ post\<rparr>"
  have round: "temp_round file lims t = for_each (\<lambda>s. send_reading (lims (dirName s)) s) (map ?fresh pre @ post) ?t"
    by (simp add: temp_round_def send_all_readings_def assms(1) update_reading_split [OF assms(2,3)])
  have ready: "\<forall>x\<in>set (map ?fresh pre @ post). temp_ready lims x \<and> dirName x \<in> dom (tp_sensors ?t)"
    using assms(1,5,6) extract_int_keeps by (auto simp: temp_ready_def domIff)
  have "distinct (map dirName (map ?fresh pre @ post))" using assms(1,4) by (simp add: comp_def)
  from temp_publisher.all_published [OF ready this] assms(6) show ?thesis
    unfolding round by (auto simp: pair_of_def ball_Un)
qed

definition example_temps :: Temp_Sensor where
  "example_temps = \<lparr>sensorItems = [(new_element ''/sys/class/hwmon/hwmon0'')\<lparr>cur_reading := Some 25000\<rparr>,
       (new_element ''/sys/class/hwmon/hwmon1'')\<lparr>cur_reading := Some 26000\<rparr>],
     tp_limits = example_lims, tp_sensors = [''hwmon0'' \<mapsto> new_sensor (-40) 80 5 20, ''hwmon1'' \<mapsto> new_sensor (-40) 80 5 20]\<rparr>"

lemma example_names: "dirName (new_element ''/sys/class/hwmon/hwmon0'') = ''hwmon0''" "dirName (new_element ''/sys/class/hwmon/hwmon1'') = ''hwmon1''"
  by (simp_all add: new_element_def dir_name_def path_name_def Let_def)

section \<open>The health sensor\<close>

lemma alarm_check_quiet:
  "\<forall>p\<in>set ps. al_low env p = Some False \<and> al_high env p = Some False \<Longrightarrow> alarm_check_loop env active ps = active"
  by (induction ps arbitrary: active) auto

text \<open>
  The health sensor reports the voltages only: as long as no voltage alarm is active it says
  healthy, whatever alarms the temperature sensors and the fans have.
\<close>

theorem health_sees_only_voltages:
  assumes "al_volts env = Some vs" "\<forall>p\<in>set vs. al_low env p = Some False \<and> al_high env p = Some False"
    and "health_main (es @ [(env, tachs)]) = Inr s"
  shows "fh_sensor s = Some (Some 0x01)"
proof -
  obtain s1 where "update_interface env tachs s1 = Inr s"
    using assms(3) by (auto simp: health_main_def for_each_snoc rbind_Inr_iff)
  moreover have "health_status env tachs = 0x01"
    by (simp add: health_status_def alarm_check_def assms(1) alarm_check_quiet [OF assms(2)])
  ultimately show ?thesis by (auto simp: update_interface_def split: option.splits)
qed

definition hot_chassis :: alarm_env where
  "hot_chassis = \<lparr>al_low = (\<lambda>_. Some False), al_high = (\<lambda>p. Some (p = ''t'')), al_value = (\<lambda>_. Some 99),
     al_temps = Some [''t''], al_volts = Some [''v'']\<rparr>"

theorem health_sees_only_voltages_witness:
  "alarm_check hot_chassis (al_temps hot_chassis) \<and>
   (\<exists>s. health_main [(hot_chassis, None)] = Inr s \<and> fh_sensor s = Some (Some 0x01))"
proof -
  obtain s where s: "health_main ([] @ [(hot_chassis, None)]) = Inr s"
    by (simp add: health_main_def health_expose_sensor_def update_interface_def)
  have "fh_sensor s = Some (Some 0x01)"
    by (rule health_sees_only_voltages [OF _ _ s, of "[''v'']"]) (simp_all add: hot_chassis_def)
  with s show ?thesis by (simp add: hot_chassis_def alarm_check_def)
qed

section \<open>Thresholds in flash\<close>

definition short_line :: "string \<Rightarrow> bool" where
  "short_line l \<longleftrightarrow> newline \<notin> set l \<and> length l < 32 \<and> (l = [] \<or> hd l \<noteq> CHR ''}'')"

lemma copy_lines_take:
  assumes "\<forall>l\<in>set ls. short_line l" "0 \<le> n" "rest = [] \<or> (\<exists>r. hd rest = CHR ''}'' # r)"
  shows "copy_lines n c (ls @ rest) = take (nat (n - c)) ls"
  using assms(1)
proof (induction ls arbitrary: c)
  case Nil
  then show ?case using assms(3) by (cases rest) auto
next
  case (Cons l ls)
  show ?case
  proof (cases "c < n")
    case True
    then have "nat (n - c) = Suc (nat (n - (c + 1)))" by linarith
    with True Cons show ?thesis by (simp add: short_line_def)
  qed simp
qed

text \<open>A document as the thresholds tool writes it: lines, and a closing brace without a newline.\<close>

definition document :: "string list \<Rightarrow> string" where
  "document ls = unlines ls @ ''}''"

lemma getlines_tail:
  assumes "newline \<notin> set l"
  shows "\<exists>ms. getlines ((CHR ''}'' # l) @ rest) = ms \<and> (\<exists>r. hd ms = CHR ''}'' # r) \<and> ms \<noteq> []"
proof -
  obtain ms where "getlines ((CHR ''}'' # l) @ rest) = takeWhile (\<lambda>c. c \<noteq> newline) ((CHR ''}'' # l) @ rest) # ms"
    using getlines_first [of "(CHR ''}'' # l) @ rest"] by auto
  then show ?thesis by (simp add: newline_def)
qed

lemma getlines_document:
  assumes "\<forall>l\<in>set ls. short_line l"
  shows "\<exists>ms r. getlines (document ls @ rest) = ls @ ms \<and> hd ms = CHR ''}'' # r \<and> ms \<noteq> []"
  using assms getlines_unlines [of ls "''}'' @ rest"] getlines_tail [of "[]" rest]
  by (auto simp: document_def short_line_def)

lemma length_document: "\<forall>l\<in>set ls. short_line l \<Longrightarrow> length (getlines (document ls)) = length ls + 1"
  using getlines_unlines [of ls "''}''"]
  by (auto simp: document_def short_line_def getlines.simps [of "''}''"] newline_def)

lemma load_after_save:
  assumes "\<forall>l\<in>set ls. short_line l" "ls \<noteq> []" "0 \<le> g" "g + int (length ls) < 2 ^ 31 - 1"
  shows "run_read_vars g (document ls) (run_save_vars (document ls) @ rest) =
    Inr (unlines (take (nat (g + int (length ls) - 1)) ls) @ ''}'' @ [newline])"
proof -
  obtain ms r where ms: "getlines (document ls @ rest) = ls @ ms" "hd ms = CHR ''}'' # r" "ms \<noteq> []"
    using getlines_document [OF assms(1)] by blast
  have "1 \<le> int (length ls)" using assms(2) by (cases ls) auto
  then have "copy_lines (g + int (length ls) - 1) 0 (ls @ ms) = take (nat (g + int (length ls) - 1)) ls"
    using copy_lines_take [OF assms(1), of "g + int (length ls) - 1" ms 0] ms(2,3) assms(3) by auto
  moreover have "g + (int (length ls) + 1) - 2 = g + int (length ls) - 1" by simp
  ultimately show ?thesis
    using assms(3,4) ms \<open>1 \<le> int (length ls)\<close>
    by (simp add: run_read_vars_def run_save_vars_def length_document [OF assms(1)] int_range_def)
qed

text \<open>
  Loading thresholds that were saved before gives the saved document back if the uninitialised
  line counter happens to start at 1 or more; if it starts at 0 the last line before the closing
  brace is lost, so that the document no longer closes its last section.
\<close>

theorem load_depends_on_uninitialised_counter:
  assumes "\<forall>l\<in>set ls. short_line l" "ls \<noteq> []" "0 \<le> g" "g + int (length ls) < 2 ^ 31 - 1"
  shows "memory_main g [prog, ''load''] defaults (document ls, run_save_vars (document ls) @ rest) behind =
    Inr (document (if g = 0 then butlast ls else ls) @ [newline], run_save_vars (document ls) @ rest)"
proof -
  have "take (nat (g + int (length ls) - 1)) ls = (if g = 0 then butlast ls else ls)"
    using assms(2,3) by (cases ls) (auto simp: butlast_conv_take)
  with load_after_save [OF assms, of rest] show ?thesis
    by (simp add: memory_main_def document_def)
qed

definition example_thresholds :: "string list" where
  "example_thresholds = [''{'', ''    TempLimits: {'', ''        min: 0.0,'', ''        max: 40.0'', ''    }'']"

section \<open>Changing a threshold\<close>

lemma set_limit_idem [simp]: "set_limit k w v (set_limit k w v j) = set_limit k w v j"
  by (simp add: set_limit_def)

lemma set_limit_apply: "set_limit k w v j k' w' = (if k' = k \<and> w' = w then Some v else j k' w')"
  by (simp add: set_limit_def)

lemma set_loop_high:
  assumes "\<forall>p\<in>set ps. CHR ''/'' \<in> set p" "set_loop env item ''high'' v (Some k) prev ps j = (os, j', Inr ())"
  shows "j' = (if item \<in> path_name ` set ps then set_limit k ''max'' v j else j)"
  using assms
proof (induction ps arbitrary: prev j os)
  case (Cons p ps)
  let ?j = "if path_name p = item then set_limit k ''max'' v j else j"
  from Cons.prems obtain os' where "set_loop env item ''high'' v (Some k) (path_name p) ps ?j = (os', j', Inr ())"
    by (auto simp: name_of_path_def Let_def split: if_splits prod.splits)
  from Cons.IH [OF _ this] Cons.prems(1) show ?case by (auto split: if_splits)
qed simp


definition example_cli :: cli_env where
  "example_cli = \<lparr>ce_paths = (\<lambda>_. Some [''/v/5V_Rail'']), ce_double = (\<lambda>_ _. None), ce_bool = (\<lambda>_ _. None), ce_set = (\<lambda>_ _. True)\<rparr>"

lemma stod_2: "stod ''2'' = Inr 2"
  by (simp add: stod_def is_space_def is_digit_def digits_value_def digit_of_def of_char_def)

lemma example_lower: "map tolower ''Voltage'' = ''voltage''" "map tolower ''High'' = ''high''"
  by code_simp+

lemma example_path: "path_name ''/v/5V_Rail'' = ''5V_Rail''"
  by (simp add: path_name_def)


section \<open>The sensors on D-Bus\<close>

text \<open>The objects of both daemons as the alarm thread of \<open>lcr-MANAGER-app\<close> sees them.\<close>

definition sensor_object :: "(string \<rightharpoonup> dbus_sensor) \<Rightarrow> (string \<rightharpoonup> dbus_sensor) \<Rightarrow> string \<rightharpoonup> dbus_sensor" where
  "sensor_object volts tps path =
     (if path = voltage_stub @ ''/'' @ path_name path then volts (path_name path)
      else if path = temperature_stub @ ''/'' @ path_name path then tps (path_name path) else None)"

definition dbus_alarm_env ::
  "(string \<rightharpoonup> dbus_sensor) \<Rightarrow> (string \<rightharpoonup> dbus_sensor) \<Rightarrow> string list \<Rightarrow> string list \<Rightarrow> alarm_env" where
  "dbus_alarm_env volts tps ts vs =
     \<lparr>al_low = (\<lambda>p. map_option sn_alarmLow (sensor_object volts tps p)),
      al_high = (\<lambda>p. map_option sn_alarmHigh (sensor_object volts tps p)),
      al_value = (\<lambda>p. map_option sn_value (sensor_object volts tps p)), al_temps = Some ts, al_volts = Some vs\<rparr>"

lemma path_name_append: "CHR ''/'' \<notin> set n \<Longrightarrow> path_name (stub @ ''/'' @ n) = n"
  by (simp add: path_name_def takeWhile_append)

lemma rail_names: "r \<in> set rails \<Longrightarrow> CHR ''/'' \<notin> set (adc_name r)"
  by (auto simp: rails_def ADC_new_def)

lemma rail_object:
  assumes "r \<in> set rails"
  shows "sensor_object volts tps (voltage_stub @ ''/'' @ adc_name r) = volts (adc_name r)"
  using path_name_append [OF rail_names [OF assms]] by (simp add: sensor_object_def)

end
