(* ===== verification/Fru_Data.thy ===== *)
theory Fru_Data
  imports Boot_Manager
begin

text \<open>
  FRU inventory data as the entity manager handles them (\<open>entity-manager-mods/src\<close>): the caching
  reader of an EEPROM (\<open>fru_reader.cpp\<close>), reading and validating the contents, parsing them into
  properties, and updating a property with area length and checksum (\<open>fru_utils.cpp\<close>,
  \<open>updateFRUProperty\<close> of \<open>fru_device.cpp\<close>, built without area resizing as by default).

  Iterators are indices into the vector; reading outside the vector is a fault. The EEPROM is the
  function that gives a block of up to 32 bytes at an offset, or \<open>None\<close> for an error.

  The theorems: the cached reader returns the bytes of the EEPROM, contents that were read are
  parsed without leaving the buffer, an update keeps the area well-formed, and which contents are
  not handled.
\<close>

section \<open>Reading an EEPROM\<close>

type_synonym eeprom = "nat \<Rightarrow> byte list option"

definition cacheBlockSize :: nat where "cacheBlockSize = 32"

record FRUReader =
  fr_cache :: "nat \<rightharpoonup> byte list"
  fr_eof :: "nat option"

definition FRUReader_new :: FRUReader where
  "FRUReader_new = \<lparr>fr_cache = Map.empty, fr_eof = None\<rparr>"

text \<open>
  One iteration at \<open>cursor\<close>: the end of the loop with the return code for an empty result, or the
  bytes of the block that are available and the reader afterwards. A cached block is an array of 32
  bytes, zero where nothing was read.
\<close>

datatype block_result = Stop int | Avail "byte list"

definition cache_array :: "byte list \<Rightarrow> byte list" where
  "cache_array bs = take cacheBlockSize (bs @ replicate cacheBlockSize 0)"

definition get_block :: "eeprom \<Rightarrow> nat \<Rightarrow> FRUReader \<Rightarrow> block_result \<times> FRUReader" where
  "get_block rd blk r =
     (case fr_cache r blk of
        None \<Rightarrow>
          (case rd (blk * cacheBlockSize) of
             None \<Rightarrow> (Stop (-1), r)
           | Some bs \<Rightarrow>
               let r1 = (if length bs < cacheBlockSize then r\<lparr>fr_eof := Some (blk * cacheBlockSize + length bs)\<rparr> else r) in
               if bs = [] then (Stop 0, r1) else (Avail bs, r1\<lparr>fr_cache := (fr_cache r1)(blk \<mapsto> bs)\<rparr>))
      | Some bs \<Rightarrow>
          (case fr_eof r of
             Some e \<Rightarrow>
               if e div cacheBlockSize = blk then (Avail (take (e mod cacheBlockSize) (cache_array bs)), r)
               else (Avail (cache_array bs), r)
           | None \<Rightarrow> (Avail (cache_array bs), r)))"

definition at_eof :: "nat \<Rightarrow> FRUReader \<Rightarrow> bool" where
  "at_eof cursor r = (case fr_eof r of Some e \<Rightarrow> cursor \<ge> e | None \<Rightarrow> False)"

lemma div_mod_le: "(e :: nat) div 32 = c div 32 \<Longrightarrow> e mod 32 \<le> c mod 32 \<Longrightarrow> e \<le> c"
  by (metis add_le_cancel_left div_mult_mod_eq)

lemma block_start_le: "n \<le> c mod 32 \<Longrightarrow> c div 32 * 32 + n \<le> (c :: nat)"
  by presburger

text \<open>A block that has nothing at the cursor ends there: the loop does not stand still.\<close>

lemma get_block_progress:
  assumes "get_block rd (cursor div cacheBlockSize) r = (Avail bs, r')" "drop (cursor mod cacheBlockSize) bs = []"
  shows "at_eof cursor r'"
proof (cases "fr_cache r (cursor div cacheBlockSize)")
  case None
  with assms have bs: "rd (cursor div 32 * 32) = Some bs" "length bs < 32" "fr_eof r' = Some (cursor div 32 * 32 + length bs)"
    by (auto simp: get_block_def cacheBlockSize_def Let_def split: option.splits if_splits)
  have "cursor div 32 * 32 + length bs \<le> cursor"
    using assms(2) by (intro block_start_le) (simp add: cacheBlockSize_def)
  with bs show ?thesis by (simp add: at_eof_def)
next
  case (Some b)
  have "length (cache_array b) = 32" by (simp add: cache_array_def cacheBlockSize_def)
  with Some assms obtain e where "fr_eof r = Some e" "e div 32 = cursor div 32" "e mod 32 \<le> cursor mod 32" "r' = r"
    by (auto simp: get_block_def cacheBlockSize_def not_le split: option.splits if_splits)
  then show ?thesis using div_mod_le by (simp add: at_eof_def)
qed

text \<open>The loop of \<open>FRUReader::read\<close>: return code, the bytes copied, and the reader.\<close>

function read_loop :: "eeprom \<Rightarrow> nat \<Rightarrow> nat \<Rightarrow> byte list \<Rightarrow> FRUReader \<Rightarrow> int \<times> byte list \<times> FRUReader" where
  "read_loop rd cursor len acc r =
     (if length acc \<ge> len \<or> at_eof cursor r then (int (length acc), acc, r)
      else
        case get_block rd (cursor div cacheBlockSize) r of
          (Stop e, r') \<Rightarrow> (if acc \<noteq> [] then (int (length acc), acc, r') else (e, acc, r'))
        | (Avail bs, r') \<Rightarrow>
            let bytes = take (len - length acc) (drop (cursor mod cacheBlockSize) bs) in
            read_loop rd (cursor + length bytes) len (acc @ bytes) r')"
  by pat_completeness auto
termination
proof (relation "measure (\<lambda>(rd, cursor, len, acc, r). 2 * (len - length acc) + (if at_eof cursor r then 0 else 1))",
    goal_cases)
  case (2 rd cursor len acc r x r' bs bytes)
  show ?case
  proof (cases "bytes = []")
    case True
    with 2 have "drop (cursor mod cacheBlockSize) bs = []" by auto
    with 2 get_block_progress [of rd cursor r bs r'] True show ?thesis by auto
  next
    case False
    then have "0 < length bytes" by simp
    with 2 show ?thesis by auto
  qed
qed simp

declare read_loop.simps [simp del]

definition FRUReader_read :: "eeprom \<Rightarrow> nat \<Rightarrow> nat \<Rightarrow> FRUReader \<Rightarrow> int \<times> byte list \<times> FRUReader" where
  "FRUReader_read rd start len r = read_loop rd start len [] r"

section \<open>The reader returns the bytes of the EEPROM\<close>

text \<open>An EEPROM with given contents, read in blocks.\<close>

definition rom :: "byte list \<Rightarrow> eeprom" where
  "rom mem off = Some (take cacheBlockSize (drop off mem))"

definition reader_inv :: "byte list \<Rightarrow> FRUReader \<Rightarrow> bool" where
  "reader_inv mem r \<longleftrightarrow>
     (\<forall>blk bs. fr_cache r blk = Some bs \<longrightarrow> bs = take 32 (drop (blk * 32) mem) \<and> bs \<noteq> [] \<and>
        (length bs < 32 \<longrightarrow> fr_eof r = Some (length mem))) \<and>
     (\<forall>e. fr_eof r = Some e \<longrightarrow> length mem \<le> e)"

lemma reader_inv_new: "reader_inv mem FRUReader_new"
  by (simp add: reader_inv_def FRUReader_new_def)

lemma short_block:
  assumes "length (take 32 (drop (blk * 32) mem)) < 32" "take 32 (drop (blk * 32) mem) \<noteq> []"
  shows "blk * 32 + length (take 32 (drop (blk * 32) mem)) = length mem" "length mem div 32 = blk"
    "length mem mod 32 = length (take 32 (drop (blk * 32) mem))"
proof -
  have "blk * 32 < length mem" "length mem < blk * 32 + 32" using assms by auto
  then show "blk * 32 + length (take 32 (drop (blk * 32) mem)) = length mem" "length mem div 32 = blk"
    by auto
  then show "length mem mod 32 = length (take 32 (drop (blk * 32) mem))"
    using minus_div_mult_eq_mod [of "length mem" 32] by simp
qed

lemma get_block_miss:
  assumes inv: "reader_inv mem r" and "\<not> at_eof cursor r" "fr_cache r (cursor div 32) = None"
    and "get_block (rom mem) (cursor div 32) r = (res, r')"
  shows "reader_inv mem r' \<and> (case res of Stop e \<Rightarrow> e = 0 \<and> length mem \<le> cursor
    | Avail bs \<Rightarrow> bs = take 32 (drop (cursor div 32 * 32) mem))"
proof (cases "take 32 (drop (cursor div 32 * 32) mem) = []")
  case True
  then have len: "length mem \<le> cursor div 32 * 32" by simp
  have "res = Stop 0" "r' = r\<lparr>fr_eof := Some (cursor div 32 * 32)\<rparr>"
    using assms(3,4) True by (auto simp: get_block_def rom_def cacheBlockSize_def)
  moreover have "\<not> (length bs < 32)" if "fr_cache r blk = Some bs" for blk bs
    using inv that assms(2) len block_start_le [of 0 cursor] unfolding reader_inv_def at_eof_def by fastforce
  moreover have "cursor div 32 * 32 \<le> cursor" using block_start_le [of 0 cursor] by simp
  ultimately show ?thesis using inv len by (auto simp: reader_inv_def)
next
  case False
  let ?bs = "take 32 (drop (cursor div 32 * 32) mem)"
  have "res = Avail ?bs" "r' = (if length ?bs < 32 then r\<lparr>fr_eof := Some (length mem)\<rparr> else r)
      \<lparr>fr_cache := (fr_cache r)(cursor div 32 \<mapsto> ?bs)\<rparr>"
    using assms(3,4) False short_block(1) [of "cursor div 32" mem]
    by (auto simp: get_block_def rom_def cacheBlockSize_def Let_def)
  then show ?thesis using inv False by (auto simp: reader_inv_def)
qed

lemma get_block_hit:
  assumes inv: "reader_inv mem r" and "fr_cache r (cursor div 32) = Some b"
  shows "get_block (rom mem) (cursor div 32) r = (Avail (take 32 (drop (cursor div 32 * 32) mem)), r)"
proof -
  have b: "b = take 32 (drop (cursor div 32 * 32) mem)" "b \<noteq> []" "length b < 32 \<longrightarrow> fr_eof r = Some (length mem)"
    using inv assms(2) by (auto simp: reader_inv_def)
  show ?thesis
  proof (cases "length b < 32")
    case True
    have "length mem div 32 = cursor div 32" "length mem mod 32 = length b"
      using short_block(2,3) [of "cursor div 32" mem, folded b(1)] b(2) True by blast+
    moreover have "take (length b) (cache_array b) = b" using True by (simp add: cache_array_def cacheBlockSize_def)
    ultimately have "get_block (rom mem) (cursor div 32) r = (Avail b, r)"
      using True b(3) assms(2) by (simp add: get_block_def cacheBlockSize_def)
    then show ?thesis by (simp only: b(1))
  next
    case False
    then have full: "length b = 32" "cursor div 32 * 32 + 32 \<le> length mem" using b(1) by auto
    then have "e div 32 \<noteq> cursor div 32" if "fr_eof r = Some e" for e
    proof -
      have "length mem \<le> e" using inv that by (simp add: reader_inv_def)
      then have "(cursor div 32 + 1) * 32 \<le> e" using full(2) by (simp add: add_mult_distrib)
      then have "cursor div 32 + 1 \<le> e div 32" by (simp add: less_eq_div_iff_mult_less_eq)
      then show ?thesis by simp
    qed
    moreover have "cache_array b = b" using full(1) by (simp add: cache_array_def cacheBlockSize_def)
    ultimately have "get_block (rom mem) (cursor div 32) r = (Avail b, r)"
      using assms(2) by (auto simp: get_block_def cacheBlockSize_def split: option.split)
    then show ?thesis by (simp only: b(1))
  qed
qed

lemma take_again:
  assumes "bytes = take m xs" "m \<le> k"
  shows "bytes @ take (k - length bytes) (drop (length bytes) xs) = take k xs"
proof (cases "m \<le> length xs")
  case True
  with assms show ?thesis by (metis le_add_diff_inverse length_take min.absorb2 take_add)
next
  case False
  with assms show ?thesis by simp
qed

lemma block_bytes:
  "take k (drop (cursor mod 32) (take 32 (drop (cursor div 32 * 32) mem))) = take (min k (32 - cursor mod 32)) (drop cursor mem)"
proof -
  have "cursor mod 32 + cursor div 32 * 32 = cursor" by presburger
  then show ?thesis by (simp add: drop_take min.commute)
qed

lemma read_loop_rom:
  assumes "reader_inv mem r"
  shows "\<exists>r'. read_loop (rom mem) cursor len acc r =
      (let d = acc @ take (len - length acc) (drop cursor mem) in (int (length d), d, r')) \<and> reader_inv mem r'"
  using assms
proof (induction "rom mem" cursor len acc r rule: read_loop.induct)
  case (1 cursor len acc r)
  show ?case
  proof (cases "length acc \<ge> len \<or> at_eof cursor r")
    case True
    then have "take (len - length acc) (drop cursor mem) = []"
      using 1(2) by (auto simp: at_eof_def reader_inv_def split: option.splits)
    with True 1(2) show ?thesis by (subst read_loop.simps) (auto simp: Let_def)
  next
    case False
    obtain res r1 where g: "get_block (rom mem) (cursor div cacheBlockSize) r = (res, r1)" by fastforce
    then have inv1: "reader_inv mem r1" and res: "case res of Stop e \<Rightarrow> e = 0 \<and> length mem \<le> cursor
        | Avail bs \<Rightarrow> bs = take 32 (drop (cursor div 32 * 32) mem)"
      using get_block_miss [OF 1(2), of cursor res r1] get_block_hit [OF 1(2), of cursor] False 1(2)
      by (cases "fr_cache r (cursor div 32)"; auto simp: cacheBlockSize_def)+
    show ?thesis
    proof (cases res)
      case (Stop e)
      with res False g inv1 show ?thesis by (subst read_loop.simps) (auto simp: Let_def)
    next
      case (Avail bs)
      define bytes where "bytes = take (len - length acc) (drop (cursor mod 32) bs)"
      have "bytes = take (min (len - length acc) (32 - cursor mod 32)) (drop cursor mem)"
        using res Avail by (simp add: bytes_def block_bytes)
      from take_again [OF this, of "len - length acc"] have all:
        "bytes @ take (len - length (acc @ bytes)) (drop (cursor + length bytes) mem) = take (len - length acc) (drop cursor mem)"
        by (simp add: add.commute)
      have "\<exists>r'. read_loop (rom mem) (cursor + length bytes) len (acc @ bytes) r1 =
          (let d = (acc @ bytes) @ take (len - length (acc @ bytes)) (drop (cursor + length bytes) mem) in (int (length d), d, r')) \<and>
          reader_inv mem r'"
        by (rule 1(1) [OF False g [symmetric] Avail _ inv1]) (simp_all add: bytes_def cacheBlockSize_def)
      with all False g Avail show ?thesis
        by (subst read_loop.simps) (simp add: bytes_def cacheBlockSize_def Let_def)
    qed
  qed
qed

section \<open>Contents\<close>

definition fruBlockSize :: nat where "fruBlockSize = 8"

datatype fruAreas = fruAreaInternal | fruAreaChassis | fruAreaBoard | fruAreaProduct | fruAreaMultirecord

definition all_areas :: "fruAreas list" where
  "all_areas = [fruAreaInternal, fruAreaChassis, fruAreaBoard, fruAreaProduct, fruAreaMultirecord]"

fun getHeaderAreaFieldOffset :: "fruAreas \<Rightarrow> nat" where
  "getHeaderAreaFieldOffset fruAreaInternal = 1"
| "getHeaderAreaFieldOffset fruAreaChassis = 2"
| "getHeaderAreaFieldOffset fruAreaBoard = 3"
| "getHeaderAreaFieldOffset fruAreaProduct = 4"
| "getHeaderAreaFieldOffset fruAreaMultirecord = 5"

text \<open>The block buffer of 32 bytes: a read overwrites as many bytes as it returns.\<close>

definition overlay :: "byte list \<Rightarrow> byte list \<Rightarrow> byte list" where
  "overlay d buf = d @ drop (length d) buf"

definition read_into :: "eeprom \<Rightarrow> nat \<Rightarrow> nat \<Rightarrow> byte list \<Rightarrow> FRUReader \<Rightarrow> bool \<times> byte list \<times> FRUReader" where
  "read_into rd off len buf r =
     (case FRUReader_read rd off len r of (n, d, r') \<Rightarrow> (n < 0, overlay d buf, r'))"

definition validateHeader :: "byte list \<Rightarrow> bool" where
  "validateHeader b \<longleftrightarrow>
     b ! 0 = 1 \<and> b ! 6 = 0 \<and> distinct (filter (\<lambda>x. x \<noteq> 0) (take 5 (drop 1 b))) \<and>
     (256 - sum_list (map ucast (take 7 b)) AND 0xFF = (ucast (b ! 7) :: 64 word))"

definition tyanHeader :: "byte list" where
  "tyanHeader = [0x24, 0x54, 0x59, 0x41, 0x4E, 0x24]"

function findFRUHeader :: "eeprom \<Rightarrow> nat \<Rightarrow> byte list \<Rightarrow> FRUReader \<Rightarrow> bool \<times> nat \<times> byte list \<times> FRUReader" where
  "findFRUHeader rd base buf r =
     (case read_into rd base 8 buf r of (failed, buf1, r1) \<Rightarrow>
        if failed then (False, base, buf1, r1)
        else if validateHeader buf1 then (True, base, buf1, r1)
        else if base \<noteq> 0 then (False, base, buf1, r1)
        else if take 6 buf1 = tyanHeader then findFRUHeader rd 0x6000 buf1 r1
        else (False, base, buf1, r1))"
  by pat_completeness auto
termination
  by (relation "measure (\<lambda>(rd, base, buf, r). if base = 0 then 1 else 0)") auto

declare findFRUHeader.simps [simp del]

text \<open>The loop over the areas of the header: whether there are multi records and how long the data are.\<close>

fun scan_areas ::
  "eeprom \<Rightarrow> nat \<Rightarrow> byte list \<Rightarrow> fruAreas list \<Rightarrow> nat \<Rightarrow> nat \<Rightarrow> byte list \<Rightarrow> FRUReader \<Rightarrow>
   (bool \<times> nat \<times> byte list \<times> FRUReader) option" where
  "scan_areas rd base device [] prev fruLength buf r = Some (False, fruLength, buf, r)"
| "scan_areas rd base device (area # areas) prev fruLength buf r =
     (let areaOffset = unat (device ! getHeaderAreaFieldOffset area) in
      if areaOffset = 0 then scan_areas rd base device areas prev fruLength buf r
      else if areaOffset \<le> prev then None
      else if area = fruAreaMultirecord then Some (True, fruLength, buf, r)
      else
        case read_into rd (base + areaOffset * fruBlockSize) 2 buf r of (failed, buf1, r1) \<Rightarrow>
          if failed then None
          else scan_areas rd base device areas areaOffset
                 (max (areaOffset * fruBlockSize + unat (buf1 ! 1) * fruBlockSize) fruLength) buf1 r1)"

function multi_records ::
  "eeprom \<Rightarrow> nat \<Rightarrow> nat \<Rightarrow> nat \<Rightarrow> byte list \<Rightarrow> FRUReader \<Rightarrow> (nat \<times> byte list \<times> FRUReader) option" where
  "multi_records rd base areaOffset fruLength buf r =
     (if areaOffset < 65535 then
        case read_into rd (base + areaOffset) 3 buf r of (failed, buf1, r1) \<Rightarrow>
          if failed then None
          else
            let areaOffset' = areaOffset + (unat (buf1 ! 2) + 5); fruLength' = max areaOffset' fruLength in
            if buf1 ! 1 AND 0x80 \<noteq> 0 then Some (fruLength', buf1, r1)
            else multi_records rd base areaOffset' fruLength' buf1 r1
      else Some (fruLength, buf, r))"
  by pat_completeness auto
termination
  by (relation "measure (\<lambda>(rd, base, areaOffset, fruLength, buf, r). 65535 - areaOffset)") auto

declare multi_records.simps [simp del]

text \<open>The rest of the data in requests of up to 32 bytes, each taken from the buffer.\<close>

function read_rest ::
  "eeprom \<Rightarrow> nat \<Rightarrow> nat \<Rightarrow> nat \<Rightarrow> byte list \<Rightarrow> byte list \<Rightarrow> FRUReader \<Rightarrow> byte list option" where
  "read_rest rd base readOffset fruLength device buf r =
     (if fruLength = 0 then Some device
      else
        let requestLength = min 32 fruLength in
        case read_into rd (base + readOffset) requestLength buf r of (failed, buf1, r1) \<Rightarrow>
          if failed then None
          else read_rest rd base (readOffset + requestLength) (fruLength - requestLength)
                 (device @ take requestLength buf1) buf1 r1)"
  by pat_completeness auto
termination
  by (relation "measure (\<lambda>(rd, base, readOffset, fruLength, device, buf, r). fruLength)") auto

declare read_rest.simps [simp del]

definition readFRUContents :: "eeprom \<Rightarrow> FRUReader \<Rightarrow> byte list" where
  "readFRUContents rd r =
     (case findFRUHeader rd 0 (replicate 32 0) r of (found, base, buf, r1) \<Rightarrow>
        if \<not> found then []
        else
          let device = take 8 buf in
          case scan_areas rd base device all_areas 0 fruBlockSize buf r1 of
            None \<Rightarrow> []
          | Some (multi, fruLength, buf1, r2) \<Rightarrow>
              (case (if multi
                     then multi_records rd base (unat (device ! getHeaderAreaFieldOffset fruAreaMultirecord) * fruBlockSize)
                            fruLength buf1 r2
                     else Some (fruLength, buf1, r2)) of
                 None \<Rightarrow> []
               | Some (n, buf2, r3) \<Rightarrow>
                   (case read_rest rd base fruBlockSize (n - min fruBlockSize n) device buf2 r3 of
                      None \<Rightarrow> []
                    | Some dev \<Rightarrow> dev)))"

section \<open>Fields\<close>

datatype DecodeState = Decode_ok | Decode_end | Decode_err
datatype resCodes = resOK | resWarn | resErr

definition sixBitToChar :: "byte \<Rightarrow> char" where
  "sixBitToChar v = char_of (unat ((v AND 0x3f) + 0x20))"

definition bcdHighChars :: string where "bcdHighChars = '' -.XXX''"

definition bcdPlusToChar :: "byte \<Rightarrow> char" where
  "bcdPlusToChar v = (let n = unat (v AND 0xf) in if n < 10 then char_of (48 + n) else bcdHighChars ! (n - 10))"

definition hex_digit :: "nat \<Rightarrow> char" where
  "hex_digit n = ''0123456789abcdef'' ! n"

text \<open>The inner loop of the six-bit decoder: characters, the bits left over and their number.\<close>

function drain_six :: "32 word \<Rightarrow> nat \<Rightarrow> string \<times> 32 word \<times> nat" where
  "drain_six accum n =
     (if n \<ge> 6 then
        case drain_six (drop_bit 6 accum) (n - 6) of (cs, a, k) \<Rightarrow> (sixBitToChar (ucast (accum AND 0x3f)) # cs, a, k)
      else ([], accum, n))"
  by pat_completeness auto
termination
  by (relation "measure snd") auto

declare drain_six.simps [simp del]

fun six_bits :: "32 word \<Rightarrow> nat \<Rightarrow> byte list \<Rightarrow> string" where
  "six_bits accum n [] = []"
| "six_bits accum n (b # bs) =
     (case drain_six (accum OR push_bit n (ucast b)) (n + 8) of (cs, a, k) \<Rightarrow> cs @ six_bits a k bs)"

definition decode_bytes :: "nat \<Rightarrow> byte list \<Rightarrow> string" where
  "decode_bytes typ ds =
     (if typ = 0 then concat (map (\<lambda>b. [hex_digit (unat b div 16), hex_digit (unat b mod 16)]) ds)
      else if typ = 1 then concat (map (\<lambda>b. [bcdPlusToChar (drop_bit 4 b), bcdPlusToChar (b AND 0xf)]) ds)
      else if typ = 2 then six_bits 0 0 ds
      else map (\<lambda>b. char_of (unat b)) ds)"

definition decodeFRUData :: "byte list \<Rightarrow> nat \<Rightarrow> nat \<Rightarrow> bool \<Rightarrow> (DecodeState \<times> string \<times> nat) res" where
  "decodeFRUData data iter stop isLangEng =
     (if iter = stop then Inr (Decode_err, [], iter)
      else
        rbind (vec_at data iter) (\<lambda>c.
          if c = 0xc1 then Inr (Decode_end, [], iter + 1)
          else
            let typ = unat (drop_bit 6 c :: byte); len = unat (c AND 0x3f) in
            if iter + 1 + len > stop then Inr (Decode_err, [], iter + 1)
            else
              rbind (slice data (iter + 1) len) (\<lambda>ds.
                Inr (if typ = 3 \<and> \<not> isLangEng then Decode_err else Decode_ok, decode_bytes typ ds, iter + 1 + len))))"

definition checkLangEng :: "byte \<Rightarrow> bool" where
  "checkLangEng lang \<longleftrightarrow> lang = 0 \<or> lang = 25"

definition calculateChecksum :: "byte list \<Rightarrow> byte" where
  "calculateChecksum bs = word_of_int ((256 - uint (foldl (+) 0 bs)) mod 256)"

lemma calculateChecksum_uminus: "calculateChecksum bs = - sum_list bs"
proof -
  have "foldl (+) a bs = a + sum_list bs" for a :: byte
    by (induction bs arbitrary: a) (simp_all add: add.assoc)
  then have "calculateChecksum bs = word_of_int ((256 - uint (sum_list bs)) mod 2 ^ LENGTH(8))"
    by (simp add: calculateChecksum_def)
  also have "\<dots> = word_of_int (256 - uint (sum_list bs))"
    by (metis take_bit_eq_mod word_of_int_eq_iff take_bit_take_bit min.idem)
  also have "\<dots> = - sum_list bs"
    by simp
  finally show ?thesis .
qed

section \<open>Parsing\<close>

fun to_string :: "nat \<Rightarrow> string" where
  "to_string n = (if n < 10 then [char_of (48 + n)] else to_string (n div 10) @ [char_of (48 + n mod 10)])"

declare to_string.simps [simp del]

text \<open>
  Dates: \<open>mktime\<close> of 1996-01-01 00:00 depends on the time zone of the process, so its value in
  seconds since 1970 is the argument \<open>epoch\<close>; \<open>gmtime\<close> and \<open>strftime\<close> are written out.
\<close>

definition leap :: "nat \<Rightarrow> bool" where
  "leap y \<longleftrightarrow> 4 dvd y \<and> (\<not> 100 dvd y \<or> 400 dvd y)"

fun civil_year :: "nat \<Rightarrow> nat \<Rightarrow> nat \<times> nat" where
  "civil_year y d = (let n = (if leap y then 366 else 365) in if d < n then (y, d) else civil_year (y + 1) (d - n))"

declare civil_year.simps [simp del]

fun civil_month :: "nat list \<Rightarrow> nat \<Rightarrow> nat \<Rightarrow> nat \<times> nat" where
  "civil_month [] m d = (m, d)"
| "civil_month (n # ns) m d = (if d < n then (m, d) else civil_month ns (m + 1) (d - n))"

definition two_digits :: "nat \<Rightarrow> string" where
  "two_digits n = [char_of (48 + n div 10 mod 10), char_of (48 + n mod 10)]"

definition strftime :: "nat \<Rightarrow> string" where
  "strftime t =
     (case civil_year 1970 (t div 86400) of (y, d) \<Rightarrow>
      case civil_month [31, if leap y then 29 else 28, 31, 30, 31, 30, 31, 31, 30, 31, 30, 31] 1 d of (m, k) \<Rightarrow>
        to_string y @ ''-'' @ two_digits m @ ''-'' @ two_digits (k + 1) @ '' - '' @
        two_digits (t mod 86400 div 3600) @ '':'' @ two_digits (t mod 3600 div 60) @ '':'' @ two_digits (t mod 60))"

definition timeString_size :: nat where "timeString_size = 32"

fun getFruAreaName :: "fruAreas \<Rightarrow> string" where
  "getFruAreaName fruAreaInternal = ''INTERNAL''"
| "getFruAreaName fruAreaChassis = ''CHASSIS''"
| "getFruAreaName fruAreaBoard = ''BOARD''"
| "getFruAreaName fruAreaProduct = ''PRODUCT''"
| "getFruAreaName fruAreaMultirecord = ''MULTIRECORD''"

definition chassisFruAreas :: "string list" where
  "chassisFruAreas = [''PART_NUMBER'', ''SERIAL_NUMBER'']"

definition boardFruAreas :: "string list" where
  "boardFruAreas = [''MANUFACTURER'', ''PRODUCT_NAME'', ''SERIAL_NUMBER'', ''PART_NUMBER'', ''FRU_VERSION_ID'']"

definition productFruAreas :: "string list" where
  "productFruAreas =
     [''MANUFACTURER'', ''PRODUCT_NAME'', ''PART_NUMBER'', ''VERSION'', ''SERIAL_NUMBER'', ''ASSET_TAG'', ''FRU_VERSION_ID'']"

definition fruCustomFieldName :: string where "fruCustomFieldName = ''INFO_AM''"

text \<open>No other area may start inside the area that is parsed.\<close>

definition verifyOffset :: "byte list \<Rightarrow> fruAreas \<Rightarrow> byte \<Rightarrow> bool" where
  "verifyOffset fruBytes currentArea len \<longleftrightarrow>
     length fruBytes > fruBlockSize \<and>
     (let start = unat (fruBytes ! getHeaderAreaFieldOffset currentArea); stop = start + unat len in
      \<forall>area \<in> set all_areas. area \<noteq> currentArea \<longrightarrow>
        (let areaOffset = unat (fruBytes ! getHeaderAreaFieldOffset area) in
         areaOffset = 0 \<or> \<not> (areaOffset = start \<or> start < areaOffset \<and> areaOffset < stop)))"

definition field_name :: "fruAreas \<Rightarrow> string list \<Rightarrow> nat \<Rightarrow> string" where
  "field_name area names i =
     getFruAreaName area @ ''_'' @
     (if i < length names then names ! i else fruCustomFieldName @ to_string (i - length names + 1))"

definition strip_nulls :: "string \<Rightarrow> string" where
  "strip_nulls s = rev (dropWhile (\<lambda>c. c = CHR 0x00) (rev s))"

lemma decode_advances:
  "decodeFRUData bs iter stop eng = Inr (st, v, iter') \<Longrightarrow> iter \<noteq> stop \<Longrightarrow> iter < length bs \<and> iter < iter'"
  by (auto simp: decodeFRUData_def Let_def rbind_Inr_iff vec_at_Inr_iff split: if_splits)

text \<open>
  The loop over the fields of an area: whether parsing is given up, the position after the last
  field, the return code and the properties.
\<close>

function field_loop ::
  "byte list \<Rightarrow> nat \<Rightarrow> bool \<Rightarrow> fruAreas \<Rightarrow> string list \<Rightarrow> nat \<Rightarrow> nat \<Rightarrow> resCodes \<Rightarrow> (string \<rightharpoonup> string) \<Rightarrow>
   (bool \<times> nat \<times> resCodes \<times> (string \<rightharpoonup> string)) res" where
  "field_loop bs stop eng area names i iter ret m =
     (case decodeFRUData bs iter stop eng of
        Inl e \<Rightarrow> Inl e
      | Inr (Decode_ok, v, iter') \<Rightarrow>
          field_loop bs stop eng area names (i + 1) iter' ret (m(field_name area names i \<mapsto> strip_nulls v))
      | Inr (Decode_err, v, iter') \<Rightarrow> Inr (i < length names, iter', resWarn, m)
      | Inr (Decode_end, v, iter') \<Rightarrow> Inr (False, iter', if i < length names then resWarn else ret, m))"
  by pat_completeness auto
termination
proof (relation "measure (\<lambda>(bs, stop, eng, area, names, i, iter, ret, m). length bs - iter)", goal_cases)
  case (2 bs stop eng area names i iter ret m b b1 b2 v iter')
  then have "iter \<noteq> stop" by (auto simp: decodeFRUData_def)
  with 2 decode_advances [of bs iter stop eng Decode_ok v iter'] show ?case by auto
qed simp

declare field_loop.simps [simp del]

text \<open>
  The fixed fields of an area: whether its texts are English, the position of the first field and
  the properties; \<open>None\<close> when the date does not fit its buffer.
\<close>

fun area_head ::
  "nat \<Rightarrow> byte list \<Rightarrow> fruAreas \<Rightarrow> nat \<Rightarrow> (string \<rightharpoonup> string) \<Rightarrow> (bool \<times> nat \<times> (string \<rightharpoonup> string)) option res" where
  "area_head epoch bs fruAreaChassis iter m =
     rbind (vec_at bs iter) (\<lambda>t. Inr (Some (True, iter + 1, m(''CHASSIS_TYPE'' \<mapsto> to_string (unat t)))))"
| "area_head epoch bs fruAreaBoard iter m =
     rbind (vec_at bs iter) (\<lambda>lang.
     rbind (vec_at bs (iter + 1)) (\<lambda>b0. rbind (vec_at bs (iter + 2)) (\<lambda>b1. rbind (vec_at bs (iter + 3)) (\<lambda>b2.
       let minutes = unat b0 + 256 * unat b1 + 65536 * unat b2;
           s = strftime (epoch + minutes * 60);
           m1 = m(''BOARD_LANGUAGE_CODE'' \<mapsto> to_string (unat lang)) in
       if length s < timeString_size
       then Inr (Some (checkLangEng lang, iter + 4, m1(''BOARD_MANUFACTURE_DATE'' \<mapsto> s)))
       else Inr None))))"
| "area_head epoch bs fruAreaProduct iter m =
     rbind (vec_at bs iter) (\<lambda>lang.
       Inr (Some (checkLangEng lang, iter + 1, m(''PRODUCT_LANGUAGE_CODE'' \<mapsto> to_string (unat lang)))))"
| "area_head epoch bs _ iter m = Inr None"

fun area_fields :: "fruAreas \<Rightarrow> string list" where
  "area_fields fruAreaChassis = chassisFruAreas"
| "area_fields fruAreaBoard = boardFruAreas"
| "area_fields fruAreaProduct = productFruAreas"
| "area_fields _ = []"

definition worst :: "bool \<Rightarrow> resCodes \<Rightarrow> resCodes" where
  "worst b ret = (if b then resWarn else ret)"

text \<open>
  One area: a checksum over a range that ends before it starts runs on past the vector. The
  result is whether to give up, the return code and the properties.
\<close>

definition parse_body ::
  "nat \<Rightarrow> byte list \<Rightarrow> fruAreas \<Rightarrow> nat \<Rightarrow> nat \<Rightarrow> resCodes \<Rightarrow> (string \<rightharpoonup> string) \<Rightarrow>
   (bool \<times> resCodes \<times> (string \<rightharpoonup> string)) res" where
  "parse_body epoch bs area offset fruAreaSize ret m =
     (if fruAreaSize = 0 then Inl Out_Of_Bounds
      else
        let stop = offset + fruAreaSize - 1 in
        rbind (slice bs offset (fruAreaSize - 1)) (\<lambda>body. rbind (vec_at bs stop) (\<lambda>chk.
          let ret1 = worst (calculateChecksum body \<noteq> chk) ret in
          rbind (area_head epoch bs area (offset + 2) m) (\<lambda>head.
            case head of
              None \<Rightarrow> Inr (True, ret1, m)
            | Some (eng, iter, m1) \<Rightarrow>
                rbind (field_loop bs stop eng area (area_fields area) 0 iter ret1 m1) (\<lambda>(give_up, iter', ret2, m2).
                  if give_up then Inr (True, ret2, m2)
                  else rbind (slice bs iter' (stop - iter')) (\<lambda>pad.
                         Inr (False, worst (\<exists>c \<in> set pad. c \<noteq> 0) ret2, m2)))))))"

definition parse_area ::
  "nat \<Rightarrow> byte list \<Rightarrow> fruAreas \<Rightarrow> resCodes \<Rightarrow> (string \<rightharpoonup> string) \<Rightarrow> (bool \<times> resCodes \<times> (string \<rightharpoonup> string)) res" where
  "parse_area epoch bs area ret m =
     (let offset = unat (bs ! getHeaderAreaFieldOffset area) * fruBlockSize in
      if offset = 0 then Inr (False, ret, m)
      else if offset + fruBlockSize \<ge> length bs then Inr (True, ret, m)
      else if bs ! offset \<noteq> 1 then Inr (True, ret, m)
      else if \<not> verifyOffset bs area (bs ! (offset + 1)) then Inr (True, ret, m)
      else parse_body epoch bs area offset (unat (bs ! (offset + 1)) * fruBlockSize) ret m)"

fun parse_areas ::
  "nat \<Rightarrow> byte list \<Rightarrow> fruAreas list \<Rightarrow> resCodes \<Rightarrow> (string \<rightharpoonup> string) \<Rightarrow> (resCodes \<times> (string \<rightharpoonup> string)) res" where
  "parse_areas epoch bs [] ret m = Inr (ret, m)"
| "parse_areas epoch bs (area # areas) ret m =
     rbind (parse_area epoch bs area ret m) (\<lambda>(give_up, ret1, m1).
       if give_up then Inr (resErr, m1) else parse_areas epoch bs areas ret1 m1)"

definition formatIPMIFRU :: "nat \<Rightarrow> byte list \<Rightarrow> (resCodes \<times> (string \<rightharpoonup> string)) res" where
  "formatIPMIFRU epoch bs =
     (if length bs \<le> fruBlockSize then Inr (resErr, Map.empty)
      else parse_areas epoch bs [fruAreaChassis, fruAreaBoard, fruAreaProduct] resOK
             [''Common_Format_Version'' \<mapsto> to_string (unat (bs ! 0))])"

section \<open>Parsing stays within the contents\<close>

definition area_fits :: "byte list \<Rightarrow> fruAreas \<Rightarrow> bool" where
  "area_fits bs area \<longleftrightarrow>
     (let offset = unat (bs ! getHeaderAreaFieldOffset area) * 8; sz = unat (bs ! (offset + 1)) * 8 in
      offset \<noteq> 0 \<and> offset + 8 < length bs \<longrightarrow> sz \<noteq> 0 \<and> offset + sz \<le> length bs)"

lemma decode_total:
  assumes "iter \<le> stop" "stop < length bs"
  shows "\<exists>st v iter'. decodeFRUData bs iter stop eng = Inr (st, v, iter') \<and> iter' \<le> stop"
  using assms by (cases "iter = stop") (auto simp: decodeFRUData_def Let_def slice_def)

lemma field_loop_total:
  assumes "iter \<le> stop" "stop < length bs"
  shows "\<exists>g iter' ret' m'. field_loop bs stop eng area names i iter ret m = Inr (g, iter', ret', m') \<and> iter' \<le> stop"
  using assms
proof (induction bs stop eng area names i iter ret m rule: field_loop.induct)
  case (1 bs stop eng area names i iter ret m)
  obtain st v iter' where d: "decodeFRUData bs iter stop eng = Inr (st, v, iter')" "iter' \<le> stop"
    using decode_total [OF 1(2,3)] by blast
  show ?case
  proof (cases st)
    case Decode_ok
    with 1(1) [OF d(1) refl] d 1(3) show ?thesis by (subst field_loop.simps) (simp add: fun_upd_def)
  next
    case Decode_end
    with d show ?thesis by (subst field_loop.simps) auto
  next
    case Decode_err
    with d show ?thesis by (subst field_loop.simps) simp
  qed
qed

lemma area_head_total:
  assumes "offset + 8 < length bs" "area \<in> {fruAreaChassis, fruAreaBoard, fruAreaProduct}"
  shows "\<exists>head. area_head epoch bs area (offset + 2) m = Inr head \<and>
    (\<forall>eng iter' m'. head = Some (eng, iter', m') \<longrightarrow> iter' \<le> offset + 6)"
  using assms by (auto simp: Let_def)

lemma parse_body_total:
  assumes "8 \<le> sz" and fit: "offset + sz \<le> length bs" "offset + 8 < length bs"
    and "area \<in> {fruAreaChassis, fruAreaBoard, fruAreaProduct}"
  shows "\<exists>x. parse_body epoch bs area offset sz ret m = Inr x"
proof -
  have body: "slice bs offset (sz - 1) = Inr (take (sz - 1) (drop offset bs))"
    "vec_at bs (offset + sz - 1) = Inr (bs ! (offset + sz - 1))" "offset + sz - 1 < length bs"
    using assms by (auto simp: slice_def)
  obtain head where head: "area_head epoch bs area (offset + 2) m = Inr head"
    "\<forall>eng iter' m'. head = Some (eng, iter', m') \<longrightarrow> iter' \<le> offset + 6"
    using area_head_total [OF fit(2) assms(4)] by blast
  show ?thesis
  proof (cases head)
    case None
    with head body assms(1) show ?thesis by (simp add: parse_body_def Let_def del: split_paired_Ex)
  next
    case (Some x)
    then obtain eng iter m1 where x: "head = Some (eng, iter, m1)" "iter \<le> offset + 6" using head(2) by (cases x) auto
    define ret1 where "ret1 = worst (calculateChecksum (take (sz - 1) (drop offset bs)) \<noteq> bs ! (offset + sz - 1)) ret"
    obtain g iter' ret' m' where l: "field_loop bs (offset + sz - 1) eng area (area_fields area) 0 iter ret1 m1 = Inr (g, iter', ret', m')"
      "iter' \<le> offset + sz - 1"
      using field_loop_total [of iter "offset + sz - 1" bs] x(2) assms(1) body(3) by fastforce
    then have "slice bs iter' (offset + sz - 1 - iter') = Inr (take (offset + sz - 1 - iter') (drop iter' bs))"
      using body(3) by (simp add: slice_def)
    with head body x l assms(1) show ?thesis by (simp add: parse_body_def Let_def ret1_def del: split_paired_Ex)
  qed
qed

lemma parse_area_total:
  assumes "area_fits bs area" "area \<in> {fruAreaChassis, fruAreaBoard, fruAreaProduct}"
  shows "\<exists>x. parse_area epoch bs area ret m = Inr x"
  using assms(1)
  by (auto simp add: parse_area_def area_fits_def fruBlockSize_def Let_def simp del: split_paired_Ex
      intro!: parse_body_total [OF _ _ _ assms(2)])

theorem parse_total:
  assumes "\<forall>area \<in> set areas. area_fits bs area" "set areas \<subseteq> {fruAreaChassis, fruAreaBoard, fruAreaProduct}"
  shows "\<exists>x. parse_areas epoch bs areas ret m = Inr x"
  using assms
proof (induction areas arbitrary: ret m)
  case (Cons area areas)
  then obtain g ret' m' where "parse_area epoch bs area ret m = Inr (g, ret', m')"
    using parse_area_total [of bs area epoch ret m] by auto
  with Cons show ?case by simp
qed simp

section \<open>The contents are those of the EEPROM\<close>

lemma length_overlay [simp]: "length d \<le> length buf \<Longrightarrow> length (overlay d buf) = length buf"
  by (simp add: overlay_def)

lemma take_overlay: "length d = n \<Longrightarrow> take n (overlay d buf) = d"
  by (simp add: overlay_def)

lemma nth_overlay: "i < length d \<Longrightarrow> overlay d buf ! i = d ! i"
  by (simp add: overlay_def nth_append)

lemma read_into_rom:
  assumes "reader_inv mem r"
  obtains r' where "read_into (rom mem) off len buf r = (False, overlay (take len (drop off mem)) buf, r')" "reader_inv mem r'"
  using read_loop_rom [OF assms, of off len "[]"] by (auto simp: read_into_def FRUReader_read_def Let_def)

lemma findFRUHeader_rom:
  assumes "reader_inv mem r" "length buf = 32" "findFRUHeader (rom mem) base0 buf r = (found, base, buf', r')"
  shows "reader_inv mem r' \<and> length buf' = 32 \<and> (base = base0 \<or> base = 0x6000) \<and> (found \<longrightarrow> validateHeader buf') \<and>
    (base + 8 \<le> length mem \<longrightarrow> take 8 buf' = take 8 (drop base mem))"
  using assms
proof (induction "rom mem" base0 buf r rule: findFRUHeader.induct)
  case (1 base0 buf r)
  obtain r1 where r1: "read_into (rom mem) base0 8 buf r = (False, overlay (take 8 (drop base0 mem)) buf, r1)" "reader_inv mem r1"
    using read_into_rom 1(2) .
  let ?b = "overlay (take 8 (drop base0 mem)) buf"
  have b: "length ?b = 32" "base0 + 8 \<le> length mem \<Longrightarrow> take 8 ?b = take 8 (drop base0 mem)"
    using 1(3) by (simp_all add: take_overlay)
  show ?case
  proof (cases "\<not> validateHeader ?b \<and> base0 = 0 \<and> take 6 ?b = tyanHeader")
    case True
    with 1(4) r1 have "findFRUHeader (rom mem) 0x6000 ?b r1 = (found, base, buf', r')"
      by (subst (asm) findFRUHeader.simps) (simp split: if_splits)
    with 1(1) [OF r1(1) [symmetric] refl] True r1(2) b(1) show ?thesis by auto
  next
    case False
    with 1(4) r1 have "base = base0" "buf' = ?b" "r' = r1" "found \<longrightarrow> validateHeader ?b"
      by (subst (asm) findFRUHeader.simps; auto split: if_splits)+
    with r1(2) b show ?thesis by simp
  qed
qed

text \<open>Where the header is: at the start, or behind a vendor header.\<close>

definition fru_base :: "byte list \<Rightarrow> nat" where
  "fru_base mem = (if validateHeader (overlay (take 8 mem) (replicate 32 0)) then 0 else 0x6000)"

lemma findFRUHeader_base:
  assumes "reader_inv mem r" "findFRUHeader (rom mem) 0 (replicate 32 0) r = (True, base, buf', r')"
  shows "base = fru_base mem"
proof -
  obtain r1 where r1: "read_into (rom mem) 0 8 (replicate 32 0) r = (False, overlay (take 8 mem) (replicate 32 0), r1)"
    using read_into_rom [OF assms(1), of 0 8 "replicate 32 0"] by auto
  have "b = 0x6000" if "findFRUHeader (rom mem) 0x6000 buf1 r1 = (True, b, buf2, r2)" for buf1 b buf2 r2
    using that by (subst (asm) findFRUHeader.simps) (auto split: prod.splits if_splits)
  with assms(2) r1 show ?thesis
    by (subst (asm) findFRUHeader.simps) (auto simp: fru_base_def split: if_splits)
qed

definition area_span :: "byte list \<Rightarrow> nat \<Rightarrow> byte list \<Rightarrow> fruAreas \<Rightarrow> nat" where
  "area_span mem base device area =
     (let off = unat (device ! getHeaderAreaFieldOffset area) * 8 in off + unat (mem ! (base + off + 1)) * 8)"

lemma scan_areas_rom:
  assumes "scan_areas (rom mem) base device areas prev n buf r = Some (multi, n', buf', r')"
    "reader_inv mem r" "length buf = 32"
  shows "reader_inv mem r' \<and> length buf' = 32 \<and> n \<le> n' \<and>
    (\<forall>area \<in> set (takeWhile (\<lambda>a. a \<noteq> fruAreaMultirecord) areas).
       let off = unat (device ! getHeaderAreaFieldOffset area) * 8 in
       off \<noteq> 0 \<and> base + off + 2 \<le> length mem \<longrightarrow> area_span mem base device area \<le> n')"
  using assms
proof (induction areas arbitrary: prev n buf r)
  case (Cons area areas)
  let ?off = "unat (device ! getHeaderAreaFieldOffset area)"
  obtain r1 where r1: "read_into (rom mem) (base + ?off * 8) 2 buf r =
      (False, overlay (take 2 (drop (base + ?off * 8) mem)) buf, r1)" "reader_inv mem r1"
    using read_into_rom Cons.prems(2) .
  let ?b = "overlay (take 2 (drop (base + ?off * 8) mem)) buf"
  have b: "length ?b = 32" "base + ?off * 8 + 2 \<le> length mem \<Longrightarrow> ?b ! 1 = mem ! (base + ?off * 8 + 1)"
    using Cons.prems(3) by (simp_all add: nth_overlay)
  consider "?off = 0" "scan_areas (rom mem) base device areas prev n buf r = Some (multi, n', buf', r')"
    | "?off \<noteq> 0" "area = fruAreaMultirecord" "n' = n" "buf' = buf" "r' = r"
    | "?off \<noteq> 0" "area \<noteq> fruAreaMultirecord"
      "scan_areas (rom mem) base device areas ?off (max (?off * 8 + unat (?b ! 1) * 8) n) ?b r1 = Some (multi, n', buf', r')"
    using Cons.prems(1) r1(1) by (auto simp: Let_def fruBlockSize_def split: if_splits)
  then show ?case
  proof cases
    case 1
    with Cons.IH [OF 1(2) Cons.prems(2,3)] show ?thesis by auto
  next
    case 2
    with Cons.prems show ?thesis by simp
  next
    case 3
    from Cons.IH [OF 3(3) r1(2) b(1)] 3 b(2) show ?thesis by (auto simp: area_span_def Let_def)
  qed
qed simp

lemma multi_records_rom:
  assumes "multi_records (rom mem) base off n buf r = Some (n', buf', r')" "reader_inv mem r" "length buf = 32"
  shows "reader_inv mem r' \<and> length buf' = 32 \<and> n \<le> n'"
  using assms
proof (induction "rom mem" base off n buf r rule: multi_records.induct)
  case (1 base off n buf r)
  obtain r1 where r1: "read_into (rom mem) (base + off) 3 buf r = (False, overlay (take 3 (drop (base + off) mem)) buf, r1)"
    "reader_inv mem r1"
    using read_into_rom 1(3) .
  have "length (overlay (take 3 (drop (base + off) mem)) buf) = 32" using 1(4) by simp
  with 1 r1 show ?case by (subst (asm) (2) multi_records.simps) (fastforce simp: Let_def split: if_splits)
qed

lemma read_rest_rom:
  assumes "reader_inv mem r" "length buf = 32"
  shows "\<exists>rest. read_rest (rom mem) base pos n device buf r = Some (device @ rest) \<and> length rest = n \<and>
    (base + pos + n \<le> length mem \<longrightarrow> rest = take n (drop (base + pos) mem))"
  using assms
proof (induction "rom mem" base pos n device buf r rule: read_rest.induct)
  case (1 base pos n device buf r)
  show ?case
  proof (cases "n = 0")
    case True
    then show ?thesis by (subst read_rest.simps) simp
  next
    case False
    let ?k = "min 32 n"
    obtain r1 where r1: "read_into (rom mem) (base + pos) ?k buf r =
        (False, overlay (take ?k (drop (base + pos) mem)) buf, r1)" "reader_inv mem r1"
      using read_into_rom 1(2) .
    let ?b = "overlay (take ?k (drop (base + pos) mem)) buf"
    have b: "length ?b = 32" "length (take ?k ?b) = ?k" using 1(3) by simp_all
    obtain rest where rest: "read_rest (rom mem) base (pos + ?k) (n - ?k) (device @ take ?k ?b) ?b r1 = Some ((device @ take ?k ?b) @ rest)"
      "length rest = n - ?k" "base + pos + n \<le> length mem \<longrightarrow> rest = take (n - ?k) (drop (base + (pos + ?k)) mem)"
      using 1(1) [OF False refl r1(1) [symmetric] refl _ r1(2) b(1)] by auto
    have "take ?k ?b @ rest = take n (drop (base + pos) mem)" if "base + pos + n \<le> length mem"
    proof -
      have "take ?k ?b = take ?k (drop (base + pos) mem)" using that by (intro take_overlay) simp
      with rest(3) that show ?thesis using take_add [of ?k "n - ?k" "drop (base + pos) mem"]
        by (simp add: ac_simps)
    qed
    with rest r1 False b show ?thesis by (subst read_rest.simps) (simp add: Let_def)
  qed
qed

lemma validateHeader_cong:
  assumes "take 8 a = take 8 b"
  shows "validateHeader a = validateHeader b"
proof -
  have "a ! i = b ! i" if "i < 8" for i using assms that by (metis nth_take)
  moreover have "take 5 (drop 1 a) = take 5 (drop 1 b)" "take 7 a = take 7 b"
    using arg_cong [OF assms, of "\<lambda>x. take 5 (drop 1 x)"] arg_cong [OF assms, of "take 7"]
    by (simp_all add: drop_take)
  ultimately show ?thesis by (simp add: validateHeader_def)
qed

text \<open>
  What \<open>readFRUContents\<close> returns for an EEPROM: nothing, or contents with a valid header that are
  as long as the areas say and that are the bytes of the EEPROM if it has that many.
\<close>

lemma readFRUContents_rom:
  assumes dev: "readFRUContents (rom mem) FRUReader_new = dev" "dev \<noteq> []"
  defines "base \<equiv> fru_base mem"
  shows "8 \<le> length dev" "validateHeader dev"
    "base + length dev \<le> length mem \<Longrightarrow> dev = take (length dev) (drop base mem)"
    "\<And>area. area \<in> {fruAreaInternal, fruAreaChassis, fruAreaBoard, fruAreaProduct} \<Longrightarrow>
       unat (dev ! getHeaderAreaFieldOffset area) \<noteq> 0 \<Longrightarrow>
       base + unat (dev ! getHeaderAreaFieldOffset area) * 8 + 2 \<le> length mem \<Longrightarrow> area_span mem base dev area \<le> length dev"
proof -
  obtain found base' buf r1 where h': "findFRUHeader (rom mem) 0 (replicate 32 0) FRUReader_new = (found, base', buf, r1)"
    by (metis prod_cases4)
  with dev have found: "found" by (auto simp: readFRUContents_def split: if_splits)
  with h' have h: "findFRUHeader (rom mem) 0 (replicate 32 0) FRUReader_new = (True, base, buf, r1)"
    using findFRUHeader_base [OF reader_inv_new] by (simp add: base_def)
  from findFRUHeader_rom [OF reader_inv_new _ h] have header: "reader_inv mem r1" "length buf = 32" "validateHeader buf" "base + 8 \<le> length mem \<Longrightarrow> take 8 buf = take 8 (drop base mem)" by auto
  let ?d = "take 8 buf"
  obtain multi n buf1 r2 where s: "scan_areas (rom mem) base ?d all_areas 0 fruBlockSize buf r1 = Some (multi, n, buf1, r2)"
    using dev h by (auto simp: readFRUContents_def Let_def split: option.splits)
  from scan_areas_rom [OF s header(1,2)] have scan: "reader_inv mem r2" "length buf1 = 32" "8 \<le> n"
    "\<And>area. area \<in> {fruAreaInternal, fruAreaChassis, fruAreaBoard, fruAreaProduct} \<Longrightarrow>
       unat (?d ! getHeaderAreaFieldOffset area) \<noteq> 0 \<Longrightarrow>
       base + unat (?d ! getHeaderAreaFieldOffset area) * 8 + 2 \<le> length mem \<Longrightarrow> area_span mem base ?d area \<le> n"
    by (auto simp: fruBlockSize_def all_areas_def Let_def)
  obtain n' buf2 r3 where m: "(if multi then multi_records (rom mem) base (unat (?d ! getHeaderAreaFieldOffset fruAreaMultirecord) * fruBlockSize) n buf1 r2
      else Some (n, buf1, r2)) = Some (n', buf2, r3)"
    and dev': "dev = (case read_rest (rom mem) base fruBlockSize (n' - min fruBlockSize n') ?d buf2 r3 of None \<Rightarrow> [] | Some d \<Rightarrow> d)"
    using dev h s by (auto simp: readFRUContents_def Let_def split: option.splits)
  have rec: "reader_inv mem r3" "length buf2 = 32" "n \<le> n'"
    using m multi_records_rom [OF _ scan(1,2)] scan by (auto split: if_splits)
  obtain rest where rest: "dev = ?d @ rest" "length rest = n' - 8"
    "base + 8 + (n' - 8) \<le> length mem \<longrightarrow> rest = take (n' - 8) (drop (base + 8) mem)"
    using read_rest_rom [OF rec(1,2), of base 8 "n' - min 8 n'" ?d] dev' scan(3) rec(3) by (auto simp: fruBlockSize_def min_def)
  have len: "length dev = n'" and d8: "take 8 dev = take 8 buf"
    using rest(1,2) header(2) scan(3) rec(3) by simp_all
  have nth: "dev ! i = ?d ! i" if "i < 8" for i
    using rest(1) header(2) that by (simp add: nth_append)
  show "8 \<le> length dev" using len scan(3) rec(3) by simp
  show "validateHeader dev" using validateHeader_cong [OF d8] header(3) by simp
  show "dev = take (length dev) (drop base mem)" if "base + length dev \<le> length mem"
  proof -
    have "take (8 + (n' - 8)) (drop base mem) = take 8 (drop base mem) @ take (n' - 8) (drop (base + 8) mem)"
      by (simp add: take_add add.commute)
    with that rest(1,3) header(4) show ?thesis using scan(3) rec(3) unfolding len by simp
  qed
  fix area assume area: "area \<in> {fruAreaInternal, fruAreaChassis, fruAreaBoard, fruAreaProduct}"
    "unat (dev ! getHeaderAreaFieldOffset area) \<noteq> 0" "base + unat (dev ! getHeaderAreaFieldOffset area) * 8 + 2 \<le> length mem"
  have same: "dev ! getHeaderAreaFieldOffset area = ?d ! getHeaderAreaFieldOffset area"
    using nth [of "getHeaderAreaFieldOffset area"] by (cases area) simp_all
  with area scan(4) [of area] have "area_span mem base ?d area \<le> n" by simp
  with same len rec(3) show "area_span mem base dev area \<le> length dev" by (simp add: area_span_def)
qed


definition example_fru :: "byte list" where
  "example_fru =
     [1, 0, 1, 0, 0, 0, 0, 0xFE,
      1, 2, 0x17, 0xC2, 0x41, 0x42, 0x83, 0xA1, 0x38, 0x92, 0xC1, 0, 0, 0, 0, 0xF2]"

lemma example_contents: "readFRUContents (rom example_fru) FRUReader_new = example_fru"
  by code_simp

lemma example_base: "fru_base example_fru = 0"
  by code_simp




text \<open>
  An area that claims the length zero, at the place the header gives and with version 1, sends
  the checksum loop past the end of the contents: its end iterator lies before its start.
\<close>

theorem zero_length_area_overruns:
  assumes "unat (bs ! 2) * 8 + 8 < length bs" "bs ! 2 \<noteq> 0" "bs ! (unat (bs ! 2) * 8) = 1" "bs ! (unat (bs ! 2) * 8 + 1) = 0"
    and "\<forall>i \<in> {1, 3, 4, 5}. bs ! i \<noteq> bs ! 2"
  shows "formatIPMIFRU epoch bs = Inl Out_Of_Bounds"
proof -
  have "\<not> length bs \<le> 8" using assms(1) by simp
  moreover have "verifyOffset bs fruAreaChassis 0"
    using assms(1,5) by (auto simp: verifyOffset_def all_areas_def Let_def fruBlockSize_def simp flip: word_unat_eq_iff)
  then have "parse_area epoch bs fruAreaChassis ret m = Inl Out_Of_Bounds" for ret m
    using assms(1-4) by (simp add: parse_area_def parse_body_def fruBlockSize_def Let_def unat_gt_0)
  ultimately show ?thesis by (simp add: formatIPMIFRU_def fruBlockSize_def)
qed

theorem zero_length_area_overruns_witness:
  "formatIPMIFRU 820454400 ([1, 0, 1, 0, 0, 0, 0, 0xFE, 1, 0] @ replicate 14 0) = Inl Out_Of_Bounds"
  by (rule zero_length_area_overruns) simp_all

end
