(* ===== verification/Fru_Update.thy ===== *)
theory Fru_Update
  imports Fru_Data
begin

text \<open>
  Updating a FRU property (\<open>updateFRUProperty\<close> of \<open>entity-manager-mods/src/fru_device.cpp\<close>, with the
  helpers of \<open>fru_utils.cpp\<close>), built without area resizing, which is the default; \<open>writeFRU\<close> with its
  byte by byte writing over I2C; and the names under which contents are published.

  The theorems: an update refines the replacement of one field in the list of fields of an area,
  with a correct length and checksum, and touches nothing outside the area; writing reaches every
  byte or fails; and what reading back does not do.
\<close>

section \<open>Fields and areas\<close>

text \<open>\<open>getFieldLength\<close> is \<open>-1\<close> at the end of the fields, here \<open>None\<close>.\<close>

definition getFieldLength :: "byte \<Rightarrow> nat option" where
  "getFieldLength c = (if c = 0xC1 then None else Some (unat (c AND 0x3F)))"

record FruArea =
  fa_start :: nat
  fa_size :: nat
  fa_end :: nat
  fa_updateFieldLoc :: nat
  fa_restFieldsLoc :: nat
  fa_restFieldsEnd :: nat

fun str_find :: "string \<Rightarrow> string \<Rightarrow> nat option" where
  "str_find pat s =
     (if take (length pat) s = pat then Some 0
      else case s of [] \<Rightarrow> None | _ # r \<Rightarrow> map_option Suc (str_find pat r))"

declare str_find.simps [simp del]

fun area_named :: "string \<Rightarrow> fruAreas list \<Rightarrow> fruAreas option" where
  "area_named s [] = None"
| "area_named s (a # as) = (if getFruAreaName a = s then Some a else area_named s as)"

fun index_of :: "string \<Rightarrow> string list \<Rightarrow> nat option" where
  "index_of x [] = None"
| "index_of x (y # ys) = (if x = y then Some 0 else map_option Suc (index_of x ys))"

text \<open>The number of fields up to and including the one with the name; a negative number in a custom name wraps.\<close>

definition field_number :: "string \<Rightarrow> string \<Rightarrow> string list \<Rightarrow> nat option res" where
  "field_number propertyName pre names =
     (case index_of propertyName (map (\<lambda>f. pre @ f) names) of
        Some i \<Rightarrow> Inr (Some (i + 1))
      | None \<Rightarrow>
          (case str_find fruCustomFieldName propertyName of
             None \<Rightarrow> Inr None
           | Some pos \<Rightarrow>
               rbind (stoi (drop (pos + length fruCustomFieldName) propertyName)) (\<lambda>n.
                 Inr (if n = 0 then None else Some (nat ((int (length names) + n) mod 2 ^ 64))))))"

text \<open>The loop over the preceding fields; it stops at the end of the fields and does nothing behind the data.\<close>

fun skip_fields :: "byte list \<Rightarrow> nat \<Rightarrow> nat \<Rightarrow> nat" where
  "skip_fields bs 0 iter = iter"
| "skip_fields bs (Suc n) iter =
     (if iter < length bs then
        case getFieldLength (bs ! iter) of
          None \<Rightarrow> iter
        | Some len \<Rightarrow> skip_fields bs n (iter + 1 + len)
      else skip_fields bs n iter)"

fun fixed_part :: "fruAreas \<Rightarrow> nat option" where
  "fixed_part fruAreaChassis = Some 3"
| "fixed_part fruAreaBoard = Some 6"
| "fixed_part fruAreaProduct = Some 3"
| "fixed_part _ = None"

definition findFruAreaLocationAndField :: "byte list \<Rightarrow> string \<Rightarrow> FruArea option res" where
  "findFruAreaLocationAndField fruData propertyName =
     (let areaName = takeWhile (\<lambda>c. c \<noteq> CHR ''_'') propertyName in
      case area_named areaName all_areas of
        None \<Rightarrow> Inr None
      | Some area \<Rightarrow>
          rbind (vec_at fruData (getHeaderAreaFieldOffset area)) (\<lambda>v.
            case fixed_part area of
              None \<Rightarrow> Inr None
            | Some offset \<Rightarrow>
                if v = 0 then Inr None
                else
                  let start = unat v * fruBlockSize in
                  rbind (vec_at fruData (start + 1)) (\<lambda>l.
                    let sz = unat l * fruBlockSize in
                    rbind (field_number propertyName (areaName @ ''_'') (area_fields area)) (\<lambda>number.
                      Inr (map_option (\<lambda>n.
                        \<lparr>fa_start = start, fa_size = sz, fa_end = start + sz,
                         fa_updateFieldLoc = skip_fields fruData (n - 1) (start + offset),
                         fa_restFieldsLoc = 0, fa_restFieldsEnd = 0\<rparr>) number)))))"

text \<open>The loop of \<open>copyRestFRUArea\<close> to the end of the fields.\<close>

function fields_end :: "byte list \<Rightarrow> nat \<Rightarrow> nat \<Rightarrow> nat res" where
  "fields_end bs area_end iter =
     rbind (vec_at bs iter) (\<lambda>c.
       case getFieldLength c of
         None \<Rightarrow> Inr iter
       | Some len \<Rightarrow> if iter \<ge> area_end then Inr area_end else fields_end bs area_end (iter + 1 + len))"
  by pat_completeness auto
termination
  by (relation "measure (\<lambda>(bs, area_end, iter). area_end - iter)") auto

declare fields_end.simps [simp del]

text \<open>The rest of the fields with the end marker; the count of bytes to copy is unsigned.\<close>

definition copyRestFRUArea :: "byte list \<Rightarrow> FruArea \<Rightarrow> (FruArea \<times> byte list) option res" where
  "copyRestFRUArea fruData a =
     rbind (vec_at fruData (fa_updateFieldLoc a)) (\<lambda>c.
       case getFieldLength c of
         None \<Rightarrow> Inr None
       | Some len \<Rightarrow>
           let restLoc = fa_updateFieldLoc a + 1 + len in
           rbind (if restLoc < length fruData then fields_end fruData (fa_start a + fa_size a) restLoc else Inr 0) (\<lambda>endLoc.
             if restLoc \<le> endLoc + 1 then
               rbind (slice fruData restLoc (endLoc + 1 - restLoc)) (\<lambda>rest.
                 Inr (Some (a\<lparr>fa_restFieldsLoc := restLoc, fa_restFieldsEnd := endLoc\<rparr>, rest)))
             else Inl Out_Of_Bounds))"

section \<open>The update\<close>

definition put_at :: "byte list \<Rightarrow> nat \<Rightarrow> byte list \<Rightarrow> byte list res" where
  "put_at bs i xs = (if i + length xs \<le> length bs then Inr (take i bs @ xs @ drop (i + length xs) bs) else Inl Out_Of_Bounds)"

definition updateFRUAreaLenAndChecksum :: "byte list \<Rightarrow> nat \<Rightarrow> nat \<Rightarrow> nat \<Rightarrow> byte list res" where
  "updateFRUAreaLenAndChecksum fruData fruAreaStart fruAreaEndOfFieldsOffset fruAreaEndOffset =
     (if fruAreaEndOffset < fruAreaEndOfFieldsOffset then Inl Out_Of_Bounds
      else
        rbind (put_at fruData fruAreaEndOfFieldsOffset (replicate (fruAreaEndOffset - fruAreaEndOfFieldsOffset) 0)) (\<lambda>d.
          let used = fruAreaEndOfFieldsOffset - fruAreaStart; r = used mod fruBlockSize;
              used' = used + (fruBlockSize - r);
              checksumLoc = fruAreaEndOfFieldsOffset + (fruBlockSize - r - 1);
              newFRUAreaLen = used' div fruBlockSize + (if used' mod fruBlockSize \<noteq> 0 then 1 else 0) in
          rbind (put_at d (fruAreaStart + 1) [of_nat newFRUAreaLen]) (\<lambda>d.
          rbind (slice d fruAreaStart (checksumLoc - fruAreaStart)) (\<lambda>finalFRUData.
            put_at d checksumLoc [calculateChecksum finalFRUData]))))"

fun next_area :: "byte list \<Rightarrow> nat \<Rightarrow> fruAreas list \<Rightarrow> nat \<Rightarrow> nat" where
  "next_area bs e [] loc = loc"
| "next_area bs e (area # areas) loc =
     (let l = unat (bs ! getHeaderAreaFieldOffset area) * fruBlockSize in
      next_area bs e areas (if l > e \<and> (loc = 0 \<or> l < loc) then l else loc))"

text \<open>
  \<open>updateFRUProperty\<close> up to the writing: the new contents, or \<open>None\<close> where it returns false. The
  available size is a difference of unsigned numbers.
\<close>

definition update_contents :: "string \<Rightarrow> byte list \<Rightarrow> string \<Rightarrow> byte list option res" where
  "update_contents req fruData propertyName =
     rbind (findFruAreaLocationAndField fruData propertyName) (\<lambda>found.
       case found of None \<Rightarrow> Inr None | Some a0 \<Rightarrow>
     rbind (copyRestFRUArea fruData a0) (\<lambda>copied.
       case copied of None \<Rightarrow> Inr None | Some (a, rest) \<Rightarrow>
         let nextFRUAreaLoc = next_area fruData (fa_restFieldsEnd a) all_areas 0 in
         if nextFRUAreaLoc > length fruData then Inl Out_Of_Bounds
         else
           let loc = fa_updateFieldLoc a;
               fruAreaDataSize = (loc - fa_start a + 1) + length rest;
               available = nat ((int (fa_size a) - int fruAreaDataSize) mod 2 ^ 64) in
           if length req + 1 > available then Inr None
           else
             rbind (put_at fruData loc ((of_nat (length req) OR 0xC0) # map of_char req)) (\<lambda>d.
             rbind (put_at d (loc + 1 + length req) rest) (\<lambda>d.
             rbind (updateFRUAreaLenAndChecksum d (fa_start a) (loc + 1 + length req + length rest) (fa_end a)) (\<lambda>d.
               Inr (if d = [] then None else Some d))))))"

section \<open>An area as a list of fields\<close>

text \<open>A field as it is stored: the type and length byte, which is not the end marker, and as many bytes.\<close>

definition field_ok :: "byte list \<Rightarrow> bool" where
  "field_ok f \<longleftrightarrow> (case f of [] \<Rightarrow> False | c # ds \<Rightarrow> getFieldLength c = Some (length ds))"

lemma field_okE:
  assumes "field_ok f"
  obtains c ds where "f = c # ds" "getFieldLength c = Some (length ds)"
  using assms by (auto simp: field_ok_def split: list.splits)

text \<open>A new value is stored as text.\<close>

definition text_field :: "string \<Rightarrow> byte list" where
  "text_field s = (of_nat (length s) OR 0xC0) # map of_char s"

lemma text_bytes:
  "list_all (\<lambda>n. unat ((of_nat n OR 0xC0 :: byte) AND 0x3F) = n \<and> unat (drop_bit 6 (of_nat n OR 0xC0 :: byte)) = 3 \<and>
     ((of_nat n OR 0xC0 :: byte) = 0xC1 \<longleftrightarrow> n = 1)) [0..<64]"
  by code_simp

lemma text_byte:
  assumes "n \<le> 63"
  shows "unat ((of_nat n OR 0xC0 :: byte) AND 0x3F) = n" "unat (drop_bit 6 (of_nat n OR 0xC0 :: byte)) = 3"
    "(of_nat n OR 0xC0 :: byte) = 0xC1 \<longleftrightarrow> n = 1"
  using text_bytes assms unfolding list_all_iff by auto

lemma text_field_ok: "length s \<le> 63 \<Longrightarrow> length s \<noteq> 1 \<Longrightarrow> field_ok (text_field s)"
  by (simp add: field_ok_def text_field_def getFieldLength_def text_byte)

lemma skip_fields_all:
  assumes "\<forall>f \<in> set fs. field_ok f"
  shows "skip_fields (pre @ concat fs @ rest) (length fs) (length pre) = length pre + length (concat fs)"
  using assms
proof (induction fs arbitrary: pre)
  case (Cons f fs)
  then obtain c ds where f: "f = c # ds" "getFieldLength c = Some (length ds)" by (auto elim: field_okE)
  then show ?case using Cons.IH [of "pre @ f"] Cons.prems by (simp add: nth_append)
qed simp

lemma fields_end_all:
  assumes "\<forall>f \<in> set fs. field_ok f" "length pre + length (concat fs) < area_end"
  shows "fields_end (pre @ concat fs @ 0xC1 # rest) area_end (length pre) = Inr (length pre + length (concat fs))"
  using assms
proof (induction fs arbitrary: pre)
  case Nil
  then show ?case by (subst fields_end.simps) (simp add: vec_at_def getFieldLength_def)
next
  case (Cons f fs)
  then obtain c ds where f: "f = c # ds" "getFieldLength c = Some (length ds)" by (auto elim: field_okE)
  then have "fields_end (pre @ f @ concat fs @ 0xC1 # rest) area_end (length pre + 1 + length ds) =
      Inr (length pre + length f + length (concat fs))"
    using Cons.IH [of "pre @ f"] Cons.prems by simp
  with f Cons.prems(2) show ?case by (subst fields_end.simps) (simp add: vec_at_def nth_append)
qed

lemma put_at_area:
  "i + length x \<le> length area \<Longrightarrow>
   put_at (pre @ area @ post) (length pre + i) x = Inr (pre @ (take i area @ x @ drop (i + length x) area) @ post)"
  by (simp add: put_at_def)

text \<open>
  The length and checksum of an area whose fields take \<open>u\<close> bytes: the area is cut to as many blocks
  as the fields and the checksum need, and its bytes sum up to zero.
\<close>

definition closed_area :: "byte list \<Rightarrow> nat \<Rightarrow> byte list" where
  "closed_area used sz =
     (let n = length used div 8 + 1; body = used[1 := of_nat n] @ replicate (n * 8 - 1 - length used) 0 in
      body @ [- sum_list body] @ replicate (sz - n * 8) 0)"

lemma blocks_fit:
  assumes "8 dvd sz" "u < (sz :: nat)"
  shows "(u div 8 + 1) * 8 \<le> sz" "u < (u div 8 + 1) * 8"
proof -
  obtain k where "sz = 8 * k" using assms(1) by blast
  with assms(2) show "(u div 8 + 1) * 8 \<le> sz" "u < (u div 8 + 1) * 8" by presburger+
qed

lemma block_arith:
  fixes u :: nat
  shows "u + (8 - u mod 8) = (u div 8 + 1) * 8" "u + (8 - u mod 8 - 1) = (u div 8 + 1) * 8 - 1"
    "k + (u + 7) - u mod 8 = k + (u div 8 + 1) * 8 - 1"
proof -
  define q r where "q = u div 8" and "r = u mod 8"
  have "u = 8 * q + r" "r < 8" by (simp_all add: q_def r_def)
  then show "u + (8 - u mod 8) = (u div 8 + 1) * 8" "u + (8 - u mod 8 - 1) = (u div 8 + 1) * 8 - 1"
    "k + (u + 7) - u mod 8 = k + (u div 8 + 1) * 8 - 1"
    unfolding q_def [symmetric] r_def [symmetric] by auto
qed

lemma updateFRUAreaLenAndChecksum_closed:
  assumes "8 dvd length (used @ pad)" "pad \<noteq> []" "2 \<le> length used"
  shows "updateFRUAreaLenAndChecksum (pre @ (used @ pad) @ post) (length pre) (length pre + length used)
      (length pre + length (used @ pad)) = Inr (pre @ closed_area used (length (used @ pad)) @ post)"
proof -
  define u sz n where "u = length used" and "sz = length (used @ pad)" and "n = u div 8 + 1"
  have "u < sz" using assms(2) by (simp add: u_def sz_def)
  note fits = blocks_fit [OF assms(1) [folded sz_def] this, folded n_def]
  have u: "u + (8 - u mod 8) = n * 8" "u + (8 - u mod 8 - 1) = n * 8 - 1"
    "k + (u + 7) - u mod 8 = k + n * 8 - Suc 0" for k
    using block_arith [of u] by (simp_all add: n_def)
  define z where "z = replicate (sz - u) (0 :: byte)"
  have z: "z = replicate (n * 8 - 1 - u) 0 @ [0] @ replicate (sz - n * 8) 0"
    unfolding z_def using fits by (simp flip: replicate_add replicate_Suc replicate_app_Cons_same)
  have 1: "put_at (pre @ (used @ pad) @ post) (length pre + u) z = Inr (pre @ (used @ z) @ post)"
    using put_at_area [of u z "used @ pad" pre post] by (simp add: z_def u_def sz_def)
  define area2 where "area2 = used[1 := of_nat n] @ z"
  have len2: "length area2 = sz" by (simp add: area2_def z_def u_def sz_def)
  have 2: "put_at (pre @ (used @ z) @ post) (length pre + 1) [of_nat n] = Inr (pre @ area2 @ post)"
    using put_at_area [of 1 "[of_nat n]" "used @ z" pre post] assms(3)
    by (simp add: area2_def upd_conv_take_nth_drop list_update_append1 [symmetric])
  define body where "body = used[1 := of_nat n] @ replicate (n * 8 - 1 - u) (0 :: byte)"
  have body: "area2 = body @ [0] @ replicate (sz - n * 8) 0" "length body = n * 8 - 1"
    using fits(2) by (simp_all add: area2_def body_def z u_def [symmetric])
  have 3: "slice (pre @ area2 @ post) (length pre) (n * 8 - 1) = Inr body"
    using body by (simp add: slice_def)
  have closed: "closed_area used sz = body @ [- sum_list body] @ replicate (sz - n * 8) 0"
    by (simp only: closed_area_def body_def n_def u_def Let_def)
  have 4: "put_at (pre @ area2 @ post) (length pre + (n * 8 - 1)) [calculateChecksum body] = Inr (pre @ closed_area used sz @ post)"
    using put_at_area [of "n * 8 - 1" "[calculateChecksum body]" area2 pre post] body fits len2
    by (simp add: closed calculateChecksum_uminus)
  have "n * 8 div 8 + (if n * 8 mod 8 \<noteq> 0 then 1 else 0) = n" by simp
  with 1 2 3 4 u \<open>u < sz\<close> show ?thesis unfolding u_def [symmetric] sz_def [symmetric]
    by (simp add: updateFRUAreaLenAndChecksum_def fruBlockSize_def Let_def z_def add.assoc)
qed

lemma length_closed_area:
  assumes "8 dvd sz" "length used < sz"
  shows "length (closed_area used sz) = sz"
  using blocks_fit [OF assms] by (simp add: closed_area_def Let_def)

lemma closed_area_checksum:
  assumes "8 dvd sz" "length used < sz" "sz \<le> 2040" "2 \<le> length used"
  shows "sum_list (take (unat (closed_area used sz ! 1) * 8) (closed_area used sz)) = 0"
proof -
  define n where "n = length used div 8 + 1"
  note fits = blocks_fit [OF assms(1,2), folded n_def]
  have "unat (of_nat n :: byte) = n" using fits(1) assms(3) by (simp add: unat_of_nat take_bit_eq_mod)
  moreover have "closed_area used sz ! 1 = of_nat n" using assms(4)
    by (simp add: closed_area_def Let_def nth_append n_def)
  ultimately show ?thesis using fits(2)
    by (simp add: closed_area_def Let_def n_def [simplified, symmetric])
qed

section \<open>An update replaces one field\<close>

text \<open>
  The abstract view of an area: its fixed part and its fields, behind them the end marker and what
  fills the area up.
\<close>

definition fru_area :: "byte list \<Rightarrow> byte list list \<Rightarrow> byte list \<Rightarrow> byte list" where
  "fru_area fixed fs pad = fixed @ concat fs @ 0xC1 # pad"

lemma area_of_name:
  "takeWhile (\<lambda>c. c \<noteq> CHR ''_'') (getFruAreaName area @ CHR ''_'' # s) = getFruAreaName area"
  "area_named (getFruAreaName area) all_areas = Some area"
  by (cases area; simp add: all_areas_def)+

lemma index_of_nth: "distinct xs \<Longrightarrow> i < length xs \<Longrightarrow> index_of (xs ! i) xs = Some i"
  by (induction xs arbitrary: i) (auto simp: nth_Cons split: nat.split)

lemma field_number_name:
  assumes "k < length (area_fields area)"
  shows "field_number (field_name area (area_fields area) k) (getFruAreaName area @ ''_'') (area_fields area) = Inr (Some (k + 1))"
proof -
  let ?ns = "map (\<lambda>f. (getFruAreaName area @ ''_'') @ f) (area_fields area)"
  have "distinct (area_fields area)"
    by (cases area) (simp_all add: chassisFruAreas_def boardFruAreas_def productFruAreas_def)
  then have "distinct ?ns" by (simp add: distinct_map inj_on_def)
  moreover have "field_name area (area_fields area) k = ?ns ! k" using assms by (simp add: field_name_def)
  ultimately show ?thesis using index_of_nth [of ?ns k] assms by (simp add: field_number_def)
qed

lemma next_area_le:
  "\<forall>a \<in> set areas. unat (bs ! getHeaderAreaFieldOffset a) * 8 \<le> n \<Longrightarrow> loc \<le> n \<Longrightarrow> next_area bs e areas loc \<le> n"
  by (induction areas arbitrary: loc) (auto simp: fruBlockSize_def Let_def)

lemma find_field:
  assumes bs: "bs = pre @ fru_area fixed fs pad @ post" and "fixed_part area = Some (length fixed)"
    and "length pre = unat (bs ! getHeaderAreaFieldOffset area) * 8" "pre \<noteq> []"
    and "\<forall>f \<in> set fs. field_ok f" "k < length fs" "k < length (area_fields area)"
  shows "findFruAreaLocationAndField bs (field_name area (area_fields area) k) =
    Inr (Some \<lparr>fa_start = length pre, fa_size = unat (fixed ! 1) * 8, fa_end = length pre + unat (fixed ! 1) * 8,
      fa_updateFieldLoc = length pre + length fixed + length (concat (take k fs)), fa_restFieldsLoc = 0, fa_restFieldsEnd = 0\<rparr>)"
proof -
  have fixed: "2 < length fixed" using assms(2) by (cases area) auto
  have "length pre \<ge> 8" using assms(3,4) by (cases "unat (bs ! getHeaderAreaFieldOffset area)") auto
  then have head: "getHeaderAreaFieldOffset area < length bs" using bs by (cases area) auto
  have one: "length pre + 1 < length bs" "bs ! (length pre + 1) = fixed ! 1"
    using bs fixed by (auto simp: fru_area_def nth_append)
  have v: "bs ! getHeaderAreaFieldOffset area \<noteq> 0" using assms(3,4) by auto
  have "fs = take k fs @ drop k fs" by simp
  then have "bs = (pre @ fixed) @ concat (take k fs) @ concat (drop k fs) @ 0xC1 # pad @ post"
    using bs unfolding fru_area_def by (metis append.assoc append_Cons concat_append)
  moreover have "\<forall>f \<in> set (take k fs). field_ok f" using assms(5) by (meson in_set_takeD)
  ultimately have "skip_fields bs k (length pre + length fixed) = length pre + length fixed + length (concat (take k fs))"
    using skip_fields_all [of "take k fs" "pre @ fixed"] assms(6) by simp
  with head one v show ?thesis
    using area_of_name [of area] field_number_name [OF assms(7)] assms(2,3)
    by (simp add: findFruAreaLocationAndField_def field_name_def Let_def fruBlockSize_def)
qed

lemma copy_rest:
  assumes bs: "bs = pre @ fru_area fixed fs pad @ post" and "\<forall>f \<in> set fs. field_ok f" "k < length fs"
    and "length (fru_area fixed fs pad) = fa_size a" "fa_start a = length pre"
    and "fa_updateFieldLoc a = length pre + length fixed + length (concat (take k fs))"
  shows "\<exists>rl re. copyRestFRUArea bs a =
    Inr (Some (a\<lparr>fa_restFieldsLoc := rl, fa_restFieldsEnd := re\<rparr>, concat (drop (Suc k) fs) @ [0xC1]))"
proof -
  let ?before = "pre @ fixed @ concat (take k fs)"
  have ok: "field_ok (fs ! k)" "\<forall>f \<in> set (drop (Suc k) fs). field_ok f"
    using assms(2,3) by (auto dest: in_set_dropD)
  then obtain c ds where f: "fs ! k = c # ds" "getFieldLength c = Some (length ds)" by (auto elim: field_okE)
  have "fs = take k fs @ fs ! k # drop (Suc k) fs" using assms(3) by (simp add: id_take_nth_drop)
  then have conc: "concat fs = concat (take k fs) @ fs ! k @ concat (drop (Suc k) fs)"
    by (metis concat.simps(2) concat_append)
  have bs': "bs = ?before @ fs ! k @ concat (drop (Suc k) fs) @ 0xC1 # pad @ post"
    by (simp add: bs fru_area_def conc)
  have c: "vec_at bs (fa_updateFieldLoc a) = Inr c"
    unfolding bs' by (simp add: vec_at_def assms(6) f nth_append)
  let ?rl = "fa_updateFieldLoc a + 1 + length ds"
  have rl: "?rl = length (?before @ fs ! k)" by (simp add: assms(6) f)
  have sz: "length (?before @ fs ! k) + length (concat (drop (Suc k) fs)) < fa_start a + fa_size a"
    using assms(4,5) by (simp add: fru_area_def conc)
  have e: "fields_end bs (fa_start a + fa_size a) ?rl = Inr (?rl + length (concat (drop (Suc k) fs)))"
    using fields_end_all [OF ok(2) sz, of "pad @ post"] unfolding rl by (simp add: bs')
  have s: "slice bs ?rl (?rl + length (concat (drop (Suc k) fs)) + 1 - ?rl) = Inr (concat (drop (Suc k) fs) @ [0xC1])"
    unfolding rl by (simp add: bs' slice_def)
  have "?rl < length bs" unfolding rl by (simp add: bs')
  with c f e s show ?thesis by (auto simp: copyRestFRUArea_def Let_def)
qed

text \<open>The bytes written over the area: the new field and the fields behind it, within the old area.\<close>

lemma overwrite_area:
  assumes "k < length fs" "length (fru_area fixed (fs[k := new]) []) \<le> length (fru_area fixed fs pad)"
  obtains d pad' where
    "put_at (pre @ fru_area fixed fs pad @ post) (length pre + length fixed + length (concat (take k fs))) new = Inr d"
    "put_at d (length pre + length fixed + length (concat (take k fs)) + length new) (concat (drop (Suc k) fs) @ [0xC1]) =
       Inr (pre @ (fru_area fixed (fs[k := new]) [] @ pad') @ post)"
    "length (fru_area fixed (fs[k := new]) [] @ pad') = length (fru_area fixed fs pad)"
proof -
  define h rest tl where "h = fixed @ concat (take k fs)" and "rest = concat (drop (Suc k) fs) @ [0xC1]"
    and "tl = fs ! k @ rest @ pad"
  have "fs = take k fs @ fs ! k # drop (Suc k) fs" using assms(1) by (simp add: id_take_nth_drop)
  then have old: "fru_area fixed fs pad = h @ tl"
    unfolding fru_area_def h_def tl_def rest_def
    by (metis append.assoc append_Cons append_Nil concat.simps(2) concat_append)
  have new: "fru_area fixed (fs[k := new]) [] = h @ new @ rest"
    using assms(1) by (simp add: fru_area_def upd_conv_take_nth_drop h_def rest_def)
  have fits: "length new + length rest \<le> length tl" using assms(2) unfolding old new by simp
  let ?d = "pre @ (h @ new @ drop (length new) tl) @ post"
  have 1: "put_at (pre @ (h @ tl) @ post) (length pre + length h) new = Inr ?d"
    using put_at_area [of "length h" new "h @ tl" pre post] fits by simp
  have 2: "put_at ?d (length pre + (length h + length new)) rest =
      Inr (pre @ (fru_area fixed (fs[k := new]) [] @ drop (length new + length rest) tl) @ post)"
    unfolding new using put_at_area [of "length (h @ new)" rest "h @ new @ drop (length new) tl" pre post] fits
    by (simp add: add.commute)
  have h: "length pre + length fixed + length (concat (take k fs)) = length pre + length h"
    "length pre + length fixed + length (concat (take k fs)) + length new = length pre + (length h + length new)"
    by (simp_all add: h_def)
  show thesis
  proof (rule that)
    show "put_at (pre @ fru_area fixed fs pad @ post) (length pre + length fixed + length (concat (take k fs))) new = Inr ?d"
      using 1 unfolding h old .
    show "put_at ?d (length pre + length fixed + length (concat (take k fs)) + length new) (concat (drop (Suc k) fs) @ [0xC1]) =
        Inr (pre @ (fru_area fixed (fs[k := new]) [] @ drop (length new + length rest) tl) @ post)"
      using 2 unfolding h(2) rest_def .
    show "length (fru_area fixed (fs[k := new]) [] @ drop (length new + length rest) tl) = length (fru_area fixed fs pad)"
      using fits by (simp add: old new)
  qed
qed

lemma size_difference:
  assumes "m \<le> n" "n < 2 ^ 64"
  shows "nat ((int n - int m) mod 2 ^ 64) = n - m"
proof -
  have "(int n - int m) mod 2 ^ 64 = int n - int m"
    using assms by (intro mod_pos_pos_trivial) auto
  then show ?thesis by simp
qed

lemma update_contents_located:
  assumes "findFruAreaLocationAndField bs name = Inr (Some a0)" "copyRestFRUArea bs a0 = Inr (Some (a, rest))"
    and "\<not> next_area bs (fa_restFieldsEnd a) all_areas 0 > length bs"
    and "nat ((int (fa_size a) - int (fa_updateFieldLoc a - fa_start a + 1 + length rest)) mod 2 ^ 64) = available"
  shows "update_contents req bs name =
    (if length req + 1 > available then Inr None
     else rbind (put_at bs (fa_updateFieldLoc a) (text_field req)) (\<lambda>d.
          rbind (put_at d (fa_updateFieldLoc a + 1 + length req) rest) (\<lambda>d.
          rbind (updateFRUAreaLenAndChecksum d (fa_start a) (fa_updateFieldLoc a + 1 + length req + length rest) (fa_end a)) (\<lambda>d.
            Inr (if d = [] then None else Some d)))))"
  unfolding update_contents_def assms(1,2) rbind_simps option.case prod.case Let_def text_field_def assms(4)
  using assms(3) by simp

text \<open>
  C13. On the contents of a well-formed area, \<open>updateFRUProperty\<close> refines the replacement of one element
  in the list of fields: the \<open>k\<close>-th field becomes the new text, all other fields, and all bytes
  outside the area, are kept, the area gets the length its fields need, zeros behind them, and a
  checksum byte. It does so exactly when the new field leaves room for a checksum.
\<close>

theorem update_replaces_field:
  fixes req :: string
  assumes bs: "bs = pre @ fru_area fixed fs pad @ post" and "fixed_part area = Some (length fixed)"
    and "length pre = unat (bs ! getHeaderAreaFieldOffset area) * 8" "pre \<noteq> []"
    and sz: "length (fru_area fixed fs pad) = unat (fixed ! 1) * 8"
    and fs: "\<forall>f \<in> set fs. field_ok f" "k < length fs" "k < length (area_fields area)"
    and "\<forall>a \<in> set all_areas. unat (bs ! getHeaderAreaFieldOffset a) * 8 \<le> length bs"
  defines "used \<equiv> fru_area fixed (fs[k := text_field req]) []"
  shows "update_contents req bs (field_name area (area_fields area) k) =
    Inr (if length used < unat (fixed ! 1) * 8 then Some (pre @ closed_area used (unat (fixed ! 1) * 8) @ post) else None)"
proof -
  let ?loc = "length pre + length fixed + length (concat (take k fs))" and ?sz = "unat (fixed ! 1) * 8"
    and ?rest = "concat (drop (Suc k) fs) @ [0xC1 :: byte]"
  define a0 where "a0 = \<lparr>fa_start = length pre, fa_size = ?sz, fa_end = length pre + ?sz,
    fa_updateFieldLoc = ?loc, fa_restFieldsLoc = 0, fa_restFieldsEnd = 0\<rparr>"
  have a0: "findFruAreaLocationAndField bs (field_name area (area_fields area) k) = Inr (Some a0)"
    unfolding a0_def by (rule find_field) (use assms in simp_all)
  obtain rl re where cr: "copyRestFRUArea bs a0 = Inr (Some (a0\<lparr>fa_restFieldsLoc := rl, fa_restFieldsEnd := re\<rparr>, ?rest))"
    using copy_rest [OF bs fs(1,2), of a0] sz by (auto simp: a0_def)
  have nx: "\<not> next_area bs re all_areas 0 > length bs" using next_area_le [OF assms(9), of 0] by (simp add: not_less)
  have used: "length used = length fixed + length (concat (take k fs)) + (length req + 1) + length ?rest"
    using fs(2) by (simp add: used_def fru_area_def upd_conv_take_nth_drop text_field_def)
  have "length (concat fs) = length (concat (take k fs)) + length (fs ! k) + length (concat (drop (Suc k) fs))"
    using fs(2) arg_cong [OF id_take_nth_drop [OF fs(2)], of "\<lambda>x. length (concat x)"] by simp
  moreover have "1 \<le> length (fs ! k)" using fs(1,2) by (metis One_nat_def Suc_leI field_okE length_Cons nth_mem zero_less_Suc)
  ultimately have data: "length fixed + length (concat (take k fs)) + 1 + length ?rest \<le> ?sz"
    using sz by (simp add: fru_area_def)
  have "?sz < 2048" using unat_byte_less [of "fixed ! 1"] by linarith
  then have "?sz < 2 ^ 64" by (rule less_le_trans) simp
  then have avail: "nat ((int ?sz - int (?loc - length pre + 1 + length ?rest)) mod 2 ^ 64) =
      ?sz - (length fixed + length (concat (take k fs)) + 1 + length ?rest)"
    using data size_difference [of "?loc - length pre + 1 + length ?rest" ?sz] by (simp del: of_nat_mult)
  note upd = update_contents_located [OF a0 cr, unfolded a0_def FruArea.simps, OF nx avail]
  show ?thesis
  proof (cases "length used < ?sz")
    case False
    then have "length req + 1 > ?sz - (length fixed + length (concat (take k fs)) + 1 + length ?rest)" using used data by linarith
    with False show ?thesis by (simp only: upd if_True if_False)
  next
    case True
    then have "length used \<le> length (fru_area fixed fs pad)" using sz by simp
    then obtain d pad' where d:
      "put_at bs ?loc (text_field req) = Inr d"
      "put_at d (?loc + length (text_field req)) ?rest = Inr (pre @ (used @ pad') @ post)"
      "length (used @ pad') = ?sz"
      using overwrite_area [OF fs(2), of fixed "text_field req" pad pre post] sz unfolding bs used_def by metis
    have up: "updateFRUAreaLenAndChecksum (pre @ (used @ pad') @ post) (length pre) (length pre + length used) (length pre + ?sz) =
        Inr (pre @ closed_area used ?sz @ post)"
      unfolding d(3) [symmetric] 
      by (rule updateFRUAreaLenAndChecksum_closed) (use d(3) True used in auto)
    have pos: "?loc + length (text_field req) = ?loc + 1 + length req" "length pre + length used = ?loc + 1 + length req + length ?rest"
      using used by (simp_all add: text_field_def)
    note steps = d(1) [unfolded text_field_def] d(2) [unfolded pos(1)] up [unfolded pos(2)]
    have "\<not> length req + 1 > ?sz - (length fixed + length (concat (take k fs)) + 1 + length ?rest)"
      using True used by simp
    with steps True assms(4) show ?thesis by (simp only: upd if_True if_False text_field_def rbind_simps) simp
  qed
qed

definition example_head :: "byte list" where
  "example_head = [1, 0, 0, 0, 1, 0, 0, 0xFE]"

definition example_fields :: "byte list list" where
  "example_fields = map text_field [''LCR'', ''CM'', ''P1'', ''V1'', ''S1'', ''A0'', '''']"

definition example_product :: "byte list" where
  "example_product = example_head @ fru_area [1, 4, 25] example_fields [0, 0, 0, 0, 0, 0, 0, 0x66] @ []"

lemma example_fields_ok: "\<forall>f \<in> set example_fields. field_ok f"
  by code_simp

lemma example_offsets: "\<forall>a \<in> set all_areas. unat (example_product ! getHeaderAreaFieldOffset a) * 8 \<le> length example_product"
  by code_simp

theorem update_replaces_field_witness:
  "update_contents ''BMC7'' example_product ''PRODUCT_ASSET_TAG'' =
   Inr (Some (example_head @
     [1, 4, 25, 0xC3, 0x4C, 0x43, 0x52, 0xC2, 0x43, 0x4D, 0xC2, 0x50, 0x31, 0xC2, 0x56, 0x31, 0xC2, 0x53, 0x31,
      0xC4, 0x42, 0x4D, 0x43, 0x37, 0xC0, 0xC1, 0, 0, 0, 0, 0, 0xCC]))"
proof -
  have name: "''PRODUCT_ASSET_TAG'' = field_name fruAreaProduct (area_fields fruAreaProduct) 5"
    by (simp add: field_name_def productFruAreas_def)
  have "update_contents ''BMC7'' example_product ''PRODUCT_ASSET_TAG'' =
    Inr (if length (fru_area [1, 4, 25] (example_fields[5 := text_field ''BMC7'']) []) < unat ([1, 4, 25 :: byte] ! 1) * 8
         then Some (example_head @ closed_area (fru_area [1, 4, 25] (example_fields[5 := text_field ''BMC7'']) []) (unat ([1, 4, 25 :: byte] ! 1) * 8) @ [])
         else None)"
    unfolding name
    by (rule update_replaces_field [OF example_product_def _ _ _ _ example_fields_ok _ _ example_offsets]; code_simp)
  also have "\<dots> = Inr (Some (example_head @
     [1, 4, 25, 0xC3, 0x4C, 0x43, 0x52, 0xC2, 0x43, 0x4D, 0xC2, 0x50, 0x31, 0xC2, 0x56, 0x31, 0xC2, 0x53, 0x31,
      0xC4, 0x42, 0x4D, 0x43, 0x37, 0xC0, 0xC1, 0, 0, 0, 0, 0, 0xCC]))"
    by code_simp
  finally show ?thesis .
qed

section \<open>An updated property reads back\<close>

text \<open>The text of a stored field, and the properties a list of fields yields.\<close>

fun field_value :: "byte list \<Rightarrow> string" where
  "field_value [] = []"
| "field_value (c # ds) = strip_nulls (decode_bytes (unat (drop_bit 6 c :: byte)) ds)"

fun put_fields :: "fruAreas \<Rightarrow> string list \<Rightarrow> nat \<Rightarrow> byte list list \<Rightarrow> (string \<rightharpoonup> string) \<Rightarrow> (string \<rightharpoonup> string)" where
  "put_fields area names i [] m = m"
| "put_fields area names i (f # fs) m = put_fields area names (i + 1) fs (m(field_name area names i \<mapsto> field_value f))"

lemma byte_char: "char_of (unat (of_char c :: byte)) = c"
proof -
  have "(of_char c :: byte) = of_nat (of_char c)" by (simp add: of_nat_of_char)
  then show ?thesis using nat_of_char_less_256 [of c] by (simp add: unat_of_nat_byte)
qed

lemma text_field_value: "length s \<le> 63 \<Longrightarrow> field_value (text_field s) = strip_nulls s"
  unfolding text_field_def field_value.simps text_byte(2)
  by (simp add: decode_bytes_def map_idI byte_char)

lemma field_loop_fields:
  assumes "\<forall>f \<in> set fs. field_ok f" "bs = pre @ concat fs @ 0xC1 # rest" "length pre + length (concat fs) < stop" "stop < length bs"
  shows "field_loop bs stop True area names i (length pre) ret m =
    Inr (False, length pre + length (concat fs) + 1, worst (i + length fs < length names) ret, put_fields area names i fs m)"
  using assms
proof (induction fs arbitrary: pre i m)
  case Nil
  then have "decodeFRUData bs (length pre) stop True = Inr (Decode_end, [], length pre + 1)"
    by (simp add: decodeFRUData_def nth_append)
  then show ?case by (subst field_loop.simps) (simp add: worst_def)
next
  case (Cons f fs)
  then obtain c ds where f: "f = c # ds" "getFieldLength c = Some (length ds)" by (auto elim: field_okE)
  then have c: "c \<noteq> 0xC1" "unat (c AND 0x3F) = length ds" by (auto simp: getFieldLength_def split: if_splits)
  have bs: "bs = pre @ (c # ds) @ concat fs @ 0xC1 # rest" using Cons.prems(2) f by simp
  have "decodeFRUData bs (length pre) stop True =
      Inr (Decode_ok, decode_bytes (unat (drop_bit 6 c :: byte)) ds, length (pre @ f))"
    using Cons.prems(3,4) f c unfolding bs
    by (simp add: decodeFRUData_def nth_append slice_def Let_def)
  then show ?case
    using Cons.IH [of "pre @ f"] Cons.prems f by (subst field_loop.simps) (simp add: bs)
qed

text \<open>A closed area parses without a warning into its fields.\<close>

lemma closed_area_shape:
  assumes "8 dvd sz" "length used < sz" "sz \<le> 2040" "2 \<le> length used"
  obtains n z where "n * 8 \<le> sz" "length used < n * 8" "n < 256" "length used + z + 1 = n * 8"
    "closed_area used sz = (used[1 := of_nat n] @ replicate z 0 @ [- sum_list (used[1 := of_nat n])]) @ replicate (sz - n * 8) 0"
proof -
  define n where "n = length used div 8 + 1"
  note fits = blocks_fit [OF assms(1,2), folded n_def]
  have zero: "sum_list (replicate k 0) = (0 :: byte)" for k by (induction k) simp_all
  show thesis
  proof (rule that [of n "n * 8 - 1 - length used"])
    show "closed_area used sz = (used[1 := of_nat n] @ replicate (n * 8 - 1 - length used) 0 @ [- sum_list (used[1 := of_nat n])]) @ replicate (sz - n * 8) 0"
      by (simp only: closed_area_def n_def [symmetric] Let_def sum_list_append zero) simp
  qed (use fits assms(3) in auto)
qed

lemma slice_mid: "i = length a \<Longrightarrow> n = length b \<Longrightarrow> slice (a @ b @ c) i n = Inr b"
  by (simp add: slice_def)

lemma parse_closed_area:
  assumes bs: "bs = pre @ closed_area (fru_area fixed fs []) sz @ post" and sz: "8 dvd sz" "length (fru_area fixed fs []) < sz" "sz \<le> 2040"
    and "length pre = unat (bs ! getHeaderAreaFieldOffset area) * 8" "pre \<noteq> []" "length pre + 8 < length bs"
    and fixed: "fixed ! 0 = 1" "2 < length fixed" and ok: "verifyOffset bs area (bs ! (length pre + 1))"
    and head: "area_head epoch bs area (length pre + 2) m = Inr (Some (True, length pre + length fixed, m1))"
    and fs: "\<forall>f \<in> set fs. field_ok f"
  shows "parse_area epoch bs area ret m =
    Inr (False, worst (length fs < length (area_fields area)) ret, put_fields area (area_fields area) 0 fs m1)"
proof -
  let ?used = "fru_area fixed fs []"
  have two: "2 \<le> length ?used" using fixed(2) by (simp add: fru_area_def)
  obtain n z where n: "n * 8 \<le> sz" "length ?used < n * 8" "n < 256" "length ?used + z + 1 = n * 8"
    and ca: "closed_area ?used sz = (?used[1 := of_nat n] @ replicate z 0 @ [- sum_list (?used[1 := of_nat n])]) @ replicate (sz - n * 8) 0"
    using closed_area_shape [OF sz two] by blast
  define fixed' where "fixed' = fixed[1 := of_nat n]"
  have used: "?used[1 := of_nat n] = fixed' @ concat fs @ [0xC1]" "length fixed' = length fixed" "fixed' ! 0 = 1" "fixed' ! 1 = of_nat n"
    using fixed by (simp_all add: fru_area_def fixed'_def list_update_append1)
  define rest where "rest = replicate z 0 @ [- sum_list (fixed' @ concat fs @ [0xC1])] @ replicate (sz - n * 8) 0 @ post"
  have bs': "bs = (pre @ fixed') @ concat fs @ 0xC1 # rest" unfolding bs ca used(1) rest_def by simp
  define a where "a = fixed' @ concat fs @ [0xC1]"
  have a: "length a = length fixed + length (concat fs) + 1" "length a + z + 1 = n * 8"
    using used(2) n(4) by (simp_all add: a_def fru_area_def)
  have bs2: "bs = (pre @ a @ replicate z 0) @ [- sum_list a] @ (replicate (sz - n * 8) 0 @ post)"
    by (simp add: bs' rest_def a_def)
  let ?stop = "length pre + n * 8 - 1"
  have st: "?stop = length (pre @ a @ replicate z 0)" using a(2) by simp
  have stop: "length (pre @ fixed') + length (concat fs) < ?stop" "?stop < length bs" "bs ! ?stop = - sum_list a"
    using a used(2) unfolding st by (simp_all add: bs2 nth_append)
  have loop: "field_loop bs ?stop True area (area_fields area) 0 (length pre + length fixed) r m1 =
      Inr (False, length pre + length a, worst (length fs < length (area_fields area)) r,
           put_fields area (area_fields area) 0 fs m1)" for r
    using field_loop_fields [OF fs bs' stop(1,2)] used(2) a(1) by simp
  have body: "slice bs (length pre) (n * 8 - 1) = Inr (a @ replicate z 0)"
  proof -
    have "slice (pre @ (a @ replicate z 0) @ ([- sum_list a] @ replicate (sz - n * 8) 0 @ post)) (length pre) (n * 8 - 1) =
        Inr (a @ replicate z 0)"
      using a(2) by (intro slice_mid) auto
    then show ?thesis by (simp add: bs2)
  qed
  have pad: "slice bs (length pre + length a) (?stop - (length pre + length a)) = Inr (replicate z 0)"
  proof -
    have "slice ((pre @ a) @ replicate z 0 @ ([- sum_list a] @ replicate (sz - n * 8) 0 @ post)) (length pre + length a)
        (?stop - (length pre + length a)) = Inr (replicate z 0)"
      using a(2) by (intro slice_mid) auto
    then show ?thesis by (simp add: bs2)
  qed
  have "sum_list (replicate z 0) = (0 :: byte)" by (induction z) simp_all
  then have chk: "calculateChecksum (a @ replicate z 0) = - sum_list a" by (simp add: calculateChecksum_uminus)
  have len: "bs ! length pre = 1" "bs ! (length pre + 1) = of_nat n" "unat (of_nat n :: byte) = n"
    using used(2-4) fixed(2) n(3) by (auto simp: bs' nth_append unat_of_nat_byte)
  have pb: "parse_body epoch bs area (length pre) (n * 8) ret m =
      Inr (False, worst (length fs < length (area_fields area)) ret, put_fields area (area_fields area) 0 fs m1)"
    using n(2) stop(2,3) body pad head loop [of ret]
    by (simp add: parse_body_def Let_def chk worst_def)
  show ?thesis
    using ok assms(5-7) len pb
    by (auto simp: parse_area_def Let_def fruBlockSize_def)
qed

lemma field_names_differ:
  assumes "k < length (area_fields area)" "j \<noteq> k"
  shows "field_name area (area_fields area) j \<noteq> field_name area (area_fields area) k"
proof (cases "j < length (area_fields area)")
  case True
  have "distinct (area_fields area)"
    by (cases area) (simp_all add: chassisFruAreas_def boardFruAreas_def productFruAreas_def)
  with True assms show ?thesis by (simp add: field_name_def nth_eq_iff_index_eq)
next
  case False
  have "\<forall>f \<in> set (area_fields area). take 4 f \<noteq> ''INFO''"
    by (cases area) (simp_all add: chassisFruAreas_def boardFruAreas_def productFruAreas_def)
  with assms(1) have "take 4 (area_fields area ! k) \<noteq> ''INFO''" by simp
  then have "''INFO_AM'' @ s \<noteq> area_fields area ! k" for s by (rule contrapos_nn) (drule arg_cong [of _ _ "take 4"], simp)
  with False assms(1) show ?thesis by (simp add: field_name_def fruCustomFieldName_def)
qed

lemma put_fields_other:
  "\<forall>j \<ge> i. field_name area names j \<noteq> x \<Longrightarrow> put_fields area names i fs m x = m x"
  by (induction fs arbitrary: i m) auto

lemma put_fields_nth:
  assumes "i + k < length (area_fields area)" "k < length fs"
  shows "put_fields area (area_fields area) i fs m (field_name area (area_fields area) (i + k)) = Some (field_value (fs ! k))"
  using assms
proof (induction fs arbitrary: i k m)
  case (Cons f fs)
  show ?case
  proof (cases k)
    case 0
    have "\<forall>j \<ge> i + 1. field_name area (area_fields area) j \<noteq> field_name area (area_fields area) i"
      using field_names_differ [of i area] Cons.prems 0 by auto
    from put_fields_other [OF this] show ?thesis by (simp add: 0)
  next
    case (Suc l)
    with Cons.IH [of "i + 1" l] Cons.prems show ?thesis by simp
  qed
qed simp

lemma verifyOffset_update:
  assumes "verifyOffset (pre @ a @ post) area l" "length b = length a" "6 \<le> length pre" "unat l' \<le> unat l"
  shows "verifyOffset (pre @ b @ post) area l'"
proof -
  have "(pre @ b @ post) ! getHeaderAreaFieldOffset x = (pre @ a @ post) ! getHeaderAreaFieldOffset x" for x
    using assms(3) by (cases x) (simp_all add: nth_append)
  with assms show ?thesis unfolding verifyOffset_def Let_def by (auto 0 4)
qed

lemma closed_area_length_byte:
  assumes "8 dvd sz" "length used < sz" "sz \<le> 2040" "2 \<le> length used"
  shows "unat (closed_area used sz ! 1) * 8 \<le> sz"
proof -
  obtain n z where "n * 8 \<le> sz" "n < 256"
    "closed_area used sz = (used[1 := of_nat n] @ replicate z 0 @ [- sum_list (used[1 := of_nat n])]) @ replicate (sz - n * 8) 0"
    using closed_area_shape [OF assms] by metis
  with assms(4) show ?thesis by (simp add: nth_append unat_of_nat_byte)
qed

lemma closed_area_fixed:
  assumes "i < length fixed" "i \<noteq> 1"
  shows "closed_area (fru_area fixed fs []) sz ! i = fixed ! i"
  using assms by (simp add: closed_area_def Let_def nth_append fru_area_def list_update_append1)


lemma example_update_room: "length (fru_area [1, 4, 25] (example_fields[5 := text_field ''BMC7'']) []) < unat ([1, 4, 25 :: byte] ! 1) * 8"
  by code_simp

lemma example_verify: "verifyOffset example_product fruAreaProduct ([1, 4, 25] ! 1)"
  by code_simp


section \<open>Writing\<close>

text \<open>
  An I2C bus with byte-addressed memories: the slave address that is set, the cells, and which of
  the attempts to write fail.
\<close>

record i2c_world =
  iw_slave :: nat
  iw_cells :: "nat \<Rightarrow> byte \<Rightarrow> byte"
  iw_attempts :: nat
  iw_fails :: "nat \<Rightarrow> bool"
  iw_absent :: "nat \<Rightarrow> bool"

definition set_slave :: "nat \<Rightarrow> i2c_world \<Rightarrow> bool \<times> i2c_world" where
  "set_slave a w = (if iw_absent w a then (False, w) else (True, w\<lparr>iw_slave := a\<rparr>))"

definition write_byte_data :: "byte \<Rightarrow> byte \<Rightarrow> i2c_world \<Rightarrow> bool \<times> i2c_world" where
  "write_byte_data index b w =
     (let w1 = w\<lparr>iw_attempts := iw_attempts w + 1\<rparr> in
      if iw_fails w (iw_attempts w) then (False, w1)
      else (True, w1\<lparr>iw_cells := (iw_cells w)(iw_slave w := (iw_cells w (iw_slave w))(index := b))\<rparr>))"

definition retryMax :: nat where "retryMax = 2"
definition maxEepromPageIndex :: nat where "maxEepromPageIndex = 255"
definition maxFruSize :: nat where "maxFruSize = 512"

text \<open>The loop of \<open>writeFRU\<close>: a page behind the first is the next slave address.\<close>

function i2c_write :: "byte list \<Rightarrow> nat \<Rightarrow> nat \<Rightarrow> nat \<Rightarrow> i2c_world \<Rightarrow> bool res \<times> i2c_world" where
  "i2c_write fru address index retries w =
     (if index < length fru then
        let page = (index \<noteq> 0 \<and> index mod (maxEepromPageIndex + 1) = 0 \<and> retries = retryMax);
            address' = (if page then (address + 1) mod 256 else address) in
        case (if page then set_slave address' w else (True, w)) of (ok, w1) \<Rightarrow>
          if \<not> ok then (Inl Dbus_Exception, w1)
          else
            case write_byte_data (of_nat index) (fru ! index) w1 of
              (False, w2) \<Rightarrow> if retries = 0 then (Inl Dbus_Exception, w2) else i2c_write fru address' index (retries - 1) w2
            | (True, w2) \<Rightarrow> i2c_write fru address' (index + 1) retryMax w2
      else (Inr True, w))"
  by pat_completeness auto
termination
  by (relation "inv_image (less_than <*lex*> less_than) (\<lambda>(fru, address, index, retries, w). (length fru - index, retries))")
    auto

declare i2c_write.simps [simp del]

text \<open>
  \<open>writeFRU\<close>: contents that do not parse without a warning are not written. The baseboard file and
  an EEPROM that has a driver are parameters: \<open>None\<close> if they cannot be opened, and whether writing
  succeeds.
\<close>

definition writeFRU ::
  "nat \<Rightarrow> bool option \<Rightarrow> bool option option \<Rightarrow> bool \<Rightarrow> nat \<Rightarrow> nat \<Rightarrow> byte list \<Rightarrow> i2c_world \<Rightarrow> bool res \<times> i2c_world" where
  "writeFRU epoch baseboard driver bus_ok bus address fru w =
     (if length fru > maxFruSize then (Inr False, w)
      else
        case formatIPMIFRU epoch fru of
          Inl e \<Rightarrow> (Inl e, w)
        | Inr (ret, m) \<Rightarrow>
            if ret \<noteq> resOK then (Inr False, w)
            else if bus = 0 \<and> address = 0 then
              (case baseboard of None \<Rightarrow> Inl Dbus_Exception | Some good \<Rightarrow> Inr good, w)
            else
              case driver of
                Some r \<Rightarrow>
                  (case r of None \<Rightarrow> Inl Dbus_Exception | Some written \<Rightarrow> if written then Inr True else Inl Dbus_Exception, w)
              | None \<Rightarrow>
                  if \<not> bus_ok then (Inl Dbus_Exception, w)
                  else
                    case set_slave address w of (ok, w1) \<Rightarrow>
                      if \<not> ok then (Inl Dbus_Exception, w1) else i2c_write fru address 0 retryMax w1)"

section \<open>Every byte is written\<close>

definition slave_of :: "nat \<Rightarrow> nat \<Rightarrow> nat \<Rightarrow> nat" where
  "slave_of base index retries =
     base + (if index \<noteq> 0 \<and> index mod 256 = 0 \<and> retries = 2 then index div 256 - 1 else index div 256)"

definition written :: "byte list \<Rightarrow> nat \<Rightarrow> nat \<Rightarrow> i2c_world \<Rightarrow> bool" where
  "written fru base n w \<longleftrightarrow> (\<forall>i < n. iw_cells w (base + i div 256) (of_nat i) = fru ! i)"

text \<open>The state of the loop: what is written, the slave that is set, and the failures the retries stand for.\<close>

definition write_inv :: "byte list \<Rightarrow> nat \<Rightarrow> nat \<Rightarrow> nat \<Rightarrow> nat \<Rightarrow> i2c_world \<Rightarrow> bool" where
  "write_inv fru base address index retries w \<longleftrightarrow>
     written fru base index w \<and> address = slave_of base index retries \<and> iw_slave w = address \<and> retries \<le> 2 \<and>
     2 - retries \<le> iw_attempts w \<and> (\<forall>n. iw_attempts w - (2 - retries) \<le> n \<and> n < iw_attempts w \<longrightarrow> iw_fails w n)"

lemma cell_index:
  assumes "i < 512" "j < 512" "i div 256 = j div 256" "(of_nat i :: byte) = of_nat j"
  shows "i = j"
proof -
  have "i mod 256 = j mod 256" using arg_cong [OF assms(4), of unat] by (simp add: unat_of_nat take_bit_eq_mod)
  with assms(3) show ?thesis by (metis div_mult_mod_eq)
qed

lemma written_step:
  assumes "written fru base index w" "index < length fru" "length fru \<le> 512" "iw_slave w = base + index div 256"
    "write_byte_data (of_nat index) (fru ! index) w = (True, w')"
  shows "written fru base (index + 1) w'"
  unfolding written_def
proof (intro allI impI)
  fix i assume i: "i < index + 1"
  have w': "iw_cells w' = (iw_cells w)(iw_slave w := (iw_cells w (iw_slave w))(of_nat index := fru ! index))"
    using assms(5) by (auto simp: write_byte_data_def Let_def split: if_splits)
  show "iw_cells w' (base + i div 256) (of_nat i) = fru ! i"
  proof (cases "i = index")
    case False
    then have "iw_cells w (base + i div 256) (of_nat i) = fru ! i" using assms(1) i by (simp add: written_def)
    moreover have "\<not> (i div 256 = index div 256 \<and> (of_nat i :: byte) = of_nat index)"
      using cell_index [of i index] False i assms(2,3) by auto
    ultimately show ?thesis by (auto simp: w' assms(4))
  qed (simp add: w' assms(4))
qed

lemma slave_next: "slave_of base (index + 1) 2 = base + index div 256"
  by (simp add: slave_of_def div_Suc)

lemma slave_page:
  assumes "index < 512" "base + 2 < 256" "address = slave_of base index retries"
  shows "(if index \<noteq> 0 \<and> index mod 256 = 0 \<and> retries = 2 then (address + 1) mod 256 else address) = base + index div 256"
proof (cases "index \<noteq> 0 \<and> index mod 256 = 0 \<and> retries = 2")
  case True
  then obtain q where q: "index = 256 * q" by (auto simp: mod_eq_0_iff_dvd)
  with True assms(1) have "q = 1" by simp
  with q True assms show ?thesis by (simp add: slave_of_def)
next
  case False
  with assms show ?thesis by (auto simp: slave_of_def)
qed

lemma write_inv_success:
  assumes "write_inv fru base address index retries w" "index < length fru" "length fru \<le> 512"
    and "\<not> iw_fails w (iw_attempts w)"
  obtains w' where "write_byte_data (of_nat index) (fru ! index) (w\<lparr>iw_slave := base + index div 256\<rparr>) = (True, w')"
    "write_inv fru base (base + index div 256) (index + 1) 2 w'" "iw_fails w' = iw_fails w" "iw_absent w' = iw_absent w"
proof -
  let ?w = "w\<lparr>iw_slave := base + index div 256\<rparr>"
  obtain w' where w': "write_byte_data (of_nat index) (fru ! index) ?w = (True, w')"
    using assms(4) by (auto simp: write_byte_data_def Let_def)
  have "written fru base index ?w" using assms(1) by (simp add: write_inv_def written_def)
  then have "written fru base (index + 1) w'" using written_step [OF _ assms(2,3) _ w'] by simp
  then have "write_inv fru base (base + index div 256) (index + 1) 2 w'"
    using w' slave_next [of base index] assms(4) by (auto simp: write_inv_def write_byte_data_def Let_def)
  with w' show thesis using assms(4) by (intro that [of w']) (auto simp: write_byte_data_def Let_def)
qed

lemma write_inv_failure:
  assumes "write_inv fru base address index retries w" "iw_fails w (iw_attempts w)"
    and "\<And>n. \<not> (iw_fails w n \<and> iw_fails w (n + 1) \<and> iw_fails w (n + 2))"
  obtains w' where "write_byte_data (of_nat index) (fru ! index) (w\<lparr>iw_slave := base + index div 256\<rparr>) = (False, w')"
    "retries \<noteq> 0" "write_inv fru base (base + index div 256) index (retries - 1) w'"
    "iw_fails w' = iw_fails w" "iw_absent w' = iw_absent w"
proof -
  let ?w = "w\<lparr>iw_slave := base + index div 256, iw_attempts := iw_attempts w + 1\<rparr>"
  have inv: "written fru base index w" "retries \<le> 2" "2 - retries \<le> iw_attempts w"
    "\<And>n. iw_attempts w - (2 - retries) \<le> n \<Longrightarrow> n < iw_attempts w \<Longrightarrow> iw_fails w n"
    using assms(1) by (auto simp: write_inv_def)
  have pos: "retries \<noteq> 0"
  proof
    assume "retries = 0"
    with inv(3,4) have "2 \<le> iw_attempts w" "iw_fails w (iw_attempts w - 2)" "iw_fails w (iw_attempts w - 1)" by simp_all
    moreover from this(1) have "iw_attempts w - 2 + 1 = iw_attempts w - 1" "iw_attempts w - 2 + 2 = iw_attempts w" by simp_all
    ultimately show False using assms(2) assms(3) [of "iw_attempts w - 2"] by simp
  qed
  have "iw_fails w n" if "iw_attempts w + 1 - (2 - (retries - 1)) \<le> n" "n < iw_attempts w + 1" for n
    using inv(2,3) inv(4) [of n] assms(2) pos that by (cases "n = iw_attempts w") auto
  moreover have "slave_of base index (retries - 1) = base + index div 256" using inv(2) pos by (auto simp: slave_of_def)
  ultimately have "write_inv fru base (base + index div 256) index (retries - 1) ?w"
    using inv pos by (auto simp: write_inv_def written_def)
  with pos assms(2) show thesis by (intro that [of ?w]) (simp_all add: write_byte_data_def Let_def)
qed

lemma i2c_write_complete:
  assumes "write_inv fru base address index retries w" "index \<le> length fru" "length fru \<le> 512" "base + 2 < 256"
    and "\<And>n. \<not> (iw_fails w n \<and> iw_fails w (n + 1) \<and> iw_fails w (n + 2))" "\<And>a. \<not> iw_absent w a"
  shows "\<exists>w'. i2c_write fru address index retries w = (Inr True, w') \<and> written fru base (length fru) w'"
  using assms
proof (induction "3 * (length fru - index) + retries" arbitrary: address index retries w rule: less_induct)
  case less
  note inv = less.prems(1)
  show ?case
  proof (cases "index < length fru")
    case False
    with less.prems(1,2) show ?thesis by (subst i2c_write.simps) (simp add: write_inv_def)
  next
    case True
    let ?page = "index \<noteq> 0 \<and> index mod (maxEepromPageIndex + 1) = 0 \<and> retries = retryMax"
    let ?a = "if ?page then (address + 1) mod 256 else address"
    have addr: "address = slave_of base index retries" "iw_slave w = address" "retries \<le> 2" using inv by (auto simp: write_inv_def)
    have a: "?a = base + index div 256"
      using slave_page [OF _ less.prems(4) addr(1)] True less.prems(3) by (simp add: maxEepromPageIndex_def retryMax_def)
    have step: "(if ?page then set_slave (base + index div 256) w else (True, w)) = (True, w\<lparr>iw_slave := base + index div 256\<rparr>)"
      using a addr(2) less.prems(6) by (auto simp: set_slave_def)
    have unfold: "i2c_write fru address index retries w =
        (case write_byte_data (of_nat index) (fru ! index) (w\<lparr>iw_slave := base + index div 256\<rparr>) of
           (False, w2) \<Rightarrow> if retries = 0 then (Inl Dbus_Exception, w2) else i2c_write fru (base + index div 256) index (retries - 1) w2
         | (True, w2) \<Rightarrow> i2c_write fru (base + index div 256) (index + 1) retryMax w2)"
      using True by (subst i2c_write.simps) (simp only: if_True Let_def step a prod.case not_True_eq_False if_False)
    show ?thesis
    proof (cases "iw_fails w (iw_attempts w)")
      case True
      obtain w' where w': "write_byte_data (of_nat index) (fru ! index) (w\<lparr>iw_slave := base + index div 256\<rparr>) = (False, w')"
        "retries \<noteq> 0" "write_inv fru base (base + index div 256) index (retries - 1) w'"
        "iw_fails w' = iw_fails w" "iw_absent w' = iw_absent w"
        using write_inv_failure [OF inv True less.prems(5)] .
      with less.hyps [OF _ w'(3)] less.prems show ?thesis by (simp add: unfold)
    next
      case False
      obtain w' where w': "write_byte_data (of_nat index) (fru ! index) (w\<lparr>iw_slave := base + index div 256\<rparr>) = (True, w')"
        "write_inv fru base (base + index div 256) (index + 1) 2 w'" "iw_fails w' = iw_fails w" "iw_absent w' = iw_absent w"
        using write_inv_success [OF inv True less.prems(3) False] .
      with less.hyps [OF _ w'(2)] less.prems True show ?thesis by (simp add: unfold retryMax_def)
    qed
  qed
qed

lemma writeFRU_i2c:
  assumes "length fru \<le> 512" "formatIPMIFRU epoch fru = Inr (resOK, m)" "\<not> (bus = 0 \<and> address = 0)" "address + 2 < 256"
    and "\<And>n. \<not> (iw_fails w n \<and> iw_fails w (n + 1) \<and> iw_fails w (n + 2))" "\<And>a. \<not> iw_absent w a"
  shows "\<exists>w'. writeFRU epoch base None True bus address fru w = (Inr True, w') \<and> written fru address (length fru) w'"
proof -
  let ?w = "w\<lparr>iw_slave := address\<rparr>"
  have "write_inv fru address address 0 2 ?w" by (auto simp: write_inv_def written_def slave_of_def)
  from i2c_write_complete [OF this _ assms(1,4)] assms(5,6)
  have "\<exists>w'. i2c_write fru address 0 2 ?w = (Inr True, w') \<and> written fru address (length fru) w'" by simp
  with assms show ?thesis by (auto simp: writeFRU_def maxFruSize_def set_slave_def retryMax_def)
qed

text \<open>
  C33. Contents of up to 512 bytes that parse cleanly are written over I2C completely, byte \<open>i\<close> to
  register \<open>i\<close> of page \<open>i div 256\<close> at the slave address behind, as long as no three consecutive
  attempts fail; \<open>writeFRU\<close> then reports success.
\<close>

theorem writeFRU_writes_all:
  assumes "length fru \<le> 512" "formatIPMIFRU epoch fru = Inr (resOK, m)" "\<not> (bus = 0 \<and> address = 0)" "address + 2 < 256"
    and "\<forall>n. \<not> (iw_fails w n \<and> iw_fails w (n + 1) \<and> iw_fails w (n + 2))" "\<forall>a. \<not> iw_absent w a"
  shows "\<exists>w'. writeFRU epoch base None True bus address fru w = (Inr True, w') \<and>
    (\<forall>i < length fru. iw_cells w' (address + i div 256) (of_nat i) = fru ! i)"
  using writeFRU_i2c [OF assms(1-4)] assms(5,6) by (fastforce simp: written_def)

definition example_bus_world :: i2c_world where
  "example_bus_world = \<lparr>iw_slave = 0, iw_cells = (\<lambda>a i. 0xFF), iw_attempts = 0, iw_fails = (\<lambda>n. n mod 3 = 1), iw_absent = (\<lambda>a. False)\<rparr>"

lemma example_bus_fails: "\<forall>n. \<not> (iw_fails example_bus_world n \<and> iw_fails example_bus_world (n + 1) \<and> iw_fails example_bus_world (n + 2))"
  by (auto simp: example_bus_world_def mod_Suc)

lemma example_bus_present: "\<forall>a. \<not> iw_absent example_bus_world a"
  by (simp add: example_bus_world_def)

definition example_closed :: "byte list \<Rightarrow> byte list" where
  "example_closed post = example_head @ closed_area (fru_area [1, 4, 25] example_fields []) 32 @ post"

lemma length_example_closed: "length (example_closed post) = 40 + length post"
proof -
  have "length (fru_area [1, 4, 25] example_fields []) = 24" by code_simp
  then have "length (closed_area (fru_area [1, 4, 25] example_fields []) 32) = 32" by (intro length_closed_area) simp_all
  then show ?thesis by (simp add: example_closed_def example_head_def)
qed

definition example_properties :: "string \<rightharpoonup> string" where
  "example_properties = put_fields fruAreaProduct productFruAreas 0 example_fields
     [''Common_Format_Version'' \<mapsto> to_string 1, ''PRODUCT_LANGUAGE_CODE'' \<mapsto> to_string 25]"

lemma example_closed_parses: "formatIPMIFRU epoch (example_closed post) = Inr (resOK, example_properties)"
proof -
  let ?used = "fru_area [1, 4, 25] example_fields []" and ?bs = "example_closed post"
  have used: "length ?used = 24" by code_simp
  have h8: "length example_head = 8" by (simp add: example_head_def)
  have h0: "?bs ! 0 = 1" by (simp add: example_closed_def example_head_def)
  have ca: "?used ! 2 = 25" by (simp add: fru_area_def)
  have "closed_area ?used 32 ! 2 = 25" "closed_area ?used 32 ! 1 = 4"
    using used ca by (simp_all add: closed_area_def Let_def nth_append)
  moreover have h: "?bs ! 1 = 0" "?bs ! 2 = 0" "?bs ! 3 = 0" "?bs ! 4 = 1" "?bs ! 5 = 0" "?bs ! (8 + i) = closed_area ?used 32 ! i" if "i < 3" for i
    using that used by (simp_all add: example_closed_def example_head_def nth_append closed_area_def Let_def)
  ultimately have b: "?bs ! 9 = 4" "?bs ! 10 = 25" using h(6) [of 1] h(6) [of 2] by simp_all
  have "verifyOffset ?bs fruAreaProduct (?bs ! (length example_head + 1))"
    using h [of 0] b by (simp add: verifyOffset_def all_areas_def h8 length_example_closed fruBlockSize_def Let_def)
  moreover have "area_head epoch ?bs fruAreaProduct (length example_head + 2) m0 =
      Inr (Some (True, length example_head + length [1, 4, 25 :: byte], m0(''PRODUCT_LANGUAGE_CODE'' \<mapsto> to_string 25)))" for m0
    using b length_example_closed [of post] by (simp add: h8 checkLangEng_def)
  ultimately have "parse_area epoch ?bs fruAreaProduct resOK m0 = Inr (False,
      worst (length example_fields < length (area_fields fruAreaProduct)) resOK,
      put_fields fruAreaProduct (area_fields fruAreaProduct) 0 example_fields (m0(''PRODUCT_LANGUAGE_CODE'' \<mapsto> to_string 25)))" for m0
    using h [of 0] used length_example_closed [of post]
    by (intro parse_closed_area [OF example_closed_def]) (simp_all add: h8 example_fields_ok, simp add: example_head_def)
  moreover have "parse_area epoch ?bs a resOK m0 = Inr (False, resOK, m0)" if "a \<in> {fruAreaChassis, fruAreaBoard}" for a m0
    using that h [of 0] by (auto simp: parse_area_def Let_def)
  moreover have "\<not> length example_fields < length (area_fields fruAreaProduct)" by code_simp
  ultimately show ?thesis using length_example_closed [of post] h0
    by (simp add: formatIPMIFRU_def fruBlockSize_def worst_def example_properties_def)
qed

theorem writeFRU_writes_all_witness:
  "\<exists>w'. writeFRU 820454400 None None True 1 0x50 (example_closed []) example_bus_world = (Inr True, w') \<and>
    (\<forall>i < length (example_closed []). iw_cells w' (0x50 + i div 256) (of_nat i) = example_closed [] ! i)"
proof -
  have "length (example_closed []) \<le> 512" by (simp add: length_example_closed)
  from writeFRU_writes_all [OF this example_closed_parses _ _ example_bus_fails example_bus_present, where bus = 1 and address = "0x50" and base = None]
  show ?thesis by simp
qed

text \<open>
  Reading a memory with 8-bit registers: \<open>readBlockData\<close> passes the low byte of the offset and keeps
  the slave address.
\<close>

definition readBlockData8 :: "nat \<Rightarrow> i2c_world \<Rightarrow> eeprom" where
  "readBlockData8 address w off = Some (map (\<lambda>i. iw_cells w address (of_nat off + of_nat i)) [0..<cacheBlockSize])"

text \<open>
  Contents of more than 256 bytes do not read back: after a successful write the reader, which
  stays at the first slave address, gets the bytes of the first page again for every block of the
  second page.
\<close>

theorem second_page_not_read_back:
  assumes "length fru \<le> 512" "formatIPMIFRU epoch fru = Inr (resOK, m)" "\<not> (bus = 0 \<and> address = 0)" "address + 2 < 256"
    and "\<forall>n. \<not> (iw_fails w n \<and> iw_fails w (n + 1) \<and> iw_fails w (n + 2))" "\<forall>a. \<not> iw_absent w a"
    and "8 \<le> blk" "blk < 16" "256 \<le> length fru"
  shows "\<exists>w'. writeFRU epoch base None True bus address fru w = (Inr True, w') \<and>
    readBlockData8 address w' (blk * 32) = Some (take 32 (drop ((blk - 8) * 32) fru))"
proof -
  obtain w' where w': "writeFRU epoch base None True bus address fru w = (Inr True, w')" "written fru address (length fru) w'"
    using writeFRU_i2c [OF assms(1-4)] assms(5,6) by fastforce
  have "iw_cells w' address (of_nat (blk * 32) + of_nat i) = fru ! ((blk - 8) * 32 + i)" if "i < 32" for i
  proof -
    let ?j = "(blk - 8) * 32 + i"
    have j: "?j < 256" using that assms(7,8) by linarith
    then have "iw_cells w' (address + ?j div 256) (of_nat ?j) = fru ! ?j"
      using w'(2) assms(9) unfolding written_def by (meson less_le_trans)
    moreover have "(of_nat (blk * 32) + of_nat i :: byte) = of_nat ?j"
    proof -
      have "blk * 32 + i = 256 + ?j" using assms(7) by (simp add: algebra_simps)
      then have "(of_nat (blk * 32 + i) :: byte) = of_nat 256 + of_nat ?j" by (simp only: of_nat_add)
      then show ?thesis by simp
    qed
    ultimately show ?thesis using j by simp
  qed
  moreover have "(blk - 8) * 32 + 32 \<le> length fru" using assms(7-9) by linarith
  ultimately have "readBlockData8 address w' (blk * 32) = Some (take 32 (drop ((blk - 8) * 32) fru))"
    by (auto simp: readBlockData8_def cacheBlockSize_def intro!: nth_equalityI)
  with w'(1) show ?thesis by blast
qed

theorem second_page_not_read_back_witness:
  "\<exists>w'. writeFRU 820454400 None None True 1 0x50 (example_closed (replicate 232 0)) example_bus_world = (Inr True, w') \<and>
    readBlockData8 0x50 w' (8 * 32) = Some (take 32 (drop ((8 - 8) * 32) (example_closed (replicate 232 0))))"
  by (intro second_page_not_read_back [OF _ example_closed_parses _ _ example_bus_fails example_bus_present])
    (simp_all add: length_example_closed)

end
