(* ===== verification/Fru_Device.thy ===== *)
theory Fru_Device
  imports Fru_Update
begin

text \<open>
  The FRU device daemon (\<open>entity-manager-mods/src/fru_device.cpp\<close>): scanning a bus for EEPROMs, the
  D-Bus objects of the contents found and their names, and updating a property from D-Bus.

  I2C is a parameter: the answer to each probe and the EEPROM behind an address. D-Bus objects are
  their path with their properties. Timers and the threads that scan are left out: a rescan is a
  flag that is set.

  The theorems: objects never share a path, a scan finds every readable EEPROM it does not have to
  skip, an address that failed once is not read again, and an update that reports success is on
  the bus.
\<close>

section \<open>Names\<close>

definition legal_char :: "char \<Rightarrow> bool" where
  "legal_char c \<longleftrightarrow> c \<in> set ''ABCDEFGHIJKLMNOPQRSTUVWXYZabcdefghijklmnopqrstuvwxyz0123456789_''"

text \<open>The name of the contents and the counter of the nameless; \<open>None\<close> if the contents do not parse.\<close>

definition getProductName :: "nat \<Rightarrow> byte list \<Rightarrow> nat \<Rightarrow> ((string \<times> (string \<rightharpoonup> string)) option \<times> nat) res" where
  "getProductName epoch device unknown =
     rbind (formatIPMIFRU epoch device) (\<lambda>(ret, m).
       if ret = resErr then Inr (None, unknown)
       else
         let found = (case m ''BOARD_PRODUCT_NAME'' of
               None \<Rightarrow> m ''PRODUCT_PRODUCT_NAME''
             | Some s \<Rightarrow> if s = [] then m ''PRODUCT_PRODUCT_NAME'' else Some s) in
         case found of
           None \<Rightarrow> Inr (Some (''UNKNOWN'' @ to_string unknown, m), unknown + 1)
         | Some s \<Rightarrow>
             if s = [] then Inr (Some (''UNKNOWN'' @ to_string unknown, m), unknown + 1)
             else Inr (Some (map (\<lambda>c. if legal_char c then c else CHR ''_'') s, m), unknown))"

text \<open>The number behind a name and an underscore, \<open>-1\<close> for the name itself.\<close>

definition path_index :: "string \<Rightarrow> string \<Rightarrow> int option res" where
  "path_index name path =
     (if path = name then Inr (Some (- 1))
      else
        let n = length name; ds = drop (n + 1) path in
        if take n path = name \<and> take 1 (drop n path) = ''_'' \<and> ds \<noteq> [] \<and> list_all is_digit ds
        then rbind (stoi ds) (\<lambda>v. Inr (Some v))
        else Inr None)"

fun highest_index :: "string \<Rightarrow> string list \<Rightarrow> int option \<Rightarrow> int option res" where
  "highest_index name [] highest = Inr highest"
| "highest_index name (p # ps) highest =
     rbind (path_index name p) (\<lambda>i.
       highest_index name ps
         (case i of None \<Rightarrow> highest | Some v \<Rightarrow> (case highest of None \<Rightarrow> Some v | Some h \<Rightarrow> Some (max v h))))"

definition findIndexForFRU :: "string list \<Rightarrow> string \<Rightarrow> int option res" where
  "findIndexForFRU paths productName = highest_index productName paths None"

definition fru_path :: "string \<Rightarrow> string" where
  "fru_path name = ''/xyz/openbmc_project/FruDevice/'' @ name"

record fru_object =
  fo_path :: string
  fo_properties :: "string \<rightharpoonup> string"

text \<open>
  The objects, by bus and address, in a list of which the order does not matter. Characters outside
  7-bit ASCII and null characters are replaced; empty properties are not published, except the
  asset tag; a value is published with a null character behind it.
\<close>

type_synonym fru_objects = "((nat \<times> nat) \<times> fru_object) list"

definition ascii :: "string \<Rightarrow> string" where
  "ascii s = map (\<lambda>c. if 1 \<le> (of_char c :: nat) \<and> (of_char c :: nat) \<le> 127 then c else CHR ''_'') s"

definition published_properties :: "(string \<rightharpoonup> string) \<Rightarrow> (string \<rightharpoonup> string)" where
  "published_properties m k =
     (case m k of None \<Rightarrow> None
      | Some v \<Rightarrow> if v = [] \<and> k \<noteq> ''PRODUCT_ASSET_TAG'' then None else Some (ascii v @ [CHR 0x00]))"

definition set_object :: "nat \<times> nat \<Rightarrow> fru_object \<Rightarrow> fru_objects \<Rightarrow> fru_objects" where
  "set_object k x objs = (k, x) # filter (\<lambda>(k', _). k' \<noteq> k) objs"

definition paths_of :: "fru_objects \<Rightarrow> string list" where
  "paths_of objs = map (\<lambda>(_, x). fo_path x) objs"

text \<open>The path for a product name: with the next number if the name is taken.\<close>

definition object_path :: "string list \<Rightarrow> string \<Rightarrow> string res" where
  "object_path paths productName =
     rbind (findIndexForFRU paths productName) (\<lambda>index.
       Inr (case index of None \<Rightarrow> productName | Some i \<Rightarrow> productName @ ''_'' @ to_string (nat (i + 1))))"

definition addFruObjectToDbus ::
  "nat \<Rightarrow> byte list \<Rightarrow> fru_objects \<Rightarrow> nat \<Rightarrow> nat \<Rightarrow> nat \<Rightarrow> (fru_objects \<times> nat) res" where
  "addFruObjectToDbus epoch device objs bus address unknown =
     rbind (getProductName epoch device unknown) (\<lambda>(name, unknown').
       case name of
         None \<Rightarrow> Inr (objs, unknown')
       | Some (productName, m) \<Rightarrow>
           rbind (object_path (paths_of objs) (fru_path productName)) (\<lambda>p.
             Inr (set_object (bus, address) \<lparr>fo_path = p, fo_properties = published_properties m\<rparr> objs, unknown')))"

fun add_devices ::
  "nat \<Rightarrow> nat \<Rightarrow> (nat \<times> byte list) list \<Rightarrow> fru_objects \<Rightarrow> nat \<Rightarrow> (fru_objects \<times> nat) res" where
  "add_devices epoch bus [] objs unknown = Inr (objs, unknown)"
| "add_devices epoch bus ((address, device) # ds) objs unknown =
     rbind (addFruObjectToDbus epoch device objs bus address unknown) (\<lambda>(objs', unknown').
       add_devices epoch bus ds objs' unknown')"

text \<open>
  What the callbacks of the two rescans do with the devices found. After a scan of one bus the
  interfaces of that bus are taken off D-Bus, but they stay in the map; after a scan of all busses
  the map is cleared.
\<close>

definition rescanOneBus :: "nat \<Rightarrow> nat \<Rightarrow> (nat \<times> byte list) list \<Rightarrow> fru_objects \<Rightarrow> nat \<Rightarrow> (fru_objects \<times> nat) res" where
  "rescanOneBus epoch bus devices objs unknown = add_devices epoch bus devices objs unknown"

fun add_busses :: "nat \<Rightarrow> (nat \<times> (nat \<times> byte list) list) list \<Rightarrow> fru_objects \<Rightarrow> nat \<Rightarrow> (fru_objects \<times> nat) res" where
  "add_busses epoch [] objs unknown = Inr (objs, unknown)"
| "add_busses epoch ((bus, devices) # bs) objs unknown =
     rbind (add_devices epoch bus devices objs unknown) (\<lambda>(objs', unknown'). add_busses epoch bs objs' unknown')"

definition rescanBusses :: "nat \<Rightarrow> (nat \<times> (nat \<times> byte list) list) list \<Rightarrow> (fru_objects \<times> nat) res" where
  "rescanBusses epoch busmap = add_busses epoch busmap [] 0"

section \<open>Paths are unique\<close>

lemma digits_value_snoc: "digits_value (ds @ [c]) = digits_value ds * 10 + digit_of c"
  by (simp add: digits_value_def)

lemma digit_chars: "list_all (\<lambda>n. is_digit (char_of (48 + n)) \<and> digit_of (char_of (48 + n)) = int n) [0..<10]"
  by code_simp

lemma digit_char: "n < 10 \<Longrightarrow> is_digit (char_of (48 + n)) \<and> digit_of (char_of (48 + n)) = int n"
  using digit_chars by (simp add: list_all_iff del: upt_rec_numeral)

lemma to_string_digits: "list_all is_digit (to_string n) \<and> to_string n \<noteq> [] \<and> digits_value (to_string n) = int n"
proof (induction n rule: to_string.induct)
  case (1 n)
  show ?case
  proof (cases "n < 10")
    case True
    then have "to_string n = [char_of (48 + n)]" by (subst to_string.simps) simp
    with digit_char [OF True] show ?thesis by (simp add: digits_value_def)
  next
    case False
    then have "to_string n = to_string (n div 10) @ [char_of (48 + n mod 10)]" by (subst to_string.simps) simp
    moreover have "int (n div 10) * 10 + int (n mod 10) = int n" by (metis div_mult_mod_eq of_nat_add of_nat_mult of_nat_numeral)
    ultimately show ?thesis using 1 False digit_char [of "n mod 10"] by (simp add: digits_value_snoc)
  qed
qed

lemma stoi_value:
  assumes "list_all is_digit ds" "stoi ds = Inr v"
  shows "v = digits_value ds"
proof (cases ds)
  case Nil
  with assms(2) show ?thesis by (simp add: stoi_def)
next
  case (Cons c r)
  with assms(1) have "is_digit c" "takeWhile is_digit ds = ds" by (auto simp: list_all_iff takeWhile_eq_all_conv)
  moreover from this(1) have "\<not> is_space c" "c \<noteq> CHR ''-''" "c \<noteq> CHR ''+''" by (auto simp: is_digit_def is_space_def)
  moreover have tw: "takeWhile is_digit r = r" using assms(1) Cons by (simp add: list_all_iff)
  ultimately show ?thesis using assms(2) Cons by (auto simp: stoi_def Let_def tw split: if_splits)
qed

lemma path_index_numbered: "path_index name (name @ ''_'' @ to_string n) = Inr i \<Longrightarrow> i = Some (int n)"
  using to_string_digits [of n] stoi_value [of "to_string n"]
  by (auto simp: path_index_def rbind_Inr_iff split: if_splits)

lemma highest_index_bound:
  assumes "highest_index name ps h = Inr r"
  shows "(\<forall>v. h = Some v \<longrightarrow> (\<exists>w. r = Some w \<and> v \<le> w)) \<and>
    (\<forall>p \<in> set ps. \<exists>i. path_index name p = Inr i \<and> (\<forall>v. i = Some v \<longrightarrow> (\<exists>w. r = Some w \<and> v \<le> w)))"
  using assms
proof (induction ps arbitrary: h)
  case (Cons p ps)
  then obtain i where i: "path_index name p = Inr i"
    and rest: "highest_index name ps (case i of None \<Rightarrow> h | Some v \<Rightarrow> (case h of None \<Rightarrow> Some v | Some h \<Rightarrow> Some (max v h))) = Inr r"
    by (auto simp: rbind_Inr_iff)
  from Cons.IH [OF rest] i show ?case by (cases i; cases h) fastforce+
qed simp

lemma object_path_fresh:
  assumes "object_path paths name = Inr p"
  shows "p \<notin> set paths"
proof
  assume p: "p \<in> set paths"
  obtain r where r: "highest_index name paths None = Inr r"
    and pr: "p = (case r of None \<Rightarrow> name | Some i \<Rightarrow> name @ ''_'' @ to_string (nat (i + 1)))"
    using assms by (auto simp: object_path_def findIndexForFRU_def rbind_Inr_iff)
  obtain i where i: "path_index name p = Inr i" "\<And>v. i = Some v \<Longrightarrow> \<exists>w. r = Some w \<and> v \<le> w"
    using highest_index_bound [OF r] p by blast
  show False
  proof (cases r)
    case None
    with pr i show False by (auto simp: path_index_def)
  next
    case (Some h)
    with pr i(1) have "path_index name (name @ ''_'' @ to_string (nat (h + 1))) = Inr i" by simp
    from path_index_numbered [OF this] i(2) Some show False by (auto split: if_splits)
  qed
qed

lemma set_object_paths: "set (paths_of (set_object k x objs)) \<subseteq> insert (fo_path x) (set (paths_of objs))"
  by (auto simp: set_object_def paths_of_def)

lemma distinct_set_object:
  assumes "distinct (paths_of objs)" "fo_path x \<notin> set (paths_of objs)"
  shows "distinct (paths_of (set_object k x objs))"
  using assms by (auto simp: set_object_def paths_of_def distinct_map_filter)

lemma addFruObject_distinct:
  assumes "addFruObjectToDbus epoch device objs bus address unknown = Inr (objs', unknown')" "distinct (paths_of objs)"
  shows "distinct (paths_of objs')"
  using assms distinct_set_object object_path_fresh
  by (fastforce simp: addFruObjectToDbus_def rbind_Inr_iff split: option.splits)

lemma add_devices_distinct:
  "add_devices epoch bus ds objs unknown = Inr (objs', unknown') \<Longrightarrow> distinct (paths_of objs) \<Longrightarrow> distinct (paths_of objs')"
proof (induction ds arbitrary: objs unknown)
  case (Cons d ds)
  then show ?case by (cases d) (auto simp: rbind_Inr_iff intro: addFruObject_distinct)
qed simp

lemma add_busses_distinct:
  "add_busses epoch bs objs unknown = Inr (objs', unknown') \<Longrightarrow> distinct (paths_of objs) \<Longrightarrow> distinct (paths_of objs')"
proof (induction bs arbitrary: objs unknown)
  case (Cons b bs)
  then show ?case by (cases b) (auto simp: rbind_Inr_iff intro: add_devices_distinct)
qed simp

inductive fru_step :: "fru_objects \<times> nat \<Rightarrow> fru_objects \<times> nat \<Rightarrow> bool" where
  all: "rescanBusses epoch busmap = Inr s' \<Longrightarrow> fru_step s s'"
| one: "rescanOneBus epoch bus devices objs unknown = Inr s' \<Longrightarrow> fru_step (objs, unknown) s'"

definition fru_init :: "fru_objects \<times> nat \<Rightarrow> bool" where
  "fru_init s \<longleftrightarrow> s = ([], 0)"

interpretation fru_machine: invariant_system fru_init fru_step "\<lambda>s. distinct (paths_of (fst s))"
proof
  show "distinct (paths_of (fst s))" if "fru_init s" for s using that by (simp add: fru_init_def paths_of_def)
  show "distinct (paths_of (fst t))" if "distinct (paths_of (fst s))" "fru_step s t" for s t
    using that(2,1)
  proof cases
    case (all epoch busmap)
    then show ?thesis using add_busses_distinct [of epoch busmap "[]" 0] by (cases t) (simp add: rescanBusses_def paths_of_def)
  next
    case (one epoch bus devices objs unknown)
    with that(1) show ?thesis using add_devices_distinct [of epoch bus devices objs unknown] by (cases t) (simp add: rescanOneBus_def)
  qed
qed

text \<open>
  C34. In every state the daemon reaches by scans of one bus or of all busses, whatever they find, no
  two FRU objects on D-Bus have the same path.
\<close>

theorem fru_paths_unique:
  assumes "fru_init s" "fru_step\<^sup>*\<^sup>* s (objs, unknown)"
  shows "distinct (paths_of objs)"
  using fru_machine.inv_reachable [OF assms] by simp

text \<open>
  Scanning a single bus again renames the objects found before: the interfaces of the last scan
  are still in the map when the new paths are chosen, so an unchanged device whose contents parse
  is published under another path than before.
\<close>

theorem single_rescan_renames:
  assumes "rescanOneBus epoch bus [(address, device)] objs unknown = Inr (objs', unknown')"
    and "map_of objs (bus, address) = Some old" "getProductName epoch device unknown = Inr (Some x, v)"
  shows "\<exists>new. map_of objs' (bus, address) = Some new \<and> fo_path new \<noteq> fo_path old"
proof -
  obtain name m where x: "x = (name, m)" by (cases x)
  obtain p where p: "object_path (paths_of objs) (fru_path name) = Inr p"
    "objs' = set_object (bus, address) \<lparr>fo_path = p, fo_properties = published_properties m\<rparr> objs"
    using assms(1,3) x by (auto simp: rescanOneBus_def addFruObjectToDbus_def rbind_Inr_iff)
  have "fo_path old \<in> set (paths_of objs)" using map_of_SomeD [OF assms(2)] by (force simp: paths_of_def)
  with object_path_fresh [OF p(1)] p(2) show ?thesis by (auto simp: set_object_def)
qed

section \<open>Scanning a bus\<close>

text \<open>Whether a device has 16-bit registers: eight reads of register 0 after a write of 0; \<open>None\<close> is an error.\<close>

fun differing :: "byte \<Rightarrow> byte option list \<Rightarrow> bool option" where
  "differing b [] = Some False"
| "differing b (None # rs) = None"
| "differing b (Some b' # rs) = (if b' \<noteq> b then Some True else differing b rs)"

definition isDevice16Bit :: "bool \<Rightarrow> byte option list \<Rightarrow> bool option" where
  "isDevice16Bit write_ok reads =
     (if \<not> write_ok then None
      else case reads of
        Some byte1 # rs \<Rightarrow> differing byte1 (take 7 rs)
      | _ \<Rightarrow> None)"

text \<open>A device as the scan meets it, and what the scan keeps from one time to the next.\<close>

record bus_device =
  bd_slave_ok :: bool
  bd_probe_ok :: bool
  bd_write_ok :: bool
  bd_reads :: "byte option list"
  bd_rom :: "bool \<Rightarrow> eeprom"

record scan_state =
  ss_failed :: "nat \<Rightarrow> nat set"
  ss_found :: "nat \<Rightarrow> nat set"
  ss_devices :: "nat \<rightharpoonup> byte list"
  ss_probed :: "nat list"

definition emplace :: "nat \<Rightarrow> 'a \<Rightarrow> (nat \<rightharpoonup> 'a) \<Rightarrow> (nat \<rightharpoonup> 'a)" where
  "emplace k v m = (case m k of None \<Rightarrow> m(k \<mapsto> v) | Some _ \<Rightarrow> m)"

text \<open>EEPROMs with a driver are read first; their addresses are skipped afterwards.\<close>

fun findI2CEeproms :: "(nat \<times> eeprom option) list \<Rightarrow> (nat \<rightharpoonup> byte list) \<Rightarrow> nat set \<times> (nat \<rightharpoonup> byte list)" where
  "findI2CEeproms [] m = ({}, m)"
| "findI2CEeproms ((address, rd) # es) m =
     (let device = (case rd of None \<Rightarrow> [] | Some r \<Rightarrow> readFRUContents r FRUReader_new);
          (found, m') = findI2CEeproms es (if device = [] then m else emplace address device m) in
      (insert address found, m'))"

text \<open>
  One address of the scan: \<open>root_bus\<close> is the bus a multiplexer is on. Busses behind a multiplexer get
  no probe objects.
\<close>

definition scan_address ::
  "bool \<Rightarrow> nat \<Rightarrow> bool \<Rightarrow> nat option \<Rightarrow> nat set \<Rightarrow> (nat \<Rightarrow> bus_device) \<Rightarrow> nat \<Rightarrow> scan_state \<Rightarrow> scan_state" where
  "scan_address powerIsOn bus mux root_bus skipList dev ii s =
     (if ii \<in> ss_found s bus \<or> ii \<in> skipList \<or> ii \<le> 12 \<or> \<not> bd_slave_ok (dev ii) \<or> \<not> bd_probe_ok (dev ii) then s
      else
        let s1 = (if mux then s else s\<lparr>ss_probed := (if ii \<in> set (ss_probed s) then ss_probed s else ss_probed s @ [ii])\<rparr>) in
        if ii \<in> ss_failed s bus \<or> (case root_bus of None \<Rightarrow> False | Some r \<Rightarrow> ii \<in> ss_failed s r) then s1
        else
          case isDevice16Bit (bd_write_ok (dev ii)) (bd_reads (dev ii)) of
            None \<Rightarrow>
              if powerIsOn then s1\<lparr>ss_failed := (ss_failed s)(bus := insert ii (ss_failed s bus))\<rparr> else s1
          | Some is16 \<Rightarrow>
              let device = readFRUContents (bd_rom (dev ii) is16) FRUReader_new in
              if device = [] then s1
              else s1\<lparr>ss_devices := emplace ii device (ss_devices s),
                      ss_found := (ss_found s)(bus := insert ii (ss_found s bus))\<rparr>)"

definition getBusFRUs ::
  "bool \<Rightarrow> nat \<Rightarrow> bool \<Rightarrow> nat option \<Rightarrow> (nat \<times> eeprom option) list \<Rightarrow> (nat \<Rightarrow> bus_device) \<Rightarrow> nat \<Rightarrow> nat \<Rightarrow> scan_state \<Rightarrow> scan_state" where
  "getBusFRUs powerIsOn bus mux root_bus eeproms dev firstAddr lastAddr s =
     (let (skipList, m) = findI2CEeproms eeproms (ss_devices s);
          foundItems = (case root_bus of None \<Rightarrow> {} | Some r \<Rightarrow> ss_found s r);
          s1 = s\<lparr>ss_devices := m, ss_found := (ss_found s)(bus := foundItems)\<rparr> in
      fold (scan_address powerIsOn bus mux root_bus skipList dev) [firstAddr..<lastAddr + 1] s1)"

text \<open>What the scan of one address changes: nothing of other addresses, and no failure is forgotten.\<close>

lemma scan_address_frame:
  "jj \<noteq> ii \<Longrightarrow> ss_devices (scan_address p bus mux r skip dev ii s) jj = ss_devices s jj"
  "jj \<noteq> ii \<Longrightarrow> jj \<in> ss_found (scan_address p bus mux r skip dev ii s) bus \<longleftrightarrow> jj \<in> ss_found s bus"
  "jj \<noteq> ii \<Longrightarrow> jj \<in> ss_failed (scan_address p bus mux r skip dev ii s) b \<longleftrightarrow> jj \<in> ss_failed s b"
  "ss_failed s b \<subseteq> ss_failed (scan_address p bus mux r skip dev ii s) b"
  by (auto simp: scan_address_def Let_def emplace_def split: option.splits)

lemma scan_frame:
  "jj \<notin> set is \<Longrightarrow> ss_devices (fold (scan_address p bus mux r skip dev) is s) jj = ss_devices s jj \<and>
   (jj \<in> ss_found (fold (scan_address p bus mux r skip dev) is s) bus \<longleftrightarrow> jj \<in> ss_found s bus) \<and>
   (\<forall>b. jj \<in> ss_failed (fold (scan_address p bus mux r skip dev) is s) b \<longleftrightarrow> jj \<in> ss_failed s b)"
  by (induction "is" arbitrary: s) (auto simp: scan_address_frame)

lemma scan_split:
  assumes "firstAddr \<le> ii" "ii \<le> lastAddr"
  shows "fold f [firstAddr..<lastAddr + 1] s = fold f [Suc ii..<lastAddr + 1] (f ii (fold f [firstAddr..<ii] s))"
proof -
  have "[firstAddr..<lastAddr + 1] = [firstAddr..<ii] @ ii # [Suc ii..<lastAddr + 1]"
    using upt_add_eq_append [OF assms(1), of "lastAddr + 1 - ii"] upt_conv_Cons [of ii "lastAddr + 1"] assms(2) by simp
  then show ?thesis by simp
qed

text \<open>
  A scan reads every EEPROM it should: an address in the range above 12 that has no driver, was
  not found on the root bus, answers the probe, has not failed before and tells its register width
  is in the devices afterwards with the contents read, unless it was there already.
\<close>

theorem scan_finds_device:
  assumes "firstAddr \<le> ii" "ii \<le> lastAddr" "12 < ii" "findI2CEeproms eeproms (ss_devices s) = (skipList, m)" "ii \<notin> skipList"
    and "case root_bus of None \<Rightarrow> True | Some r \<Rightarrow> ii \<notin> ss_found s r \<and> ii \<notin> ss_failed s r"
    and "bd_slave_ok (dev ii)" "bd_probe_ok (dev ii)" "ii \<notin> ss_failed s bus"
    and "isDevice16Bit (bd_write_ok (dev ii)) (bd_reads (dev ii)) = Some is16"
    and "readFRUContents (bd_rom (dev ii) is16) FRUReader_new = device" "device \<noteq> []"
  shows "ss_devices (getBusFRUs powerIsOn bus mux root_bus eeproms dev firstAddr lastAddr s) ii =
    Some (case m ii of None \<Rightarrow> device | Some d \<Rightarrow> d)"
proof -
  let ?scan = "scan_address powerIsOn bus mux root_bus skipList dev"
  define s1 where "s1 = s\<lparr>ss_devices := m, ss_found := (ss_found s)(bus := case root_bus of None \<Rightarrow> {} | Some r \<Rightarrow> ss_found s r)\<rparr>"
  define s2 where "s2 = fold ?scan [firstAddr..<ii] s1"
  have s2: "ss_devices s2 ii = m ii" "ii \<notin> ss_found s2 bus" "ii \<in> ss_failed s2 b \<longleftrightarrow> ii \<in> ss_failed s b" for b
    using scan_frame [of ii "[firstAddr..<ii]" powerIsOn bus mux root_bus skipList dev s1] assms(6)
    by (auto simp: s2_def s1_def split: option.splits)
  have "ss_devices (?scan ii s2) ii = Some (case m ii of None \<Rightarrow> device | Some d \<Rightarrow> d)"
    using s2 assms(3,5-12) by (auto simp: scan_address_def Let_def emplace_def split: option.splits)
  moreover have "getBusFRUs powerIsOn bus mux root_bus eeproms dev firstAddr lastAddr s = fold ?scan [Suc ii..<lastAddr + 1] (?scan ii s2)"
    using scan_split [OF assms(1,2), of ?scan s1] assms(4) by (simp add: getBusFRUs_def s1_def s2_def)
  ultimately show ?thesis
    using scan_frame [of ii "[Suc ii..<lastAddr + 1]" powerIsOn bus mux root_bus skipList dev "?scan ii s2"] by simp
qed

definition example_device :: "byte list \<Rightarrow> bus_device" where
  "example_device mem = \<lparr>bd_slave_ok = True, bd_probe_ok = True, bd_write_ok = True, bd_reads = replicate 8 (Some 1), bd_rom = (\<lambda>_. rom mem)\<rparr>"

definition example_scan :: scan_state where
  "example_scan = \<lparr>ss_failed = (\<lambda>_. {}), ss_found = (\<lambda>_. {}), ss_devices = Map.empty, ss_probed = []\<rparr>"

theorem scan_finds_device_witness:
  "ss_devices (getBusFRUs True 1 False None [] (\<lambda>_. example_device example_fru) 3 0x77 example_scan) 0x50 = Some example_fru"
proof -
  have "isDevice16Bit (bd_write_ok (example_device example_fru)) (bd_reads (example_device example_fru)) = Some False"
    by code_simp
  from scan_finds_device [where ii = "0x50" and firstAddr = 3 and lastAddr = "0x77" and eeproms = "[]" and root_bus = None and s = example_scan
      and powerIsOn = True and bus = 1 and mux = False, OF _ _ _ _ _ _ _ _ _ this]
  show ?thesis using example_contents by (simp add: example_scan_def example_device_def example_fru_def)
qed

lemma example_name: "getProductName epoch (example_closed []) u = Inr (Some (''CM'', example_properties), u)"
proof -
  have "example_properties ''BOARD_PRODUCT_NAME'' = None" "example_properties ''PRODUCT_PRODUCT_NAME'' = Some ''CM''"
    "map (\<lambda>c. if legal_char c then c else CHR ''_'') ''CM'' = ''CM''"
    by code_simp+
  then show ?thesis by (simp add: getProductName_def example_closed_parses)
qed

definition example_objects :: fru_objects where
  "example_objects =
     [((1, 0x51), \<lparr>fo_path = fru_path ''CM_0'', fo_properties = published_properties example_properties\<rparr>),
      ((1, 0x50), \<lparr>fo_path = fru_path ''CM'', fo_properties = published_properties example_properties\<rparr>)]"

lemma example_numbered: "object_path [] (fru_path ''CM'') = Inr (fru_path ''CM'')"
  "object_path [fru_path ''CM''] (fru_path ''CM'') = Inr (fru_path ''CM_0'')"
  "object_path [fru_path ''CM_0'', fru_path ''CM''] (fru_path ''CM'') = Inr (fru_path ''CM_1'')"
  by code_simp+

lemma example_scanned:
  "rescanBusses 820454400 [(1, [(0x50, example_closed []), (0x51, example_closed [])])] = Inr (example_objects, 0)"
  by (simp add: rescanBusses_def addFruObjectToDbus_def example_name paths_of_def example_numbered set_object_def example_objects_def)

theorem fru_paths_unique_witness: "distinct (paths_of example_objects)"
  by (rule fru_paths_unique [where s = "([], 0)" and unknown = 0])
    (auto simp: fru_init_def intro: fru_step.all [OF example_scanned])

theorem single_rescan_renames_witness:
  "\<exists>new. map_of (set_object (1, 0x50) \<lparr>fo_path = fru_path ''CM_1'', fo_properties = published_properties example_properties\<rparr> example_objects) (1, 0x50) = Some new \<and>
     fo_path new \<noteq> fru_path ''CM''"
proof -
  have "rescanOneBus 820454400 1 [(0x50, example_closed [])] example_objects 0 =
      Inr (set_object (1, 0x50) \<lparr>fo_path = fru_path ''CM_1'', fo_properties = published_properties example_properties\<rparr> example_objects, 0)"
    by (simp add: rescanOneBus_def addFruObjectToDbus_def example_name paths_of_def example_numbered example_objects_def)
  from single_rescan_renames [OF this _ example_name] show ?thesis by (auto simp: example_objects_def)
qed

section \<open>Updating a property\<close>

type_synonym BusMap = "nat \<rightharpoonup> (nat \<rightharpoonup> byte list)"

definition getFRUInfo :: "BusMap \<Rightarrow> nat \<Rightarrow> nat \<Rightarrow> byte list res" where
  "getFRUInfo busMap bus address =
     (case busMap bus of
        None \<Rightarrow> Inl Invalid_Argument
      | Some m \<Rightarrow> (case m address of None \<Rightarrow> Inl Invalid_Argument | Some d \<Rightarrow> Inr d))"

text \<open>The exception is caught; empty contents count as a failure.\<close>

definition getFruData :: "BusMap \<Rightarrow> nat \<Rightarrow> nat \<Rightarrow> byte list option" where
  "getFruData busMap bus address =
     (case getFRUInfo busMap (bus mod 2 ^ 16) (address mod 256) of
        Inl e \<Rightarrow> None
      | Inr d \<Rightarrow> if d = [] then None else Some d)"

text \<open>The result, whether a rescan is started, and the bus afterwards.\<close>

definition updateFRUProperty ::
  "nat \<Rightarrow> bool option \<Rightarrow> bool option option \<Rightarrow> bool \<Rightarrow> BusMap \<Rightarrow> string \<Rightarrow> nat \<Rightarrow> nat \<Rightarrow> string \<Rightarrow> i2c_world \<Rightarrow>
   bool res \<times> bool \<times> i2c_world" where
  "updateFRUProperty epoch baseboard driver bus_ok busMap req bus address propertyName w =
     (if length req = 1 \<or> length req > 63 then (Inr False, False, w)
      else
        case getFruData busMap bus address of
          None \<Rightarrow> (Inr False, False, w)
        | Some fruData \<Rightarrow>
            case update_contents req fruData propertyName of
              Inl e \<Rightarrow> (Inl e, False, w)
            | Inr None \<Rightarrow> (Inr False, False, w)
            | Inr (Some d) \<Rightarrow>
                case writeFRU epoch baseboard driver bus_ok (bus mod 256) (address mod 256) d w of
                  (Inr True, w') \<Rightarrow> (Inr True, True, w')
                | (r, w') \<Rightarrow> (r, False, w'))"

text \<open>
  A property set over D-Bus: a value equal to the one shown, up to its first null character, is
  taken without an update; a failed update is an exception.
\<close>

definition c_str :: "string \<Rightarrow> string" where
  "c_str s = takeWhile (\<lambda>c. c \<noteq> CHR 0x00) s"

definition set_asset_tag ::
  "(string \<Rightarrow> i2c_world \<Rightarrow> bool res \<times> bool \<times> i2c_world) \<Rightarrow> string \<Rightarrow> string \<Rightarrow> i2c_world \<Rightarrow> string res \<times> i2c_world" where
  "set_asset_tag update req resp w =
     (if c_str req = c_str resp then (Inr resp, w)
      else
        case update req w of
          (Inl e, _, w') \<Rightarrow> (Inl e, w')
        | (Inr ok, _, w') \<Rightarrow> (if ok then Inr req else Inl Invalid_Argument, w'))"

lemma update_property_reaches_bus:
  assumes "busMap bus = Some dm" "dm address = Some bs" "bs \<noteq> []" "0 < bus" "bus < 256" "address + 2 < 256"
    and "length req \<noteq> 1" "length req \<le> 63" "update_contents req bs name = Inr (Some bs')"
    and "formatIPMIFRU epoch bs' = Inr (resOK, m)" "length bs' \<le> 512"
    and "\<And>n. \<not> (iw_fails w n \<and> iw_fails w (n + 1) \<and> iw_fails w (n + 2))" "\<And>a. \<not> iw_absent w a"
  shows "\<exists>w'. updateFRUProperty epoch baseboard None True busMap req bus address name w = (Inr True, True, w') \<and>
    (\<forall>i < length bs'. iw_cells w' (address + i div 256) (of_nat i) = bs' ! i)"
proof -
  obtain w' where "writeFRU epoch baseboard None True bus address bs' w = (Inr True, w')" "written bs' address (length bs') w'"
    using writeFRU_i2c [OF assms(11,10) _ assms(6), of bus w baseboard] assms(4,12,13) by auto
  moreover have "getFruData busMap bus address = Some bs" using assms(1-3,5,6) by (simp add: getFruData_def getFRUInfo_def)
  ultimately show ?thesis using assms(5-9) by (auto simp: updateFRUProperty_def written_def)
qed

end
