(* ===== verification/Lan_Session.thy ===== *)
theory Lan_Session
  imports Prelude
begin

text \<open>
  Sessions of IPMI over LAN and their manager
  (\<open>src/devtool-mods/phosphor-ipmi-net-mods/session.hpp\<close>, \<open>sessions_manager.cpp\<close>).

  A \<open>Session\<close> object is reached by shared pointers: from the map of sessions, from the handler of a
  message, from a payload. The manager therefore holds all objects ever made in \<open>mgr_objs\<close>, a
  reference is an index, and the map takes a session id to a reference; an object that the cleaner
  takes out of the map stays. Time is in nanoseconds of the steady clock and is an argument of each
  operation, as are the values of the random generator. The properties of the D-Bus object that a
  new session starts with are generated by \<open>sdbus++\<close> and are an argument, \<open>info0\<close>.
\<close>

section \<open>Sessions\<close>

datatype session_state = State_inactive | State_setupInProgress | State_active | State_tearDownInProgress

record priv_access =
  pa_privilege :: byte
  pa_ipmiEnabled :: bool

record channel_access =
  ca_accessMode :: byte
  ca_privLimit :: byte

record session_info =
  si_state :: session_state
  si_currentPrivilege :: byte
  si_channelNum :: byte
  si_userID :: byte
  si_sessionHandle :: byte
  si_remotePort :: nat
  si_remoteIPAddr :: "32 word"

text \<open>
  The authentication algorithm of a session. Its two random numbers are arrays that the constructor
  leaves uninitialised.
\<close>

datatype digest = SHA1 | SHA256

record auth_algo =
  aa_digest :: digest
  aa_userKey :: "byte list"
  aa_bmcRandomNum :: "byte list option"
  aa_rcRandomNum :: "byte list option"
  aa_sessionIntegrityKey :: "byte list"
  aa_intAlgo :: byte
  aa_cryptAlgo :: byte

record integrity_algo =
  ia_digest :: digest
  ia_k1 :: "byte list"

text \<open>
  A \<open>Channel\<close> (\<open>socket_channel.hpp\<close>) is made for each packet and keeps the address that the packet
  came from, an IPv4 or IPv6 address with its port; a null pointer is \<open>None\<close>.
\<close>

datatype channel = Sock_In "byte list" nat | Sock_In6 "byte list" nat

record sequence_numbers =
  sn_in :: "32 word"
  sn_out :: "32 word"

record session =
  ses_info :: session_info
  ses_reqMaxPrivLevel :: byte
  ses_userPrivAccess :: priv_access
  ses_channelAccess :: channel_access
  ses_sequenceNums :: sequence_numbers
  ses_userName :: "byte list"
  ses_bmcSessionID :: "32 word"
  ses_remoteConsoleSessionID :: "32 word"
  ses_authAlgo :: "auth_algo option"
  ses_integrityAlgo :: "integrity_algo option"
  ses_cryptAlgo :: "byte list option"
  ses_lastTime :: int
  ses_channelPtr :: "channel option"

definition increment :: "sequence_numbers \<Rightarrow> 32 word \<times> sequence_numbers" where
  "increment n = (sn_out n + 1, n\<lparr>sn_out := sn_out n + 1\<rparr>)"

definition new_session :: "session_info \<Rightarrow> 32 word \<Rightarrow> 32 word \<Rightarrow> byte \<Rightarrow> session" where
  "new_session info0 rc bmc priv = \<lparr>ses_info = info0, ses_reqMaxPrivLevel = priv,
     ses_userPrivAccess = \<lparr>pa_privilege = 0, pa_ipmiEnabled = False\<rparr>,
     ses_channelAccess = \<lparr>ca_accessMode = 0, ca_privLimit = 0\<rparr>,
     ses_sequenceNums = \<lparr>sn_in = 0, sn_out = 0\<rparr>, ses_userName = [], ses_bmcSessionID = bmc,
     ses_remoteConsoleSessionID = rc, ses_authAlgo = None, ses_integrityAlgo = None,
     ses_cryptAlgo = None, ses_lastTime = 0, ses_channelPtr = None\<rparr>"

definition default_user_key :: "byte list" where
  "default_user_key = [0x30, 0x70, 0x65, 0x6E, 0x42, 0x6D, 0x63, 0, 0, 0, 0, 0, 0, 0, 0, 0, 0, 0, 0, 0]"

definition new_auth_algo :: "digest \<Rightarrow> byte \<Rightarrow> byte \<Rightarrow> auth_algo" where
  "new_auth_algo dg ia ca = \<lparr>aa_digest = dg, aa_userKey = default_user_key, aa_bmcRandomNum = None,
     aa_rcRandomNum = None, aa_sessionIntegrityKey = [], aa_intAlgo = ia, aa_cryptAlgo = ca\<rparr>"

definition ses_state :: "session \<Rightarrow> session_state" where
  "ses_state s = si_state (ses_info s)"

definition ses_currentPrivilege :: "session \<Rightarrow> byte" where
  "ses_currentPrivilege s = si_currentPrivilege (ses_info s)"

definition set_state :: "session_state \<Rightarrow> session \<Rightarrow> session" where
  "set_state st s = s\<lparr>ses_info := (ses_info s)\<lparr>si_state := st\<rparr>\<rparr>"

definition set_currentPrivilege :: "byte \<Rightarrow> session \<Rightarrow> session" where
  "set_currentPrivilege p s = s\<lparr>ses_info := (ses_info s)\<lparr>si_currentPrivilege := p\<rparr>\<rparr>"

definition updateLastTransactionTime :: "int \<Rightarrow> session \<Rightarrow> session" where
  "updateLastTransactionTime now s = s\<lparr>ses_lastTime := now\<rparr>"

text \<open>Grace times are microseconds.\<close>

definition isSessionActive :: "int \<Rightarrow> int \<Rightarrow> int \<Rightarrow> session \<Rightarrow> bool" where
  "isSessionActive now activeGrace setupGrace s =
     (let elapsedMicros = (now - ses_lastTime s) div 1000
      in case ses_state s of
           State_active \<Rightarrow> elapsedMicros < activeGrace
         | State_setupInProgress \<Rightarrow> elapsedMicros < setupGrace
         | _ \<Rightarrow> False)"

section \<open>The manager\<close>

definition maxSessionHandles :: nat where "maxSessionHandles = 0x3F"
definition maxSessionCountPerChannel :: int where "maxSessionCountPerChannel = 15"
definition maxSessionlessCount :: nat where "maxSessionlessCount = 1"
definition multiIntfaceSessionIDMask :: "32 word" where "multiIntfaceSessionIDMask = 0x3FFFFFFF"
definition multiIntfaceSessionHandleMask :: byte where "multiIntfaceSessionHandleMask = 0x3F"

lemmas session_limits = maxSessionHandles_def maxSessionCountPerChannel_def maxSessionlessCount_def

record manager =
  mgr_objs :: "session list"
  mgr_sessionsMap :: "(32 word \<times> nat) list"
  mgr_sessionHandleMap :: "32 word list"
  mgr_chName :: string
  mgr_networkInstance :: byte
  mgr_expiry :: int
  mgr_waiting :: bool

definition obj :: "manager \<Rightarrow> nat \<Rightarrow> session" where
  "obj m r = mgr_objs m ! r"

definition upd_obj :: "nat \<Rightarrow> (session \<Rightarrow> session) \<Rightarrow> manager \<Rightarrow> manager" where
  "upd_obj r f m = m\<lparr>mgr_objs := (mgr_objs m)[r := f (mgr_objs m ! r)]\<rparr>"

text \<open>
  The lan channels 1 to 15 whose medium is 802.3 get the network instances 0 to 3 in order; the
  instance of the daemon is that of its own channel \<open>own\<close>.
\<close>

fun setNetworkInstance :: "(byte \<Rightarrow> bool) \<Rightarrow> byte \<Rightarrow> byte list \<Rightarrow> nat \<Rightarrow> byte \<Rightarrow> byte" where
  "setNetworkInstance is_lan own [] index inst = inst"
| "setNetworkInstance is_lan own (ch # chs) index inst =
     (if 4 \<le> index then inst
      else if is_lan ch
      then setNetworkInstance is_lan own chs (index + 1) (if own = ch then of_nat index else inst)
      else setNetworkInstance is_lan own chs index inst)"

definition scheduleSessionCleaner :: "int \<Rightarrow> int \<Rightarrow> manager \<Rightarrow> manager" where
  "scheduleSessionCleaner now micros m =
     (let expTime = mgr_expiry m - now
      in if 0 < expTime \<and> expTime < 1000 * micros then m
         else m\<lparr>mgr_expiry := now + 1000 * micros, mgr_waiting := True\<rparr>)"

definition managerInit :: "session_info \<Rightarrow> (byte \<Rightarrow> bool) \<Rightarrow> byte \<Rightarrow> string \<Rightarrow> int \<Rightarrow> manager" where
  "managerInit info0 is_lan own channel now =
     scheduleSessionCleaner now (3 * 1000 * 1000)
       \<lparr>mgr_objs = [new_session info0 0 0 0], mgr_sessionsMap = [(0, 0)],
        mgr_sessionHandleMap = replicate maxSessionHandles 0, mgr_chName = channel,
        mgr_networkInstance = setNetworkInstance is_lan own (map of_nat [1..<16]) 0 0,
        mgr_expiry = 0, mgr_waiting = False\<rparr>"

definition getSessionHandle :: "32 word list \<Rightarrow> 32 word \<Rightarrow> nat" where
  "getSessionHandle hm bmc =
     (case find (\<lambda>i. hm ! i = bmc) [1..<maxSessionHandles] of Some i \<Rightarrow> i | None \<Rightarrow> 0)"

definition storeSessionHandle :: "32 word \<Rightarrow> 32 word list \<Rightarrow> nat \<times> 32 word list" where
  "storeSessionHandle bmc hm =
     (case find (\<lambda>i. hm ! i = 0) [1..<maxSessionHandles] of
        Some i \<Rightarrow> (i, hm[i := bmc])
      | None \<Rightarrow> (0, hm))"

definition getSessionIDbyHandle :: "nat \<Rightarrow> manager \<Rightarrow> 32 word" where
  "getSessionIDbyHandle h m = (if h < maxSessionHandles then mgr_sessionHandleMap m ! h else 0)"

definition getActiveSessionCount :: "manager \<Rightarrow> byte" where
  "getActiveSessionCount m =
     of_nat (length (filter (\<lambda>(k, r). ses_state (obj m r) = State_active) (mgr_sessionsMap m)))"

definition getNetworkInstance :: "manager \<Rightarrow> byte" where
  "getNetworkInstance m = mgr_networkInstance m"

text \<open>
  The loop of \<open>cleanStaleEntries\<close> over the map: the entries that stay and the handle map.
\<close>

fun clean_entries :: "(session \<Rightarrow> bool) \<Rightarrow> session list \<Rightarrow> 32 word list \<Rightarrow> (32 word \<times> nat) list \<Rightarrow>
    (32 word \<times> nat) list \<times> 32 word list" where
  "clean_entries live objs hm [] = ([], hm)"
| "clean_entries live objs hm ((k, r) # es) =
     (let s = objs ! r
      in if ses_bmcSessionID s = 0 \<or> live s
         then (case clean_entries live objs hm es of (es', hm') \<Rightarrow> ((k, r) # es', hm'))
         else clean_entries live objs (hm[getSessionHandle hm (ses_bmcSessionID s) := 0]) es)"

definition grace_divisor :: "int \<Rightarrow> int" where
  "grace_divisor d = (let d' = max 0 d + 1 in d' * d' * d')"

definition activeMicros :: "manager \<Rightarrow> int" where
  "activeMicros m =
     60 * 1000 * 1000 div grace_divisor (int (unat (getActiveSessionCount m)) - maxSessionCountPerChannel)"

definition setupMicros :: "manager \<Rightarrow> int" where
  "setupMicros m = min (3 * 1000 * 1000)
     (60 * 1000 * 1000 div
        grace_divisor (int (length (mgr_sessionsMap m)) - (maxSessionCountPerChannel + 1)))"

definition cleanStaleEntries :: "int \<Rightarrow> manager \<Rightarrow> manager" where
  "cleanStaleEntries now m =
     (let live = isSessionActive now (activeMicros m) (setupMicros m);
          (es, hm) = clean_entries live (mgr_objs m) (mgr_sessionHandleMap m) (mgr_sessionsMap m);
          m' = m\<lparr>mgr_sessionsMap := es, mgr_sessionHandleMap := hm\<rparr>
      in if 1 < length es then scheduleSessionCleaner now (min (setupMicros m) (1 * 1000 * 1000)) m'
         else m')"

text \<open>
  The loop that draws session ids until one is not in use, on the values that the generator yields.
\<close>

fun draw_session_id :: "byte \<Rightarrow> (32 word \<times> nat) list \<Rightarrow> 32 word list \<Rightarrow> 32 word res" where
  "draw_session_id inst sm [] = Inl No_Return"
| "draw_session_id inst sm (v # vs) =
     (let bmc = (v AND multiIntfaceSessionIDMask) OR push_bit 30 (ucast inst)
      in if map_of sm bmc \<noteq> None then draw_session_id inst sm vs else Inr bmc)"

definition session_digest :: "byte \<Rightarrow> digest option" where
  "session_digest authAlgo = (if authAlgo = 1 then Some SHA1 else if authAlgo = 3 then Some SHA256 else None)"

definition startSession :: "session_info \<Rightarrow> int \<Rightarrow> 32 word list \<Rightarrow> 32 word \<Rightarrow> byte \<Rightarrow> byte \<Rightarrow> byte \<Rightarrow> byte \<Rightarrow>
    manager \<Rightarrow> nat res \<times> manager" where
  "startSession info0 now rands rc priv authAlgo intAlgo cryptAlgo m0 =
     (let m = scheduleSessionCleaner now (1 * 1000 * 1000) (cleanStaleEntries now m0);
          activeSessions = length (mgr_sessionsMap m) - maxSessionlessCount
      in if activeSessions < maxSessionHandles then
           (case draw_session_id (mgr_networkInstance m) (mgr_sessionsMap m) rands of
              Inl e \<Rightarrow> (Inl e, m)
            | Inr bmc \<Rightarrow>
                (let (h, hm) = storeSessionHandle bmc (mgr_sessionHandleMap m)
                 in if h = 0 then (Inl Runtime_Error, m)
                    else
                      (let handle = (of_nat h AND multiIntfaceSessionHandleMask) OR
                             push_bit 6 (mgr_networkInstance m);
                           s = new_session info0 rc bmc priv
                       in case session_digest authAlgo of
                            None \<Rightarrow> (Inl Runtime_Error, m\<lparr>mgr_sessionHandleMap := hm\<rparr>)
                          | Some dg \<Rightarrow>
                              (let s' = s\<lparr>ses_authAlgo := Some (new_auth_algo dg intAlgo cryptAlgo),
                                     ses_info := (ses_info s)\<lparr>si_sessionHandle := handle\<rparr>\<rparr>
                               in (Inr (length (mgr_objs m)),
                                   m\<lparr>mgr_objs := mgr_objs m @ [s'],
                                     mgr_sessionsMap := omap_update bmc (length (mgr_objs m)) (mgr_sessionsMap m),
                                     mgr_sessionHandleMap := hm\<rparr>)))))
         else (Inl Runtime_Error, m))"

definition stopSession :: "32 word \<Rightarrow> manager \<Rightarrow> bool \<times> manager" where
  "stopSession bmc m =
     (case map_of (mgr_sessionsMap m) bmc of
        Some r \<Rightarrow> (True, upd_obj r (set_state State_tearDownInProgress) m)
      | None \<Rightarrow> (False, m))"

datatype retrieve_option = BMC_SESSION_ID | RC_SESSION_ID

fun getSession :: "32 word \<Rightarrow> retrieve_option \<Rightarrow> manager \<Rightarrow> nat res" where
  "getSession sid BMC_SESSION_ID m = of_opt Runtime_Error (map_of (mgr_sessionsMap m) sid)"
| "getSession sid RC_SESSION_ID m =
     of_opt Runtime_Error (map_option snd
       (find (\<lambda>(k, r). ses_remoteConsoleSessionID (obj m r) = sid) (mgr_sessionsMap m)))"

section \<open>Handles\<close>

text \<open>
  The handle map pairs the slots 1 to 62 with the sessions of \<open>K\<close>: no session has two slots, every
  session but session zero has one, and slot 0 stays free.
\<close>

definition handles_ok :: "32 word list \<Rightarrow> 32 word set \<Rightarrow> bool" where
  "handles_ok hm K \<longleftrightarrow> length hm = maxSessionHandles \<and> hm ! 0 = 0 \<and> set hm - {0} = K - {0} \<and>
     (\<forall>i < maxSessionHandles. \<forall>j < maxSessionHandles. hm ! i = hm ! j \<longrightarrow> hm ! i \<noteq> 0 \<longrightarrow> i = j)"

lemma find_upt_Some:
  "find P [a..<b] = Some i \<Longrightarrow> a \<le> i \<and> i < b \<and> P i"
  by (auto simp: find_Some_iff)

lemma find_upt_None: "find P [a..<b] = None \<longleftrightarrow> (\<forall>i. a \<le> i \<and> i < b \<longrightarrow> \<not> P i)"
  by (auto simp: find_None_iff)

lemma getSessionHandle_less: "getSessionHandle hm k < maxSessionHandles"
  by (auto simp: getSessionHandle_def maxSessionHandles_def split: option.split dest: find_upt_Some)

lemma getSessionHandle_eqI:
  assumes "handles_ok hm K" "i < maxSessionHandles" "hm ! i = k" "k \<noteq> 0"
  shows "getSessionHandle hm k = i"
proof -
  have "1 \<le> i" using assms by (cases i) (auto simp: handles_ok_def)
  with assms have "find (\<lambda>i. hm ! i = k) [1..<maxSessionHandles] \<noteq> None"
    by (auto simp: find_upt_None)
  then obtain j where j: "find (\<lambda>i. hm ! i = k) [1..<maxSessionHandles] = Some j" by blast
  then have "j < maxSessionHandles" "hm ! j = k" by (auto dest: find_upt_Some)
  with assms j show ?thesis by (auto simp: getSessionHandle_def handles_ok_def)
qed

lemma getSessionHandle_slot:
  assumes "handles_ok hm K" "k \<in> K" "k \<noteq> 0"
  shows "hm ! getSessionHandle hm k = k" "0 < getSessionHandle hm k"
proof -
  have "k \<in> set hm" using assms by (auto simp: handles_ok_def)
  then obtain i where "i < maxSessionHandles" "hm ! i = k"
    using assms by (auto simp: in_set_conv_nth handles_ok_def)
  with assms have i: "getSessionHandle hm k = i" "hm ! i = k" by (auto intro: getSessionHandle_eqI)
  then show "hm ! getSessionHandle hm k = k" by simp
  with assms(1,3) show "0 < getSessionHandle hm k" by (cases "getSessionHandle hm k") (auto simp: handles_ok_def)
qed

lemma handles_ok_free:
  assumes "handles_ok hm K" "k \<in> K" "k \<noteq> 0"
  shows "handles_ok (hm[getSessionHandle hm k := 0]) (K - {k})"
proof -
  let ?h = "getSessionHandle hm k"
  have len: "length hm = maxSessionHandles" using assms by (simp add: handles_ok_def)
  have h: "hm ! ?h = k" "0 < ?h" "?h < maxSessionHandles"
    using getSessionHandle_slot [OF assms] getSessionHandle_less by auto
  have "x \<in> set (hm[?h := 0]) \<longleftrightarrow> x \<in> set hm \<and> x \<noteq> k" if "x \<noteq> 0" for x
  proof -
    have "x \<in> set (hm[?h := 0]) \<longleftrightarrow> (\<exists>i < maxSessionHandles. i \<noteq> ?h \<and> hm ! i = x)"
      using that len h by (simp add: in_set_conv_nth nth_list_update) metis
    also have "\<dots> \<longleftrightarrow> (\<exists>i < maxSessionHandles. hm ! i = x) \<and> x \<noteq> k"
      using assms that h by (auto simp: handles_ok_def)
    finally show ?thesis using len by (auto simp: in_set_conv_nth)
  qed
  with assms have "set (hm[?h := 0]) - {0} = K - {k} - {0}" by (auto simp: handles_ok_def)
  moreover have "(hm[?h := 0]) ! 0 = 0" using assms h by (simp add: handles_ok_def)
  moreover have "\<forall>i < maxSessionHandles. \<forall>j < maxSessionHandles.
      hm[?h := 0] ! i = hm[?h := 0] ! j \<longrightarrow> hm[?h := 0] ! i \<noteq> 0 \<longrightarrow> i = j"
    using assms len h by (auto simp: handles_ok_def nth_list_update)
  ultimately show ?thesis using len by (simp add: handles_ok_def)
qed

lemma handles_ok_store:
  assumes "handles_ok hm K" "k \<notin> K" "k \<noteq> 0" "storeSessionHandle k hm = (h, hm')" "h \<noteq> 0"
  shows "handles_ok hm' (insert k K)" "hm' = hm[h := k]" "hm ! h = 0" "h < maxSessionHandles"
proof -
  have f: "find (\<lambda>i. hm ! i = 0) [1..<maxSessionHandles] = Some h" and hm': "hm' = hm[h := k]"
    using assms(4,5) by (auto simp: storeSessionHandle_def split: option.splits)
  have h: "h < maxSessionHandles" "hm ! h = 0" using find_upt_Some [OF f] by auto
  have len: "length hm = maxSessionHandles" using assms by (simp add: handles_ok_def)
  have k: "k \<notin> set hm" using assms by (auto simp: handles_ok_def)
  have "x \<in> set hm' \<longleftrightarrow> x \<in> set hm \<or> x = k" if "x \<noteq> 0" for x
    using that len h by (simp add: hm' in_set_conv_nth nth_list_update) metis
  with assms have "set hm' - {0} = insert k K - {0}" by (auto simp: handles_ok_def)
  moreover have "hm' ! i = hm' ! j \<longrightarrow> hm' ! i \<noteq> 0 \<longrightarrow> i = j"
    if "i < maxSessionHandles" "j < maxSessionHandles" for i j
    using assms that len h k by (auto simp: hm' handles_ok_def nth_list_update in_set_conv_nth)
  moreover have "hm' ! 0 = 0" using assms by (simp add: hm' handles_ok_def)
  ultimately show "handles_ok hm' (insert k K)" using len by (simp add: handles_ok_def hm')
  show "hm' = hm[h := k]" "hm ! h = 0" "h < maxSessionHandles" by (fact hm' h)+
qed

lemma getSessionHandle_other:
  assumes "handles_ok hm K" "handles_ok (hm[h := v]) K'" "k \<in> K" "k \<noteq> 0" "hm ! h \<noteq> k"
  shows "getSessionHandle (hm[h := v]) k = getSessionHandle hm k"
proof (rule getSessionHandle_eqI [OF assms(2) getSessionHandle_less _ assms(4)])
  have s: "hm ! getSessionHandle hm k = k" using getSessionHandle_slot [OF assms(1,3,4)] by blast
  with assms(5) have "getSessionHandle hm k \<noteq> h" by auto
  with s show "hm[h := v] ! getSessionHandle hm k = k" by simp
qed

lemma handles_bounded:
  assumes "handles_ok hm K" "finite K"
  shows "card (K - {0}) < maxSessionHandles"
proof -
  have "hm = hm ! 0 # tl hm" using assms by (cases hm) (auto simp: handles_ok_def maxSessionHandles_def)
  then have "set hm = insert (hm ! 0) (set (tl hm))" by (metis list.simps(15))
  with assms have "K - {0} \<subseteq> set (tl hm)" by (auto simp: handles_ok_def)
  then have "card (K - {0}) \<le> length (tl hm)"
    by (meson List.finite_set card_length card_mono le_trans)
  with assms show ?thesis by (auto simp: handles_ok_def maxSessionHandles_def)
qed

section \<open>The cleaner\<close>

lemma clean_entries_kept:
  "fst (clean_entries live objs hm es) =
     filter (\<lambda>(k, r). ses_bmcSessionID (objs ! r) = 0 \<or> live (objs ! r)) es"
  by (induction live objs hm es rule: clean_entries.induct) (auto simp: Let_def split: prod.split)

lemma clean_entries_handles:
  assumes "handles_ok hm (fst ` set es \<union> D)" "distinct (map fst es)" "fst ` set es \<inter> D = {}"
    and "\<forall>(k, r) \<in> set es. ses_bmcSessionID (objs ! r) = k"
  shows "handles_ok (snd (clean_entries live objs hm es)) (fst ` set (fst (clean_entries live objs hm es)) \<union> D) \<and>
     (\<forall>k \<in> fst ` set (fst (clean_entries live objs hm es)) \<union> D. k \<noteq> 0 \<longrightarrow>
        getSessionHandle (snd (clean_entries live objs hm es)) k = getSessionHandle hm k)"
  using assms
proof (induction live objs hm es arbitrary: D rule: clean_entries.induct)
  case (2 live objs hm k r es)
  let ?s = "objs ! r" and ?K = "fst ` set es \<union> insert k D"
  have k: "ses_bmcSessionID ?s = k" using "2.prems" by simp
  have K: "fst ` set ((k, r) # es) \<union> D = ?K" by auto
  have dis: "fst ` set es \<inter> insert k D = {}" "fst ` set es \<inter> D = {}" "k \<notin> D" "k \<notin> fst ` set es"
    using "2.prems" by auto
  show ?case
  proof (cases "k = 0 \<or> live ?s")
    case True
    have "handles_ok hm ?K" using "2.prems"(1) K by simp
    from "2.IH"(1) [OF refl _ this _ dis(1)] True "2.prems" k show ?thesis
      by (auto simp: split_beta)
  next
    case False
    let ?hm = "hm[getSessionHandle hm k := 0]"
    have ok: "handles_ok hm ?K" using "2.prems"(1) K by simp
    then have "handles_ok ?hm (?K - {k})" using False by (intro handles_ok_free) auto
    moreover have "?K - {k} = fst ` set es \<union> D" using dis by auto
    ultimately have ok': "handles_ok ?hm (fst ` set es \<union> D)" by simp
    have same: "getSessionHandle ?hm k' = getSessionHandle hm k'" if "k' \<in> fst ` set es \<union> D" "k' \<noteq> 0" for k'
      using that dis False getSessionHandle_slot(1) [OF ok, of k]
      by (intro getSessionHandle_other [OF ok ok']) auto
    have sub: "fst ` set (fst (clean_entries live objs ?hm es)) \<subseteq> fst ` set es"
      by (auto simp: clean_entries_kept)
    have step: "clean_entries live objs hm ((k, r) # es) = clean_entries live objs ?hm es"
      using False k by (simp add: Let_def)
    have IH: "handles_ok (snd (clean_entries live objs ?hm es)) (fst ` set (fst (clean_entries live objs ?hm es)) \<union> D)"
      "\<forall>k' \<in> fst ` set (fst (clean_entries live objs ?hm es)) \<union> D. k' \<noteq> 0 \<longrightarrow>
        getSessionHandle (snd (clean_entries live objs ?hm es)) k' = getSessionHandle ?hm k'"
      using "2.IH"(2) [OF refl _ _ _ dis(2)] ok' False "2.prems" k by simp_all
    show ?thesis unfolding step using IH same sub by (metis (no_types, lifting) Un_iff subsetD)
  qed
qed simp

section \<open>The invariant of the manager\<close>

definition handle_property :: "manager \<Rightarrow> 32 word \<Rightarrow> byte" where
  "handle_property m k = (of_nat (getSessionHandle (mgr_sessionHandleMap m) k) AND multiIntfaceSessionHandleMask) OR
     push_bit 6 (mgr_networkInstance m)"

definition mgr_ok :: "manager \<Rightarrow> bool" where
  "mgr_ok m \<longleftrightarrow> omap_ok (mgr_sessionsMap m) \<and> 0 \<in> fst ` set (mgr_sessionsMap m) \<and>
     distinct (map snd (mgr_sessionsMap m)) \<and>
     handles_ok (mgr_sessionHandleMap m) (fst ` set (mgr_sessionsMap m)) \<and>
     (\<forall>(k, r) \<in> set (mgr_sessionsMap m). r < length (mgr_objs m) \<and> ses_bmcSessionID (obj m r) = k \<and>
        (k \<noteq> 0 \<longrightarrow> si_sessionHandle (ses_info (obj m r)) = handle_property m k))"

lemma omap_ok_distinct: "omap_ok m \<Longrightarrow> distinct (map fst m)"
  by (auto simp: omap_ok_def strict_sorted_iff)

lemma set_omap_update: "k \<notin> fst ` set m \<Longrightarrow> set (omap_update k v m) = insert (k, v) (set m)"
  by (induction k v m rule: omap_update.induct) auto

lemma distinct_snd_omap_update:
  "distinct (map snd m) \<Longrightarrow> v \<notin> snd ` set m \<Longrightarrow> k \<notin> fst ` set m \<Longrightarrow> distinct (map snd (omap_update k v m))"
  by (induction k v m rule: omap_update.induct) (auto simp: set_omap_update)

lemma map_of_filter_distinct:
  assumes "distinct (map fst es)"
  shows "map_of (filter P es) k = (case map_of es k of Some v \<Rightarrow> if P (k, v) then Some v else None | None \<Rightarrow> None)"
  using assms
proof (induction es)
  case (Cons e es)
  have "map_of es k = None" if "k \<notin> fst ` set es" using that by (simp add: map_of_eq_None_iff)
  with Cons show ?case by (cases e) (auto simp: map_of_eq_None_iff split: option.split)
qed simp

lemma mgr_ok_lookup:
  assumes "mgr_ok m" "map_of (mgr_sessionsMap m) k = Some r"
  shows "r < length (mgr_objs m)" "ses_bmcSessionID (obj m r) = k"
  using assms map_of_SomeD [OF assms(2)] by (auto simp: mgr_ok_def)

lemma mgr_ok_ref_unique:
  assumes "mgr_ok m" "map_of (mgr_sessionsMap m) k = Some r" "map_of (mgr_sessionsMap m) k' = Some r"
  shows "k = k'"
  using mgr_ok_lookup [OF assms(1,2)] mgr_ok_lookup [OF assms(1,3)] by simp

lemma mgr_ok_size:
  assumes "mgr_ok m"
  shows "1 \<le> length (mgr_sessionsMap m)" "length (mgr_sessionsMap m) \<le> maxSessionHandles"
proof -
  let ?K = "fst ` set (mgr_sessionsMap m)"
  have d: "distinct (map fst (mgr_sessionsMap m))" using assms by (simp add: mgr_ok_def omap_ok_distinct)
  then have card: "card ?K = length (mgr_sessionsMap m)"
    by (metis distinct_card length_map list.set_map)
  have "0 \<in> ?K" "handles_ok (mgr_sessionHandleMap m) ?K" using assms by (auto simp: mgr_ok_def)
  moreover from this have "card (?K - {0}) < maxSessionHandles" by (intro handles_bounded) auto
  moreover have "card (?K - {0}) = card ?K - 1" "0 < card ?K"
    using \<open>0 \<in> ?K\<close> by (auto simp: card_gt_0_iff)
  ultimately show "1 \<le> length (mgr_sessionsMap m)" "length (mgr_sessionsMap m) \<le> maxSessionHandles"
    using card by linarith+
qed

lemma upd_obj_simps [simp]:
  "mgr_sessionsMap (upd_obj r f m) = mgr_sessionsMap m"
  "mgr_sessionHandleMap (upd_obj r f m) = mgr_sessionHandleMap m"
  "mgr_networkInstance (upd_obj r f m) = mgr_networkInstance m"
  "length (mgr_objs (upd_obj r f m)) = length (mgr_objs m)"
  by (simp_all add: upd_obj_def)

lemma obj_upd_obj: "r < length (mgr_objs m) \<Longrightarrow> obj (upd_obj r f m) r' = (if r' = r then f (obj m r) else obj m r')"
  by (simp add: obj_def upd_obj_def)

lemma obj_upd_obj_same [simp]: "r < length (mgr_objs m) \<Longrightarrow> obj (upd_obj r f m) r = f (obj m r)"
  by (simp add: obj_upd_obj)

lemma obj_upd_obj_other [simp]: "r' \<noteq> r \<Longrightarrow> obj (upd_obj r f m) r' = obj m r'"
  by (simp add: obj_def upd_obj_def)

lemma mgr_ok_upd_obj:
  assumes "mgr_ok m" "\<And>s. ses_bmcSessionID (f s) = ses_bmcSessionID s"
    and "\<And>s. si_sessionHandle (ses_info (f s)) = si_sessionHandle (ses_info s)"
  shows "mgr_ok (upd_obj r f m)"
proof -
  have "ses_bmcSessionID (obj (upd_obj r f m) r') = ses_bmcSessionID (obj m r') \<and>
      si_sessionHandle (ses_info (obj (upd_obj r f m) r')) = si_sessionHandle (ses_info (obj m r'))" for r'
    using assms(2,3) by (cases "r < length (mgr_objs m)"; cases "r' = r") (simp_all add: obj_def upd_obj_def list_update_beyond)
  with assms(1) show ?thesis by (auto simp: mgr_ok_def handle_property_def)
qed

lemma mgr_ok_schedule [simp]: "mgr_ok (scheduleSessionCleaner now d m) = mgr_ok m"
  by (simp add: scheduleSessionCleaner_def mgr_ok_def Let_def obj_def handle_property_def)

lemma schedule_simps [simp]:
  "mgr_sessionsMap (scheduleSessionCleaner now d m) = mgr_sessionsMap m"
  "mgr_sessionHandleMap (scheduleSessionCleaner now d m) = mgr_sessionHandleMap m"
  "mgr_networkInstance (scheduleSessionCleaner now d m) = mgr_networkInstance m"
  "mgr_objs (scheduleSessionCleaner now d m) = mgr_objs m"
  "obj (scheduleSessionCleaner now d m) r = obj m r"
  by (simp_all add: scheduleSessionCleaner_def Let_def obj_def)

lemma mgr_ok_init: "mgr_ok (managerInit info0 is_lan own channel now)"
  by (auto simp: managerInit_def mgr_ok_def omap_ok_def handles_ok_def new_session_def obj_def maxSessionHandles_def
      handle_property_def)

definition kept :: "int \<Rightarrow> manager \<Rightarrow> 32 word \<times> nat \<Rightarrow> bool" where
  "kept now m = (\<lambda>(k, r). ses_bmcSessionID (obj m r) = 0 \<or>
     isSessionActive now (activeMicros m) (setupMicros m) (obj m r))"

lemma clean_simps:
  "mgr_sessionsMap (cleanStaleEntries now m) = filter (kept now m) (mgr_sessionsMap m)"
  "mgr_objs (cleanStaleEntries now m) = mgr_objs m"
  "obj (cleanStaleEntries now m) = obj m"
  "mgr_networkInstance (cleanStaleEntries now m) = mgr_networkInstance m"
  "mgr_sessionHandleMap (cleanStaleEntries now m) =
     snd (clean_entries (isSessionActive now (activeMicros m) (setupMicros m)) (mgr_objs m)
       (mgr_sessionHandleMap m) (mgr_sessionsMap m))"
  using clean_entries_kept [of "isSessionActive now (activeMicros m) (setupMicros m)" "mgr_objs m"
      "mgr_sessionHandleMap m" "mgr_sessionsMap m"]
  by (auto simp: cleanStaleEntries_def Let_def kept_def obj_def split: prod.split)

lemma mgr_ok_clean:
  assumes "mgr_ok m"
  shows "mgr_ok (cleanStaleEntries now m)"
proof -
  let ?m = "cleanStaleEntries now m" and ?K = "fst ` set (mgr_sessionsMap m)"
  let ?c = "clean_entries (isSessionActive now (activeMicros m) (setupMicros m)) (mgr_objs m)
       (mgr_sessionHandleMap m) (mgr_sessionsMap m)"
  have ok: "omap_ok (mgr_sessionsMap m)" "handles_ok (mgr_sessionHandleMap m) ?K" "distinct (map snd (mgr_sessionsMap m))"
    using assms by (auto simp: mgr_ok_def)
  have es: "fst ?c = mgr_sessionsMap ?m"
    by (simp add: clean_simps(1) clean_entries_kept kept_def obj_def)
  have ids: "\<forall>(k, r) \<in> set (mgr_sessionsMap m). ses_bmcSessionID (mgr_objs m ! r) = k"
    using assms by (auto simp: mgr_ok_def obj_def)
  have h: "handles_ok (snd ?c) (fst ` set (fst ?c))"
      "\<forall>k \<in> fst ` set (fst ?c). k \<noteq> 0 \<longrightarrow> getSessionHandle (snd ?c) k = getSessionHandle (mgr_sessionHandleMap m) k"
    using clean_entries_handles [of "mgr_sessionHandleMap m" "mgr_sessionsMap m" "{}" "mgr_objs m",
        OF _ omap_ok_distinct [OF ok(1)] _ ids] ok(2) by simp_all
  have "0 \<in> fst ` set (mgr_sessionsMap ?m)"
    using assms by (fastforce simp: mgr_ok_def clean_simps(1) kept_def image_iff)
  moreover have "omap_ok (mgr_sessionsMap ?m)"
    using ok(1) by (simp add: omap_ok_def clean_simps(1) sorted_wrt_map sorted_wrt_filter)
  moreover have "distinct (map snd (mgr_sessionsMap ?m))"
    using ok(3) by (simp add: clean_simps(1) distinct_map_filter)
  moreover have hp: "handle_property ?m k = handle_property m k" if "k \<in> fst ` set (mgr_sessionsMap ?m)" "k \<noteq> 0" for k
  proof -
    have "getSessionHandle (snd ?c) k = getSessionHandle (mgr_sessionHandleMap m) k"
      using h(2) that unfolding es by blast
    then show ?thesis by (simp add: handle_property_def clean_simps(4,5))
  qed
  moreover have "r < length (mgr_objs ?m) \<and> ses_bmcSessionID (obj ?m r) = k \<and>
      (k \<noteq> 0 \<longrightarrow> si_sessionHandle (ses_info (obj ?m r)) = handle_property ?m k)"
    if e: "(k, r) \<in> set (mgr_sessionsMap ?m)" for k r
  proof -
    have "(k, r) \<in> set (mgr_sessionsMap m)" using e by (simp add: clean_simps(1))
    moreover have "k \<noteq> 0 \<longrightarrow> handle_property ?m k = handle_property m k" using hp e by (metis fst_conv image_eqI)
    ultimately show ?thesis using assms unfolding mgr_ok_def clean_simps(2,3) by fastforce
  qed
  moreover have "handles_ok (mgr_sessionHandleMap ?m) (fst ` set (mgr_sessionsMap ?m))"
    using h(1) unfolding es clean_simps(5) .
  ultimately show ?thesis unfolding mgr_ok_def by blast
qed

lemma draw_session_id_spec:
  assumes "draw_session_id inst sm vs = Inr bmc"
  shows "map_of sm bmc = None \<and>
     (\<exists>v \<in> set vs. bmc = (v AND multiIntfaceSessionIDMask) OR push_bit 30 (ucast inst))"
  using assms by (induction inst sm vs rule: draw_session_id.induct) (auto simp: Let_def split: if_splits)

lemma draw_session_id_returns:
  assumes "v \<in> set vs" "map_of sm ((v AND multiIntfaceSessionIDMask) OR push_bit 30 (ucast inst)) = None"
  shows "\<exists>bmc. draw_session_id inst sm vs = Inr bmc"
  using assms by (induction inst sm vs rule: draw_session_id.induct) (auto simp: Let_def)

lemma storeSessionHandle_full:
  assumes "handles_ok hm K" "finite K" "card (K - {0}) < maxSessionHandles - 1"
  shows "fst (storeSessionHandle k hm) \<noteq> 0"
proof (rule ccontr)
  assume "\<not> fst (storeSessionHandle k hm) \<noteq> 0"
  then have "\<not> (\<exists>i. find (\<lambda>i. hm ! i = 0) [1..<maxSessionHandles] = Some i)"
    by (auto simp: storeSessionHandle_def split: option.splits dest: find_upt_Some)
  then have used: "hm ! i \<noteq> 0" if "1 \<le> i" "i < maxSessionHandles" for i
    using that by (auto simp: find_upt_None)
  let ?I = "{1..<maxSessionHandles}"
  have "inj_on ((!) hm) ?I" using assms(1) used by (auto simp: inj_on_def handles_ok_def)
  moreover have "(!) hm ` ?I \<subseteq> K - {0}"
    using assms(1) used by (auto simp: handles_ok_def in_set_conv_nth image_iff set_eq_iff) metis+
  ultimately have "card ?I \<le> card (K - {0})" using assms(2) by (metis card_image card_mono finite_Diff)
  with assms(3) show False by simp
qed

definition started :: "session_info \<Rightarrow> 32 word \<Rightarrow> 32 word \<Rightarrow> byte \<Rightarrow> byte \<Rightarrow> digest \<Rightarrow> byte \<Rightarrow> byte \<Rightarrow> session" where
  "started info0 rc bmc priv handle dg intAlgo cryptAlgo =
     (new_session info0 rc bmc priv)\<lparr>ses_authAlgo := Some (new_auth_algo dg intAlgo cryptAlgo),
        ses_info := info0\<lparr>si_sessionHandle := handle\<rparr>\<rparr>"

lemma startSession_success:
  assumes "mgr_ok m" "startSession info0 now rands rc priv authAlgo intAlgo cryptAlgo m = (Inr r, m')"
  obtains bmc dg where "session_digest authAlgo = Some dg"
    and "map_of (mgr_sessionsMap (cleanStaleEntries now m)) bmc = None" "bmc \<noteq> 0"
    and "r = length (mgr_objs m)" "mgr_objs m' = mgr_objs m @ [started info0 rc bmc priv (handle_property m' bmc) dg intAlgo cryptAlgo]"
    and "mgr_sessionsMap m' = omap_update bmc r (mgr_sessionsMap (cleanStaleEntries now m))"
    and "mgr_networkInstance m' = mgr_networkInstance m"
    and "mgr_ok m'"
proof -
  let ?m = "cleanStaleEntries now m"
  have ok: "mgr_ok ?m" by (rule mgr_ok_clean) (fact assms(1))
  from assms(2) obtain bmc h hm dg where d: "draw_session_id (mgr_networkInstance m) (mgr_sessionsMap ?m) rands = Inr bmc"
    and st: "storeSessionHandle bmc (mgr_sessionHandleMap ?m) = (h, hm)" "h \<noteq> 0"
    and dg: "session_digest authAlgo = Some dg" and r: "r = length (mgr_objs m)"
    and m': "mgr_objs m' = mgr_objs m @ [started info0 rc bmc priv
        ((of_nat h AND multiIntfaceSessionHandleMask) OR push_bit 6 (mgr_networkInstance m)) dg intAlgo cryptAlgo]"
      "mgr_sessionsMap m' = omap_update bmc r (mgr_sessionsMap ?m)" "mgr_sessionHandleMap m' = hm"
      "mgr_networkInstance m' = mgr_networkInstance m"
    by (auto simp: startSession_def Let_def clean_simps(2,4) started_def new_session_def split: if_splits sum.splits prod.splits option.splits)
  have fresh: "map_of (mgr_sessionsMap ?m) bmc = None" using draw_session_id_spec [OF d] by blast
  then have b: "bmc \<notin> fst ` set (mgr_sessionsMap ?m)" by (simp add: map_of_eq_None_iff)
  then have nz: "bmc \<noteq> 0" using ok by (auto simp: mgr_ok_def)
  have hok: "handles_ok (mgr_sessionHandleMap ?m) (fst ` set (mgr_sessionsMap ?m))" using ok by (simp add: mgr_ok_def)
  note hs = handles_ok_store [OF hok b nz st]
  have handle: "getSessionHandle hm bmc = h"
    using hok hs by (intro getSessionHandle_eqI [OF hs(1)]) (auto simp: nz handles_ok_def)
  have other: "getSessionHandle hm k = getSessionHandle (mgr_sessionHandleMap ?m) k"
    if "k \<in> fst ` set (mgr_sessionsMap ?m)" "k \<noteq> 0" for k
    using hs that by (metis getSessionHandle_other hok)
  have keys: "fst ` set (mgr_sessionsMap m') = insert bmc (fst ` set (mgr_sessionsMap ?m))"
    by (simp add: m'(2) set_keys_omap_update)
  have ents: "set (mgr_sessionsMap m') = insert (bmc, r) (set (mgr_sessionsMap ?m))"
    using b by (simp add: m'(2) set_omap_update)
  have old: "r' < length (mgr_objs m)" "ses_bmcSessionID (obj m r') = k"
      "k \<noteq> 0 \<Longrightarrow> si_sessionHandle (ses_info (obj m r')) = handle_property ?m k"
    if "(k, r') \<in> set (mgr_sessionsMap ?m)" for k r'
    using ok that unfolding mgr_ok_def clean_simps(2,3) by fastforce+
  have hp: "handle_property m' bmc = (of_nat h AND multiIntfaceSessionHandleMask) OR push_bit 6 (mgr_networkInstance m)"
    by (simp add: handle_property_def m' handle)
  have "mgr_ok m'"
    unfolding mgr_ok_def
  proof (intro conjI ballI)
    show "omap_ok (mgr_sessionsMap m')" using ok by (simp add: m'(2) omap_ok_update mgr_ok_def)
    show "0 \<in> fst ` set (mgr_sessionsMap m')" using ok unfolding keys by (simp add: mgr_ok_def)
    have "r \<notin> snd ` set (mgr_sessionsMap ?m)" using old(1) r by fastforce
    then show "distinct (map snd (mgr_sessionsMap m'))"
      using ok b by (simp add: m'(2) distinct_snd_omap_update mgr_ok_def)
    show "handles_ok (mgr_sessionHandleMap m') (fst ` set (mgr_sessionsMap m'))"
      using hs(1) unfolding keys m'(3) .
    fix e assume "e \<in> set (mgr_sessionsMap m')"
    then have "e = (bmc, r) \<or> e \<in> set (mgr_sessionsMap ?m)" unfolding ents by blast
    then consider "e = (bmc, r)" | k r' where "e = (k, r')" "(k, r') \<in> set (mgr_sessionsMap ?m)"
      by (metis surj_pair)
    then show "case e of (k, r) \<Rightarrow> r < length (mgr_objs m') \<and> ses_bmcSessionID (obj m' r) = k \<and>
        (k \<noteq> 0 \<longrightarrow> si_sessionHandle (ses_info (obj m' r)) = handle_property m' k)"
    proof cases
      case 1
      then show ?thesis using hp by (simp add: obj_def m'(1) r started_def new_session_def)
    next
      case 2
      have "k \<noteq> 0 \<Longrightarrow> handle_property m' k = handle_property ?m k"
        using other [of k] 2(2) by (force simp: handle_property_def m' clean_simps(4))
      with old [OF 2(2)] 2(1) show ?thesis by (auto simp: obj_def m'(1) nth_append)
    qed
  qed
  with that [OF dg fresh nz r _ m'(2,4)] m'(1) hp show thesis by simp
qed

lemma startSession_failure:
  assumes "mgr_ok m" "startSession info0 now rands rc priv authAlgo intAlgo cryptAlgo m = (Inl e, m')"
    and "session_digest authAlgo \<noteq> None"
  shows "mgr_ok m' \<and> mgr_objs m' = mgr_objs m \<and> mgr_networkInstance m' = mgr_networkInstance m \<and>
     mgr_sessionsMap m' = mgr_sessionsMap (cleanStaleEntries now m)"
proof -
  have "m' = scheduleSessionCleaner now (1 * 1000 * 1000) (cleanStaleEntries now m)"
    using assms(2,3) by (auto simp: startSession_def Let_def split: if_splits sum.splits prod.splits option.splits)
  with mgr_ok_clean [OF assms(1)] show ?thesis by (simp add: clean_simps(2,4))
qed

lemma startSession_returns:
  assumes "mgr_ok m" "session_digest authAlgo = Some dg"
    and "length (mgr_sessionsMap (cleanStaleEntries now m)) < maxSessionHandles"
    and "v \<in> set rands" "map_of (mgr_sessionsMap m) ((v AND multiIntfaceSessionIDMask) OR push_bit 30 (ucast (mgr_networkInstance m))) = None"
  shows "\<exists>r m'. startSession info0 now rands rc priv authAlgo intAlgo cryptAlgo m = (Inr r, m')"
proof -
  let ?m = "cleanStaleEntries now m" and ?K = "fst ` set (mgr_sessionsMap (cleanStaleEntries now m))"
  have ok: "mgr_ok ?m" by (rule mgr_ok_clean) (fact assms(1))
  have d: "distinct (map fst (mgr_sessionsMap m))" using assms(1) by (simp add: mgr_ok_def omap_ok_distinct)
  have "map_of (mgr_sessionsMap ?m) ((v AND multiIntfaceSessionIDMask) OR push_bit 30 (ucast (mgr_networkInstance m))) = None"
    using assms(5) by (simp add: clean_simps(1) map_of_filter_distinct [OF d])
  from draw_session_id_returns [OF assms(4) this] obtain bmc
    where b: "draw_session_id (mgr_networkInstance m) (mgr_sessionsMap ?m) rands = Inr bmc" by blast
  have "card ?K \<le> length (mgr_sessionsMap ?m)" by (metis card_length length_map list.set_map)
  moreover have "card (?K - {0}) = card ?K - 1" "0 < card ?K"
    using ok by (auto simp: mgr_ok_def card_gt_0_iff)
  ultimately have "card (?K - {0}) < maxSessionHandles - 1" using assms(3) by linarith
  moreover have "handles_ok (mgr_sessionHandleMap ?m) ?K" using ok by (simp add: mgr_ok_def)
  ultimately have "fst (storeSessionHandle bmc (mgr_sessionHandleMap ?m)) \<noteq> 0"
    by (intro storeSessionHandle_full [of _ ?K]) auto
  moreover have "length (mgr_sessionsMap ?m) - maxSessionlessCount < maxSessionHandles" using assms(3) by simp
  ultimately show ?thesis
    using assms(2) b by (auto simp: startSession_def Let_def clean_simps(4) split: prod.split)
qed

lemma filter_length_less: "x \<in> set xs \<Longrightarrow> \<not> P x \<Longrightarrow> length (filter P xs) < length xs"
  by (meson length_filter_less)

lemma map_of_clean:
  assumes "mgr_ok m"
  shows "map_of (mgr_sessionsMap (cleanStaleEntries now m)) k =
     (case map_of (mgr_sessionsMap m) k of
        Some r \<Rightarrow> if k = 0 \<or> isSessionActive now (activeMicros m) (setupMicros m) (obj m r) then Some r else None
      | None \<Rightarrow> None)"
proof -
  have "distinct (map fst (mgr_sessionsMap m))" using assms by (simp add: mgr_ok_def omap_ok_distinct)
  from map_of_filter_distinct [OF this, of "kept now m" k] show ?thesis
    using mgr_ok_lookup [OF assms, of k] by (auto simp: clean_simps(1) kept_def split: option.split)
qed

lemma active_count:
  assumes "mgr_ok m"
  shows "unat (getActiveSessionCount m) =
     length (filter (\<lambda>(k, r). ses_state (obj m r) = State_active) (mgr_sessionsMap m))"
proof -
  have "length (filter (\<lambda>(k, r). ses_state (obj m r) = State_active) (mgr_sessionsMap m)) < 256"
    using mgr_ok_size(2) [OF assms] length_filter_le [of "\<lambda>(k, r). ses_state (obj m r) = State_active" "mgr_sessionsMap m"]
    unfolding maxSessionHandles_def by linarith
  then show ?thesis by (simp add: getActiveSessionCount_def unat_of_nat_byte)
qed

section \<open>Properties of the manager\<close>

text \<open>
  C36. With at most 15 active sessions, an active session used within the last minute stays in the
  map when the cleaner runs, under the same id and object, however many sessions are in setup. A
  session being torn down goes, whenever it was used last, and its handle is free again.
\<close>

theorem cleaner_spares_active_sessions:
  assumes "mgr_ok m" "map_of (mgr_sessionsMap m) k = Some r" "k \<noteq> 0"
  shows "(ses_state (obj m r) = State_active \<and> now - ses_lastTime (obj m r) < 60 * 1000 * 1000 * 1000 \<and>
      length (filter (\<lambda>(k, r). ses_state (obj m r) = State_active) (mgr_sessionsMap m)) \<le> 15 \<longrightarrow>
      getSession k BMC_SESSION_ID (cleanStaleEntries now m) = Inr r) \<and>
    (ses_state (obj m r) = State_tearDownInProgress \<longrightarrow>
      getSession k BMC_SESSION_ID (cleanStaleEntries now m) = Inl Runtime_Error \<and>
      getSessionHandle (mgr_sessionHandleMap (cleanStaleEntries now m)) k = 0)"
proof (intro conjI impI; (elim conjE)?)
  assume a: "ses_state (obj m r) = State_active" "now - ses_lastTime (obj m r) < 60 * 1000 * 1000 * 1000"
    and n: "length (filter (\<lambda>(k, r). ses_state (obj m r) = State_active) (mgr_sessionsMap m)) \<le> 15"
  have "activeMicros m = 60 * 1000 * 1000"
    using active_count [OF assms(1)] n
    by (simp add: activeMicros_def grace_divisor_def Let_def maxSessionCountPerChannel_def max_def)
  moreover have "(now - ses_lastTime (obj m r)) div 1000 < 60 * 1000 * 1000" using a(2) by linarith
  ultimately have "isSessionActive now (activeMicros m) (setupMicros m) (obj m r)"
    using a(1) by (simp add: isSessionActive_def Let_def)
  then show "getSession k BMC_SESSION_ID (cleanStaleEntries now m) = Inr r"
    using map_of_clean [OF assms(1)] assms(2) by simp
next
  assume t: "ses_state (obj m r) = State_tearDownInProgress"
  then have gone: "map_of (mgr_sessionsMap (cleanStaleEntries now m)) k = None"
    using map_of_clean [OF assms(1)] assms(2,3) by (simp add: isSessionActive_def Let_def)
  let ?m = "cleanStaleEntries now m"
  have hok: "handles_ok (mgr_sessionHandleMap ?m) (fst ` set (mgr_sessionsMap ?m))"
    using mgr_ok_clean [OF assms(1)] by (simp add: mgr_ok_def)
  have "k \<notin> fst ` set (mgr_sessionsMap ?m)" using gone by (simp add: map_of_eq_None_iff)
  then have "k \<notin> set (mgr_sessionHandleMap ?m)" using hok assms(3) by (auto simp: handles_ok_def)
  then have "find (\<lambda>i. mgr_sessionHandleMap ?m ! i = k) [1..<maxSessionHandles] = None"
    using hok by (auto simp: find_upt_None handles_ok_def in_set_conv_nth)
  then show "getSessionHandle (mgr_sessionHandleMap ?m) k = 0" by (simp add: getSessionHandle_def)
next
  assume "ses_state (obj m r) = State_tearDownInProgress"
  then show "getSession k BMC_SESSION_ID (cleanStaleEntries now m) = Inl Runtime_Error"
    using map_of_clean [OF assms(1)] assms(2,3) by (simp add: isSessionActive_def Let_def)
qed

text \<open>
  C37. Open Session requests cannot fill the table for long: when all 62 slots are taken and one of
  them is by a session still in setup that has been idle for 542 microseconds, the next Open Session
  request gets a session, as soon as the generator yields an id not in use.
\<close>

theorem full_table_recovers:
  assumes "mgr_ok m" "length (mgr_sessionsMap m) = maxSessionHandles" "session_digest authAlgo = Some dg"
    and "map_of (mgr_sessionsMap m) k = Some r" "k \<noteq> 0" "ses_state (obj m r) = State_setupInProgress"
    and "542 * 1000 \<le> now - ses_lastTime (obj m r)"
    and "v \<in> set rands" "map_of (mgr_sessionsMap m) ((v AND multiIntfaceSessionIDMask) OR push_bit 30 (ucast (mgr_networkInstance m))) = None"
  shows "\<exists>r' m'. startSession info0 now rands rc priv authAlgo intAlgo cryptAlgo m = (Inr r', m') \<and> mgr_ok m'"
proof -
  have "setupMicros m = 542"
    using assms(2) by (simp add: setupMicros_def grace_divisor_def Let_def session_limits max_def)
  then have "\<not> isSessionActive now (activeMicros m) (setupMicros m) (obj m r)"
    using assms(6,7) by (simp add: isSessionActive_def Let_def)
  then have "\<not> kept now m (k, r)"
    using mgr_ok_lookup(2) [OF assms(1,4)] assms(5) by (simp add: kept_def)
  with map_of_SomeD [OF assms(4)] have "length (mgr_sessionsMap (cleanStaleEntries now m)) < maxSessionHandles"
    using assms(2) by (metis clean_simps(1) filter_length_less)
  from startSession_returns [OF assms(1,3) this assms(8,9)] show ?thesis
    using startSession_success [OF assms(1)] by metis
qed

definition example_info :: session_info where
  "example_info = \<lparr>si_state = State_inactive, si_currentPrivilege = 0, si_channelNum = 0, si_userID = 0,
     si_sessionHandle = 0, si_remotePort = 0, si_remoteIPAddr = 0\<rparr>"

text \<open>A manager with \<open>n\<close> sessions in the state \<open>st\<close>, last used at time 0.\<close>

definition example_manager :: "session_state \<Rightarrow> nat \<Rightarrow> manager" where
  "example_manager st n = \<lparr>mgr_objs = map (\<lambda>i. started (example_info\<lparr>si_state := st\<rparr>) 7 (of_nat i) 4 (of_nat i) SHA256 4 1) [0..<Suc n],
     mgr_sessionsMap = map (\<lambda>i. (of_nat i, i)) [0..<Suc n],
     mgr_sessionHandleMap = map of_nat [0..<Suc n] @ replicate (62 - n) 0,
     mgr_chName = ''eth0'', mgr_networkInstance = 0, mgr_expiry = 0, mgr_waiting = False\<rparr>"

lemma example_id: "i \<le> 62 \<Longrightarrow> unat (of_nat i :: 32 word) = i"
  by (simp add: unat_of_nat)

lemma example_id_inj: "i \<le> 62 \<Longrightarrow> j \<le> 62 \<Longrightarrow> (of_nat i :: 32 word) = of_nat j \<longleftrightarrow> i = j"
  using example_id by metis

lemma example_id_less: "i < j \<Longrightarrow> j \<le> 62 \<Longrightarrow> (of_nat i :: 32 word) < of_nat j"
  by (simp add: word_less_nat_alt example_id)

lemma example_slot: "i \<le> 62 \<Longrightarrow> n \<le> 62 \<Longrightarrow>
    mgr_sessionHandleMap (example_manager st n) ! i = (if i \<le> n then of_nat i else 0)"
  by (auto simp: example_manager_def nth_append nth_Cons' simp del: upt_Suc)

lemma example_handles:
  assumes "n \<le> 62"
  shows "handles_ok (mgr_sessionHandleMap (example_manager st n)) (fst ` set (mgr_sessionsMap (example_manager st n)))"
proof -
  have "set (mgr_sessionHandleMap (example_manager st n)) - {0} = of_nat ` {0..n} - {0}"
    by (auto simp: example_manager_def simp del: upt_Suc)
  moreover have "fst ` set (mgr_sessionsMap (example_manager st n)) = of_nat ` {0..n}"
    by (simp add: example_manager_def image_image atLeastLessThanSuc_atLeastAtMost del: upt_Suc)
  moreover have "length (mgr_sessionHandleMap (example_manager st n)) = maxSessionHandles"
    using assms by (simp add: example_manager_def maxSessionHandles_def)
  moreover have "i = j" if "i < maxSessionHandles" "j < maxSessionHandles"
      "mgr_sessionHandleMap (example_manager st n) ! i = mgr_sessionHandleMap (example_manager st n) ! j"
      "mgr_sessionHandleMap (example_manager st n) ! i \<noteq> 0" for i j
    using that assms by (auto simp: maxSessionHandles_def example_slot example_id_inj split: if_splits)
  ultimately show ?thesis
    using example_slot [of 0 n st] assms unfolding handles_ok_def by auto
qed

lemma example_manager_ok:
  assumes "n \<le> 62"
  shows "mgr_ok (example_manager st n)"
proof -
  let ?m = "example_manager st n"
  note h = example_handles [OF assms, of st]
  have "omap_ok (mgr_sessionsMap ?m)"
    using assms by (auto simp: omap_ok_def example_manager_def sorted_wrt_map sorted_wrt_iff_nth_less
        example_id_less simp del: upt_Suc)
  moreover have "distinct (map snd (mgr_sessionsMap ?m))" by (simp add: example_manager_def comp_def)
  moreover have "0 \<in> fst ` set (mgr_sessionsMap ?m)" by (force simp: example_manager_def simp del: upt_Suc)
  moreover have "getSessionHandle (mgr_sessionHandleMap ?m) (of_nat i) = i" if "i \<le> n" "(of_nat i :: 32 word) \<noteq> 0" for i
    using that assms by (intro getSessionHandle_eqI [OF h]) (simp_all add: example_slot maxSessionHandles_def)
  moreover have "(of_nat i AND multiIntfaceSessionHandleMask :: byte) = of_nat i" if "i \<le> 62" for i
  proof -
    have "take_bit 6 (of_nat i :: byte) = of_nat i"
      using that by (simp flip: of_nat_take_bit add: take_bit_nat_eq_self)
    moreover have "multiIntfaceSessionHandleMask = mask 6" by (simp add: multiIntfaceSessionHandleMask_def mask_eq_exp_minus_1)
    ultimately show ?thesis by (simp add: take_bit_eq_mask)
  qed
  ultimately show ?thesis
    using h assms
    by (auto simp: mgr_ok_def handle_property_def example_manager_def obj_def started_def new_session_def simp del: upt_Suc)
qed

theorem cleaner_spares_active_sessions_witness:
  "getSession 1 BMC_SESSION_ID (cleanStaleEntries 1000 (example_manager State_active 1)) = Inr 1"
proof -
  let ?m = "example_manager State_active 1"
  have "map_of (mgr_sessionsMap ?m) 1 = Some 1" "obj ?m 1 = started (example_info\<lparr>si_state := State_active\<rparr>) 7 1 4 1 SHA256 4 1"
    by (simp_all add: example_manager_def obj_def)
  with cleaner_spares_active_sessions [OF example_manager_ok [of 1 State_active], of 1 1 1000] show ?thesis
    by (simp add: started_def new_session_def ses_state_def example_info_def)
      (simp add: example_manager_def)
qed

theorem full_table_recovers_witness:
  "\<exists>r' m'. startSession example_info 542000 [5, 1000] 9 4 3 4 1 (example_manager State_setupInProgress 62) = (Inr r', m') \<and> mgr_ok m'"
proof -
  let ?m = "example_manager State_setupInProgress 62"
  have k: "map_of (mgr_sessionsMap ?m) 1 = Some 1"
    and r: "obj ?m 1 = started (example_info\<lparr>si_state := State_setupInProgress\<rparr>) 7 1 4 1 SHA256 4 1"
    by (simp_all add: example_manager_def obj_def upt_conv_Cons)
  have st: "ses_state (obj ?m 1) = State_setupInProgress" and idle: "542 * 1000 \<le> 542000 - ses_lastTime (obj ?m 1)"
    unfolding r by (simp_all add: started_def new_session_def ses_state_def)
  have dg: "session_digest 3 = Some SHA256" by (simp add: session_digest_def)
  have fresh: "map_of (mgr_sessionsMap ?m) ((1000 AND multiIntfaceSessionIDMask) OR push_bit 30 (ucast (mgr_networkInstance ?m))) = None"
    by (simp add: example_manager_def multiIntfaceSessionIDMask_def upt_conv_Cons)
  show ?thesis
    by (rule full_table_recovers [OF example_manager_ok _ dg k _ st idle _ fresh])
      (simp_all add: example_manager_def maxSessionHandles_def)
qed

end
