(* ===== verification/Lan_Message.thy ===== *)
theory Lan_Message
  imports Lan_Session
begin

text \<open>
  Messages of IPMI over LAN and their packets (\<open>message.hpp\<close>, \<open>message_parsers.cpp\<close>,
  \<open>integrity_algo.cpp\<close>, \<open>crypt_algo.cpp\<close>, \<open>auth_algo.cpp\<close> of
  \<open>src/devtool-mods/phosphor-ipmi-net-mods\<close>).

  The primitives of OpenSSL are the fields of \<open>crypto\<close>; \<open>None\<close> is their error result. What the
  round trip needs of them is \<open>crypto_ok\<close>: decryption inverts encryption on whole blocks, and a
  digest has its length. The initialization vector is an argument, \<open>None\<close> when the generator fails.
  The host is little endian, so \<open>endian::to_ipmi\<close> is the identity. The build option for RMCP ping
  reaches only \<open>rakp12.cpp\<close> (the one file that includes \<open>config.h\<close>), so the parser here is the one
  without it.
\<close>

section \<open>Little endian fields\<close>

fun le_val :: "byte list \<Rightarrow> nat" where
  "le_val [] = 0"
| "le_val (b # bs) = unat b + 256 * le_val bs"

fun to_le :: "nat \<Rightarrow> nat \<Rightarrow> byte list" where
  "to_le 0 v = []"
| "to_le (Suc n) v = of_nat v # to_le n (v div 256)"

definition field :: "byte list \<Rightarrow> nat \<Rightarrow> nat \<Rightarrow> nat res" where
  "field p off n = rbind (slice p off n) (\<lambda>bs. Inr (le_val bs))"

lemma length_to_le [simp]: "length (to_le n v) = n"
  by (induction n arbitrary: v) simp_all

lemma le_val_to_le: "le_val (to_le n v) = v mod 256 ^ n"
proof (induction n arbitrary: v)
  case (Suc n)
  have "v mod 256 ^ Suc n = 256 * (v div 256 mod 256 ^ n) + v mod 256" by (simp add: mod_mult2_eq)
  with Suc show ?case by (simp add: unsigned_of_nat take_bit_eq_mod)
qed simp

lemma le_val_bound: "le_val bs < 256 ^ length bs"
proof (induction bs)
  case (Cons b bs)
  have "unat b < 256" by simp
  moreover have "256 * le_val bs + 256 \<le> 256 * 256 ^ length bs" using Cons by simp
  ultimately have "unat b + 256 * le_val bs < 256 * 256 ^ length bs" by linarith
  then show ?case by simp
qed simp

section \<open>Cipher algorithms\<close>

record crypto =
  cr_hmac :: "digest \<Rightarrow> byte list \<Rightarrow> byte list \<Rightarrow> byte list option"
  cr_encrypt :: "byte list \<Rightarrow> byte list \<Rightarrow> byte list \<Rightarrow> byte list option"
  cr_decrypt :: "byte list \<Rightarrow> byte list \<Rightarrow> byte list \<Rightarrow> byte list option"

fun digest_length :: "digest \<Rightarrow> nat" where
  "digest_length SHA1 = 20"
| "digest_length SHA256 = 32"

fun authCodeLength :: "digest \<Rightarrow> nat" where
  "authCodeLength SHA1 = 12"
| "authCodeLength SHA256 = 16"

definition crypto_ok :: "crypto \<Rightarrow> bool" where
  "crypto_ok c \<longleftrightarrow> (\<forall>dg k d h. cr_hmac c dg k d = Some h \<longrightarrow> length h = digest_length dg) \<and>
     (\<forall>k iv p x. length p mod 16 = 0 \<longrightarrow> cr_encrypt c k iv p = Some x \<longrightarrow>
        length x = length p \<and> cr_decrypt c k iv x = Some p)"

subsection \<open>Authentication codes of packets\<close>

definition integrity_hmac :: "crypto \<Rightarrow> integrity_algo \<Rightarrow> byte list \<Rightarrow> byte list res" where
  "integrity_hmac c ia input =
     (case cr_hmac c (ia_digest ia) (ia_k1 ia) input of
        None \<Rightarrow> Inl Runtime_Error
      | Some h \<Rightarrow> Inr (take (authCodeLength (ia_digest ia)) h))"

definition verifyIntegrityData :: "crypto \<Rightarrow> integrity_algo \<Rightarrow> byte list \<Rightarrow> nat \<Rightarrow> byte list \<Rightarrow> bool res" where
  "verifyIntegrityData c ia packet len integrity =
     rbind (slice packet 4 len) (\<lambda>input.
     rbind (integrity_hmac c ia input) (\<lambda>out. Inr (out = integrity)))"

definition generateIntegrityData :: "crypto \<Rightarrow> integrity_algo \<Rightarrow> byte list \<Rightarrow> byte list res" where
  "generateIntegrityData c ia packet = integrity_hmac c ia (drop 4 packet)"

text \<open>
  \<open>generateKn\<close> lets the digest write into a vector of the size of the session integrity key.
\<close>

definition generateKn :: "crypto \<Rightarrow> digest \<Rightarrow> byte list \<Rightarrow> byte list \<Rightarrow> byte list res" where
  "generateKn c dg sik const_n =
     (case cr_hmac c dg sik const_n of
        None \<Rightarrow> Inl Runtime_Error
      | Some h \<Rightarrow>
          if length sik < length h then Inl Out_Of_Bounds
          else Inr (h @ replicate (length sik - length h) 0))"

definition const_1 :: "byte list" where "const_1 = replicate 20 1"
definition const_2 :: "byte list" where "const_2 = replicate 20 2"

definition new_integrity_algo :: "crypto \<Rightarrow> digest \<Rightarrow> byte list \<Rightarrow> integrity_algo res" where
  "new_integrity_algo c dg sik =
     rbind (generateKn c dg sik const_1) (\<lambda>k1. Inr \<lparr>ia_digest = dg, ia_k1 = k1\<rparr>)"

subsection \<open>Authentication of the key exchange\<close>

definition auth_hmac :: "crypto \<Rightarrow> auth_algo \<Rightarrow> byte list \<Rightarrow> byte list" where
  "auth_hmac c aa input =
     (case cr_hmac c (aa_digest aa) (aa_userKey aa) input of None \<Rightarrow> [] | Some h \<Rightarrow> h)"

text \<open>
  The SHA-1 variant keys the digest with 20 bytes of the session integrity key, the SHA-256 variant
  with all of it; on an error the result is zeros of the final length.
\<close>

definition generateICV :: "crypto \<Rightarrow> auth_algo \<Rightarrow> byte list \<Rightarrow> byte list res" where
  "generateICV c aa input =
     (let n = authCodeLength (aa_digest aa);
          fin = (\<lambda>key. case cr_hmac c (aa_digest aa) key input of
             None \<Rightarrow> Inr (replicate n 0) | Some h \<Rightarrow> Inr (take n h))
      in case aa_digest aa of
           SHA1 \<Rightarrow> rbind (slice (aa_sessionIntegrityKey aa) 0 20) fin
         | SHA256 \<Rightarrow> fin (aa_sessionIntegrityKey aa))"

subsection \<open>AES-CBC-128\<close>

definition confPadBytes :: "byte list" where
  "confPadBytes = [1, 2, 3, 4, 5, 6, 7, 8, 9, 10, 11, 12, 13, 14, 15]"

definition aes_key :: "byte list \<Rightarrow> byte list res" where
  "aes_key k2 = slice k2 0 16"

definition encryptData :: "crypto \<Rightarrow> byte list \<Rightarrow> byte list option \<Rightarrow> byte list \<Rightarrow> byte list res" where
  "encryptData c k2 iv input =
     (case iv of
        None \<Rightarrow> Inl Runtime_Error
      | Some v \<Rightarrow> rbind (aes_key k2) (\<lambda>k.
          case cr_encrypt c k v input of
            None \<Rightarrow> Inl Runtime_Error
          | Some x \<Rightarrow> Inr (v @ x)))"

definition conf_padding :: "nat \<Rightarrow> nat" where
  "conf_padding payloadLen = 16 - ((payloadLen + 1) mod 16)"

definition conf_pad :: "nat \<Rightarrow> byte list" where
  "conf_pad payloadLen = map of_nat [1..<Suc (conf_padding payloadLen)] @ [of_nat (conf_padding payloadLen)]"

definition encryptPayload :: "crypto \<Rightarrow> byte list \<Rightarrow> byte list option \<Rightarrow> byte list \<Rightarrow> byte list res" where
  "encryptPayload c k2 iv payload = encryptData c k2 iv (payload @ conf_pad (length payload))"

definition decryptData :: "crypto \<Rightarrow> byte list \<Rightarrow> byte list \<Rightarrow> byte list \<Rightarrow> byte list res" where
  "decryptData c k2 iv input =
     rbind (aes_key k2) (\<lambda>k. of_opt Runtime_Error (cr_decrypt c k iv input))"

text \<open>
  The pad is compared with \<open>std::equal\<close>, whose second range must be as long as the first: a pad
  longer than the 15 bytes of \<open>confPadBytes\<close> is read past the array.
\<close>

definition decryptPayload :: "crypto \<Rightarrow> byte list \<Rightarrow> byte list \<Rightarrow> nat \<Rightarrow> nat \<Rightarrow> byte list res" where
  "decryptPayload c k2 packet sessHeaderLen payloadLen =
     (if length packet < sessHeaderLen + payloadLen \<or> payloadLen < 16 then Inl Runtime_Error
      else rbind (decryptData c k2 (take 16 (drop sessHeaderLen packet))
                    (take (payloadLen - 16) (drop (sessHeaderLen + 16) packet))) (\<lambda>plain.
        if plain = [] then Inl Out_Of_Bounds
        else
          (let confPadLength = unat (last plain);
               padLength = min (length plain - 1) confPadLength;
               plainPayloadLen = length plain - padLength - 1
           in if length confPadBytes < padLength then Inl Out_Of_Bounds
              else if take padLength (drop plainPayloadLen plain) \<noteq> take padLength confPadBytes
              then Inl Runtime_Error
              else Inr (take plainPayloadLen plain))))"

section \<open>Messages\<close>

definition PT_IPMI :: byte where "PT_IPMI = 0x00"
definition PT_SOL :: byte where "PT_SOL = 0x01"
definition PT_OPEN_SESSION_REQUEST :: byte where "PT_OPEN_SESSION_REQUEST = 0x10"
definition PT_OPEN_SESSION_RESPONSE :: byte where "PT_OPEN_SESSION_RESPONSE = 0x11"
definition PT_RAKP1 :: byte where "PT_RAKP1 = 0x12"
definition PT_RAKP2 :: byte where "PT_RAKP2 = 0x13"
definition PT_RAKP3 :: byte where "PT_RAKP3 = 0x14"
definition PT_RAKP4 :: byte where "PT_RAKP4 = 0x15"

lemmas payload_types = PT_IPMI_def PT_SOL_def PT_OPEN_SESSION_REQUEST_def PT_OPEN_SESSION_RESPONSE_def
  PT_RAKP1_def PT_RAKP2_def PT_RAKP3_def PT_RAKP4_def

record message =
  msg_isPacketEncrypted :: bool
  msg_isPacketAuthenticated :: bool
  msg_payloadType :: byte
  msg_rcSessionID :: "32 word"
  msg_bmcSessionID :: "32 word"
  msg_sessionSeqNum :: "32 word option"
  msg_rmcpMsgClass :: byte
  msg_payload :: "byte list"

definition MESSAGE_INVALID_SESSION_ID :: "32 word" where "MESSAGE_INVALID_SESSION_ID = 0xBADBADFF"

definition crc8bit :: "byte list \<Rightarrow> byte" where
  "crc8bit bs = - sum_list bs"

definition getCommand :: "message \<Rightarrow> 32 word res" where
  "getCommand msg =
     (let command = push_bit 16 (ucast (msg_payloadType msg))
      in if msg_payloadType msg = PT_IPMI
         then rbind (vec_at (msg_payload msg) 1) (\<lambda>netfn.
              rbind (vec_at (msg_payload msg) 5) (\<lambda>cmd.
              Inr (command OR push_bit 8 (ucast netfn) OR ucast cmd)))
         else Inr command)"

text \<open>The copy constructor of \<open>Message\<close>: the payload and the sequence number stay behind.\<close>

definition copy_message :: "message \<Rightarrow> message" where
  "copy_message msg = msg\<lparr>msg_payload := [], msg_sessionSeqNum := None,
     msg_payloadType :=
       (if msg_payloadType msg = PT_OPEN_SESSION_REQUEST then PT_OPEN_SESSION_RESPONSE
        else if msg_payloadType msg = PT_RAKP1 then PT_RAKP2
        else if msg_payloadType msg = PT_RAKP3 then PT_RAKP4
        else msg_payloadType msg)\<rparr>"

definition createResponse :: "message \<Rightarrow> byte list \<Rightarrow> message option res" where
  "createResponse msg out =
     (if msg_payloadType msg = PT_SOL then Inr None
      else if msg_payloadType msg = PT_IPMI then
        rbind (slice (msg_payload msg) 0 6) (\<lambda>req.
          (let h = [req ! 3, req ! 1 OR 0x04];
               body = [req ! 0, req ! 4, req ! 5] @ out
           in Inr (Some ((copy_message msg)\<lparr>msg_payload := h @ [crc8bit h] @ body @ [crc8bit body]\<rparr>))))
      else Inr (Some ((copy_message msg)\<lparr>msg_payload := out\<rparr>)))"

section \<open>Packets\<close>

definition RMCP_VERSION :: byte where "RMCP_VERSION = 6"
definition RMCP_SEQ :: byte where "RMCP_SEQ = 0xFF"
definition RMCP_MESSAGE_CLASS_IPMI :: byte where "RMCP_MESSAGE_CLASS_IPMI = 7"
definition class_ASF :: byte where "class_ASF = 6"
definition class_OEM :: byte where "class_OEM = 8"
definition format_IPMI15 :: byte where "format_IPMI15 = 0"
definition format_IPMI20 :: byte where "format_IPMI20 = 6"

lemmas packet_consts = RMCP_VERSION_def RMCP_SEQ_def RMCP_MESSAGE_CLASS_IPMI_def class_ASF_def class_OEM_def
  format_IPMI15_def format_IPMI20_def

datatype session_header = Header_IPMI15 | Header_IPMI20

subsection \<open>IPMI 1.5\<close>

definition ipmi15_unflatten :: "byte list \<Rightarrow> message res" where
  "ipmi15_unflatten p =
     (if length p < 14 then Inl Runtime_Error
      else rbind (field p 9 4) (\<lambda>sid.
        if sid \<noteq> 0 then Inl Runtime_Error
        else rbind (field p 5 4) (\<lambda>sq.
          let payloadLen = unat (p ! 13)
          in if payloadLen = 0 \<or> length p < 14 + payloadLen then Inl Runtime_Error
             else Inr \<lparr>msg_isPacketEncrypted = False, msg_isPacketAuthenticated = False,
               msg_payloadType = PT_IPMI, msg_rcSessionID = MESSAGE_INVALID_SESSION_ID,
               msg_bmcSessionID = 0, msg_sessionSeqNum = Some (of_nat sq), msg_rmcpMsgClass = p ! 3,
               msg_payload = take payloadLen (drop 14 p)\<rparr>)))"

text \<open>
  The trailer is written at \<open>packet.data() + packet.size()\<close> after the vector has been resized to hold
  it, one byte past the end.
\<close>

definition ipmi15_flatten :: "message \<Rightarrow> byte list res" where
  "ipmi15_flatten msg =
     (let packet = [RMCP_VERSION, 0, RMCP_SEQ, RMCP_MESSAGE_CLASS_IPMI, format_IPMI15] @ to_le 4 0 @
          to_le 4 (unat (msg_rcSessionID msg)) @ [of_nat (length (msg_payload msg))] @ msg_payload msg @ [0];
          trailer = length packet
      in if trailer < length packet then Inr (packet[trailer := 0]) else Inl Out_Of_Bounds)"

subsection \<open>IPMI 2.0\<close>

definition PAYLOAD_ENCRYPT_MASK :: byte where "PAYLOAD_ENCRYPT_MASK = 0x80"
definition PAYLOAD_AUTH_MASK :: byte where "PAYLOAD_AUTH_MASK = 0x40"

definition ipmi20_header :: "byte \<Rightarrow> 32 word \<Rightarrow> 32 word \<Rightarrow> nat \<Rightarrow> byte list" where
  "ipmi20_header pt sid sq plen = [RMCP_VERSION, 0, RMCP_SEQ, RMCP_MESSAGE_CLASS_IPMI, format_IPMI20, pt] @
     to_le 4 (unat sid) @ to_le 4 (unat sq) @ to_le 2 plen"

definition integrity_padding :: "nat \<Rightarrow> nat" where
  "integrity_padding payloadLen = 4 - ((payloadLen + 2) mod 4)"

definition getIntegrityAlgo :: "session \<Rightarrow> integrity_algo res" where
  "getIntegrityAlgo s = of_opt Runtime_Error (ses_integrityAlgo s)"

definition getCryptAlgo :: "session \<Rightarrow> byte list res" where
  "getCryptAlgo s = of_opt Runtime_Error (ses_cryptAlgo s)"

definition getAuthAlgo :: "session \<Rightarrow> auth_algo res" where
  "getAuthAlgo s = of_opt Runtime_Error (ses_authAlgo s)"

definition verifyPacketIntegrity :: "crypto \<Rightarrow> session \<Rightarrow> byte list \<Rightarrow> nat \<Rightarrow> bool res" where
  "verifyPacketIntegrity c s packet payloadLen =
     (let paddingLen = integrity_padding payloadLen;
          sessTrailerPos = 16 + payloadLen + paddingLen
      in if length packet < sessTrailerPos + 2 then Inr False
         else if packet ! sessTrailerPos \<noteq> of_nat paddingLen then Inr False
         else rbind (getIntegrityAlgo s) (\<lambda>ia.
           let n = authCodeLength (ia_digest ia)
           in if length packet - sessTrailerPos - 2 \<noteq> n then Inr False
              else verifyIntegrityData c ia packet (length packet - n - 4) (drop (sessTrailerPos + 2) packet)))"

definition addIntegrityData :: "crypto \<Rightarrow> session \<Rightarrow> nat \<Rightarrow> byte list \<Rightarrow> byte list res" where
  "addIntegrityData c s payloadLen packet =
     (let paddingLen = integrity_padding payloadLen;
          p = packet @ replicate paddingLen 0xFF @ [of_nat paddingLen, RMCP_MESSAGE_CLASS_IPMI]
      in rbind (getIntegrityAlgo s) (\<lambda>ia.
         rbind (generateIntegrityData c ia p) (\<lambda>mac. Inr (p @ mac))))"

definition ipmi20_unflatten :: "crypto \<Rightarrow> manager \<Rightarrow> byte list \<Rightarrow> message res" where
  "ipmi20_unflatten c m p =
     (if length p < 16 then Inl Runtime_Error
      else rbind (field p 6 4) (\<lambda>sid0. let sid = of_nat sid0
        in rbind (getSession sid BMC_SESSION_ID m) (\<lambda>r. let s = obj m r
        in rbind (field p 10 4) (\<lambda>sq.
           rbind (field p 14 2) (\<lambda>payloadLen.
           let enc = (p ! 5 AND PAYLOAD_ENCRYPT_MASK \<noteq> 0);
               auth = (p ! 5 AND PAYLOAD_AUTH_MASK \<noteq> 0);
               integrityMismatch = (ses_integrityAlgo s \<noteq> None \<and> \<not> auth);
               encryptMismatch = (ses_cryptAlgo s \<noteq> None \<and> \<not> enc)
           in if payloadLen = 0 \<or> length p < 16 + payloadLen then Inl Runtime_Error
              else if sid \<noteq> 0 \<and> (integrityMismatch \<or> encryptMismatch) then Inl Runtime_Error
              else rbind (if auth then verifyPacketIntegrity c s p payloadLen else Inr True) (\<lambda>ok.
                if \<not> ok then Inl Runtime_Error
                else rbind (if enc then rbind (getCryptAlgo s) (\<lambda>k2. decryptPayload c k2 p 16 payloadLen)
                            else Inr (take payloadLen (drop 16 p))) (\<lambda>payload.
                  Inr \<lparr>msg_isPacketEncrypted = enc, msg_isPacketAuthenticated = auth,
                    msg_payloadType = p ! 5 AND 0x3F, msg_rcSessionID = MESSAGE_INVALID_SESSION_ID,
                    msg_bmcSessionID = sid, msg_sessionSeqNum = Some (of_nat sq),
                    msg_rmcpMsgClass = p ! 3, msg_payload = payload\<rparr>)))))))"

text \<open>
  \<open>addSequenceNumber\<close>: packets to session zero carry 0, others the next number of the session. The
  result is the number and the manager with the session's counter advanced.
\<close>

definition addSequenceNumber :: "32 word \<Rightarrow> nat \<Rightarrow> manager \<Rightarrow> 32 word \<times> manager" where
  "addSequenceNumber sid r m =
     (if sid = 0 then (0, m)
      else (fst (increment (ses_sequenceNums (obj m r))),
            upd_obj r (\<lambda>s. s\<lparr>ses_sequenceNums := snd (increment (ses_sequenceNums s))\<rparr>) m))"

definition ipmi20_flatten :: "crypto \<Rightarrow> byte list option \<Rightarrow> message \<Rightarrow> nat \<Rightarrow> manager \<Rightarrow> byte list res \<times> manager" where
  "ipmi20_flatten c iv msg r m =
     (let (sq, m') = addSequenceNumber (msg_rcSessionID msg) r m;
          s = obj m' r;
          pt = msg_payloadType msg OR (if msg_isPacketEncrypted msg then PAYLOAD_ENCRYPT_MASK else 0) OR
            (if msg_isPacketAuthenticated msg then PAYLOAD_AUTH_MASK else 0)
      in (rbind (if msg_isPacketEncrypted msg
                 then rbind (getCryptAlgo s) (\<lambda>k2. encryptPayload c k2 iv (msg_payload msg))
                 else Inr (msg_payload msg)) (\<lambda>payload.
          let packet = ipmi20_header pt (msg_rcSessionID msg) sq (length payload) @ payload
          in if msg_isPacketAuthenticated msg then addIntegrityData c s (length payload) packet
             else Inr packet), m'))"

subsection \<open>Both\<close>

definition parser_unflatten :: "crypto \<Rightarrow> manager \<Rightarrow> byte list \<Rightarrow> (message \<times> session_header) res" where
  "parser_unflatten c m p =
     (if length p < 4 then Inl Runtime_Error
      else if p ! 0 \<noteq> RMCP_VERSION \<or> p ! 2 \<noteq> RMCP_SEQ \<or> (p ! 3 < class_ASF \<and> p ! 3 > class_OEM) then Inl Runtime_Error
      else if p ! 3 = class_ASF then Inl Runtime_Error
      else rbind (vec_at p 4) (\<lambda>fmt.
        if fmt = format_IPMI15 then rbind (ipmi15_unflatten p) (\<lambda>msg. Inr (msg, Header_IPMI15))
        else if fmt = format_IPMI20 then rbind (ipmi20_unflatten c m p) (\<lambda>msg. Inr (msg, Header_IPMI20))
        else Inl Runtime_Error))"

fun parser_flatten :: "crypto \<Rightarrow> byte list option \<Rightarrow> message \<Rightarrow> session_header \<Rightarrow> nat \<Rightarrow> manager \<Rightarrow> byte list res \<times> manager" where
  "parser_flatten c iv msg Header_IPMI15 r m = (ipmi15_flatten msg, m)"
| "parser_flatten c iv msg Header_IPMI20 r m = ipmi20_flatten c iv msg r m"

section \<open>Padding and encryption\<close>

lemma crypto_ok_hmac: "crypto_ok c \<Longrightarrow> cr_hmac c dg k d = Some h \<Longrightarrow> length h = digest_length dg"
  unfolding crypto_ok_def by blast

lemma crypto_ok_cipher:
  assumes "crypto_ok c" "length p mod 16 = 0" "cr_encrypt c k iv p = Some x"
  shows "length x = length p" "cr_decrypt c k iv x = Some p"
proof -
  have "\<forall>k iv p x. length p mod 16 = 0 \<longrightarrow> cr_encrypt c k iv p = Some x \<longrightarrow>
      length x = length p \<and> cr_decrypt c k iv x = Some p"
    using assms(1) unfolding crypto_ok_def by (rule conjunct2)
  from this [rule_format, OF assms(2,3)] show "length x = length p" "cr_decrypt c k iv x = Some p" by auto
qed

lemma authCodeLength_le: "authCodeLength dg \<le> digest_length dg"
  by (cases dg) simp_all

lemma conf_padding_bounds:
  "1 \<le> conf_padding n" "conf_padding n \<le> 16" "(n + conf_padding n + 1) mod 16 = 0"
  "conf_padding n \<le> 15 \<longleftrightarrow> n mod 16 \<noteq> 15"
proof -
  have m: "(n + 1) mod 16 < 16" by simp
  then show "1 \<le> conf_padding n" "conf_padding n \<le> 16" unfolding conf_padding_def by linarith+
  have arith: "n + (16 - r) + 1 = 16 * (q + 1)" if "q * 16 + r = n + 1" "r < 16" for q r
    using that by arith
  have "n + conf_padding n + 1 = 16 * ((n + 1) div 16 + 1)"
    unfolding conf_padding_def by (rule arith [OF div_mult_mod_eq m])
  then show "(n + conf_padding n + 1) mod 16 = 0" by simp
  have "(n + 1) mod 16 = (if n mod 16 = 15 then 0 else n mod 16 + 1)" using mod_Suc [of n 16] by auto
  then show "conf_padding n \<le> 15 \<longleftrightarrow> n mod 16 \<noteq> 15" unfolding conf_padding_def by auto
qed

lemma length_conf_pad [simp]: "length (conf_pad n) = conf_padding n + 1"
  by (simp add: conf_pad_def del: upt_Suc)

lemma decrypt_padded:
  assumes "decryptData c k2 iv (take (payloadLen - 16) (drop (hdr + 16) packet)) = Inr (payload @ conf_pad (length payload))"
    and "iv = take 16 (drop hdr packet)" "hdr + payloadLen \<le> length packet" "16 \<le> payloadLen"
  shows "decryptPayload c k2 packet hdr payloadLen =
     (if length payload mod 16 = 15 then Inl Out_Of_Bounds else Inr payload)"
proof -
  let ?n = "conf_padding (length payload)"
  let ?plain = "payload @ conf_pad (length payload)"
  note n = conf_padding_bounds [of "length payload"]
  have ne: "?plain \<noteq> []" by (simp add: conf_pad_def)
  have last: "unat (last ?plain) = ?n"
    using n(2) by (simp add: conf_pad_def unat_of_nat_byte)
  have len: "length ?plain = length payload + ?n + 1" by simp
  have pad: "min (length ?plain - 1) ?n = ?n" "length ?plain - ?n - 1 = length payload" unfolding len by simp_all
  have cmp: "take ?n (drop (length payload) ?plain) = map of_nat [1..<Suc ?n]"
    by (simp add: conf_pad_def del: upt_Suc)
  have pads: "confPadBytes = map of_nat [1..<16]" by (simp add: confPadBytes_def upt_conv_Cons)
  have pb: "take ?n confPadBytes = map of_nat [1..<Suc ?n]" if "?n \<le> 15"
    unfolding pads take_map using that by (subst take_upt) simp_all
  have lb: "length confPadBytes = 15" by (simp add: confPadBytes_def)
  have guard: "\<not> (length packet < hdr + payloadLen \<or> payloadLen < 16)" using assms(3,4) by simp
  have "decryptPayload c k2 packet hdr payloadLen =
      (if 15 < ?n then Inl Out_Of_Bounds
       else if map of_nat [1..<Suc ?n] \<noteq> take ?n confPadBytes then Inl Runtime_Error
       else Inr (take (length payload) ?plain))"
    unfolding decryptPayload_def if_not_P [OF guard] assms(1) [unfolded assms(2)] rbind_simps if_not_P [OF ne]
      Let_def last pad cmp lb ..
  then show ?thesis using pb n(4) by (auto simp del: upt_Suc)
qed

lemma encryptPayload_shape:
  assumes "crypto_ok c" "encryptPayload c k2 (Some v) payload = Inr x" "length v = 16"
  obtains y where "x = v @ y" "length y = length payload + conf_padding (length payload) + 1"
    and "decryptData c k2 v y = Inr (payload @ conf_pad (length payload))"
proof -
  from assms(2) obtain k y where k: "aes_key k2 = Inr k"
    and y: "cr_encrypt c k v (payload @ conf_pad (length payload)) = Some y" "x = v @ y"
    by (auto simp: encryptPayload_def encryptData_def split: option.splits)
  have "length (payload @ conf_pad (length payload)) mod 16 = 0"
    using conf_padding_bounds(3) [of "length payload"] by (simp add: add.assoc)
  from crypto_ok_cipher [OF assms(1) this y(1)] k y(2) show thesis
    by (intro that [of y]) (simp_all add: decryptData_def)
qed

lemma decrypt_encrypt:
  assumes "crypto_ok c" "encryptPayload c k2 (Some v) payload = Inr x" "length v = 16"
  shows "decryptPayload c k2 (h @ x @ t) (length h) (length x) =
      (if length payload mod 16 = 15 then Inl Out_Of_Bounds else Inr payload)"
    and "length x = 17 + length payload + conf_padding (length payload)"
proof -
  obtain y where y: "x = v @ y" "length y = length payload + conf_padding (length payload) + 1"
      "decryptData c k2 v y = Inr (payload @ conf_pad (length payload))"
    using encryptPayload_shape [OF assms] by blast
  show "decryptPayload c k2 (h @ x @ t) (length h) (length x) =
      (if length payload mod 16 = 15 then Inl Out_Of_Bounds else Inr payload)"
    using y assms(3) by (intro decrypt_padded [of _ _ "take 16 (drop (length h) (h @ x @ t))"]) simp_all
  show "length x = 17 + length payload + conf_padding (length payload)" using y(1,2) assms(3) by simp
qed

section \<open>Authentication codes\<close>

lemma slice_append_prefix: "i \<le> length p \<Longrightarrow> slice (p @ t) i (length p - i) = Inr (drop i p)"
  by (simp add: slice_def)

lemma verify_generate:
  assumes "crypto_ok c" "addIntegrityData c s n packet = Inr q" "length packet = 16 + n"
  shows "verifyPacketIntegrity c s q n = Inr True" "\<exists>t. q = packet @ t"
proof -
  let ?pad = "integrity_padding n"
  let ?p = "packet @ replicate ?pad 0xFF @ [of_nat ?pad, RMCP_MESSAGE_CLASS_IPMI]"
  from assms(2) obtain ia mac where ia: "ses_integrityAlgo s = Some ia"
    and mac: "integrity_hmac c ia (drop 4 ?p) = Inr mac" and q: "q = ?p @ mac"
    unfolding addIntegrityData_def Let_def getIntegrityAlgo_def generateIntegrityData_def
    by (auto simp only: rbind_Inr_iff of_opt_Inr_iff sum.inject)
  obtain h where h: "cr_hmac c (ia_digest ia) (ia_k1 ia) (drop 4 ?p) = Some h" "mac = take (authCodeLength (ia_digest ia)) h"
    using mac by (auto simp: integrity_hmac_def split: option.splits)
  have lm: "length mac = authCodeLength (ia_digest ia)"
    using crypto_ok_hmac [OF assms(1) h(1)] authCodeLength_le [of "ia_digest ia"] h(2) by simp
  have lp: "length ?p = 16 + n + ?pad + 2" using assms(3) by simp
  have at: "q ! (16 + n + ?pad) = of_nat ?pad"
    unfolding q using assms(3) by (simp add: nth_append)
  have sl: "slice q 4 (length ?p - 4) = Inr (drop 4 ?p)"
    unfolding q using lp by (intro slice_append_prefix) linarith
  have len: "length q = length ?p + length mac" unfolding q by simp
  have tl: "drop (16 + n + ?pad + 2) q = mac" unfolding q using lp by simp
  have "verifyPacketIntegrity c s q n = verifyIntegrityData c ia q (length ?p - 4) mac"
    unfolding verifyPacketIntegrity_def Let_def at tl len getIntegrityAlgo_def ia
    using lp lm by simp
  also have "\<dots> = Inr True" unfolding verifyIntegrityData_def sl rbind_simps mac by simp
  finally show "verifyPacketIntegrity c s q n = Inr True" .
  show "\<exists>t. q = packet @ t" unfolding q by simp
qed

section \<open>Headers\<close>

lemma length_ipmi20_header [simp]: "length (ipmi20_header pt sid sq n) = 16"
  by (simp add: ipmi20_header_def)

lemma field_at: "length h = off \<Longrightarrow> field (h @ (to_le n v @ p)) off n = Inr (v mod 256 ^ n)"
  by (simp add: field_def slice_def le_val_to_le)

lemma word32_mod: "unat (w :: 32 word) mod 256 ^ 4 = unat w"
proof -
  have "unat w < 256 ^ 4" using unsigned_less [of w, where 'a = nat] by simp
  then show ?thesis by simp
qed

lemma header_sessId: "field (ipmi20_header pt sid sq n @ p) 6 4 = Inr (unat sid)"
proof -
  have "ipmi20_header pt sid sq n @ p = [RMCP_VERSION, 0, RMCP_SEQ, RMCP_MESSAGE_CLASS_IPMI, format_IPMI20, pt] @
      (to_le 4 (unat sid) @ (to_le 4 (unat sq) @ to_le 2 n @ p))" by (simp add: ipmi20_header_def)
  then show ?thesis by (simp only:) (subst field_at, simp_all only: word32_mod, simp)
qed

lemma header_sessSeqNum: "field (ipmi20_header pt sid sq n @ p) 10 4 = Inr (unat sq)"
proof -
  have "ipmi20_header pt sid sq n @ p = ([RMCP_VERSION, 0, RMCP_SEQ, RMCP_MESSAGE_CLASS_IPMI, format_IPMI20, pt] @
      to_le 4 (unat sid)) @ (to_le 4 (unat sq) @ (to_le 2 n @ p))" by (simp add: ipmi20_header_def)
  then show ?thesis by (simp only:) (subst field_at, simp, simp only: word32_mod)
qed

lemma header_payloadLength: "field (ipmi20_header pt sid sq n @ p) 14 2 = Inr (n mod 65536)"
proof -
  have "ipmi20_header pt sid sq n @ p = ([RMCP_VERSION, 0, RMCP_SEQ, RMCP_MESSAGE_CLASS_IPMI, format_IPMI20, pt] @
      to_le 4 (unat sid) @ to_le 4 (unat sq)) @ (to_le 2 n @ p)" by (simp add: ipmi20_header_def)
  then show ?thesis by (simp only:) (subst field_at, simp_all)
qed

lemma header_bytes:
  "(ipmi20_header pt sid sq n @ p) ! 0 = RMCP_VERSION" "(ipmi20_header pt sid sq n @ p) ! 2 = RMCP_SEQ"
  "(ipmi20_header pt sid sq n @ p) ! 3 = RMCP_MESSAGE_CLASS_IPMI" "(ipmi20_header pt sid sq n @ p) ! 4 = format_IPMI20"
  "(ipmi20_header pt sid sq n @ p) ! 5 = pt"
  by (simp_all add: ipmi20_header_def)

lemma drop_header [simp]: "drop 16 (ipmi20_header pt sid sq n @ p) = p"
  by simp

definition payload_flags :: "bool \<Rightarrow> bool \<Rightarrow> byte \<Rightarrow> byte" where
  "payload_flags enc auth pt = pt OR (if enc then PAYLOAD_ENCRYPT_MASK else 0) OR (if auth then PAYLOAD_AUTH_MASK else 0)"

lemma payload_flags:
  assumes "pt AND 0xC0 = 0"
  shows "payload_flags enc auth pt AND PAYLOAD_ENCRYPT_MASK = (if enc then 0x80 else 0)"
    and "payload_flags enc auth pt AND PAYLOAD_AUTH_MASK = (if auth then 0x40 else 0)"
    and "payload_flags enc auth pt AND 0x3F = pt"
proof -
  have "pt AND 0x80 = (pt AND 0xC0) AND 0x80" "pt AND 0x40 = (pt AND 0xC0) AND 0x40" by (simp_all add: and.assoc)
  then have z: "pt AND 0x80 = 0" "pt AND 0x40 = 0" using assms by simp_all
  have "(0xC0 OR 0x3F :: byte) = - 1" by simp
  then have "pt = pt AND (0xC0 OR 0x3F)" by (simp only: and.right_neutral)
  also have "\<dots> = (pt AND 0xC0) OR (pt AND 0x3F)" by (rule bit.conj_disj_distrib)
  finally have k: "pt AND 0x3F = pt" using assms by simp
  show "payload_flags enc auth pt AND PAYLOAD_ENCRYPT_MASK = (if enc then 0x80 else 0)"
    "payload_flags enc auth pt AND PAYLOAD_AUTH_MASK = (if auth then 0x40 else 0)"
    "payload_flags enc auth pt AND 0x3F = pt"
    using z k by (simp_all add: payload_flags_def PAYLOAD_ENCRYPT_MASK_def PAYLOAD_AUTH_MASK_def bit.conj_disj_distrib2)
qed

text \<open>What \<open>ipmi20_flatten\<close> sends, in one formula.\<close>

lemma ipmi20_flatten_packet:
  assumes "ipmi20_flatten c iv msg r m = (Inr p, m')" "r < length (mgr_objs m)" "msg_rcSessionID msg \<noteq> 0"
  obtains payload where
    "(if msg_isPacketEncrypted msg then rbind (getCryptAlgo (obj m r)) (\<lambda>k2. encryptPayload c k2 iv (msg_payload msg))
      else Inr (msg_payload msg)) = Inr payload"
    and "(if msg_isPacketAuthenticated msg
          then addIntegrityData c (obj m r) (length payload) (ipmi20_header (payload_flags (msg_isPacketEncrypted msg)
            (msg_isPacketAuthenticated msg) (msg_payloadType msg)) (msg_rcSessionID msg)
            (sn_out (ses_sequenceNums (obj m r)) + 1) (length payload) @ payload)
          else Inr (ipmi20_header (payload_flags (msg_isPacketEncrypted msg)
            (msg_isPacketAuthenticated msg) (msg_payloadType msg)) (msg_rcSessionID msg)
            (sn_out (ses_sequenceNums (obj m r)) + 1) (length payload) @ payload)) = Inr p"
    and "m' = upd_obj r (\<lambda>s. s\<lparr>ses_sequenceNums := snd (increment (ses_sequenceNums s))\<rparr>) m"
proof -
  let ?m = "upd_obj r (\<lambda>s. s\<lparr>ses_sequenceNums := snd (increment (ses_sequenceNums s))\<rparr>) m"
  have same: "getCryptAlgo (obj ?m r) = getCryptAlgo (obj m r)"
      "addIntegrityData c (obj ?m r) = addIntegrityData c (obj m r)"
    using assms(2) by (simp_all add: getCryptAlgo_def addIntegrityData_def getIntegrityAlgo_def fun_eq_iff)
  have sq: "fst (increment (ses_sequenceNums (obj m r))) = sn_out (ses_sequenceNums (obj m r)) + 1"
    by (simp add: increment_def)
  show thesis
    using assms(1,3) that unfolding ipmi20_flatten_def addSequenceNumber_def Let_def payload_flags_def [symmetric]
    by (auto simp only: if_False prod.case same rbind_Inr_iff sq prod.inject)
qed

lemma decryptPayload_cong:
  assumes "take (hdr + n) p = take (hdr + n) q" "hdr + n \<le> length p" "hdr + n \<le> length q"
  shows "decryptPayload c k2 p hdr n = decryptPayload c k2 q hdr n"
proof -
  have t: "take k (drop i p) = take k (drop i q)" if "i + k \<le> hdr + n" for i k
  proof -
    have "take (k + i) (take (hdr + n) p) = take (k + i) p" "take (k + i) (take (hdr + n) q) = take (k + i) q"
      using that by (simp_all add: min_def)
    then show ?thesis using assms(1) by (simp add: take_drop)
  qed
  show ?thesis
  proof (cases "n < 16")
    case False
    then have "take 16 (drop hdr p) = take 16 (drop hdr q)"
        "take (n - 16) (drop (hdr + 16) p) = take (n - 16) (drop (hdr + 16) q)"
      by (intro t; linarith)+
    with assms(2,3) show ?thesis by (simp add: decryptPayload_def)
  qed (simp add: decryptPayload_def)
qed

lemma parse_flattened:
  assumes "getSession sid BMC_SESSION_ID m = Inr r" "pt AND 0xC0 = 0"
    and "payload \<noteq> []" "length payload < 65536"
    and "p = ipmi20_header (payload_flags enc auth pt) sid sq (length payload) @ payload @ t"
    and "sid \<noteq> 0 \<longrightarrow> ses_integrityAlgo (obj m r) \<noteq> None \<longrightarrow> auth" "sid \<noteq> 0 \<longrightarrow> ses_cryptAlgo (obj m r) \<noteq> None \<longrightarrow> enc"
    and "auth \<longrightarrow> verifyPacketIntegrity c (obj m r) p (length payload) = Inr True"
  shows "parser_unflatten c m p =
     rbind (if enc then rbind (getCryptAlgo (obj m r)) (\<lambda>k2. decryptPayload c k2 p 16 (length payload))
            else Inr payload) (\<lambda>body.
       Inr (\<lparr>msg_isPacketEncrypted = enc, msg_isPacketAuthenticated = auth,
          msg_payloadType = pt, msg_rcSessionID = MESSAGE_INVALID_SESSION_ID,
          msg_bmcSessionID = sid, msg_sessionSeqNum = Some sq,
          msg_rmcpMsgClass = RMCP_MESSAGE_CLASS_IPMI, msg_payload = body\<rparr>, Header_IPMI20))"
proof -
  let ?f = "payload_flags enc auth pt"
  have len: "\<not> length p < 16" "\<not> length p < 4" "length payload \<noteq> 0" "\<not> length p < 16 + length payload"
    using assms(3,5) by simp_all
  have fields: "field p 6 4 = Inr (unat sid)" "field p 10 4 = Inr (unat sq)" "field p 14 2 = Inr (length payload)"
    unfolding assms(5) header_sessId header_sessSeqNum header_payloadLength using assms(4) by simp_all
  have bytes: "p ! 0 = RMCP_VERSION" "p ! 2 = RMCP_SEQ" "p ! 3 = RMCP_MESSAGE_CLASS_IPMI" "p ! 4 = format_IPMI20" "p ! 5 = ?f"
    unfolding assms(5) header_bytes by simp_all
  have unat: "of_nat (unat sid) = sid" "of_nat (unat sq) = sq" by simp_all
  have at: "vec_at p 4 = Inr format_IPMI20" using bytes(4) len(1) by simp
  have body: "take (length payload) (drop 16 p) = payload" unfolding assms(5) drop_header by simp
  have enc: "(?f AND PAYLOAD_ENCRYPT_MASK \<noteq> 0) = enc" and auth: "(?f AND PAYLOAD_AUTH_MASK \<noteq> 0) = auth"
    and pt: "?f AND 0x3F = pt"
    using payload_flags [OF assms(2), of enc auth] by simp_all
  have "ipmi20_unflatten c m p =
     rbind (if enc then rbind (getCryptAlgo (obj m r)) (\<lambda>k2. decryptPayload c k2 p 16 (length payload))
            else Inr payload) (\<lambda>body.
       Inr \<lparr>msg_isPacketEncrypted = enc, msg_isPacketAuthenticated = auth,
          msg_payloadType = pt, msg_rcSessionID = MESSAGE_INVALID_SESSION_ID,
          msg_bmcSessionID = sid, msg_sessionSeqNum = Some sq,
          msg_rmcpMsgClass = RMCP_MESSAGE_CLASS_IPMI, msg_payload = body\<rparr>)"
    unfolding ipmi20_unflatten_def if_not_P [OF len(1)] fields rbind_simps Let_def bytes enc auth pt body
      unat assms(1)
    using assms(6,7,8) len(3,4) by (cases auth; cases enc) auto
  moreover have "format_IPMI20 \<noteq> format_IPMI15" by (simp add: packet_consts)
  moreover have "RMCP_MESSAGE_CLASS_IPMI \<noteq> class_ASF" "\<not> RMCP_MESSAGE_CLASS_IPMI < class_ASF" by (simp_all add: packet_consts)
  ultimately show ?thesis
    unfolding parser_unflatten_def if_not_P [OF len(2)] bytes at rbind_simps by (auto simp: rbind_def split: sum.splits)
qed

section \<open>Properties of the packets\<close>

text \<open>
  C9. A message that the daemon sends for a session, encrypted and authenticated as the session
  demands, is read back by an end that holds the same keys: payload, type, session and the next
  sequence number come out as they went in. The one exception is an encrypted payload whose length is
  15 modulo 16: the sender pads it with 16 bytes instead of none, and reading that pad back runs past
  the table of 15 pad bytes.
\<close>

theorem packet_roundtrip:
  assumes "crypto_ok c" "length v = 16" "ipmi20_flatten c (Some v) msg r m = (Inr p, m')"
    and "r < length (mgr_objs m)" "msg_rcSessionID msg \<noteq> 0" "msg_payloadType msg AND 0xC0 = 0"
    and "msg_isPacketEncrypted msg = (ses_cryptAlgo (obj m r) \<noteq> None)"
    and "msg_isPacketAuthenticated msg = (ses_integrityAlgo (obj m r) \<noteq> None)"
    and "msg_payload msg \<noteq> []" "length (msg_payload msg) < 65000"
    and "getSession (msg_rcSessionID msg) BMC_SESSION_ID peer = Inr r'"
    and "ses_cryptAlgo (obj peer r') = ses_cryptAlgo (obj m r)"
    and "ses_integrityAlgo (obj peer r') = ses_integrityAlgo (obj m r)"
  shows "parser_unflatten c peer p =
    (if msg_isPacketEncrypted msg \<and> length (msg_payload msg) mod 16 = 15 then Inl Out_Of_Bounds
     else Inr (\<lparr>msg_isPacketEncrypted = msg_isPacketEncrypted msg,
       msg_isPacketAuthenticated = msg_isPacketAuthenticated msg, msg_payloadType = msg_payloadType msg,
       msg_rcSessionID = MESSAGE_INVALID_SESSION_ID, msg_bmcSessionID = msg_rcSessionID msg,
       msg_sessionSeqNum = Some (sn_out (ses_sequenceNums (obj m r)) + 1),
       msg_rmcpMsgClass = RMCP_MESSAGE_CLASS_IPMI, msg_payload = msg_payload msg\<rparr>, Header_IPMI20))"
proof -
  let ?enc = "msg_isPacketEncrypted msg" and ?auth = "msg_isPacketAuthenticated msg"
  obtain payload where pl: "(if ?enc then rbind (getCryptAlgo (obj m r)) (\<lambda>k2. encryptPayload c k2 (Some v) (msg_payload msg))
      else Inr (msg_payload msg)) = Inr payload"
    and pk: "(if ?auth then addIntegrityData c (obj m r) (length payload) (ipmi20_header (payload_flags ?enc
            ?auth (msg_payloadType msg)) (msg_rcSessionID msg) (sn_out (ses_sequenceNums (obj m r)) + 1) (length payload) @ payload)
          else Inr (ipmi20_header (payload_flags ?enc ?auth (msg_payloadType msg)) (msg_rcSessionID msg)
            (sn_out (ses_sequenceNums (obj m r)) + 1) (length payload) @ payload)) = Inr p"
    using ipmi20_flatten_packet [OF assms(3,4,5)] by blast
  let ?h = "ipmi20_header (payload_flags ?enc ?auth (msg_payloadType msg)) (msg_rcSessionID msg)
     (sn_out (ses_sequenceNums (obj m r)) + 1) (length payload)"
  have same: "verifyPacketIntegrity c (obj peer r') = verifyPacketIntegrity c (obj m r)"
    unfolding verifyPacketIntegrity_def getIntegrityAlgo_def assms(13) ..
  have mac: "\<exists>t. p = ?h @ payload @ t"
      "?auth \<longrightarrow> verifyPacketIntegrity c (obj peer r') p (length payload) = Inr True"
    using pk verify_generate [OF assms(1), of "obj m r" "length payload" "?h @ payload" p]
    unfolding same by (cases ?auth; force)+
  then obtain t where t: "p = ?h @ payload @ t" by blast
  have enc: "payload \<noteq> [] \<and> length payload < 65536 \<and> (\<exists>k2. getCryptAlgo (obj peer r') = Inr k2 \<and>
      decryptPayload c k2 p 16 (length payload) =
        (if length (msg_payload msg) mod 16 = 15 then Inl Out_Of_Bounds else Inr (msg_payload msg)))" if e: ?enc
  proof -
    obtain k2 where k2: "ses_cryptAlgo (obj m r) = Some k2" "encryptPayload c k2 (Some v) (msg_payload msg) = Inr payload"
      using pl e by (auto simp: getCryptAlgo_def)
    note d = decrypt_encrypt [OF assms(1) k2(2) assms(2)]
    have "length payload < 65536" "payload \<noteq> []"
      using d(2) assms(10) conf_padding_bounds(2) [of "length (msg_payload msg)"] by auto
    moreover have "decryptPayload c k2 p 16 (length payload) =
        (if length (msg_payload msg) mod 16 = 15 then Inl Out_Of_Bounds else Inr (msg_payload msg))"
      using d(1) [of ?h t] unfolding t by simp
    moreover have "getCryptAlgo (obj peer r') = Inr k2" by (simp add: getCryptAlgo_def assms(12) k2(1))
    ultimately show ?thesis by blast
  qed
  have plain: "\<not> ?enc \<Longrightarrow> payload = msg_payload msg" using pl by simp
  have ne: "payload \<noteq> []" "length payload < 65536" using enc plain assms(9,10) by (cases ?enc; simp)+
  show ?thesis
    using parse_flattened [OF assms(11,6) ne t _ _ mac(2)] enc plain assms(7,8,12,13) by (cases ?enc) auto
qed

lemma authentic_packet:
  assumes "parser_unflatten c m p = Inr (msg, hdr)" "msg_bmcSessionID msg \<noteq> 0"
    and "map_of (mgr_sessionsMap m) (msg_bmcSessionID msg) = Some r"
    and "ses_integrityAlgo (obj m r) = Some ia" "ses_cryptAlgo (obj m r) = Some k2"
  shows "hdr = Header_IPMI20 \<and>
     (\<exists>body mac n. p = take 4 p @ body @ mac \<and> length mac = authCodeLength (ia_digest ia) \<and>
        integrity_hmac c ia body = Inr mac \<and> decryptPayload c k2 p 16 n = Inr (msg_payload msg))"
proof -
  have "hdr = Header_IPMI20 \<and> ipmi20_unflatten c m p = Inr msg"
    using assms(1,2) by (auto simp: parser_unflatten_def ipmi15_unflatten_def Let_def rbind_Inr_iff split: if_splits)
  then have h: "hdr = Header_IPMI20" and u: "ipmi20_unflatten c m p = Inr msg" by blast+
  obtain n where ver: "verifyPacketIntegrity c (obj m r) p n = Inr True"
      and dec: "decryptPayload c k2 p 16 n = Inr (msg_payload msg)"
    using u assms(2-5) by (auto simp: ipmi20_unflatten_def Let_def rbind_Inr_iff getCryptAlgo_def split: if_splits)
  let ?pos = "16 + n + integrity_padding n" and ?n = "authCodeLength (ia_digest ia)"
  have len: "length p = ?pos + 2 + ?n" and v: "verifyIntegrityData c ia p (length p - ?n - 4) (drop (?pos + 2) p) = Inr True"
    using ver by (auto simp: verifyPacketIntegrity_def Let_def getIntegrityAlgo_def assms(4) split: if_splits)
  let ?body = "take (length p - ?n - 4) (drop 4 p)" and ?mac = "drop (?pos + 2) p"
  have mac: "integrity_hmac c ia ?body = Inr ?mac"
    using v by (auto simp: verifyIntegrityData_def rbind_Inr_iff slice_Inr_iff)
  have "length p - ?n - 4 = ?pos + 2 - 4" using len by simp
  then have "?mac = drop (length p - ?n - 4) (drop 4 p)" by simp
  then have "?body @ ?mac = drop 4 p" by (simp only: append_take_drop_id)
  then have "p = take 4 p @ ?body @ ?mac" by simp
  moreover have "length ?mac = ?n" using len by simp
  ultimately show ?thesis using h mac dec by blast
qed

text \<open>
  Nothing is accepted for a session that has its keys unless it was authenticated with them: every
  packet that parses as a message of such a session ends in the code that the session's key yields
  for the rest of the packet, and its payload is what the session's cipher decrypts from it.
\<close>

theorem accepted_packet_is_authentic:
  assumes "parser_unflatten c m p = Inr (msg, hdr)" "msg_bmcSessionID msg \<noteq> 0"
    and "map_of (mgr_sessionsMap m) (msg_bmcSessionID msg) = Some r"
    and "ses_integrityAlgo (obj m r) = Some ia" "ses_cryptAlgo (obj m r) = Some k2"
  shows "hdr = Header_IPMI20 \<and>
     (\<exists>body mac n. p = take 4 p @ body @ mac \<and> length mac = authCodeLength (ia_digest ia) \<and>
        integrity_hmac c ia body = Inr mac \<and> decryptPayload c k2 p 16 n = Inr (msg_payload msg))"
  by (rule authentic_packet [OF assms])

text \<open>An instance of the primitives, and a manager whose session 1 has its keys.\<close>

definition example_crypto :: crypto where
  "example_crypto = \<lparr>cr_hmac = (\<lambda>dg k d. Some (take (digest_length dg) (k @ d @ replicate 32 0))),
     cr_encrypt = (\<lambda>k iv p. Some (map (\<lambda>b. b XOR 0x5A) p)),
     cr_decrypt = (\<lambda>k iv x. Some (map (\<lambda>b. b XOR 0x5A) x))\<rparr>"

lemma example_crypto_ok: "crypto_ok example_crypto"
proof -
  have "length (take (digest_length dg) (k @ d @ replicate 32 0)) = digest_length dg" for dg and k d :: "byte list"
  proof -
    have "digest_length dg \<le> length (k @ d @ replicate 32 (0 :: byte))" by (cases dg) simp_all
    then show ?thesis by (simp only: length_take min_absorb2)
  qed
  then show ?thesis by (simp add: crypto_ok_def example_crypto_def comp_def xor.assoc del: length_take)
qed

definition example_keyed :: manager where
  "example_keyed = upd_obj 1 (\<lambda>s. s\<lparr>ses_integrityAlgo := Some \<lparr>ia_digest = SHA256, ia_k1 = [1, 2, 3]\<rparr>,
     ses_cryptAlgo := Some (replicate 32 9)\<rparr>) (example_manager State_active 1)"

definition example_message :: message where
  "example_message = \<lparr>msg_isPacketEncrypted = True, msg_isPacketAuthenticated = True, msg_payloadType = 0,
     msg_rcSessionID = 1, msg_bmcSessionID = 1, msg_sessionSeqNum = None, msg_rmcpMsgClass = 7, msg_payload = [5, 6, 7]\<rparr>"

definition example_packet :: "byte list" where
  "example_packet = projr (fst (ipmi20_flatten example_crypto (Some (replicate 16 0)) example_message 1 example_keyed))"

lemma example_keyed_facts:
  "1 < length (mgr_objs example_keyed)" "getSession 1 BMC_SESSION_ID example_keyed = Inr 1"
  "ses_cryptAlgo (obj example_keyed 1) = Some (replicate 32 9)"
  "ses_integrityAlgo (obj example_keyed 1) = Some \<lparr>ia_digest = SHA256, ia_k1 = [1, 2, 3]\<rparr>"
  "sn_out (ses_sequenceNums (obj example_keyed 1)) = 0"
  by (simp_all add: example_keyed_def example_manager_def obj_def upd_obj_def started_def new_session_def)

lemma example_flattened:
  "fst (ipmi20_flatten example_crypto (Some (replicate 16 0)) example_message 1 example_keyed) = Inr example_packet"
proof -
  have "\<not> isl (fst (ipmi20_flatten example_crypto (Some (replicate 16 0)) example_message 1 example_keyed))"
    by code_simp
  then show ?thesis by (simp add: example_packet_def)
qed

theorem packet_roundtrip_witness:
  "parser_unflatten example_crypto example_keyed example_packet =
    Inr (example_message\<lparr>msg_rcSessionID := MESSAGE_INVALID_SESSION_ID, msg_sessionSeqNum := Some 1\<rparr>, Header_IPMI20)"
proof -
  obtain m' where f: "ipmi20_flatten example_crypto (Some (replicate 16 0)) example_message 1 example_keyed = (Inr example_packet, m')"
    using example_flattened by (metis prod.collapse)
  have msg: "msg_rcSessionID example_message = 1" by (simp add: example_message_def)
  note k = example_keyed_facts [unfolded One_nat_def]
  show ?thesis
    using packet_roundtrip [OF example_crypto_ok _ f example_keyed_facts(1), of example_keyed 1]
    by (simp add: k msg del: getSession.simps) (simp add: example_message_def packet_consts k)
qed

theorem accepted_packet_is_authentic_witness:
  "\<exists>body mac n. example_packet = take 4 example_packet @ body @ mac \<and> length mac = 16 \<and>
     integrity_hmac example_crypto \<lparr>ia_digest = SHA256, ia_k1 = [1, 2, 3]\<rparr> body = Inr mac \<and>
     decryptPayload example_crypto (replicate 32 9) example_packet 16 n = Inr [5, 6, 7]"
proof -
  have p: "parser_unflatten example_crypto example_keyed example_packet =
    Inr (example_message\<lparr>msg_rcSessionID := MESSAGE_INVALID_SESSION_ID, msg_sessionSeqNum := Some 1\<rparr>, Header_IPMI20)"
    by code_simp
  show ?thesis
    using accepted_packet_is_authentic [OF p _ _ example_keyed_facts(4,3)] example_keyed_facts(2)
    by (simp add: example_message_def)
qed

end
