(* ===== verification/Lan_Auth.thy ===== *)
theory Lan_Auth
  imports Lan_Message
begin

text \<open>
  Session setup of IPMI over LAN and the commands on sessions
  (\<open>src/devtool-mods/phosphor-ipmi-net-mods/command\<close>: \<open>open_session.cpp\<close>, \<open>rakp12.cpp\<close>,
  \<open>rakp34.cpp\<close>, \<open>session_cmds.cpp\<close>).

  Users and channel access are looked up in the user and channel layers (\<open>lan_env\<close>). A getter that
  fills a structure by reference takes the old value, since on an error it may leave it as it is.
  \<open>rnd\<close> is what \<open>RAND_bytes\<close> yields, \<open>None\<close> on failure. Each command returns the reply or the
  exception that leaves it, and the manager after it: what was written before an exception stays.
\<close>

section \<open>Environment and codes\<close>

record lan_env =
  env_crypto :: crypto
  env_info0 :: session_info
  env_guid :: "byte list"
  env_interfaceIndex :: byte
  env_userGetUserId :: "byte list \<Rightarrow> byte"
  env_userCheckEnabled :: "byte \<Rightarrow> bool"
  env_userGetPassword :: "byte list \<Rightarrow> byte list"
  env_userPamAuthenticate :: "byte list \<Rightarrow> byte list \<Rightarrow> bool"
  env_userGetPrivilegeAccess :: "byte \<Rightarrow> byte \<Rightarrow> priv_access \<Rightarrow> byte \<times> priv_access"
  env_getChannelAccessData :: "byte \<Rightarrow> channel_access \<Rightarrow> byte \<times> channel_access"
  env_closeOther :: "32 word \<Rightarrow> byte \<Rightarrow> byte \<Rightarrow> byte"

definition IPMI_CC_OK :: byte where "IPMI_CC_OK = 0"
definition IPMI_CC_REQ_DATA_LEN_INVALID :: byte where "IPMI_CC_REQ_DATA_LEN_INVALID = 0xC7"
definition IPMI_CC_INVALID_FIELD_REQUEST :: byte where "IPMI_CC_INVALID_FIELD_REQUEST = 0xCC"
definition IPMI_CC_INSUFFICIENT_PRIVILEGE :: byte where "IPMI_CC_INSUFFICIENT_PRIVILEGE = 0xD4"
definition IPMI_CC_UNSPECIFIED_ERROR :: byte where "IPMI_CC_UNSPECIFIED_ERROR = 0xFF"
definition IPMI_CC_EXCEEDS_USER_PRIV :: byte where "IPMI_CC_EXCEEDS_USER_PRIV = 0x81"
definition ccInvalidSessionId :: byte where "ccInvalidSessionId = 0x87"
definition ccInvalidSessionHandle :: byte where "ccInvalidSessionHandle = 0x88"
definition invalidUserId :: byte where "invalidUserId = 0xFF"

lemmas ipmi_codes = IPMI_CC_OK_def IPMI_CC_REQ_DATA_LEN_INVALID_def IPMI_CC_INVALID_FIELD_REQUEST_def
  IPMI_CC_INSUFFICIENT_PRIVILEGE_def IPMI_CC_UNSPECIFIED_ERROR_def IPMI_CC_EXCEEDS_USER_PRIV_def
  ccInvalidSessionId_def ccInvalidSessionHandle_def

definition Priv_CALLBACK :: byte where "Priv_CALLBACK = 1"
definition Priv_USER :: byte where "Priv_USER = 2"
definition Priv_ADMIN :: byte where "Priv_ADMIN = 4"
definition Priv_OEM :: byte where "Priv_OEM = 5"

lemmas privileges = Priv_CALLBACK_def Priv_USER_def Priv_ADMIN_def Priv_OEM_def

definition reqMaxPrivMask :: byte where "reqMaxPrivMask = 0xF"

datatype RAKP_ReturnCode = NO_ERROR | INSUFFICIENT_RESOURCE | INVALID_SESSION_ID | INVALID_AUTH_ALGO |
  INVALID_INTEGRITY_ALGO | INACTIVE_ROLE | UNAUTH_ROLE_PRIV | INVALID_NAME_LENGTH | UNAUTH_NAME |
  INVALID_INTEGRITY_VALUE | INVALID_CONF_ALGO

fun rakp_code :: "RAKP_ReturnCode \<Rightarrow> byte" where
  "rakp_code NO_ERROR = 0x00"
| "rakp_code INSUFFICIENT_RESOURCE = 0x01"
| "rakp_code INVALID_SESSION_ID = 0x02"
| "rakp_code INVALID_AUTH_ALGO = 0x04"
| "rakp_code INVALID_INTEGRITY_ALGO = 0x05"
| "rakp_code INACTIVE_ROLE = 0x09"
| "rakp_code UNAUTH_ROLE_PRIV = 0x0A"
| "rakp_code INVALID_NAME_LENGTH = 0x0C"
| "rakp_code UNAUTH_NAME = 0x0D"
| "rakp_code INVALID_INTEGRITY_VALUE = 0x0F"
| "rakp_code INVALID_CONF_ALGO = 0x10"

definition id_bytes :: "32 word \<Rightarrow> byte list" where
  "id_bytes w = to_le 4 (unat w)"

section \<open>Open Session\<close>

definition open_session_error :: "byte list \<Rightarrow> RAKP_ReturnCode \<Rightarrow> byte list" where
  "open_session_error p code = [p ! 0, rakp_code code, 0, 0] @ take 4 (drop 4 p) @ replicate 28 0"

definition algo_field :: "byte list \<Rightarrow> nat \<Rightarrow> byte" where
  "algo_field p off = p ! off AND 0x3F"

definition open_session_reply :: "byte list \<Rightarrow> session \<Rightarrow> byte list" where
  "open_session_reply p s = [p ! 0, rakp_code NO_ERROR, ses_reqMaxPrivLevel s AND 0xF, 0] @ take 4 (drop 4 p) @
     id_bytes (ses_bmcSessionID s) @
     [p ! 8, 0, 0, p ! 11, algo_field p 12, 0, 0, 0,
      p ! 16, 0, 0, p ! 19, algo_field p 20, 0, 0, 0,
      p ! 24, 0, 0, p ! 27, algo_field p 28, 0, 0, 0]"

definition auth_supported :: "byte \<Rightarrow> bool" where "auth_supported a \<longleftrightarrow> a = 3"
definition integrity_supported :: "byte \<Rightarrow> bool" where "integrity_supported a \<longleftrightarrow> a = 4"
definition crypt_supported :: "byte \<Rightarrow> bool" where "crypt_supported a \<longleftrightarrow> a = 1"

definition openSession :: "lan_env \<Rightarrow> int \<Rightarrow> 32 word list \<Rightarrow> byte list \<Rightarrow> manager \<Rightarrow> byte list res \<times> manager" where
  "openSession env now rands p m =
     (if length p \<noteq> 32 then (Inr [IPMI_CC_REQ_DATA_LEN_INVALID], m)
      else if \<not> auth_supported (algo_field p 12) then (Inr (open_session_error p INVALID_AUTH_ALGO), m)
      else if \<not> integrity_supported (algo_field p 20) then (Inr (open_session_error p INVALID_INTEGRITY_ALGO), m)
      else
        (let maxPrivLevel = p ! 1 AND 0xF;
             priv = (if maxPrivLevel = 0 then Priv_ADMIN else maxPrivLevel)
         in if \<not> crypt_supported (algo_field p 28) then (Inr (open_session_error p INVALID_CONF_ALGO), m)
            else
              (case startSession (env_info0 env) now rands (of_nat (le_val (take 4 (drop 4 p)))) priv
                      (algo_field p 12) (algo_field p 20) (algo_field p 28) m of
                 (Inl e, m') \<Rightarrow>
                   (if is_exception e then Inr (open_session_error p INSUFFICIENT_RESOURCE) else Inl e, m')
               | (Inr r, m') \<Rightarrow>
                   (Inr (open_session_reply p (obj m' r)),
                    upd_obj r (\<lambda>s. set_state State_setupInProgress (updateLastTransactionTime now s)) m'))))"

section \<open>RAKP messages 1 and 2\<close>

definition rakp2_error :: "RAKP_ReturnCode \<Rightarrow> byte list" where
  "rakp2_error code = (replicate 40 0)[1 := rakp_code code]"

definition isChannelAccessModeEnabled :: "byte \<Rightarrow> bool" where
  "isChannelAccessModeEnabled accessMode \<longleftrightarrow> accessMode \<noteq> 0"

definition min_privilege :: "session \<Rightarrow> byte" where
  "min_privilege s =
     (if ca_privLimit (ses_channelAccess s) < pa_privilege (ses_userPrivAccess s)
      then ca_privLimit (ses_channelAccess s) else pa_privilege (ses_userPrivAccess s))"

text \<open>
  The part of \<open>RAKP12\<close> from the user name to the privilege: the password, or the code of the error.
\<close>

definition rakp12_access :: "lan_env \<Rightarrow> byte \<Rightarrow> byte \<Rightarrow> session \<Rightarrow> bool \<times> session" where
  "rakp12_access env userId chNum s =
     (let (cc, pa) = env_userGetPrivilegeAccess env userId chNum (ses_userPrivAccess s);
          s1 = s\<lparr>ses_userPrivAccess := pa\<rparr>
      in if cc \<noteq> IPMI_CC_OK then (False, s1)
         else
           (let (cc', ca) = env_getChannelAccessData env chNum (ses_channelAccess s1)
            in (cc' = IPMI_CC_OK, s1\<lparr>ses_channelAccess := ca\<rparr>)))"

definition rakp12_privilege :: "byte \<Rightarrow> byte \<Rightarrow> byte \<Rightarrow> session \<Rightarrow> (RAKP_ReturnCode + unit) \<times> session" where
  "rakp12_privilege req userId chNum s =
     (let s1 = s\<lparr>ses_info := (ses_info s)\<lparr>si_channelNum := chNum, si_userID := userId\<rparr>\<rparr>;
          s2 = (if ses_currentPrivilege s1 > min_privilege s1 then set_currentPrivilege (min_privilege s1) s1 else s1)
      in if req AND 0x10 = 0 \<and> req AND reqMaxPrivMask \<noteq> pa_privilege (ses_userPrivAccess s2)
         then (Inl UNAUTH_NAME, s2) else (Inr (), s2))"

definition rakp12_user :: "lan_env \<Rightarrow> byte \<Rightarrow> byte list \<Rightarrow> session \<Rightarrow> (RAKP_ReturnCode + byte list) \<times> session" where
  "rakp12_user env req name s =
     (if name = [] then (Inl UNAUTH_NAME, s)
      else
        (let userId = env_userGetUserId env name; passwd = env_userGetPassword env name
         in if userId = invalidUserId then (Inl UNAUTH_NAME, s)
            else if \<not> env_userCheckEnabled env userId then (Inl INACTIVE_ROLE, s)
            else if passwd = [] then (Inl UNAUTH_NAME, s)
            else if \<not> env_userPamAuthenticate env name passwd then (Inl UNAUTH_NAME, s)
            else
              (case rakp12_access env userId (env_interfaceIndex env) s of
                 (False, s1) \<Rightarrow> (Inl INACTIVE_ROLE, s1)
               | (True, s1) \<Rightarrow>
                   if \<not> isChannelAccessModeEnabled (ca_accessMode (ses_channelAccess s1)) then (Inl INACTIVE_ROLE, s1)
                   else if pa_privilege (ses_userPrivAccess s1) > Priv_OEM then (Inl INACTIVE_ROLE, s1)
                   else
                     (case rakp12_privilege req userId (env_interfaceIndex env) s1 of
                        (Inl code, s2) \<Rightarrow> (Inl code, s2)
                      | (Inr _, s2) \<Rightarrow> (Inr passwd, s2)))))"

text \<open>The key of the user: 20 bytes, filled from the password without a check of its length.\<close>

definition user_key :: "byte list \<Rightarrow> byte list res" where
  "user_key passwd = (if length passwd \<le> 20 then Inr (passwd @ replicate (20 - length passwd) 0) else Inl Out_Of_Bounds)"

definition rakp2_input :: "lan_env \<Rightarrow> session \<Rightarrow> byte list \<Rightarrow> byte list \<Rightarrow> byte \<Rightarrow> byte list" where
  "rakp2_input env s rc bmc req =
     id_bytes (ses_remoteConsoleSessionID s) @ id_bytes (ses_bmcSessionID s) @ rc @ bmc @ env_guid env @
     [req, of_nat (length (ses_userName s))] @ ses_userName s"

definition set_authAlgo :: "auth_algo \<Rightarrow> session \<Rightarrow> session" where
  "set_authAlgo aa s = s\<lparr>ses_authAlgo := Some aa\<rparr>"

text \<open>\<open>RAKP12\<close> once the session is found and the name has a valid length.\<close>

definition rakp12_session :: "lan_env \<Rightarrow> int \<Rightarrow> byte list option \<Rightarrow> byte list \<Rightarrow> session \<Rightarrow> byte list res \<times> session" where
  "rakp12_session env now rnd p s0 =
     (let name = drop 28 p; req = p ! 24; rc = take 16 (drop 8 p);
          s1 = updateLastTransactionTime now (s0\<lparr>ses_userName := name\<rparr>)
      in case getAuthAlgo s1 of
           Inl e \<Rightarrow> (Inl e, s1)
         | Inr aa \<Rightarrow>
             (let aa1 = aa\<lparr>aa_rcRandomNum := Some rc\<rparr>; s2 = set_authAlgo aa1 s1
              in case rnd of
                   None \<Rightarrow> (Inr (rakp2_error INSUFFICIENT_RESOURCE), s2)
                 | Some bmc \<Rightarrow>
                     if \<not> (req AND reqMaxPrivMask > Priv_CALLBACK) then (Inr (rakp2_error UNAUTH_ROLE_PRIV), s2)
                     else
                       (let s3 = (set_currentPrivilege Priv_USER s2)\<lparr>ses_reqMaxPrivLevel := req\<rparr>
                        in case rakp12_user env req name s3 of
                             (Inl code, s4) \<Rightarrow> (Inr (rakp2_error code), s4)
                           | (Inr passwd, s4) \<Rightarrow>
                               (case user_key passwd of
                                  Inl e \<Rightarrow> (Inl e, s4)
                                | Inr key \<Rightarrow>
                                    (let aa2 = aa1\<lparr>aa_userKey := key, aa_bmcRandomNum := Some bmc\<rparr>;
                                         out = auth_hmac (env_crypto env) aa2 (rakp2_input env s4 rc bmc req)
                                     in (Inr ([p ! 0, rakp_code NO_ERROR, 0, 0] @ id_bytes (ses_remoteConsoleSessionID s4) @
                                               bmc @ env_guid env @ out),
                                         set_authAlgo aa2 s4))))))"

text \<open>A session's operation run on the object that an id refers to.\<close>

definition run_on :: "nat \<Rightarrow> (session \<Rightarrow> 'a \<times> session) \<Rightarrow> manager \<Rightarrow> 'a \<times> manager" where
  "run_on r f m = (fst (f (obj m r)), upd_obj r (\<lambda>s. snd (f s)) m)"

definition RAKP12 :: "lan_env \<Rightarrow> int \<Rightarrow> byte list option \<Rightarrow> byte list \<Rightarrow> manager \<Rightarrow> byte list res \<times> manager" where
  "RAKP12 env now rnd p m =
     (if length p < 28 then (Inr [IPMI_CC_REQ_DATA_LEN_INVALID], m)
      else
        (let sid = of_nat (le_val (take 4 (drop 4 p)))
         in if sid = 0 then (Inr (rakp2_error INVALID_SESSION_ID), m)
            else case getSession sid BMC_SESSION_ID m of
                   Inl e \<Rightarrow> (Inr (rakp2_error INVALID_SESSION_ID), m)
                 | Inr r \<Rightarrow>
                     if unat (p ! 27) > 16 \<or> length p \<noteq> 28 + unat (p ! 27)
                     then (Inr (rakp2_error INVALID_NAME_LENGTH), m)
                     else run_on r (rakp12_session env now rnd p) m))"

section \<open>RAKP messages 3 and 4\<close>

definition rakp4 :: "byte \<Rightarrow> RAKP_ReturnCode \<Rightarrow> 32 word \<Rightarrow> byte list" where
  "rakp4 tag code rc = [tag, rakp_code code, 0, 0] @ id_bytes rc"

definition rakp4_error :: "RAKP_ReturnCode \<Rightarrow> byte list" where
  "rakp4_error code = (replicate 8 0)[1 := rakp_code code]"

definition rakp3_tail :: "session \<Rightarrow> byte list" where
  "rakp3_tail s = [ses_reqMaxPrivLevel s, of_nat (length (ses_userName s))] @ ses_userName s"

definition rakp3_input :: "session \<Rightarrow> byte list \<Rightarrow> byte list" where
  "rakp3_input s bmc = bmc @ id_bytes (ses_remoteConsoleSessionID s) @ rakp3_tail s"

definition applyIntegrityAlgo :: "crypto \<Rightarrow> session \<Rightarrow> unit res \<times> session" where
  "applyIntegrityAlgo c s =
     (case getAuthAlgo s of
        Inl e \<Rightarrow> (Inl e, s)
      | Inr aa \<Rightarrow>
          (let set_algo = (\<lambda>dg. case new_integrity_algo c dg (aa_sessionIntegrityKey aa) of
                 Inl e \<Rightarrow> (Inl e, s)
               | Inr ia \<Rightarrow> (Inr (), s\<lparr>ses_integrityAlgo := Some ia\<rparr>))
           in if aa_intAlgo aa = 1 then set_algo SHA1
              else if aa_intAlgo aa = 4 then set_algo SHA256
              else (Inr (), s)))"

definition applyCryptAlgo :: "crypto \<Rightarrow> session \<Rightarrow> unit res \<times> session" where
  "applyCryptAlgo c s =
     (case getAuthAlgo s of
        Inl e \<Rightarrow> (Inl e, s)
      | Inr aa \<Rightarrow>
          if aa_cryptAlgo aa = 1 then
            (case rbind (getIntegrityAlgo s) (\<lambda>ia. generateKn c (ia_digest ia) (aa_sessionIntegrityKey aa) const_2) of
               Inl e \<Rightarrow> (Inl e, s)
             | Inr k2 \<Rightarrow> (Inr (), s\<lparr>ses_cryptAlgo := Some k2\<rparr>))
          else (Inr (), s))"

text \<open>
  What \<open>RAKP34\<close> does once the code of the remote console matches: the session integrity key in front
  of the old one, the integrity check value, the algorithms, and the session is active. The reply is
  the integrity check value.
\<close>

definition rakp34_activate :: "lan_env \<Rightarrow> auth_algo \<Rightarrow> byte list \<Rightarrow> byte list \<Rightarrow> session \<Rightarrow> byte list res \<times> session" where
  "rakp34_activate env aa rc bmc s =
     (let c = env_crypto env;
          sik = auth_hmac c aa (rc @ bmc @ rakp3_tail s);
          aa1 = aa\<lparr>aa_sessionIntegrityKey := sik @ aa_sessionIntegrityKey aa\<rparr>;
          s1 = set_authAlgo aa1 s
      in case generateICV c aa1 (rc @ id_bytes (ses_bmcSessionID s) @ env_guid env) of
           Inl e \<Rightarrow> (Inl e, s1)
         | Inr icv \<Rightarrow>
             (case applyIntegrityAlgo c s1 of
                (Inl e, s2) \<Rightarrow> (Inl e, s2)
              | (Inr _, s2) \<Rightarrow>
                  (case applyCryptAlgo c s2 of
                     (Inl e, s3) \<Rightarrow> (Inl e, s3)
                   | (Inr _, s3) \<Rightarrow> (Inr icv, set_state State_active s3))))"

definition RAKP34 :: "lan_env \<Rightarrow> int \<Rightarrow> byte list \<Rightarrow> manager \<Rightarrow> byte list res \<times> manager" where
  "RAKP34 env now p m =
     (if length p < 8 then (Inr (rakp4_error INVALID_INTEGRITY_VALUE), m)
      else
        (let sid = of_nat (le_val (take 4 (drop 4 p)))
         in if sid = 0 then (Inr (rakp4_error INVALID_SESSION_ID), m)
            else case getSession sid BMC_SESSION_ID m of
              Inl e \<Rightarrow> (Inr (rakp4_error INVALID_SESSION_ID), m)
            | Inr r \<Rightarrow>
                (let m1 = upd_obj r (updateLastTransactionTime now) m; s = obj m1 r
                 in case getAuthAlgo s of
                      Inl e \<Rightarrow> (Inl e, m1)
                    | Inr aa \<Rightarrow>
                        (case aa_bmcRandomNum aa of
                           None \<Rightarrow> (Inl Uninit_Read, m1)
                         | Some bmc \<Rightarrow>
                             (let out = auth_hmac (env_crypto env) aa (rakp3_input s bmc)
                              in if length p \<noteq> 8 + length out \<or> drop 8 p \<noteq> out
                                 then (Inr (rakp4 (p ! 0) INVALID_INTEGRITY_VALUE (ses_remoteConsoleSessionID s)),
                                       snd (stopSession (ses_bmcSessionID s) m1))
                                 else
                                   (case aa_rcRandomNum aa of
                                      None \<Rightarrow> (Inl Uninit_Read, m1)
                                    | Some rc \<Rightarrow>
                                        (case run_on r (rakp34_activate env aa rc bmc) m1 of
                                           (Inl e, m2) \<Rightarrow> (Inl e, m2)
                                         | (Inr icv, m2) \<Rightarrow>
                                             (Inr (rakp4 (p ! 0) NO_ERROR (ses_remoteConsoleSessionID s) @ icv), m2))))))))"

section \<open>Commands on sessions\<close>

definition setSessionPrivilegeLevel :: "byte list \<Rightarrow> 32 word \<Rightarrow> manager \<Rightarrow> byte list res \<times> manager" where
  "setSessionPrivilegeLevel p sessionID m =
     (if length p \<noteq> 1 then (Inr [IPMI_CC_REQ_DATA_LEN_INVALID], m)
      else if p ! 0 AND 0xF0 \<noteq> 0 then (Inr [IPMI_CC_INVALID_FIELD_REQUEST], m)
      else
        (let req = p ! 0 AND 0xF
         in case getSession sessionID BMC_SESSION_ID m of
              Inl e \<Rightarrow> (Inl e, m)
            | Inr r \<Rightarrow>
                (let s = obj m r
                 in if req = 0 then (Inr [IPMI_CC_OK, ses_currentPrivilege s AND 0xF], m)
                    else if req = Priv_CALLBACK \<or> req > Priv_OEM then (Inr [IPMI_CC_INVALID_FIELD_REQUEST, 0], m)
                    else if req > ses_reqMaxPrivLevel s AND reqMaxPrivMask then (Inr [IPMI_CC_EXCEEDS_USER_PRIV, 0], m)
                    else if req > min_privilege s then (Inr [IPMI_CC_EXCEEDS_USER_PRIV, 0], m)
                    else (Inr [IPMI_CC_OK, req], upd_obj r (set_currentPrivilege req) m))))"

definition closeMyNetInstanceSession :: "32 word \<Rightarrow> byte \<Rightarrow> byte \<Rightarrow> manager \<Rightarrow> byte \<times> manager" where
  "closeMyNetInstanceSession reqSessionId reqSessionHandle currentSessionPriv m =
     (let sid = (if reqSessionId = 0
                 then getSessionIDbyHandle (unat (reqSessionHandle AND multiIntfaceSessionHandleMask)) m
                 else reqSessionId)
      in if reqSessionId = 0 \<and> sid = 0 then (ccInvalidSessionHandle, m)
         else case getSession sid BMC_SESSION_ID m of
                Inl e \<Rightarrow> (ccInvalidSessionId, m)
              | Inr r \<Rightarrow>
                  if currentSessionPriv < ses_currentPrivilege (obj m r) then (IPMI_CC_INSUFFICIENT_PRIVILEGE, m)
                  else (case stopSession sid m of
                          (True, m') \<Rightarrow> (IPMI_CC_OK, m')
                        | (False, m') \<Rightarrow> (ccInvalidSessionId, m')))"

definition closeSession :: "lan_env \<Rightarrow> int \<Rightarrow> byte list \<Rightarrow> 32 word \<Rightarrow> manager \<Rightarrow> byte list res \<times> manager" where
  "closeSession env now p sessionID m =
     (if length p \<noteq> 4 \<and> length p \<noteq> 5 then (Inr [IPMI_CC_REQ_DATA_LEN_INVALID], m)
      else
        (let reqSessionId = of_nat (le_val (take 4 p)) :: 32 word;
             reqSessionHandle = (if length p = 5 then p ! 4 else 0)
         in if reqSessionId = 0 \<and> reqSessionHandle = 0 then (Inr [ccInvalidSessionHandle], m)
            else if length p = 4 \<and> reqSessionId = 0 then (Inr [ccInvalidSessionId], m)
            else if reqSessionId \<noteq> 0 \<and> length p \<noteq> 4 then (Inr [IPMI_CC_INVALID_FIELD_REQUEST], m)
            else case getSession sessionID BMC_SESSION_ID m of
                   Inl e \<Rightarrow> (Inl e, m)
                 | Inr r \<Rightarrow>
                     (let inst = getNetworkInstance m; priv = ses_currentPrivilege (obj m r)
                      in if drop_bit 30 reqSessionId = ucast inst \<or>
                            reqSessionId = 0 \<and> drop_bit 6 reqSessionHandle = inst
                         then (case closeMyNetInstanceSession reqSessionId reqSessionHandle priv m of
                                 (cc, m') \<Rightarrow> (Inr [cc], scheduleSessionCleaner now 100 m'))
                         else (Inr [env_closeOther env reqSessionId reqSessionHandle priv], m))))"

section \<open>What the operations keep of a session\<close>

text \<open>
  The identity of a session is its ids and its handle. \<open>keeps f\<close>: an operation on a session object
  keeps it. A session is in order (\<open>session_ok\<close>) if its algorithms are the ones supported, if it is
  active only with its keys in place, and if its privilege is above \<open>USER\<close> only within the limits of
  user and channel.
\<close>

definition same_identity :: "session \<Rightarrow> session \<Rightarrow> bool" where
  "same_identity s t \<longleftrightarrow> ses_bmcSessionID t = ses_bmcSessionID s \<and>
     ses_remoteConsoleSessionID t = ses_remoteConsoleSessionID s \<and>
     si_sessionHandle (ses_info t) = si_sessionHandle (ses_info s)"

definition auth_ok :: "auth_algo \<Rightarrow> bool" where
  "auth_ok aa \<longleftrightarrow> aa_digest aa = SHA256 \<and> aa_intAlgo aa = 4 \<and> aa_cryptAlgo aa = 1 \<and> length (aa_userKey aa) = 20"

definition session_ok :: "session \<Rightarrow> bool" where
  "session_ok s \<longleftrightarrow> (\<forall>aa. ses_authAlgo s = Some aa \<longrightarrow> auth_ok aa) \<and>
     (ses_state s = State_active \<longrightarrow>
        ses_authAlgo s \<noteq> None \<and> ses_integrityAlgo s \<noteq> None \<and> ses_cryptAlgo s \<noteq> None) \<and>
     (ses_currentPrivilege s \<le> Priv_USER \<or> ses_currentPrivilege s \<le> min_privilege s)"

definition lan_ok :: "manager \<Rightarrow> bool" where
  "lan_ok m \<longleftrightarrow> mgr_ok m \<and> (\<forall>s \<in> set (mgr_objs m). session_ok s)"

lemma session_fields [simp]:
  "ses_state (updateLastTransactionTime t s) = ses_state s" "ses_state (set_state st s) = st"
  "ses_state (set_currentPrivilege q s) = ses_state s" "ses_state (set_authAlgo aa s) = ses_state s"
  "ses_currentPrivilege (updateLastTransactionTime t s) = ses_currentPrivilege s"
  "ses_currentPrivilege (set_state st s) = ses_currentPrivilege s"
  "ses_currentPrivilege (set_currentPrivilege q s) = q" "ses_currentPrivilege (set_authAlgo aa s) = ses_currentPrivilege s"
  "ses_authAlgo (updateLastTransactionTime t s) = ses_authAlgo s" "ses_authAlgo (set_state st s) = ses_authAlgo s"
  "ses_authAlgo (set_currentPrivilege q s) = ses_authAlgo s" "ses_authAlgo (set_authAlgo aa s) = Some aa"
  "ses_userName (updateLastTransactionTime t s) = ses_userName s" "ses_userName (set_state st s) = ses_userName s"
  "ses_userName (set_currentPrivilege q s) = ses_userName s" "ses_userName (set_authAlgo aa s) = ses_userName s"
  "ses_userPrivAccess (updateLastTransactionTime t s) = ses_userPrivAccess s" "ses_userPrivAccess (set_state st s) = ses_userPrivAccess s"
  "ses_userPrivAccess (set_currentPrivilege q s) = ses_userPrivAccess s" "ses_userPrivAccess (set_authAlgo aa s) = ses_userPrivAccess s"
  "ses_channelAccess (updateLastTransactionTime t s) = ses_channelAccess s" "ses_channelAccess (set_state st s) = ses_channelAccess s"
  "ses_channelAccess (set_currentPrivilege q s) = ses_channelAccess s" "ses_channelAccess (set_authAlgo aa s) = ses_channelAccess s"
  by (simp_all add: ses_state_def ses_currentPrivilege_def set_state_def set_currentPrivilege_def
      updateLastTransactionTime_def set_authAlgo_def)

lemma session_fields' [simp]:
  "ses_integrityAlgo (updateLastTransactionTime t s) = ses_integrityAlgo s" "ses_integrityAlgo (set_state st s) = ses_integrityAlgo s"
  "ses_integrityAlgo (set_currentPrivilege q s) = ses_integrityAlgo s" "ses_integrityAlgo (set_authAlgo aa s) = ses_integrityAlgo s"
  "ses_cryptAlgo (updateLastTransactionTime t s) = ses_cryptAlgo s" "ses_cryptAlgo (set_state st s) = ses_cryptAlgo s"
  "ses_cryptAlgo (set_currentPrivilege q s) = ses_cryptAlgo s" "ses_cryptAlgo (set_authAlgo aa s) = ses_cryptAlgo s"
  "ses_bmcSessionID (updateLastTransactionTime t s) = ses_bmcSessionID s" "ses_bmcSessionID (set_state st s) = ses_bmcSessionID s"
  "ses_bmcSessionID (set_currentPrivilege q s) = ses_bmcSessionID s" "ses_bmcSessionID (set_authAlgo aa s) = ses_bmcSessionID s"
  "ses_remoteConsoleSessionID (updateLastTransactionTime t s) = ses_remoteConsoleSessionID s"
  "ses_remoteConsoleSessionID (set_state st s) = ses_remoteConsoleSessionID s"
  "ses_remoteConsoleSessionID (set_currentPrivilege q s) = ses_remoteConsoleSessionID s"
  "ses_remoteConsoleSessionID (set_authAlgo aa s) = ses_remoteConsoleSessionID s"
  "ses_reqMaxPrivLevel (updateLastTransactionTime t s) = ses_reqMaxPrivLevel s" "ses_reqMaxPrivLevel (set_state st s) = ses_reqMaxPrivLevel s"
  "ses_reqMaxPrivLevel (set_currentPrivilege q s) = ses_reqMaxPrivLevel s" "ses_reqMaxPrivLevel (set_authAlgo aa s) = ses_reqMaxPrivLevel s"
  "ses_sequenceNums (updateLastTransactionTime t s) = ses_sequenceNums s"
  "ses_sequenceNums (set_state st s) = ses_sequenceNums s" "ses_sequenceNums (set_authAlgo aa s) = ses_sequenceNums s"
  "ses_info (updateLastTransactionTime t s) = ses_info s" "ses_info (set_authAlgo aa s) = ses_info s"
  "si_sessionHandle (ses_info (set_state st s)) = si_sessionHandle (ses_info s)"
  "si_sessionHandle (ses_info (set_currentPrivilege q s)) = si_sessionHandle (ses_info s)"
  by (simp_all add: set_state_def set_currentPrivilege_def updateLastTransactionTime_def set_authAlgo_def)

lemma min_privilege_fields [simp]:
  "min_privilege (updateLastTransactionTime t s) = min_privilege s" "min_privilege (set_state st s) = min_privilege s"
  "min_privilege (set_currentPrivilege q s) = min_privilege s" "min_privilege (set_authAlgo aa s) = min_privilege s"
  "min_privilege (s\<lparr>ses_info := i\<rparr>) = min_privilege s"
  "min_privilege (s\<lparr>ses_userName := n\<rparr>) = min_privilege s" "min_privilege (s\<lparr>ses_reqMaxPrivLevel := q\<rparr>) = min_privilege s"
  by (simp_all add: min_privilege_def)

lemma updated_state [simp]:
  "ses_state (s\<lparr>ses_userName := n\<rparr>) = ses_state s" "ses_currentPrivilege (s\<lparr>ses_userName := n\<rparr>) = ses_currentPrivilege s"
  "ses_state (s\<lparr>ses_reqMaxPrivLevel := q\<rparr>) = ses_state s"
  "ses_currentPrivilege (s\<lparr>ses_reqMaxPrivLevel := q\<rparr>) = ses_currentPrivilege s"
  "ses_state (s\<lparr>ses_userPrivAccess := pa\<rparr>) = ses_state s"
  "ses_currentPrivilege (s\<lparr>ses_userPrivAccess := pa\<rparr>) = ses_currentPrivilege s"
  "ses_state (s\<lparr>ses_channelAccess := ca\<rparr>) = ses_state s"
  "ses_currentPrivilege (s\<lparr>ses_channelAccess := ca\<rparr>) = ses_currentPrivilege s"
  "ses_state (s\<lparr>ses_integrityAlgo := x\<rparr>) = ses_state s" "ses_currentPrivilege (s\<lparr>ses_integrityAlgo := x\<rparr>) = ses_currentPrivilege s"
  "ses_state (s\<lparr>ses_cryptAlgo := y\<rparr>) = ses_state s" "ses_currentPrivilege (s\<lparr>ses_cryptAlgo := y\<rparr>) = ses_currentPrivilege s"
  "ses_state (s\<lparr>ses_sequenceNums := z\<rparr>) = ses_state s" "ses_currentPrivilege (s\<lparr>ses_sequenceNums := z\<rparr>) = ses_currentPrivilege s"
  by (simp_all add: ses_state_def ses_currentPrivilege_def)

text \<open>The parts of a session that the user lookup leaves alone.\<close>

definition same_keys :: "session \<Rightarrow> session \<Rightarrow> bool" where
  "same_keys s t \<longleftrightarrow> same_identity s t \<and> ses_state t = ses_state s \<and> ses_authAlgo t = ses_authAlgo s \<and>
     ses_integrityAlgo t = ses_integrityAlgo s \<and> ses_cryptAlgo t = ses_cryptAlgo s \<and>
     ses_userName t = ses_userName s \<and> ses_reqMaxPrivLevel t = ses_reqMaxPrivLevel s"

lemma same_keys_trans: "same_keys s t \<Longrightarrow> same_keys t u \<Longrightarrow> same_keys s u"
  by (simp add: same_keys_def same_identity_def)

lemma same_identity_trans: "same_identity s t \<Longrightarrow> same_identity t u \<Longrightarrow> same_identity s u"
  by (simp add: same_identity_def)

lemma same_identity_refl [simp]: "same_identity s s"
  by (simp add: same_identity_def)

lemma rakp12_access_frame:
  "same_keys s (snd (rakp12_access env u ch s)) \<and> ses_currentPrivilege (snd (rakp12_access env u ch s)) = ses_currentPrivilege s"
  by (simp add: rakp12_access_def Let_def same_keys_def same_identity_def split: prod.split)

lemma rakp12_privilege_frame:
  "same_keys s (snd (rakp12_privilege req u ch s)) \<and>
     ses_currentPrivilege (snd (rakp12_privilege req u ch s)) \<le> ses_currentPrivilege s"
  by (auto simp: rakp12_privilege_def Let_def same_keys_def same_identity_def ses_currentPrivilege_def ses_state_def
      set_currentPrivilege_def min_privilege_def)

lemma rakp12_user_frame:
  "same_keys s (snd (rakp12_user env req name s)) \<and>
     ses_currentPrivilege (snd (rakp12_user env req name s)) \<le> ses_currentPrivilege s"
proof -
  have r: "same_keys s s" by (simp add: same_keys_def)
  obtain ok s1 where a: "rakp12_access env (env_userGetUserId env name) (env_interfaceIndex env) s = (ok, s1)"
    by fastforce
  obtain c s2 where p: "rakp12_privilege req (env_userGetUserId env name) (env_interfaceIndex env) s1 = (c, s2)"
    by fastforce
  have 1: "same_keys s s1" "ses_currentPrivilege s1 = ses_currentPrivilege s"
    using rakp12_access_frame [of s env "env_userGetUserId env name" "env_interfaceIndex env"] by (simp_all add: a)
  have 2: "same_keys s1 s2" "ses_currentPrivilege s2 \<le> ses_currentPrivilege s1"
    using rakp12_privilege_frame [of s1 req "env_userGetUserId env name" "env_interfaceIndex env"] by (simp_all add: p)
  show ?thesis
    using r 1 2 same_keys_trans [OF 1(1) 2(1)]
    by (auto simp: rakp12_user_def Let_def a p split: bool.splits sum.splits)
qed

lemma same_identity_simps [simp]:
  "same_identity s (updateLastTransactionTime t s') = same_identity s s'" "same_identity s (set_state st s') = same_identity s s'"
  "same_identity s (set_currentPrivilege q s') = same_identity s s'" "same_identity s (set_authAlgo aa s') = same_identity s s'"
  "same_identity s (s'\<lparr>ses_userName := n\<rparr>) = same_identity s s'" "same_identity s (s'\<lparr>ses_reqMaxPrivLevel := q\<rparr>) = same_identity s s'"
  "same_identity s (s'\<lparr>ses_integrityAlgo := ia\<rparr>) = same_identity s s'" "same_identity s (s'\<lparr>ses_cryptAlgo := k\<rparr>) = same_identity s s'"
  by (simp_all add: same_identity_def)

lemma user_key_length: "user_key pw = Inr key \<Longrightarrow> length key = 20"
  by (auto simp: user_key_def split: if_splits)

lemma min_privilege_keys [simp]:
  "min_privilege (s\<lparr>ses_integrityAlgo := x\<rparr>) = min_privilege s" "min_privilege (s\<lparr>ses_cryptAlgo := y\<rparr>) = min_privilege s"
  "min_privilege (s\<lparr>ses_sequenceNums := z\<rparr>) = min_privilege s"
  by (simp_all add: min_privilege_def)

lemma session_ok_low:
  assumes "session_ok s" "ses_state t = ses_state s" "ses_integrityAlgo t = ses_integrityAlgo s"
    and "ses_cryptAlgo t = ses_cryptAlgo s" "ses_currentPrivilege t \<le> Priv_USER"
    and "ses_authAlgo t = Some aa" "auth_ok aa"
  shows "session_ok t"
  using assms by (simp add: session_ok_def)

lemma rakp12_session_keeps:
  assumes "session_ok s"
  shows "session_ok (snd (rakp12_session env now rnd p s)) \<and> same_identity s (snd (rakp12_session env now rnd p s)) \<and>
     ses_state (snd (rakp12_session env now rnd p s)) = ses_state s"
proof (cases "ses_authAlgo s")
  case None
  with assms show ?thesis
    by (simp add: rakp12_session_def Let_def getAuthAlgo_def session_ok_def)
next
  case (Some aa)
  let ?s1 = "updateLastTransactionTime now (s\<lparr>ses_userName := drop 28 p\<rparr>)"
  let ?aa = "aa\<lparr>aa_rcRandomNum := Some (take 16 (drop 8 p))\<rparr>"
  let ?s2 = "set_authAlgo ?aa ?s1"
  let ?s3 = "(set_currentPrivilege Priv_USER ?s2)\<lparr>ses_reqMaxPrivLevel := p ! 24\<rparr>"
  have aa: "auth_ok ?aa" using assms Some by (simp add: session_ok_def auth_ok_def)
  have ok2: "session_ok ?s2" using assms aa Some by (auto simp: session_ok_def)
  obtain u s4 where u: "rakp12_user env (p ! 24) (drop 28 p) ?s3 = (u, s4)" by fastforce
  have k: "same_keys ?s3 s4" "ses_currentPrivilege s4 \<le> Priv_USER"
    using rakp12_user_frame [of ?s3 env "p ! 24" "drop 28 p"] by (simp_all add: u)
  have s4: "same_identity s s4" "ses_state s4 = ses_state s" "ses_authAlgo s4 = Some ?aa"
      "ses_integrityAlgo s4 = ses_integrityAlgo s" "ses_cryptAlgo s4 = ses_cryptAlgo s"
    using k(1) by (auto simp: same_keys_def intro: same_identity_trans [of s ?s3])
  have ok4: "session_ok s4" using session_ok_low [OF assms s4(2,4,5) k(2) s4(3) aa] .
  have ok5: "session_ok (set_authAlgo (?aa\<lparr>aa_userKey := key, aa_bmcRandomNum := Some b\<rparr>) s4)"
    if "length key = 20" for key b
    by (rule session_ok_low [OF assms, where aa = "?aa\<lparr>aa_userKey := key, aa_bmcRandomNum := Some b\<rparr>"])
      (use that aa s4 k(2) in \<open>simp_all add: auth_ok_def\<close>)
  show ?thesis
  proof (cases rnd)
    case (Some b)
    show ?thesis
    proof (cases "p ! 24 AND reqMaxPrivMask > Priv_CALLBACK")
      case True
      show ?thesis
        using \<open>ses_authAlgo s = Some aa\<close> Some True ok4 s4 ok5 user_key_length
        by (auto simp: rakp12_session_def Let_def getAuthAlgo_def u split: sum.splits)
    qed (use \<open>ses_authAlgo s = Some aa\<close> Some ok2 in \<open>simp add: rakp12_session_def Let_def getAuthAlgo_def\<close>)
  qed (use \<open>ses_authAlgo s = Some aa\<close> ok2 in \<open>simp add: rakp12_session_def Let_def getAuthAlgo_def\<close>)
qed

lemma applyIntegrityAlgo_keeps:
  assumes "session_ok s" "ses_state s \<noteq> State_active \<or> ses_integrityAlgo s \<noteq> None"
  shows "session_ok (snd (applyIntegrityAlgo c s)) \<and> same_identity s (snd (applyIntegrityAlgo c s)) \<and>
     ses_state (snd (applyIntegrityAlgo c s)) = ses_state s \<and> ses_authAlgo (snd (applyIntegrityAlgo c s)) = ses_authAlgo s \<and>
     ses_cryptAlgo (snd (applyIntegrityAlgo c s)) = ses_cryptAlgo s"
  using assms
  by (auto simp: applyIntegrityAlgo_def getAuthAlgo_def Let_def session_ok_def
      split: sum.splits option.splits)

lemma applyCryptAlgo_keeps:
  assumes "session_ok s"
  shows "session_ok (snd (applyCryptAlgo c s)) \<and> same_identity s (snd (applyCryptAlgo c s)) \<and>
     ses_state (snd (applyCryptAlgo c s)) = ses_state s \<and> ses_authAlgo (snd (applyCryptAlgo c s)) = ses_authAlgo s \<and>
     ses_integrityAlgo (snd (applyCryptAlgo c s)) = ses_integrityAlgo s"
  using assms
  by (auto simp: applyCryptAlgo_def getAuthAlgo_def Let_def session_ok_def
      split: sum.splits option.splits)

lemma applyIntegrityAlgo_done:
  assumes "applyIntegrityAlgo c s = (Inr u, s')" "ses_authAlgo s = Some aa" "auth_ok aa"
  shows "\<exists>ia. ses_integrityAlgo s' = Some ia \<and> new_integrity_algo c SHA256 (aa_sessionIntegrityKey aa) = Inr ia"
  using assms by (auto simp: applyIntegrityAlgo_def getAuthAlgo_def auth_ok_def Let_def split: sum.splits)

lemma applyCryptAlgo_done:
  assumes "applyCryptAlgo c s = (Inr u, s')" "ses_authAlgo s = Some aa" "auth_ok aa"
  shows "ses_cryptAlgo s' \<noteq> None"
  using assms by (auto simp: applyCryptAlgo_def getAuthAlgo_def auth_ok_def Let_def split: sum.splits)

lemma rakp34_activate_keeps:
  assumes "session_ok s" "ses_authAlgo s = Some aa"
  shows "session_ok (snd (rakp34_activate env aa rc bmc s)) \<and> same_identity s (snd (rakp34_activate env aa rc bmc s)) \<and>
     (ses_state (snd (rakp34_activate env aa rc bmc s)) = State_active \<or>
      ses_state (snd (rakp34_activate env aa rc bmc s)) = ses_state s)"
proof -
  let ?c = "env_crypto env"
  let ?aa = "aa\<lparr>aa_sessionIntegrityKey := auth_hmac ?c aa (rc @ bmc @ rakp3_tail s) @ aa_sessionIntegrityKey aa\<rparr>"
  let ?s1 = "set_authAlgo ?aa s"
  have aa: "auth_ok ?aa" using assms by (simp add: session_ok_def auth_ok_def)
  have ok1: "session_ok ?s1" "ses_state ?s1 \<noteq> State_active \<or> ses_integrityAlgo ?s1 \<noteq> None"
    using assms aa by (auto simp: session_ok_def)
  obtain x s2 where a: "applyIntegrityAlgo ?c ?s1 = (x, s2)" by fastforce
  obtain y s3 where b: "applyCryptAlgo ?c s2 = (y, s3)" by fastforce
  have k2: "session_ok s2" "same_identity s s2" "ses_state s2 = ses_state s" "ses_authAlgo s2 = Some ?aa"
    using applyIntegrityAlgo_keeps [OF ok1, of ?c] by (auto simp: a intro: same_identity_trans [of s ?s1])
  have k3: "session_ok s3" "same_identity s s3" "ses_state s3 = ses_state s" "ses_authAlgo s3 = Some ?aa"
      "ses_integrityAlgo s3 = ses_integrityAlgo s2"
    using applyCryptAlgo_keeps [OF k2(1), of ?c] k2 by (auto simp: b intro: same_identity_trans [of s s2])
  have fin: "session_ok (set_state State_active s3)" if "x = Inr u" "y = Inr v" for u v
    using applyIntegrityAlgo_done [of ?c ?s1 u s2] applyCryptAlgo_done [of ?c s2 v s3] a b that k2 k3 aa
    by (auto simp: session_ok_def)
  show ?thesis
    using ok1(1) k2 k3 fin by (auto simp: rakp34_activate_def Let_def a b split: sum.splits)
qed

section \<open>The invariant of the manager with its sessions\<close>

lemma lan_ok_mgr: "lan_ok m \<Longrightarrow> mgr_ok m"
  by (simp add: lan_ok_def)

lemma lan_ok_obj: "lan_ok m \<Longrightarrow> r < length (mgr_objs m) \<Longrightarrow> session_ok (obj m r)"
  by (simp add: lan_ok_def obj_def)

lemma mgr_ok_upd_same:
  assumes "mgr_ok m" "r < length (mgr_objs m) \<Longrightarrow> same_identity (obj m r) (f (obj m r))"
  shows "mgr_ok (upd_obj r f m)"
proof -
  have "upd_obj r f m = upd_obj r (\<lambda>s. if same_identity s (f s) then f s else s) m"
    using assms(2) by (cases "r < length (mgr_objs m)") (simp_all add: upd_obj_def obj_def list_update_beyond)
  also have "mgr_ok \<dots>" using assms(1) by (rule mgr_ok_upd_obj) (auto simp: same_identity_def)
  finally show ?thesis .
qed

lemma lan_ok_upd_obj:
  assumes "lan_ok m"
    and "r < length (mgr_objs m) \<Longrightarrow> session_ok (obj m r) \<Longrightarrow> session_ok (f (obj m r)) \<and> same_identity (obj m r) (f (obj m r))"
  shows "lan_ok (upd_obj r f m)"
proof -
  have "session_ok s" if "s \<in> set (mgr_objs (upd_obj r f m))" for s
  proof (cases "r < length (mgr_objs m)")
    case True
    have "s \<in> insert (f (obj m r)) (set (mgr_objs m))"
      using that set_update_subset_insert [of "mgr_objs m" r "f (obj m r)"] by (auto simp: upd_obj_def obj_def)
    with assms True show ?thesis by (auto simp: lan_ok_def obj_def)
  qed (use assms(1) that in \<open>auto simp: lan_ok_def upd_obj_def list_update_beyond\<close>)
  moreover have "mgr_ok (upd_obj r f m)"
    using assms lan_ok_obj [OF assms(1), of r] by (intro mgr_ok_upd_same) (auto simp: lan_ok_def)
  ultimately show ?thesis by (simp add: lan_ok_def)
qed

lemma lan_ok_run_on:
  assumes "lan_ok m" "r < length (mgr_objs m) \<Longrightarrow> session_ok (obj m r) \<Longrightarrow>
      session_ok (snd (f (obj m r))) \<and> same_identity (obj m r) (snd (f (obj m r)))"
  shows "lan_ok (snd (run_on r f m))"
  using lan_ok_upd_obj [OF assms(1), of r "\<lambda>s. snd (f s)"] assms(2) by (simp add: run_on_def)

lemma lan_ok_schedule [simp]: "lan_ok (scheduleSessionCleaner now d m) = lan_ok m"
  by (simp add: lan_ok_def)

lemma lan_ok_clean: "lan_ok m \<Longrightarrow> lan_ok (cleanStaleEntries now m)"
  by (simp add: lan_ok_def mgr_ok_clean clean_simps(2))

definition info_ok :: "session_info \<Rightarrow> bool" where
  "info_ok i \<longleftrightarrow> si_state i = State_inactive \<and> si_currentPrivilege i = 0"

lemma session_ok_new:
  assumes "info_ok i" "\<forall>aa. a = Some aa \<longrightarrow> auth_ok aa"
  shows "session_ok ((new_session i rc bmc q)\<lparr>ses_authAlgo := a, ses_info := i\<lparr>si_sessionHandle := h\<rparr>\<rparr>)"
    and "session_ok (new_session i rc bmc q)"
  using assms by (simp_all add: session_ok_def new_session_def info_ok_def ses_state_def ses_currentPrivilege_def)

lemma lan_ok_init: "info_ok info0 \<Longrightarrow> lan_ok (managerInit info0 is_lan own channel now)"
proof -
  assume "info_ok info0"
  moreover have "mgr_objs (managerInit info0 is_lan own channel now) = [new_session info0 0 0 0]"
    by (simp add: managerInit_def)
  ultimately show ?thesis
    using session_ok_new(2) [of info0 None 0 0 0] by (simp add: lan_ok_def mgr_ok_init)
qed

lemma lan_ok_stopSession: "lan_ok m \<Longrightarrow> lan_ok (snd (stopSession k m))"
  by (auto simp: stopSession_def split: option.split intro!: lan_ok_upd_obj simp: session_ok_def)

lemma startSession_lan_ok:
  assumes "lan_ok m" "info_ok info0"
  shows "lan_ok (snd (startSession info0 now rands rc priv 3 4 1 m))"
proof -
  obtain x m' where st: "startSession info0 now rands rc priv 3 4 1 m = (x, m')" by fastforce
  show ?thesis
  proof (cases x)
    case (Inl e)
    have "session_digest 3 \<noteq> None" by (simp add: session_digest_def)
    from startSession_failure [OF lan_ok_mgr [OF assms(1)] st [unfolded Inl] this] assms(1) show ?thesis
      by (simp add: st lan_ok_def)
  next
    case (Inr r)
    from startSession_success [OF lan_ok_mgr [OF assms(1)] st [unfolded Inr]] obtain bmc dg
      where dg: "session_digest 3 = Some dg" and ok: "mgr_ok m'"
        and objs: "mgr_objs m' = mgr_objs m @ [started info0 rc bmc priv (handle_property m' bmc) dg 4 1]" by metis
    have "dg = SHA256" using dg by (simp add: session_digest_def)
    then have "auth_ok (new_auth_algo dg 4 1)" by (simp add: auth_ok_def new_auth_algo_def default_user_key_def)
    then have "session_ok (started info0 rc bmc priv (handle_property m' bmc) dg 4 1)"
      using session_ok_new(1) [OF assms(2)] by (simp add: started_def new_session_def)
    with ok objs assms(1) show ?thesis by (auto simp: st lan_ok_def)
  qed
qed

lemma openSession_lan_ok:
  assumes "lan_ok m" "info_ok (env_info0 env)"
  shows "lan_ok (snd (openSession env now rands p m))"
proof (cases "length p = 32 \<and> algo_field p 12 = 3 \<and> algo_field p 20 = 4 \<and> algo_field p 28 = 1")
  case True
  have s: "lan_ok m'" if "startSession (env_info0 env) now rands rc q 3 4 1 m = (x, m')" for rc q x m'
    using startSession_lan_ok [OF assms, of now rands rc q] that by simp
  have "session_ok (set_state State_setupInProgress (updateLastTransactionTime now s)) \<and>
      same_identity s (set_state State_setupInProgress (updateLastTransactionTime now s))" if "session_ok s" for s
    using that by (simp add: session_ok_def)
  then show ?thesis
    using True by (auto simp: openSession_def Let_def auth_supported_def integrity_supported_def crypt_supported_def
        split: prod.split sum.split intro!: lan_ok_upd_obj dest: s)
qed (use assms(1) in \<open>auto simp: openSession_def Let_def auth_supported_def integrity_supported_def crypt_supported_def\<close>)

lemma mgr_ok_getSession:
  assumes "mgr_ok m" "getSession k BMC_SESSION_ID m = Inr r"
  shows "r < length (mgr_objs m)" "ses_bmcSessionID (obj m r) = k" "map_of (mgr_sessionsMap m) k = Some r"
  using assms mgr_ok_lookup [OF assms(1), of k r] by simp_all

lemma RAKP12_lan_ok:
  assumes "lan_ok m"
  shows "lan_ok (snd (RAKP12 env now rnd p m))"
  using assms rakp12_session_keeps [of _ env now rnd p]
  by (auto simp: RAKP12_def Let_def split: sum.split intro!: lan_ok_run_on)

text \<open>The ways \<open>RAKP34\<close> can go.\<close>

lemma RAKP34_cases:
  assumes "RAKP34 env now p m = (reply, m')"
  obtains (unchanged) "m' = m"
  | (touched) r where "m' = upd_obj r (updateLastTransactionTime now) m"
  | (mismatch) r where "getSession (of_nat (le_val (take 4 (drop 4 p)))) BMC_SESSION_ID m = Inr r"
      "m' = snd (stopSession (ses_bmcSessionID (obj (upd_obj r (updateLastTransactionTime now) m) r))
         (upd_obj r (updateLastTransactionTime now) m))"
  | (match) r s aa rc bmc where "getSession (of_nat (le_val (take 4 (drop 4 p)))) BMC_SESSION_ID m = Inr r"
      "s = obj (upd_obj r (updateLastTransactionTime now) m) r" "ses_authAlgo s = Some aa"
      "aa_bmcRandomNum aa = Some bmc" "aa_rcRandomNum aa = Some rc"
      "drop 8 p = auth_hmac (env_crypto env) aa (rakp3_input s bmc)"
      "m' = snd (run_on r (rakp34_activate env aa rc bmc) (upd_obj r (updateLastTransactionTime now) m))"
proof -
  let ?sid = "of_nat (le_val (take 4 (drop 4 p))) :: 32 word"
  show thesis
  proof (cases "length p < 8 \<or> ?sid = 0 \<or> (\<exists>e. getSession ?sid BMC_SESSION_ID m = Inl e)")
    case True
    then have "m' = m" using assms
      by (cases "length p < 8"; cases "?sid = 0") (auto simp: RAKP34_def Let_def simp del: getSession.simps)
    then show thesis by (rule unchanged)
  next
    case False
    then obtain r where r: "getSession ?sid BMC_SESSION_ID m = Inr r"
      by (cases "getSession ?sid BMC_SESSION_ID m") blast+
    define m1 where "m1 = upd_obj r (updateLastTransactionTime now) m"
    define s where "s = obj m1 r"
    show thesis
    proof (cases "ses_authAlgo s")
      case None
      then have "m' = m1" using assms False r
        by (simp add: RAKP34_def Let_def m1_def [symmetric] s_def [symmetric] getAuthAlgo_def del: getSession.simps)
      then show thesis unfolding m1_def by (rule touched)
    next
      case (Some aa)
      note aa = Some
      show thesis
      proof (cases "aa_bmcRandomNum aa")
        case None
        then have "m' = m1" using assms False r aa
          by (simp add: RAKP34_def Let_def m1_def [symmetric] s_def [symmetric] getAuthAlgo_def del: getSession.simps)
        then show thesis unfolding m1_def by (rule touched)
      next
        case (Some bmc)
        note bmc = Some
        let ?out = "auth_hmac (env_crypto env) aa (rakp3_input s bmc)"
        show thesis
        proof (cases "length p \<noteq> 8 + length ?out \<or> drop 8 p \<noteq> ?out")
          case True
          then have "m' = snd (stopSession (ses_bmcSessionID s) m1)" using assms False r aa bmc
            by (simp add: RAKP34_def Let_def m1_def [symmetric] s_def [symmetric] getAuthAlgo_def del: getSession.simps)
          then show thesis unfolding s_def m1_def by (rule mismatch [OF r])
        next
          case ok: False
          show thesis
          proof (cases "aa_rcRandomNum aa")
            case None
            then have "m' = m1" using assms False r aa bmc ok
              by (simp add: RAKP34_def Let_def m1_def [symmetric] s_def [symmetric] getAuthAlgo_def del: getSession.simps)
            then show thesis unfolding m1_def by (rule touched)
          next
            case (Some rc)
            then have "m' = snd (run_on r (rakp34_activate env aa rc bmc) m1)" using assms False r aa bmc ok
              by (simp add: RAKP34_def Let_def m1_def [symmetric] s_def [symmetric] getAuthAlgo_def
                  split: prod.splits sum.splits del: getSession.simps)
            then show thesis using ok r aa bmc Some unfolding m1_def by (intro match [OF r s_def [unfolded m1_def] aa bmc]) auto
          qed
        qed
      qed
    qed
  qed
qed

lemma RAKP34_lan_ok:
  assumes "lan_ok m"
  shows "lan_ok (snd (RAKP34 env now p m))"
proof -
  obtain reply m' where e: "RAKP34 env now p m = (reply, m')" by fastforce
  have t: "lan_ok (upd_obj r (updateLastTransactionTime now) m)" for r
    using assms by (rule lan_ok_upd_obj) (simp add: session_ok_def)
  from e have "lan_ok m'"
  proof (cases rule: RAKP34_cases)
    case unchanged
    then show ?thesis using assms by simp
  next
    case (touched r)
    then show ?thesis using t by simp
  next
    case (mismatch r)
    show ?thesis unfolding mismatch(2) by (rule lan_ok_stopSession) (rule t)
  next
    case (match r s aa rc bmc)
    show ?thesis unfolding match(7)
      by (rule lan_ok_run_on [OF t]) (use rakp34_activate_keeps match(2,3) in blast)
  qed
  then show ?thesis by (simp add: e)
qed

lemma run_on_length [simp]: "length (mgr_objs (snd (run_on r f m))) = length (mgr_objs m)"
  by (simp add: run_on_def)

lemma stopSession_length [simp]: "length (mgr_objs (snd (stopSession k m))) = length (mgr_objs m)"
  by (simp add: stopSession_def split: option.split)

lemma RAKP34_length:
  assumes "RAKP34 env now p m = (reply, m')"
  shows "length (mgr_objs m') = length (mgr_objs m)"
  using assms by (cases rule: RAKP34_cases) simp_all

lemma touched_state [simp]:
  "ses_state (obj (upd_obj q (updateLastTransactionTime t) m) r) = ses_state (obj m r)"
  by (cases "q < length (mgr_objs m)"; cases "q = r") (simp_all add: obj_def upd_obj_def list_update_beyond)

lemma stopSession_active:
  "r < length (mgr_objs m) \<Longrightarrow> ses_state (obj (snd (stopSession k m)) r) = State_active \<Longrightarrow>
     ses_state (obj m r) = State_active"
proof -
  assume r: "r < length (mgr_objs m)" and a: "ses_state (obj (snd (stopSession k m)) r) = State_active"
  have "ses_state (obj (upd_obj q (set_state State_tearDownInProgress) m) r) \<noteq> State_active \<or>
      obj (upd_obj q (set_state State_tearDownInProgress) m) r = obj m r" for q
    using r by (cases "q = r") simp_all
  with a show ?thesis by (auto simp: stopSession_def split: option.splits)
qed

lemma setSessionPrivilegeLevel_lan_ok:
  assumes "lan_ok m"
  shows "lan_ok (snd (setSessionPrivilegeLevel p sid m))"
  using assms
  by (auto simp: setSessionPrivilegeLevel_def Let_def session_ok_def split: sum.split intro!: lan_ok_upd_obj)

lemma closeMy_lan_ok: "lan_ok m \<Longrightarrow> lan_ok (snd (closeMyNetInstanceSession sid h q m))"
  using lan_ok_stopSession [of m]
  by (auto simp: closeMyNetInstanceSession_def Let_def split: sum.split bool.split prod.split) (metis snd_conv)+

lemma closeSession_lan_ok: "lan_ok m \<Longrightarrow> lan_ok (snd (closeSession env now p sid m))"
  using closeMy_lan_ok [of m]
  by (auto simp: closeSession_def Let_def split: sum.split prod.split) (metis snd_conv)+

section \<open>Messages of the console\<close>

definition rakp1_message :: "byte \<Rightarrow> 32 word \<Rightarrow> byte list \<Rightarrow> byte \<Rightarrow> byte list \<Rightarrow> byte list" where
  "rakp1_message tag sid rc req name =
     [tag, 0, 0, 0] @ id_bytes sid @ rc @ [req, 0, 0, of_nat (length name)] @ name"

definition rakp3_message :: "byte \<Rightarrow> 32 word \<Rightarrow> byte list \<Rightarrow> byte list" where
  "rakp3_message tag sid code = [tag, 0, 0, 0] @ id_bytes sid @ code"

lemma length_id_bytes [simp]: "length (id_bytes w) = 4"
  by (simp add: id_bytes_def)

lemma le_val_id_bytes [simp]: "of_nat (le_val (id_bytes w)) = w"
proof -
  have "le_val (id_bytes w) = unat w" unfolding id_bytes_def le_val_to_le by (rule word32_mod)
  then show ?thesis by simp
qed

lemma rakp1_message_fields:
  assumes "length rc = 16" "length name \<le> 16"
  shows "length (rakp1_message tag sid rc req name) = 28 + length name"
    and "of_nat (le_val (take 4 (drop 4 (rakp1_message tag sid rc req name)))) = sid"
    and "rakp1_message tag sid rc req name ! 0 = tag" "rakp1_message tag sid rc req name ! 24 = req"
    and "unat (rakp1_message tag sid rc req name ! 27) = length name"
    and "drop 28 (rakp1_message tag sid rc req name) = name"
    and "take 16 (drop 8 (rakp1_message tag sid rc req name)) = rc"
  using assms by (simp_all add: rakp1_message_def nth_append unat_of_nat_byte)

lemma rakp3_message_fields:
  shows "length (rakp3_message tag sid code) = 8 + length code"
    and "of_nat (le_val (take 4 (drop 4 (rakp3_message tag sid code)))) = sid"
    and "rakp3_message tag sid code ! 0 = tag" "drop 8 (rakp3_message tag sid code) = code"
  by (simp_all add: rakp3_message_def)

text \<open>
  What the user layer says of a user that may log in: the password, the access of the user and that
  of the channel.
\<close>

definition user_granted :: "lan_env \<Rightarrow> byte list \<Rightarrow> byte list \<Rightarrow> priv_access \<Rightarrow> channel_access \<Rightarrow> bool" where
  "user_granted env name passwd pa ca \<longleftrightarrow> name \<noteq> [] \<and> length name \<le> 16 \<and> passwd \<noteq> [] \<and> length passwd \<le> 20 \<and>
     env_userGetUserId env name \<noteq> invalidUserId \<and> env_userCheckEnabled env (env_userGetUserId env name) \<and>
     env_userGetPassword env name = passwd \<and> env_userPamAuthenticate env name passwd \<and>
     (\<forall>old. env_userGetPrivilegeAccess env (env_userGetUserId env name) (env_interfaceIndex env) old = (IPMI_CC_OK, pa)) \<and>
     (\<forall>old. env_getChannelAccessData env (env_interfaceIndex env) old = (IPMI_CC_OK, ca)) \<and>
     ca_accessMode ca \<noteq> 0 \<and> pa_privilege pa \<le> Priv_OEM"

definition lookup_matches :: "byte \<Rightarrow> priv_access \<Rightarrow> bool" where
  "lookup_matches req pa \<longleftrightarrow> req AND 0x10 \<noteq> 0 \<or> req AND reqMaxPrivMask = pa_privilege pa"

lemma rakp12_user_granted:
  assumes "user_granted env name passwd pa ca"
  obtains s' where
    "rakp12_user env req name s = (if lookup_matches req pa then Inr passwd else Inl UNAUTH_NAME, s')"
    and "same_keys s s'" "ses_userPrivAccess s' = pa" "ses_channelAccess s' = ca"
    and "ses_currentPrivilege s' \<le> ses_currentPrivilege s" "ses_currentPrivilege s' \<le> min_privilege s'"
    and "si_userID (ses_info s') = env_userGetUserId env name" "si_channelNum (ses_info s') = env_interfaceIndex env"
proof -
  let ?s1 = "s\<lparr>ses_userPrivAccess := pa, ses_channelAccess := ca\<rparr>"
  let ?u = "env_userGetUserId env name" and ?ch = "env_interfaceIndex env"
  have a: "rakp12_access env ?u ?ch s = (True, ?s1)"
    using assms by (simp add: rakp12_access_def user_granted_def)
  obtain r s' where p: "rakp12_privilege req ?u ?ch ?s1 = (r, s')" by fastforce
  have r: "r = (if lookup_matches req pa then Inr () else Inl UNAUTH_NAME)"
    using p by (auto simp: rakp12_privilege_def Let_def lookup_matches_def split: if_splits)
  have u: "rakp12_user env req name s = (if lookup_matches req pa then Inr passwd else Inl UNAUTH_NAME, s')"
    using assms a p r
    by (auto simp: rakp12_user_def user_granted_def Let_def isChannelAccessModeEnabled_def)
  have s': "ses_userPrivAccess s' = pa" "ses_channelAccess s' = ca" "si_userID (ses_info s') = ?u"
      "si_channelNum (ses_info s') = ?ch" "ses_currentPrivilege s' \<le> min_privilege s'"
    using p by (auto simp: rakp12_privilege_def Let_def set_currentPrivilege_def ses_currentPrivilege_def
        min_privilege_def split: if_splits)
  have "same_keys s s'" "ses_currentPrivilege s' \<le> ses_currentPrivilege s"
    using rakp12_user_frame [of s env req name] by (simp_all add: u)
  with that u s' show thesis by blast
qed

section \<open>Who can activate a session\<close>

lemma rakp3_input_touch [simp]: "rakp3_input (updateLastTransactionTime t s) bmc = rakp3_input s bmc"
  by (simp add: rakp3_input_def rakp3_tail_def)

text \<open>
  C10. A session becomes active by a RAKP 3 message only if that message carries the code that the key
  in the session yields for the random number that the daemon drew, and then it has both its keys.
\<close>

theorem activation_needs_the_code:
  assumes "lan_ok m" "RAKP34 env now p m = (reply, m')" "r < length (mgr_objs m)"
    and "ses_state (obj m r) \<noteq> State_active" "ses_state (obj m' r) = State_active"
  shows "\<exists>aa bmc. getSession (of_nat (le_val (take 4 (drop 4 p)))) BMC_SESSION_ID m = Inr r \<and>
     ses_authAlgo (obj m r) = Some aa \<and> aa_bmcRandomNum aa = Some bmc \<and>
     drop 8 p = auth_hmac (env_crypto env) aa (rakp3_input (obj m r) bmc) \<and>
     ses_integrityAlgo (obj m' r) \<noteq> None \<and> ses_cryptAlgo (obj m' r) \<noteq> None"
proof -
  have ok': "session_ok (obj m' r)"
    using RAKP34_lan_ok [OF assms(1), of env now p] assms(2,3) lan_ok_obj [of m' r] RAKP34_length
    by (metis snd_conv)
  from assms(2) show ?thesis
  proof (cases rule: RAKP34_cases)
    case unchanged
    then show ?thesis using assms(4,5) by simp
  next
    case (touched q)
    then show ?thesis using assms(4,5) by simp
  next
    case (mismatch q)
    then show ?thesis using assms(3,4,5) stopSession_active [of r "upd_obj q (updateLastTransactionTime now) m"] by auto
  next
    case (match q s aa rc bmc)
    have q: "q < length (mgr_objs m)" by (rule mgr_ok_getSession [OF lan_ok_mgr [OF assms(1)] match(1)])
    then have s: "s = updateLastTransactionTime now (obj m q)" by (simp add: match(2))
    have qr: "q = r"
      using assms(4,5) q by (cases "q = r") (simp_all add: match(7) run_on_def)
    have keys: "ses_integrityAlgo (obj m' r) \<noteq> None \<and> ses_cryptAlgo (obj m' r) \<noteq> None"
      using ok' assms(5) by (simp add: session_ok_def)
    have "ses_authAlgo (obj m r) = Some aa" "drop 8 p = auth_hmac (env_crypto env) aa (rakp3_input (obj m r) bmc)"
      using match(3,6) unfolding s qr by simp_all
    with keys match(1,4) qr show ?thesis by blast
  qed
qed

text \<open>
  A RAKP 3 message whose code is wrong closes the session it names, whatever state that session is
  in: also an active one, on one unauthenticated packet. The next run of the cleaner removes it.
\<close>

theorem wrong_code_closes_the_session:
  assumes "mgr_ok m" "8 \<le> length p" "sid = of_nat (le_val (take 4 (drop 4 p)))" "sid \<noteq> 0"
    and "getSession sid BMC_SESSION_ID m = Inr r" "ses_authAlgo (obj m r) = Some aa" "aa_bmcRandomNum aa = Some bmc"
    and "drop 8 p \<noteq> auth_hmac (env_crypto env) aa (rakp3_input (obj m r) bmc)"
  shows "\<exists>m'. RAKP34 env now p m =
       (Inr (rakp4 (p ! 0) INVALID_INTEGRITY_VALUE (ses_remoteConsoleSessionID (obj m r))), m') \<and>
     ses_state (obj m' r) = State_tearDownInProgress \<and>
     getSession sid BMC_SESSION_ID (cleanStaleEntries later m') = Inl Runtime_Error"
proof -
  let ?m1 = "upd_obj r (updateLastTransactionTime now) m"
  let ?m' = "upd_obj r (set_state State_tearDownInProgress) ?m1"
  note g = mgr_ok_getSession [OF assms(1,5)]
  have o: "obj ?m1 r = updateLastTransactionTime now (obj m r)" using g(1) by simp
  have stop: "snd (stopSession sid ?m1) = ?m'" using g(3) by (simp add: stopSession_def)
  have "RAKP34 env now p m =
      (Inr (rakp4 (p ! 0) INVALID_INTEGRITY_VALUE (ses_remoteConsoleSessionID (obj m r))), ?m')"
    using assms(2,4,6,7,8) assms(5)[unfolded assms(3)] g(2) stop
    by (simp add: RAKP34_def Let_def o getAuthAlgo_def assms(3) [symmetric] del: getSession.simps)
  moreover have "ses_state (obj ?m' r) = State_tearDownInProgress" using g(1) by (simp add: obj_upd_obj)
  moreover have "mgr_ok ?m'"
    by (rule mgr_ok_upd_same, rule mgr_ok_upd_same) (simp_all add: assms(1))
  then have "map_of (mgr_sessionsMap (cleanStaleEntries later ?m')) sid = None"
    using map_of_clean [of ?m' later sid] g(1,3) assms(4) by (simp add: isSessionActive_def Let_def obj_upd_obj)
  ultimately show ?thesis by auto
qed

text \<open>
  A RAKP 3 message for a session that has not seen RAKP message 1 makes the daemon read a random
  number that was never written.
\<close>

theorem rakp3_without_rakp1_reads_garbage:
  assumes "mgr_ok m" "8 \<le> length p" "sid = of_nat (le_val (take 4 (drop 4 p)))" "sid \<noteq> 0"
    and "getSession sid BMC_SESSION_ID m = Inr r" "ses_authAlgo (obj m r) = Some (new_auth_algo dg ia ca)"
  shows "fst (RAKP34 env now p m) = Inl Uninit_Read"
proof -
  note g = mgr_ok_getSession [OF assms(1,5)]
  have "obj (upd_obj r (updateLastTransactionTime now) m) r = updateLastTransactionTime now (obj m r)" using g(1) by simp
  then show ?thesis
    using assms(2,4,6) assms(5)[unfolded assms(3)]
    by (simp add: RAKP34_def Let_def getAuthAlgo_def new_auth_algo_def assms(3) [symmetric] del: getSession.simps)
qed

section \<open>Privileges\<close>

lemma low_nibble:
  assumes "(q :: byte) \<le> Priv_OEM"
  shows "q AND 0xF0 = 0" "q AND 0xF = q"
proof -
  have "unat q \<le> 5" using assms by (simp add: word_le_nat_alt Priv_OEM_def)
  then have q: "q = of_nat (unat q)" "unat q \<in> {0, 1, 2, 3, 4, 5}" by auto
  then show "q AND 0xF0 = 0" "q AND 0xF = q" by (elim insertE; simp)+
qed

lemma setSessionPrivilegeLevel_granted:
  assumes "getSession sid BMC_SESSION_ID m = Inr r" "1 < q" "q \<le> Priv_OEM"
    and "q \<le> ses_reqMaxPrivLevel (obj m r) AND reqMaxPrivMask" "q \<le> min_privilege (obj m r)"
  shows "fst (setSessionPrivilegeLevel [q] sid m) = Inr [IPMI_CC_OK, q]"
proof -
  have "q \<noteq> 0" "q \<noteq> Priv_CALLBACK" using assms(2) by (auto simp: Priv_CALLBACK_def)
  with assms low_nibble [OF assms(3)] show ?thesis
    by (simp add: setSessionPrivilegeLevel_def Let_def not_less del: getSession.simps)
qed

section \<open>The key exchange with a user that may log in\<close>

definition padded_key :: "byte list \<Rightarrow> byte list" where
  "padded_key passwd = passwd @ replicate (20 - length passwd) 0"

lemma rakp12_session_granted:
  assumes "user_granted env name passwd pa ca" "ses_authAlgo s = Some aa" "req AND reqMaxPrivMask > Priv_CALLBACK"
    and "drop 28 p = name" "p ! 24 = req" "take 16 (drop 8 p) = rc"
  obtains reply s' where "rakp12_session env now (Some bmc) p s = (Inr reply, s')"
    and "lookup_matches req pa \<Longrightarrow> reply = [p ! 0, 0, 0, 0] @ id_bytes (ses_remoteConsoleSessionID s) @ bmc @ env_guid env @
      auth_hmac (env_crypto env) (aa\<lparr>aa_rcRandomNum := Some rc, aa_userKey := padded_key passwd, aa_bmcRandomNum := Some bmc\<rparr>)
        (rakp2_input env s' rc bmc req)"
    and "\<not> lookup_matches req pa \<Longrightarrow> reply = rakp2_error UNAUTH_NAME"
    and "ses_authAlgo s' = Some (if lookup_matches req pa
           then aa\<lparr>aa_rcRandomNum := Some rc, aa_userKey := padded_key passwd, aa_bmcRandomNum := Some bmc\<rparr>
           else aa\<lparr>aa_rcRandomNum := Some rc\<rparr>)"
    and "same_identity s s'" "ses_state s' = ses_state s" "ses_userName s' = name" "ses_reqMaxPrivLevel s' = req"
    and "ses_userPrivAccess s' = pa" "ses_channelAccess s' = ca" "ses_currentPrivilege s' \<le> Priv_USER"
    and "si_userID (ses_info s') = env_userGetUserId env name" "si_channelNum (ses_info s') = env_interfaceIndex env"
    and "ses_integrityAlgo s' = ses_integrityAlgo s" "ses_cryptAlgo s' = ses_cryptAlgo s"
proof -
  let ?s1 = "updateLastTransactionTime now (s\<lparr>ses_userName := drop 28 p\<rparr>)"
  let ?aa1 = "aa\<lparr>aa_rcRandomNum := Some (take 16 (drop 8 p))\<rparr>"
  let ?s3 = "(set_currentPrivilege Priv_USER (set_authAlgo ?aa1 ?s1))\<lparr>ses_reqMaxPrivLevel := p ! 24\<rparr>"
  have k: "user_key passwd = Inr (padded_key passwd)" using assms(1) by (simp add: user_key_def padded_key_def user_granted_def)
  obtain s4 where u: "rakp12_user env req name ?s3 = (if lookup_matches req pa then Inr passwd else Inl UNAUTH_NAME, s4)"
    and s4: "same_keys ?s3 s4" "ses_userPrivAccess s4 = pa" "ses_channelAccess s4 = ca"
      "ses_currentPrivilege s4 \<le> ses_currentPrivilege ?s3"
      "si_userID (ses_info s4) = env_userGetUserId env name" "si_channelNum (ses_info s4) = env_interfaceIndex env"
    using rakp12_user_granted [OF assms(1), of req ?s3] by metis
  have k4: "same_identity s s4" "ses_state s4 = ses_state s" "ses_authAlgo s4 = Some (aa\<lparr>aa_rcRandomNum := Some rc\<rparr>)"
      "ses_userName s4 = name" "ses_reqMaxPrivLevel s4 = req" "ses_remoteConsoleSessionID s4 = ses_remoteConsoleSessionID s"
      "ses_integrityAlgo s4 = ses_integrityAlgo s" "ses_cryptAlgo s4 = ses_cryptAlgo s"
    using s4(1) assms(4,5,6) by (auto simp: same_keys_def intro: same_identity_trans [of s ?s3]) (simp add: same_identity_def)
  show thesis
  proof (cases "lookup_matches req pa")
    case True
    then have eq: "rakp12_session env now (Some bmc) p s = (Inr ([p ! 0, 0, 0, 0] @ id_bytes (ses_remoteConsoleSessionID s) @ bmc @ env_guid env @
      auth_hmac (env_crypto env) (aa\<lparr>aa_rcRandomNum := Some rc, aa_userKey := padded_key passwd, aa_bmcRandomNum := Some bmc\<rparr>)
        (rakp2_input env s4 rc bmc req)), set_authAlgo (aa\<lparr>aa_rcRandomNum := Some rc, aa_userKey := padded_key passwd, aa_bmcRandomNum := Some bmc\<rparr>) s4)"
      using u k k4(6) assms(2-6) by (simp add: rakp12_session_def Let_def getAuthAlgo_def)
    have inp: "rakp2_input env (set_authAlgo x s4) rc bmc req = rakp2_input env s4 rc bmc req" for x
      by (simp add: rakp2_input_def)
    show thesis by (rule that [OF eq]) (use True k4 s4 inp in simp_all)
  next
    case False
    then have "rakp12_session env now (Some bmc) p s = (Inr (rakp2_error UNAUTH_NAME), s4)"
      using u assms(2-6) by (simp add: rakp12_session_def Let_def getAuthAlgo_def)
    then show thesis using that False k4 s4 by simp
  qed
qed

lemma RAKP12_granted:
  assumes "mgr_ok m" "sid \<noteq> 0" "getSession sid BMC_SESSION_ID m = Inr r" "ses_authAlgo (obj m r) = Some aa"
    and "length rc = 16" "user_granted env name passwd pa ca" "req AND reqMaxPrivMask > Priv_CALLBACK"
  obtains reply m' where "RAKP12 env now (Some bmc) (rakp1_message tag sid rc req name) m = (Inr reply, m')"
    and "mgr_ok m'" "getSession sid BMC_SESSION_ID m' = Inr r"
    and "lookup_matches req pa \<Longrightarrow> reply = [tag, 0, 0, 0] @ id_bytes (ses_remoteConsoleSessionID (obj m r)) @ bmc @ env_guid env @
      auth_hmac (env_crypto env) (aa\<lparr>aa_rcRandomNum := Some rc, aa_userKey := padded_key passwd, aa_bmcRandomNum := Some bmc\<rparr>)
        (rakp2_input env (obj m' r) rc bmc req)"
    and "\<not> lookup_matches req pa \<Longrightarrow> reply = rakp2_error UNAUTH_NAME"
    and "ses_authAlgo (obj m' r) = Some (if lookup_matches req pa
           then aa\<lparr>aa_rcRandomNum := Some rc, aa_userKey := padded_key passwd, aa_bmcRandomNum := Some bmc\<rparr>
           else aa\<lparr>aa_rcRandomNum := Some rc\<rparr>)"
    and "same_identity (obj m r) (obj m' r)" "ses_state (obj m' r) = ses_state (obj m r)"
    and "ses_userName (obj m' r) = name" "ses_reqMaxPrivLevel (obj m' r) = req"
    and "ses_userPrivAccess (obj m' r) = pa" "ses_channelAccess (obj m' r) = ca"
    and "ses_currentPrivilege (obj m' r) \<le> Priv_USER" "si_userID (ses_info (obj m' r)) = env_userGetUserId env name"
    and "si_channelNum (ses_info (obj m' r)) = env_interfaceIndex env"
    and "ses_integrityAlgo (obj m' r) = ses_integrityAlgo (obj m r)" "ses_cryptAlgo (obj m' r) = ses_cryptAlgo (obj m r)"
proof -
  let ?p = "rakp1_message tag sid rc req name"
  note g = mgr_ok_getSession [OF assms(1,3)]
  have name: "length name \<le> 16" using assms(6) by (simp add: user_granted_def)
  note f = rakp1_message_fields [OF assms(5) name]
  obtain reply s' where e: "rakp12_session env now (Some bmc) ?p (obj m r) = (Inr reply, s')"
    and s': "lookup_matches req pa \<Longrightarrow> reply = [?p ! 0, 0, 0, 0] @ id_bytes (ses_remoteConsoleSessionID (obj m r)) @ bmc @ env_guid env @
      auth_hmac (env_crypto env) (aa\<lparr>aa_rcRandomNum := Some rc, aa_userKey := padded_key passwd, aa_bmcRandomNum := Some bmc\<rparr>)
        (rakp2_input env s' rc bmc req)"
      "\<not> lookup_matches req pa \<Longrightarrow> reply = rakp2_error UNAUTH_NAME"
      "ses_authAlgo s' = Some (if lookup_matches req pa
           then aa\<lparr>aa_rcRandomNum := Some rc, aa_userKey := padded_key passwd, aa_bmcRandomNum := Some bmc\<rparr>
           else aa\<lparr>aa_rcRandomNum := Some rc\<rparr>)"
      "same_identity (obj m r) s'" "ses_state s' = ses_state (obj m r)" "ses_userName s' = name" "ses_reqMaxPrivLevel s' = req"
      "ses_userPrivAccess s' = pa" "ses_channelAccess s' = ca" "ses_currentPrivilege s' \<le> Priv_USER"
      "si_userID (ses_info s') = env_userGetUserId env name" "si_channelNum (ses_info s') = env_interfaceIndex env"
      "ses_integrityAlgo s' = ses_integrityAlgo (obj m r)" "ses_cryptAlgo s' = ses_cryptAlgo (obj m r)"
    using rakp12_session_granted [OF assms(6,4,7) f(6) f(4) f(7), of now bmc] by metis
  define m' where "m' = upd_obj r (\<lambda>s. snd (rakp12_session env now (Some bmc) ?p s)) m"
  have o: "obj m' r = s'" using g(1) e by (simp add: m'_def)
  have a: "RAKP12 env now (Some bmc) ?p m = (Inr reply, m')"
    using assms(2,3) e name by (simp add: RAKP12_def f(1,2,5) Let_def run_on_def m'_def del: getSession.simps)
  have b: "mgr_ok m'" unfolding m'_def using assms(1) by (rule mgr_ok_upd_same) (simp add: e s'(4))
  have c: "getSession sid BMC_SESSION_ID m' = Inr r" using g(3) by (simp add: m'_def)
  show thesis by (rule that [OF a b c, unfolded o]) (use s' f(3) in simp_all)
qed

lemma RAKP12_login:
  assumes "mgr_ok m" "sid \<noteq> 0" "getSession sid BMC_SESSION_ID m = Inr r" "ses_authAlgo (obj m r) = Some aa"
    and "length rc = 16" "user_granted env name passwd pa ca" "req AND reqMaxPrivMask > Priv_CALLBACK"
    and "lookup_matches req pa"
  obtains m' where "mgr_ok m'" "RAKP12 env now (Some bmc) (rakp1_message tag sid rc req name) m =
      (Inr ([tag, 0, 0, 0] @ id_bytes (ses_remoteConsoleSessionID (obj m r)) @ bmc @ env_guid env @
        auth_hmac (env_crypto env) (aa\<lparr>aa_rcRandomNum := Some rc, aa_userKey := padded_key passwd, aa_bmcRandomNum := Some bmc\<rparr>) (rakp2_input env (obj m' r) rc bmc req)), m')"
    and "getSession sid BMC_SESSION_ID m' = Inr r"
    and "ses_authAlgo (obj m' r) = Some (aa\<lparr>aa_rcRandomNum := Some rc, aa_userKey := padded_key passwd, aa_bmcRandomNum := Some bmc\<rparr>)"
    and "same_identity (obj m r) (obj m' r)" "ses_userName (obj m' r) = name" "ses_reqMaxPrivLevel (obj m' r) = req"
    and "ses_userPrivAccess (obj m' r) = pa" "ses_channelAccess (obj m' r) = ca" "ses_state (obj m' r) = ses_state (obj m r)"
  by (rule RAKP12_granted [OF assms(1-7), of now bmc tag]) (rule that, assumption, simp_all add: assms(8) del: getSession.simps)

lemma RAKP12_refused:
  assumes "mgr_ok m" "sid \<noteq> 0" "getSession sid BMC_SESSION_ID m = Inr r" "ses_authAlgo (obj m r) = Some aa"
    and "length rc = 16" "user_granted env name passwd pa ca" "req AND reqMaxPrivMask > Priv_CALLBACK"
    and "\<not> lookup_matches req pa"
  obtains m' where "mgr_ok m'" "RAKP12 env now (Some bmc) (rakp1_message tag sid rc req name) m = (Inr (rakp2_error UNAUTH_NAME), m')"
    and "getSession sid BMC_SESSION_ID m' = Inr r"
    and "ses_authAlgo (obj m' r) = Some (aa\<lparr>aa_rcRandomNum := Some rc\<rparr>)"
    and "same_identity (obj m r) (obj m' r)" "ses_userName (obj m' r) = name" "ses_reqMaxPrivLevel (obj m' r) = req"
    and "ses_userPrivAccess (obj m' r) = pa" "ses_channelAccess (obj m' r) = ca" "ses_state (obj m' r) = ses_state (obj m r)"
  by (rule RAKP12_granted [OF assms(1-7), of now bmc tag]) (rule that, assumption, simp_all add: assms(8) del: getSession.simps)

definition hmac_total :: "crypto \<Rightarrow> bool" where
  "hmac_total c \<longleftrightarrow> (\<forall>dg k d. cr_hmac c dg k d \<noteq> None)"

lemma generateKn_total:
  assumes "crypto_ok c" "hmac_total c" "32 \<le> length sik"
  shows "\<exists>k. generateKn c SHA256 sik const_n = Inr k"
proof -
  obtain h where h: "cr_hmac c SHA256 sik const_n = Some h" using assms(2) unfolding hmac_total_def by blast
  then have "length h = 32" using crypto_ok_hmac [OF assms(1) h] by simp
  with h assms(3) show ?thesis by (simp add: generateKn_def)
qed

lemma rakp34_activate_total:
  assumes "crypto_ok (env_crypto env)" "hmac_total (env_crypto env)" "auth_ok aa" "ses_authAlgo s = Some aa"
  obtains icv k1 k2 where "rakp34_activate env aa rc bmc s =
      (Inr icv, set_state State_active ((set_authAlgo (aa\<lparr>aa_sessionIntegrityKey :=
         auth_hmac (env_crypto env) aa (rc @ bmc @ rakp3_tail s) @ aa_sessionIntegrityKey aa\<rparr>) s)
         \<lparr>ses_integrityAlgo := Some \<lparr>ia_digest = SHA256, ia_k1 = k1\<rparr>, ses_cryptAlgo := Some k2\<rparr>))"
    and "generateKn (env_crypto env) SHA256 (auth_hmac (env_crypto env) aa (rc @ bmc @ rakp3_tail s) @ aa_sessionIntegrityKey aa) const_1 = Inr k1"
    and "generateKn (env_crypto env) SHA256 (auth_hmac (env_crypto env) aa (rc @ bmc @ rakp3_tail s) @ aa_sessionIntegrityKey aa) const_2 = Inr k2"
proof -
  let ?c = "env_crypto env"
  let ?sik = "auth_hmac ?c aa (rc @ bmc @ rakp3_tail s) @ aa_sessionIntegrityKey aa"
  have aa: "aa_digest aa = SHA256" "aa_intAlgo aa = 4" "aa_cryptAlgo aa = 1" using assms(3) by (simp_all add: auth_ok_def)
  obtain h where h: "cr_hmac ?c SHA256 (aa_userKey aa) (rc @ bmc @ rakp3_tail s) = Some h"
    using assms(2) unfolding hmac_total_def by blast
  have "32 \<le> length ?sik" using crypto_ok_hmac [OF assms(1) h] h by (simp add: auth_hmac_def aa)
  then obtain k1 k2 where k: "generateKn ?c SHA256 ?sik const_1 = Inr k1" "generateKn ?c SHA256 ?sik const_2 = Inr k2"
    using generateKn_total [OF assms(1,2)] by blast
  obtain v where v: "cr_hmac ?c SHA256 ?sik (rc @ id_bytes (ses_bmcSessionID s) @ env_guid env) = Some v"
    using assms(2) unfolding hmac_total_def by blast
  show thesis
    by (rule that [OF _ k, of "take 16 v"])
      (simp add: rakp34_activate_def Let_def generateICV_def aa v applyIntegrityAlgo_def applyCryptAlgo_def
        getAuthAlgo_def getIntegrityAlgo_def new_integrity_algo_def k set_authAlgo_def)
qed

lemma RAKP34_accept:
  assumes "mgr_ok m" "sid \<noteq> 0" "getSession sid BMC_SESSION_ID m = Inr r" "ses_authAlgo (obj m r) = Some aa" "auth_ok aa"
    and "aa_bmcRandomNum aa = Some bmc" "aa_rcRandomNum aa = Some rc"
    and "crypto_ok (env_crypto env)" "hmac_total (env_crypto env)"
    and "code = auth_hmac (env_crypto env) aa (rakp3_input (obj m r) bmc)"
  obtains icv m' k1 k2 where
    "RAKP34 env now (rakp3_message tag sid code) m =
      (Inr (rakp4 tag NO_ERROR (ses_remoteConsoleSessionID (obj m r)) @ icv), m')"
    and "ses_state (obj m' r) = State_active" "ses_userName (obj m' r) = ses_userName (obj m r)"
    and "ses_userPrivAccess (obj m' r) = ses_userPrivAccess (obj m r)" "ses_channelAccess (obj m' r) = ses_channelAccess (obj m r)"
    and "ses_reqMaxPrivLevel (obj m' r) = ses_reqMaxPrivLevel (obj m r)"
    and "ses_integrityAlgo (obj m' r) = Some \<lparr>ia_digest = SHA256, ia_k1 = k1\<rparr>" "ses_cryptAlgo (obj m' r) = Some k2"
    and "generateKn (env_crypto env) SHA256 (auth_hmac (env_crypto env) aa (rc @ bmc @ rakp3_tail (obj m r)) @ aa_sessionIntegrityKey aa) const_1 = Inr k1"
    and "generateKn (env_crypto env) SHA256 (auth_hmac (env_crypto env) aa (rc @ bmc @ rakp3_tail (obj m r)) @ aa_sessionIntegrityKey aa) const_2 = Inr k2"
    and "getSession sid BMC_SESSION_ID m' = Inr r" "ses_currentPrivilege (obj m' r) = ses_currentPrivilege (obj m r)"
proof -
  note g = mgr_ok_getSession [OF assms(1,3)]
  let ?m1 = "upd_obj r (updateLastTransactionTime now) m"
  let ?s = "updateLastTransactionTime now (obj m r)"
  have o: "obj ?m1 r = ?s" using g(1) by simp
  have a: "ses_authAlgo ?s = Some aa" using assms(4) by simp
  have tail: "rakp3_tail ?s = rakp3_tail (obj m r)" by (simp add: rakp3_tail_def)
  obtain icv k1 k2 where act: "rakp34_activate env aa rc bmc ?s =
      (Inr icv, set_state State_active ((set_authAlgo (aa\<lparr>aa_sessionIntegrityKey :=
         auth_hmac (env_crypto env) aa (rc @ bmc @ rakp3_tail ?s) @ aa_sessionIntegrityKey aa\<rparr>) ?s)
         \<lparr>ses_integrityAlgo := Some \<lparr>ia_digest = SHA256, ia_k1 = k1\<rparr>, ses_cryptAlgo := Some k2\<rparr>))"
    and k: "generateKn (env_crypto env) SHA256 (auth_hmac (env_crypto env) aa (rc @ bmc @ rakp3_tail ?s) @ aa_sessionIntegrityKey aa) const_1 = Inr k1"
      "generateKn (env_crypto env) SHA256 (auth_hmac (env_crypto env) aa (rc @ bmc @ rakp3_tail ?s) @ aa_sessionIntegrityKey aa) const_2 = Inr k2"
    by (rule rakp34_activate_total [OF assms(8,9,5) a])
  define m' where "m' = snd (run_on r (rakp34_activate env aa rc bmc) ?m1)"
  note f = rakp3_message_fields
  have run: "run_on r (rakp34_activate env aa rc bmc) ?m1 = (Inr icv, m')" by (simp add: run_on_def o act m'_def)
  have e: "RAKP34 env now (rakp3_message tag sid code) m =
      (Inr (rakp4 tag NO_ERROR (ses_remoteConsoleSessionID (obj m r)) @ icv), m')"
    using assms(2,3,6,7,10) a
    by (simp add: RAKP34_def f Let_def o getAuthAlgo_def run del: getSession.simps)
  have o': "obj m' r = snd (rakp34_activate env aa rc bmc ?s)" using g(1) by (simp add: run_on_def m'_def)
  have c: "getSession sid BMC_SESSION_ID m' = Inr r" using g(3) by (simp add: run_on_def m'_def)
  show thesis by (rule that [OF e _ _ _ _ _ _ _ k [unfolded tail] c, unfolded o' act]) simp_all
qed

text \<open>
  What the console computes from the password, by the IPMI specification: the code of RAKP message 2
  that it checks, the code of RAKP message 3 that it sends, and the session integrity key.
\<close>

definition console_hmac :: "crypto \<Rightarrow> byte list \<Rightarrow> byte list \<Rightarrow> byte list" where
  "console_hmac c passwd input = (case cr_hmac c SHA256 (padded_key passwd) input of None \<Rightarrow> [] | Some h \<Rightarrow> h)"

definition console_tail :: "byte \<Rightarrow> byte list \<Rightarrow> byte list" where
  "console_tail req name = [req, of_nat (length name)] @ name"

definition console_code2 :: "lan_env \<Rightarrow> byte list \<Rightarrow> 32 word \<Rightarrow> 32 word \<Rightarrow> byte list \<Rightarrow> byte list \<Rightarrow> byte \<Rightarrow> byte list \<Rightarrow> byte list" where
  "console_code2 env passwd rcid sid rc bmc req name = console_hmac (env_crypto env) passwd
     (id_bytes rcid @ id_bytes sid @ rc @ bmc @ env_guid env @ console_tail req name)"

definition console_code3 :: "crypto \<Rightarrow> byte list \<Rightarrow> 32 word \<Rightarrow> byte list \<Rightarrow> byte \<Rightarrow> byte list \<Rightarrow> byte list" where
  "console_code3 c passwd rcid bmc req name = console_hmac c passwd (bmc @ id_bytes rcid @ console_tail req name)"

definition console_sik :: "crypto \<Rightarrow> byte list \<Rightarrow> byte list \<Rightarrow> byte list \<Rightarrow> byte \<Rightarrow> byte list \<Rightarrow> byte list" where
  "console_sik c passwd rc bmc req name = console_hmac c passwd (rc @ bmc @ console_tail req name)"

lemma auth_hmac_console:
  "aa_digest aa = SHA256 \<Longrightarrow> aa_userKey aa = padded_key passwd \<Longrightarrow> auth_hmac c aa = console_hmac c passwd"
  by (simp add: auth_hmac_def console_hmac_def fun_eq_iff)

lemma padded_key_length: "length passwd \<le> 20 \<Longrightarrow> length (padded_key passwd) = 20"
  by (simp add: padded_key_def)

text \<open>
  C6. A user who may log in and a console that knows the password complete the exchange on a session
  fresh from Open Session: the console finds the code it expects in the reply to RAKP message 1, its
  RAKP message 3 is accepted, and both ends derive their keys from the same session integrity key.
\<close>

theorem honest_login_succeeds:
  assumes "mgr_ok m" "sid \<noteq> 0" "getSession sid BMC_SESSION_ID m = Inr r"
    and "ses_authAlgo (obj m r) = Some (new_auth_algo SHA256 4 1)" "rcid = ses_remoteConsoleSessionID (obj m r)"
    and "length rc = 16" "user_granted env name passwd pa ca" "req AND reqMaxPrivMask > Priv_CALLBACK"
    and "lookup_matches req pa" "crypto_ok (env_crypto env)" "hmac_total (env_crypto env)"
  shows "\<exists>m1 m2 icv k1 k2.
     RAKP12 env now (Some bmc) (rakp1_message tag sid rc req name) m =
       (Inr ([tag, 0, 0, 0] @ id_bytes rcid @ bmc @ env_guid env @ console_code2 env passwd rcid sid rc bmc req name), m1) \<and>
     RAKP34 env now' (rakp3_message tag' sid (console_code3 (env_crypto env) passwd rcid bmc req name)) m1 =
       (Inr (rakp4 tag' NO_ERROR rcid @ icv), m2) \<and>
     ses_state (obj m2 r) = State_active \<and> ses_userName (obj m2 r) = name \<and> ses_userPrivAccess (obj m2 r) = pa \<and>
     generateKn (env_crypto env) SHA256 (console_sik (env_crypto env) passwd rc bmc req name) const_1 = Inr k1 \<and>
     generateKn (env_crypto env) SHA256 (console_sik (env_crypto env) passwd rc bmc req name) const_2 = Inr k2 \<and>
     ses_integrityAlgo (obj m2 r) = Some \<lparr>ia_digest = SHA256, ia_k1 = k1\<rparr> \<and> ses_cryptAlgo (obj m2 r) = Some k2"
proof -
  let ?aa = "new_auth_algo SHA256 4 1"
  let ?aa' = "?aa\<lparr>aa_rcRandomNum := Some rc, aa_userKey := padded_key passwd, aa_bmcRandomNum := Some bmc\<rparr>"
  have pw: "length passwd \<le> 20" using assms(7) by (simp add: user_granted_def)
  have ok: "auth_ok ?aa'" using padded_key_length [OF pw] by (simp add: auth_ok_def new_auth_algo_def)
  have h: "auth_hmac (env_crypto env) ?aa' = console_hmac (env_crypto env) passwd"
    by (rule auth_hmac_console) (simp_all add: new_auth_algo_def)
  obtain m1 where ok1: "mgr_ok m1" and r1: "RAKP12 env now (Some bmc) (rakp1_message tag sid rc req name) m =
      (Inr ([tag, 0, 0, 0] @ id_bytes (ses_remoteConsoleSessionID (obj m r)) @ bmc @ env_guid env @
        auth_hmac (env_crypto env) ?aa' (rakp2_input env (obj m1 r) rc bmc req)), m1)"
      "getSession sid BMC_SESSION_ID m1 = Inr r"
    and s1: "ses_authAlgo (obj m1 r) = Some ?aa'" "same_identity (obj m r) (obj m1 r)" "ses_userName (obj m1 r) = name"
      "ses_reqMaxPrivLevel (obj m1 r) = req" "ses_userPrivAccess (obj m1 r) = pa"
    by (rule RAKP12_login [OF assms(1-4,6-9), of now bmc tag])
  have id: "ses_remoteConsoleSessionID (obj m1 r) = rcid" "ses_bmcSessionID (obj m1 r) = sid"
    using s1(2) assms(5) mgr_ok_getSession(2) [OF assms(1,3)] by (simp_all add: same_identity_def)
  have in2: "auth_hmac (env_crypto env) ?aa' (rakp2_input env (obj m1 r) rc bmc req) = console_code2 env passwd rcid sid rc bmc req name"
    unfolding h by (simp add: rakp2_input_def console_code2_def console_tail_def id s1(3))
  have in3: "console_code3 (env_crypto env) passwd rcid bmc req name = auth_hmac (env_crypto env) ?aa' (rakp3_input (obj m1 r) bmc)"
    unfolding h by (simp add: rakp3_input_def rakp3_tail_def console_code3_def console_tail_def id s1(3,4))
  have sik: "auth_hmac (env_crypto env) ?aa' (rc @ bmc @ rakp3_tail (obj m1 r)) @ aa_sessionIntegrityKey ?aa' =
      console_sik (env_crypto env) passwd rc bmc req name"
    unfolding h by (simp add: rakp3_tail_def console_sik_def console_tail_def s1(3,4) new_auth_algo_def)
  have rnd: "aa_bmcRandomNum ?aa' = Some bmc" "aa_rcRandomNum ?aa' = Some rc" by simp_all
  show ?thesis
    by (rule RAKP34_accept [OF ok1 assms(2) r1(2) s1(1) ok rnd assms(10,11) in3, of now' tag', unfolded sik id s1(3,5)])
      (use r1(1) [unfolded in2 assms(5) [symmetric]] in blast)
qed

text \<open>
  C40. A user can enter as another. After a RAKP message 1 of the user A that succeeds, a second one that
  names the user B, but asks for the wrong privilege of B, is refused; yet the session keeps the name
  and the rights of B together with the key of A. The code computed from the password of A is then
  accepted, the session is active in the name of B, and it can be raised to any privilege that B, the
  channel and the request allow.
\<close>

theorem failed_lookup_swaps_the_user:
  assumes "mgr_ok m" "sid \<noteq> 0" "getSession sid BMC_SESSION_ID m = Inr r"
    and "ses_authAlgo (obj m r) = Some (new_auth_algo SHA256 4 1)" "rcid = ses_remoteConsoleSessionID (obj m r)"
    and "length rc = 16" "length rc' = 16" "user_granted env A passwdA paA ca" "user_granted env B passwdB paB ca"
    and "reqA AND reqMaxPrivMask > Priv_CALLBACK" "lookup_matches reqA paA"
    and "reqB AND reqMaxPrivMask > Priv_CALLBACK" "\<not> lookup_matches reqB paB"
    and "crypto_ok (env_crypto env)" "hmac_total (env_crypto env)"
    and "1 < q" "q \<le> Priv_OEM" "q \<le> reqB AND reqMaxPrivMask" "q \<le> pa_privilege paB" "q \<le> ca_privLimit ca"
  shows "\<exists>reply m1 m2 m3 icv.
     RAKP12 env now (Some bmc) (rakp1_message tag sid rc reqA A) m = (Inr reply, m1) \<and>
     RAKP12 env now (Some bmc') (rakp1_message tag sid rc' reqB B) m1 = (Inr (rakp2_error UNAUTH_NAME), m2) \<and>
     RAKP34 env now (rakp3_message tag sid (console_code3 (env_crypto env) passwdA rcid bmc reqB B)) m2 =
       (Inr (rakp4 tag NO_ERROR rcid @ icv), m3) \<and>
     ses_state (obj m3 r) = State_active \<and> ses_userName (obj m3 r) = B \<and> ses_userPrivAccess (obj m3 r) = paB \<and>
     fst (setSessionPrivilegeLevel [q] sid m3) = Inr [IPMI_CC_OK, q]"
proof -
  let ?aa = "new_auth_algo SHA256 4 1"
  let ?aaA = "?aa\<lparr>aa_rcRandomNum := Some rc, aa_userKey := padded_key passwdA, aa_bmcRandomNum := Some bmc\<rparr>"
  let ?aaB = "?aaA\<lparr>aa_rcRandomNum := Some rc'\<rparr>"
  have pw: "length passwdA \<le> 20" using assms(8) by (simp add: user_granted_def)
  have ok: "auth_ok ?aaB" using padded_key_length [OF pw] by (simp add: auth_ok_def new_auth_algo_def)
  have h: "auth_hmac (env_crypto env) ?aaB = console_hmac (env_crypto env) passwdA"
    by (rule auth_hmac_console) (simp_all add: new_auth_algo_def)
  obtain m1 where r1: "\<exists>reply. RAKP12 env now (Some bmc) (rakp1_message tag sid rc reqA A) m = (Inr reply, m1)"
      "mgr_ok m1" "getSession sid BMC_SESSION_ID m1 = Inr r"
    and s1: "ses_authAlgo (obj m1 r) = Some ?aaA" "same_identity (obj m r) (obj m1 r)"
    by (rule RAKP12_login [OF assms(1-4,6,8,10,11), of now bmc tag]) blast
  obtain m2 where r2: "RAKP12 env now (Some bmc') (rakp1_message tag sid rc' reqB B) m1 = (Inr (rakp2_error UNAUTH_NAME), m2)"
      "mgr_ok m2" "getSession sid BMC_SESSION_ID m2 = Inr r"
    and s2: "ses_authAlgo (obj m2 r) = Some ?aaB" "same_identity (obj m1 r) (obj m2 r)" "ses_userName (obj m2 r) = B"
      "ses_reqMaxPrivLevel (obj m2 r) = reqB" "ses_userPrivAccess (obj m2 r) = paB" "ses_channelAccess (obj m2 r) = ca"
    by (rule RAKP12_refused [OF r1(2) assms(2) r1(3) s1(1) assms(7,9,12,13), of now bmc' tag]) blast
  have id: "ses_remoteConsoleSessionID (obj m2 r) = rcid"
    using s1(2) s2(2) assms(5) by (simp add: same_identity_def)
  have in3: "console_code3 (env_crypto env) passwdA rcid bmc reqB B = auth_hmac (env_crypto env) ?aaB (rakp3_input (obj m2 r) bmc)"
    unfolding h by (simp add: rakp3_input_def rakp3_tail_def console_code3_def console_tail_def id s2(3,4))
  have rnd: "aa_bmcRandomNum ?aaB = Some bmc" "aa_rcRandomNum ?aaB = Some rc'" by simp_all
  obtain icv m3 where r3: "RAKP34 env now (rakp3_message tag sid (console_code3 (env_crypto env) passwdA rcid bmc reqB B)) m2 =
       (Inr (rakp4 tag NO_ERROR rcid @ icv), m3)" "ses_state (obj m3 r) = State_active" "getSession sid BMC_SESSION_ID m3 = Inr r"
    and s3: "ses_userName (obj m3 r) = B" "ses_userPrivAccess (obj m3 r) = paB" "ses_channelAccess (obj m3 r) = ca"
      "ses_reqMaxPrivLevel (obj m3 r) = reqB"
    by (rule RAKP34_accept [OF r2(2) assms(2) r2(3) s2(1) ok rnd assms(14,15) in3, of now tag, unfolded id s2(3-6)]) blast
  have "fst (setSessionPrivilegeLevel [q] sid m3) = Inr [IPMI_CC_OK, q]"
    by (rule setSessionPrivilegeLevel_granted [OF r3(3)]) (use assms(16-20) s3 in \<open>simp_all add: min_privilege_def\<close>)
  with r1(1) r2(1) r3(1,2) s3(1,2) show ?thesis by blast
qed

text \<open>
  C35. Set Session Privilege Level never gives a session more than the request at login, the user and
  the channel allow, and changes no other session.
\<close>

theorem privilege_within_limits:
  assumes "mgr_ok m" "setSessionPrivilegeLevel p sid m = (Inr reply, m')" "getSession sid BMC_SESSION_ID m = Inr r"
    and "ses_currentPrivilege (obj m' r) \<noteq> ses_currentPrivilege (obj m r)"
  shows "reply = [IPMI_CC_OK, ses_currentPrivilege (obj m' r)] \<and>
     Priv_CALLBACK < ses_currentPrivilege (obj m' r) \<and> ses_currentPrivilege (obj m' r) \<le> Priv_OEM \<and>
     ses_currentPrivilege (obj m' r) \<le> ses_reqMaxPrivLevel (obj m r) AND reqMaxPrivMask \<and>
     ses_currentPrivilege (obj m' r) \<le> pa_privilege (ses_userPrivAccess (obj m r)) \<and>
     ses_currentPrivilege (obj m' r) \<le> ca_privLimit (ses_channelAccess (obj m r)) \<and>
     (\<forall>r'. r' \<noteq> r \<longrightarrow> obj m' r' = obj m r')"
proof -
  have r: "r < length (mgr_objs m)" by (rule mgr_ok_getSession [OF assms(1,3)])
  let ?q = "p ! 0 AND 0xF"
  from assms(2-4) have e: "m' = upd_obj r (set_currentPrivilege ?q) m" "reply = [IPMI_CC_OK, ?q]"
    and q: "?q \<noteq> 0" "?q \<noteq> Priv_CALLBACK" "\<not> ?q > Priv_OEM"
      "\<not> ?q > ses_reqMaxPrivLevel (obj m r) AND reqMaxPrivMask" "\<not> ?q > min_privilege (obj m r)"
    by (auto simp: setSessionPrivilegeLevel_def Let_def simp del: getSession.simps split: if_splits)
  have "Priv_CALLBACK < ?q"
  proof -
    have "unat ?q \<noteq> 0" "unat ?q \<noteq> 1" using q(1,2) by (simp_all add: Priv_CALLBACK_def word_unat_eq_iff)
    then show ?thesis by (simp add: word_less_nat_alt Priv_CALLBACK_def)
  qed
  with e q r show ?thesis by (auto simp: min_privilege_def not_less split: if_splits)
qed

text \<open>
  On the daemon of network instance 0, Close Session with a handle of another instance closes the
  local session in the slot of the same number: the instance bits of the handle are not looked at when
  the session id in the request is 0.
\<close>

theorem foreign_handle_closes_local_session:
  assumes "mgr_ok m" "mgr_networkInstance m = 0" "getSession sid BMC_SESSION_ID m = Inr r"
    and "getSession own BMC_SESSION_ID m = Inr r0" "sid \<noteq> 0" "ses_currentPrivilege (obj m r) \<le> ses_currentPrivilege (obj m r0)"
    and "h AND multiIntfaceSessionHandleMask = of_nat (getSessionHandle (mgr_sessionHandleMap m) sid)"
  shows "\<exists>m'. closeSession env now [0, 0, 0, 0, h] own m = (Inr [IPMI_CC_OK], m') \<and>
     ses_state (obj m' r) = State_tearDownInProgress"
proof -
  let ?slot = "getSessionHandle (mgr_sessionHandleMap m) sid"
  note g = mgr_ok_getSession [OF assms(1,3)]
  have hok: "handles_ok (mgr_sessionHandleMap m) (fst ` set (mgr_sessionsMap m))" using assms(1) by (simp add: mgr_ok_def)
  have "sid \<in> fst ` set (mgr_sessionsMap m)" using g(3) by (metis domI dom_map_of_conv_image_fst)
  note s = getSessionHandle_slot [OF hok this assms(5)]
  have lt: "?slot < maxSessionHandles" by (rule getSessionHandle_less)
  then have u: "unat (of_nat ?slot :: byte) = ?slot" by (simp add: maxSessionHandles_def unat_of_nat_byte)
  have "h \<noteq> 0"
  proof
    assume "h = 0"
    with assms(7) u s(2) show False by simp
  qed
  have id: "getSessionIDbyHandle (unat (h AND multiIntfaceSessionHandleMask)) m = sid"
    unfolding assms(7) u using lt s(1) by (simp add: getSessionIDbyHandle_def)
  have "closeMyNetInstanceSession 0 h (ses_currentPrivilege (obj m r0)) m =
      (IPMI_CC_OK, upd_obj r (set_state State_tearDownInProgress) m)"
    using assms(3,5) leD [OF assms(6)] g(3)
    by (simp add: closeMyNetInstanceSession_def id Let_def stopSession_def del: getSession.simps)
  then show ?thesis
    using assms(2,4) \<open>h \<noteq> 0\<close> g(1)
    by (simp add: closeSession_def Let_def getNetworkInstance_def del: getSession.simps)
qed

section \<open>The properties at work\<close>

text \<open>Two users, \<open>A\<close> (operator) and \<open>B\<close> (administrator), and a session fresh from Open Session.\<close>

definition example_env :: lan_env where
  "example_env = \<lparr>env_crypto = example_crypto, env_info0 = example_info, env_guid = replicate 16 7,
     env_interfaceIndex = 1,
     env_userGetUserId = (\<lambda>name. if name = [0x41] then 2 else if name = [0x42] then 3 else invalidUserId),
     env_userCheckEnabled = (\<lambda>u. True),
     env_userGetPassword = (\<lambda>name. if name = [0x41] then [1, 2, 3] else [9, 9]),
     env_userPamAuthenticate = (\<lambda>name pw. True),
     env_userGetPrivilegeAccess = (\<lambda>u ch old. (0, \<lparr>pa_privilege = (if u = 2 then 3 else 4), pa_ipmiEnabled = True\<rparr>)),
     env_getChannelAccessData = (\<lambda>ch old. (0, \<lparr>ca_accessMode = 2, ca_privLimit = 4\<rparr>)),
     env_closeOther = (\<lambda>sid h q. IPMI_CC_INVALID_FIELD_REQUEST)\<rparr>"

definition example_setup :: manager where
  "example_setup = example_manager State_setupInProgress 1"

lemma example_setup_facts:
  "mgr_ok example_setup" "getSession 1 BMC_SESSION_ID example_setup = Inr 1"
  "ses_authAlgo (obj example_setup 1) = Some (new_auth_algo SHA256 4 1)"
  "ses_remoteConsoleSessionID (obj example_setup 1) = 7" "crypto_ok (env_crypto example_env)" "hmac_total (env_crypto example_env)"
  "mgr_networkInstance example_setup = 0"
proof -
  show "mgr_ok example_setup" by (simp add: example_setup_def example_manager_ok)
  show "crypto_ok (env_crypto example_env)" by (simp add: example_env_def example_crypto_ok)
qed (simp_all add: example_setup_def example_manager_def obj_def started_def new_session_def example_env_def
    hmac_total_def example_crypto_def)

lemma example_users:
  "user_granted example_env [0x41] [1, 2, 3] \<lparr>pa_privilege = 3, pa_ipmiEnabled = True\<rparr> \<lparr>ca_accessMode = 2, ca_privLimit = 4\<rparr>"
  "user_granted example_env [0x42] [9, 9] \<lparr>pa_privilege = 4, pa_ipmiEnabled = True\<rparr> \<lparr>ca_accessMode = 2, ca_privLimit = 4\<rparr>"
  by (simp_all add: user_granted_def example_env_def invalidUserId_def Priv_OEM_def IPMI_CC_OK_def)

theorem honest_login_succeeds_witness:
  "\<exists>m1 m2 icv. fst (RAKP12 example_env 5 (Some (replicate 16 8)) (rakp1_message 1 1 (replicate 16 3) 0x13 [0x41]) example_setup) =
       Inr ([1, 0, 0, 0] @ id_bytes 7 @ replicate 16 8 @ env_guid example_env @
         console_code2 example_env [1, 2, 3] 7 1 (replicate 16 3) (replicate 16 8) 0x13 [0x41]) \<and>
     RAKP34 example_env 6 (rakp3_message 2 1 (console_code3 example_crypto [1, 2, 3] 7 (replicate 16 8) 0x13 [0x41])) m1 =
       (Inr (rakp4 2 NO_ERROR 7 @ icv), m2) \<and> ses_state (obj m2 1) = State_active"
proof -
  have "(0x13 :: byte) AND reqMaxPrivMask > Priv_CALLBACK" "lookup_matches 0x13 \<lparr>pa_privilege = 3, pa_ipmiEnabled = True\<rparr>"
    by (simp_all add: reqMaxPrivMask_def Priv_CALLBACK_def lookup_matches_def)
  from honest_login_succeeds [OF example_setup_facts(1) _ example_setup_facts(2,3) refl _ example_users(1) this
      example_setup_facts(5,6), of "replicate 16 3" 5 "replicate 16 8" 1 6 2]
  obtain m1 m2 icv where
    "RAKP12 example_env 5 (Some (replicate 16 8)) (rakp1_message 1 1 (replicate 16 3) 0x13 [0x41]) example_setup =
       (Inr ([1, 0, 0, 0] @ id_bytes 7 @ replicate 16 8 @ env_guid example_env @
         console_code2 example_env [1, 2, 3] 7 1 (replicate 16 3) (replicate 16 8) 0x13 [0x41]), m1)"
    "RAKP34 example_env 6 (rakp3_message 2 1 (console_code3 example_crypto [1, 2, 3] 7 (replicate 16 8) 0x13 [0x41])) m1 =
       (Inr (rakp4 2 NO_ERROR 7 @ icv), m2)" "ses_state (obj m2 1) = State_active"
    unfolding example_setup_facts(4) by (auto simp: example_env_def)
  then show ?thesis by (metis fst_conv)
qed

theorem failed_lookup_swaps_the_user_witness:
  "\<exists>m1 m2 m3 icv.
     RAKP12 example_env 5 (Some (replicate 16 6)) (rakp1_message 1 1 (replicate 16 4) 0x05 [0x42]) m1 =
       (Inr (rakp2_error UNAUTH_NAME), m2) \<and>
     RAKP34 example_env 5 (rakp3_message 1 1 (console_code3 (env_crypto example_env) [1, 2, 3] 7 (replicate 16 8) 0x05 [0x42])) m2 =
       (Inr (rakp4 1 NO_ERROR 7 @ icv), m3) \<and>
     ses_state (obj m3 1) = State_active \<and> ses_userName (obj m3 1) = [0x42] \<and>
     fst (setSessionPrivilegeLevel [4] 1 m3) = Inr [IPMI_CC_OK, 4]"
proof -
  have p: "(0x13 :: byte) AND reqMaxPrivMask > Priv_CALLBACK" "lookup_matches 0x13 \<lparr>pa_privilege = 3, pa_ipmiEnabled = True\<rparr>"
      "(0x05 :: byte) AND reqMaxPrivMask > Priv_CALLBACK" "\<not> lookup_matches 0x05 \<lparr>pa_privilege = 4, pa_ipmiEnabled = True\<rparr>"
    by (simp_all add: reqMaxPrivMask_def Priv_CALLBACK_def lookup_matches_def)
  have "\<exists>reply m1 m2 m3 icv.
     RAKP12 example_env 5 (Some (replicate 16 8)) (rakp1_message 1 1 (replicate 16 3) 0x13 [0x41]) example_setup = (Inr reply, m1) \<and>
     RAKP12 example_env 5 (Some (replicate 16 6)) (rakp1_message 1 1 (replicate 16 4) 0x05 [0x42]) m1 = (Inr (rakp2_error UNAUTH_NAME), m2) \<and>
     RAKP34 example_env 5 (rakp3_message 1 1 (console_code3 (env_crypto example_env) [1, 2, 3] 7 (replicate 16 8) 0x05 [0x42])) m2 =
       (Inr (rakp4 1 NO_ERROR 7 @ icv), m3) \<and>
     ses_state (obj m3 1) = State_active \<and> ses_userName (obj m3 1) = [0x42] \<and>
     ses_userPrivAccess (obj m3 1) = \<lparr>pa_privilege = 4, pa_ipmiEnabled = True\<rparr> \<and>
     fst (setSessionPrivilegeLevel [4] 1 m3) = Inr [IPMI_CC_OK, 4]"
    by (rule failed_lookup_swaps_the_user [OF example_setup_facts(1) _ example_setup_facts(2,3)
          example_setup_facts(4) [symmetric] _ _ example_users p example_setup_facts(5,6)])
      (simp_all add: Priv_OEM_def reqMaxPrivMask_def)
  then show ?thesis by blast
qed

theorem wrong_code_closes_the_session_witness:
  "\<exists>m'. RAKP34 example_env 9 (rakp3_message 3 1 [0]) (upd_obj 1 (set_state State_active o
       set_authAlgo ((new_auth_algo SHA256 4 1)\<lparr>aa_bmcRandomNum := Some [1], aa_rcRandomNum := Some [2]\<rparr>)) example_setup) =
       (Inr (rakp4 3 INVALID_INTEGRITY_VALUE 7), m') \<and>
     ses_state (obj m' 1) = State_tearDownInProgress \<and>
     getSession 1 BMC_SESSION_ID (cleanStaleEntries 10 m') = Inl Runtime_Error"
proof -
  let ?aa = "(new_auth_algo SHA256 4 1)\<lparr>aa_bmcRandomNum := Some [1], aa_rcRandomNum := Some [2]\<rparr>"
  let ?m = "upd_obj 1 (set_state State_active o set_authAlgo ?aa) example_setup"
  have r: "1 < length (mgr_objs example_setup)" by (rule mgr_ok_getSession [OF example_setup_facts(1,2)])
  have o: "obj ?m 1 = (set_state State_active o set_authAlgo ?aa) (obj example_setup 1)" by (rule obj_upd_obj_same) (rule r)
  have ok: "mgr_ok ?m" using example_setup_facts(1) by (rule mgr_ok_upd_same) simp
  have g: "getSession 1 BMC_SESSION_ID ?m = Inr 1" using example_setup_facts(2) by simp
  have rc: "ses_remoteConsoleSessionID (obj ?m 1) = 7" unfolding o using example_setup_facts(4) by simp
  have a: "ses_authAlgo (obj ?m 1) = Some ?aa" unfolding o by simp
  have "length (auth_hmac (env_crypto example_env) ?aa x) = 32" for x
    by (simp add: auth_hmac_def example_env_def example_crypto_def new_auth_algo_def default_user_key_def)
  then have ne: "drop 8 (rakp3_message 3 1 [0]) \<noteq> auth_hmac (env_crypto example_env) ?aa (rakp3_input (obj ?m 1) [1])"
    unfolding rakp3_message_fields(4) by (metis length_Cons list.size(3) numeral_eq_one_iff One_nat_def semiring_norm(85) semiring_norm(83))
  show ?thesis
    using wrong_code_closes_the_session [OF ok _ rakp3_message_fields(2) [symmetric] _ g a _ ne, of 9 10]
    unfolding rc rakp3_message_fields(1,3) by simp
qed

theorem rakp3_without_rakp1_reads_garbage_witness:
  "fst (RAKP34 example_env 5 (rakp3_message 3 1 [0]) example_setup) = Inl Uninit_Read"
  by (rule rakp3_without_rakp1_reads_garbage [OF example_setup_facts(1) _ rakp3_message_fields(2) [symmetric] _
        example_setup_facts(2,3)]) (simp_all add: rakp3_message_fields)

lemma example_lan_ok:
  assumes "auth_ok aa" "st \<noteq> State_active"
    and "n \<le> 62"
  shows "lan_ok (upd_obj 1 (set_authAlgo aa) (example_manager st n))"
proof -
  have s: "session_ok (started (example_info\<lparr>si_state := st\<rparr>) 7 k 4 h SHA256 4 1)" for k h
    using assms(2) by (simp add: session_ok_def started_def new_session_def new_auth_algo_def auth_ok_def default_user_key_def
        ses_state_def ses_currentPrivilege_def min_privilege_def example_info_def Priv_USER_def)
  have "lan_ok (example_manager st n)"
    using example_manager_ok [OF assms(3), of st] s by (auto simp: lan_ok_def example_manager_def)
  then show ?thesis by (rule lan_ok_upd_obj) (use assms in \<open>simp add: session_ok_def\<close>)
qed

theorem activation_needs_the_code_witness:
  "\<exists>code m. getSession 1 BMC_SESSION_ID m = Inr 1 \<and> ses_state (obj m 1) = State_setupInProgress \<and>
     ses_state (obj (snd (RAKP34 example_env 5 (rakp3_message 3 1 code) m)) 1) = State_active \<and>
     code = auth_hmac (env_crypto example_env) ((new_auth_algo SHA256 4 1)\<lparr>aa_bmcRandomNum := Some [1], aa_rcRandomNum := Some [2]\<rparr>)
       (rakp3_input (obj m 1) [1])"
proof -
  let ?aa = "(new_auth_algo SHA256 4 1)\<lparr>aa_bmcRandomNum := Some [1], aa_rcRandomNum := Some [2]\<rparr>"
  let ?m = "upd_obj 1 (set_authAlgo ?aa) example_setup"
  let ?code = "auth_hmac (env_crypto example_env) ?aa (rakp3_input (obj ?m 1) [1])"
  have aa: "auth_ok ?aa" by (simp add: auth_ok_def new_auth_algo_def default_user_key_def)
  have ok: "lan_ok ?m" unfolding example_setup_def by (rule example_lan_ok [OF aa]) simp_all
  have r: "1 < length (mgr_objs ?m)" using mgr_ok_getSession(1) [OF example_setup_facts(1,2)] by simp
  have o: "obj ?m 1 = set_authAlgo ?aa (obj example_setup 1)" using r by simp
  have g: "getSession 1 BMC_SESSION_ID ?m = Inr 1" using example_setup_facts(2) by simp
  have st: "ses_state (obj ?m 1) = State_setupInProgress"
    unfolding o by (simp add: example_setup_def example_manager_def obj_def started_def new_session_def ses_state_def)
  have a: "ses_authAlgo (obj ?m 1) = Some ?aa" unfolding o by simp
  have n1: "(1 :: 32 word) \<noteq> 0" by simp
  obtain icv m' where act: "RAKP34 example_env 5 (rakp3_message 3 1 ?code) ?m =
      (Inr (rakp4 3 NO_ERROR (ses_remoteConsoleSessionID (obj ?m 1)) @ icv), m')" "ses_state (obj m' 1) = State_active"
    by (rule RAKP34_accept [OF lan_ok_mgr [OF ok] n1 g a aa _ _ example_setup_facts(5,6) refl, of "[1]" "[2]" 5 3]) auto
  note st = st
  from activation_needs_the_code [OF ok act(1) r _ act(2)] st
  have "drop 8 (rakp3_message 3 1 ?code) = auth_hmac (env_crypto example_env) ?aa (rakp3_input (obj ?m 1) [1])"
    unfolding a by auto
  then have "?code = auth_hmac (env_crypto example_env) ?aa (rakp3_input (obj ?m 1) [1])" by simp
  with g st act show ?thesis by (metis snd_conv)
qed

theorem privilege_within_limits_witness:
  "\<exists>m. ses_currentPrivilege (obj m 1) = 2 \<and>
     ses_currentPrivilege (obj (snd (setSessionPrivilegeLevel [3] 1 m)) 1) = 3 \<and>
     (3 :: byte) \<le> pa_privilege (ses_userPrivAccess (obj m 1)) \<and> (3 :: byte) \<le> ca_privLimit (ses_channelAccess (obj m 1))"
proof -
  let ?f = "\<lambda>s. (set_currentPrivilege 2 s)\<lparr>ses_reqMaxPrivLevel := 4, ses_userPrivAccess := \<lparr>pa_privilege = 4, pa_ipmiEnabled = True\<rparr>,
    ses_channelAccess := \<lparr>ca_accessMode = 2, ca_privLimit = 3\<rparr>\<rparr>"
  let ?m = "upd_obj 1 ?f example_setup"
  let ?m' = "upd_obj 1 (set_currentPrivilege 3) ?m"
  have r: "1 < length (mgr_objs ?m)" using mgr_ok_getSession(1) [OF example_setup_facts(1,2)] by simp
  have ok: "mgr_ok ?m" using example_setup_facts(1) by (rule mgr_ok_upd_same) (simp add: same_identity_def)
  have g: "getSession 1 BMC_SESSION_ID ?m = Inr 1" using example_setup_facts(2) by simp
  have o: "obj ?m 1 = ?f (obj example_setup 1)" using r by simp
  have p: "ses_currentPrivilege (obj ?m 1) = 2" "ses_currentPrivilege (obj ?m' 1) = 3"
    using r by (simp_all add: o ses_currentPrivilege_def set_currentPrivilege_def)
  have run: "setSessionPrivilegeLevel [3] 1 ?m = (Inr [IPMI_CC_OK, 3], ?m')"
    unfolding setSessionPrivilegeLevel_def g
    by (simp add: Let_def o [unfolded One_nat_def] min_privilege_def Priv_CALLBACK_def Priv_OEM_def reqMaxPrivMask_def
        del: getSession.simps)
  have "ses_currentPrivilege (obj ?m' 1) \<noteq> ses_currentPrivilege (obj ?m 1)" unfolding p by simp
  from privilege_within_limits [OF ok run g this] p run show ?thesis by (metis snd_conv)
qed

theorem foreign_handle_closes_local_session_witness:
  "\<exists>m'. closeSession example_env 5 [0, 0, 0, 0, 0x42] 1 (example_manager State_setupInProgress 2) = (Inr [IPMI_CC_OK], m') \<and>
     ses_state (obj m' 2) = State_tearDownInProgress"
proof -
  let ?m = "example_manager State_setupInProgress 2"
  have g: "getSession 2 BMC_SESSION_ID ?m = Inr 2" "getSession 1 BMC_SESSION_ID ?m = Inr 1"
    by (simp_all add: example_manager_def numeral_2_eq_2)
  have h: "(0x42 :: byte) AND multiIntfaceSessionHandleMask = of_nat (getSessionHandle (mgr_sessionHandleMap ?m) 2)"
  proof -
    have "handles_ok (mgr_sessionHandleMap ?m) (fst ` set (mgr_sessionsMap ?m))"
      using example_manager_ok [of 2 State_setupInProgress] by (simp add: mgr_ok_def)
    then have "getSessionHandle (mgr_sessionHandleMap ?m) 2 = 2"
      by (rule getSessionHandle_eqI) (simp_all add: example_manager_def maxSessionHandles_def numeral_2_eq_2)
    then show ?thesis by (simp add: multiIntfaceSessionHandleMask_def)
  qed
  show ?thesis
    by (rule foreign_handle_closes_local_session [OF _ _ g _ _ h])
      (simp_all add: example_manager_ok, simp_all add: example_manager_def obj_def started_def new_session_def
        ses_currentPrivilege_def numeral_2_eq_2)
qed

end
