(* ===== verification/Lan_Sol.thy ===== *)
theory Lan_Sol
  imports Lan_Auth
begin

text \<open>
  Serial over LAN (\<open>src/devtool-mods/phosphor-ipmi-net-mods/sol\<close>, \<open>command/payload_cmds.cpp\<close>,
  \<open>command/sol_cmds.cpp\<close> and the sending half of \<open>message_handler.cpp\<close>): the console of the host,
  carried to a remote console in numbered packets with acknowledgements.

  The state is that of the daemon: the session manager, the SOL manager, the packets sent with their
  destination, and what was written to the socket of the console. The outside is \<open>io_env\<close>: the
  initialization vector and the result of the \<open>n\<close>-th send, how many bytes the console socket takes
  at the \<open>n\<close>-th write (\<open>None\<close> is an error), whether it can be connected. A timer is the interval
  it was armed with, in milliseconds, or \<open>None\<close>. Operations return a result or the exception that
  leaves them, and the state after it.
\<close>

section \<open>State\<close>

definition sol_header_size :: nat where "sol_header_size = 4"
definition MAX_PAYLOAD_SIZE :: nat where "MAX_PAYLOAD_SIZE = 255"
definition MAX_SOL_SEQUENCE_NUMBER :: byte where "MAX_SOL_SEQUENCE_NUMBER = 0x10"
definition accIntervalFactor :: nat where "accIntervalFactor = 5"
definition retryIntervalFactor :: nat where "retryIntervalFactor = 10"

record sol_context =
  ctx_accumulateTimer :: "nat option"
  ctx_retryTimer :: "nat option"
  ctx_maxRetryCount :: byte
  ctx_retryCounter :: byte
  ctx_sendThreshold :: byte
  ctx_payloadInstance :: byte
  ctx_sessionID :: "32 word"
  ctx_session :: nat
  ctx_expectedCharCount :: nat
  ctx_in :: byte
  ctx_out :: byte
  ctx_payloadCache :: "byte list"

record sol_manager =
  sol_dataBuffer :: "byte list"
  sol_progress :: byte
  sol_enable :: bool
  sol_forceEncrypt :: bool
  sol_forceAuth :: bool
  sol_minPrivilege :: byte
  sol_accumulateInterval :: nat
  sol_sendThreshold :: byte
  sol_retryCount :: byte
  sol_retryInterval :: nat
  sol_payloadMap :: "(byte \<times> sol_context) list"
  sol_consoleSocket :: bool

definition new_sol_manager :: sol_manager where
  "new_sol_manager = \<lparr>sol_dataBuffer = [], sol_progress = 0, sol_enable = True, sol_forceEncrypt = True,
     sol_forceAuth = True, sol_minPrivilege = Priv_USER, sol_accumulateInterval = 100, sol_sendThreshold = 1,
     sol_retryCount = 7, sol_retryInterval = 100, sol_payloadMap = [], sol_consoleSocket = False\<rparr>"

record server =
  srv_mgr :: manager
  srv_sol :: sol_manager
  srv_sends :: nat
  srv_wire :: "(channel \<times> byte list) list"
  srv_writes :: nat
  srv_console :: "(bool \<times> byte list) list"

record io_env =
  io_iv :: "nat \<Rightarrow> byte list option"
  io_write :: "nat \<Rightarrow> bool"
  io_console :: "nat \<Rightarrow> nat option"
  io_connect :: bool

definition upd_sol :: "(sol_manager \<Rightarrow> sol_manager) \<Rightarrow> server \<Rightarrow> server" where
  "upd_sol f sv = sv\<lparr>srv_sol := f (srv_sol sv)\<rparr>"

definition ctx :: "byte \<Rightarrow> server \<Rightarrow> sol_context" where
  "ctx i sv = the (map_of (sol_payloadMap (srv_sol sv)) i)"

definition upd_ctx :: "byte \<Rightarrow> (sol_context \<Rightarrow> sol_context) \<Rightarrow> server \<Rightarrow> server" where
  "upd_ctx i f = upd_sol (\<lambda>m. m\<lparr>sol_payloadMap := map (\<lambda>(k, c). (k, if k = i then f c else c)) (sol_payloadMap m)\<rparr>)"

subsection \<open>The buffer of the host console\<close>

definition buffer_write :: "byte list \<Rightarrow> server \<Rightarrow> server" where
  "buffer_write input = upd_sol (\<lambda>m. m\<lparr>sol_dataBuffer := sol_dataBuffer m @ input\<rparr>)"

definition buffer_erase :: "nat \<Rightarrow> server \<Rightarrow> server" where
  "buffer_erase n = upd_sol (\<lambda>m. m\<lparr>sol_dataBuffer := drop n (sol_dataBuffer m)\<rparr>)"

definition dataBuffer :: "server \<Rightarrow> byte list" where
  "dataBuffer sv = sol_dataBuffer (srv_sol sv)"

subsection \<open>Sequence numbers\<close>

definition next_seq :: "byte \<Rightarrow> byte" where
  "next_seq n = (if n + 1 = MAX_SOL_SEQUENCE_NUMBER then 1 else n + 1)"

definition incInboundSeqNum :: "sol_context \<Rightarrow> sol_context" where
  "incInboundSeqNum c = c\<lparr>ctx_in := next_seq (ctx_in c)\<rparr>"

definition incOutboundSeqNum :: "sol_context \<Rightarrow> byte \<times> sol_context" where
  "incOutboundSeqNum c = (next_seq (ctx_out c), c\<lparr>ctx_out := next_seq (ctx_out c)\<rparr>)"

section \<open>Sending\<close>

text \<open>
  \<open>Handler::send\<close> with \<open>writeData\<close>: the message is flattened with the session \<open>r\<close> of the handler and
  written to its channel.
\<close>

definition handler_send :: "lan_env \<Rightarrow> io_env \<Rightarrow> channel option \<Rightarrow> message \<Rightarrow> session_header \<Rightarrow> nat \<Rightarrow> server \<Rightarrow>
    unit res \<times> server" where
  "handler_send env io ch msg hdr r sv =
     (let n = srv_sends sv;
          (p, m') = parser_flatten (env_crypto env) (io_iv io n) msg hdr r (srv_mgr sv);
          sv' = sv\<lparr>srv_mgr := m', srv_sends := n + 1\<rparr>
      in case p of
           Inl e \<Rightarrow> (Inl e, sv')
         | Inr packet \<Rightarrow>
             (case ch of
                None \<Rightarrow> (Inl Null_Deref, sv')
              | Some a \<Rightarrow>
                  if io_write io n then (Inr (), sv'\<lparr>srv_wire := srv_wire sv' @ [(a, packet)]\<rparr>)
                  else (Inl Runtime_Error, sv')))"

text \<open>
  The handler made only to send: its session is looked up unless the id is the invalid one, and then
  dereferenced.
\<close>

definition handler_session :: "32 word \<Rightarrow> server \<Rightarrow> nat res" where
  "handler_session sid sv =
     (if sid = MESSAGE_INVALID_SESSION_ID then Inl Null_Deref else getSession sid BMC_SESSION_ID (srv_mgr sv))"

definition session_message :: "byte \<Rightarrow> byte list \<Rightarrow> 32 word \<Rightarrow> session \<Rightarrow> message" where
  "session_message pt payload sid s = \<lparr>msg_isPacketEncrypted = (ses_cryptAlgo s \<noteq> None),
     msg_isPacketAuthenticated = (ses_integrityAlgo s \<noteq> None), msg_payloadType = pt,
     msg_rcSessionID = ses_remoteConsoleSessionID s, msg_bmcSessionID = sid, msg_sessionSeqNum = None,
     msg_rmcpMsgClass = 5, msg_payload = payload\<rparr>"

definition sendSOLPayload :: "lan_env \<Rightarrow> io_env \<Rightarrow> channel option \<Rightarrow> 32 word \<Rightarrow> byte list \<Rightarrow> server \<Rightarrow> unit res \<times> server" where
  "sendSOLPayload env io ch sid input sv =
     (case handler_session sid sv of
        Inl e \<Rightarrow> (Inl e, sv)
      | Inr r \<Rightarrow> handler_send env io ch (session_message PT_SOL input sid (obj (srv_mgr sv) r)) Header_IPMI20 r sv)"

definition requesterBMCAddress :: byte where "requesterBMCAddress = 0x20"
definition responderBMCAddress :: byte where "responderBMCAddress = 0x81"

definition unsolicited_payload :: "byte \<Rightarrow> byte \<Rightarrow> byte list \<Rightarrow> byte list" where
  "unsolicited_payload netfn cmd out =
     (let h = [requesterBMCAddress, push_bit 2 netfn];
          body = [responderBMCAddress, 0, cmd] @ out
      in h @ [crc8bit h] @ body @ [crc8bit body])"

definition sendUnsolicitedIPMIPayload :: "lan_env \<Rightarrow> io_env \<Rightarrow> channel option \<Rightarrow> 32 word \<Rightarrow> byte \<Rightarrow> byte \<Rightarrow> byte list \<Rightarrow>
    server \<Rightarrow> unit res \<times> server" where
  "sendUnsolicitedIPMIPayload env io ch sid netfn cmd out sv =
     (case handler_session sid sv of
        Inl e \<Rightarrow> (Inl e, sv)
      | Inr r \<Rightarrow> handler_send env io ch
          (session_message PT_IPMI (unsolicited_payload netfn cmd out) sid (obj (srv_mgr sv) r)) Header_IPMI20 r sv)"

section \<open>The context of a payload\<close>

definition enableAccumulateTimer :: "byte \<Rightarrow> bool \<Rightarrow> server \<Rightarrow> server" where
  "enableAccumulateTimer i enable sv = upd_ctx i (\<lambda>c. c\<lparr>ctx_accumulateTimer :=
     (if enable then Some (sol_accumulateInterval (srv_sol sv)) else None)\<rparr>) sv"

definition enableRetryTimer :: "byte \<Rightarrow> bool \<Rightarrow> server \<Rightarrow> server" where
  "enableRetryTimer i enable sv = upd_ctx i (\<lambda>c. c\<lparr>ctx_retryTimer :=
     (if enable then Some (sol_retryInterval (srv_sol sv)) else None)\<rparr>) sv"

definition sol_payload :: "byte \<Rightarrow> byte \<Rightarrow> byte \<Rightarrow> bool \<Rightarrow> byte list \<Rightarrow> byte list" where
  "sol_payload sq ackSeq count nack chars = [sq, ackSeq, count, (if nack then 0x40 else 0)] @ chars"

definition sendPayload :: "lan_env \<Rightarrow> io_env \<Rightarrow> byte \<Rightarrow> byte list \<Rightarrow> server \<Rightarrow> unit res \<times> server" where
  "sendPayload env io i out sv =
     sendSOLPayload env io (ses_channelPtr (obj (srv_mgr sv) (ctx_session (ctx i sv)))) (ctx_sessionID (ctx i sv)) out sv"

text \<open>Both ways to send console data fill the cache with the first bytes of the buffer.\<close>

definition fill_cache :: "byte \<Rightarrow> byte \<Rightarrow> byte \<Rightarrow> bool \<Rightarrow> server \<Rightarrow> server" where
  "fill_cache i ackSeq count nack sv =
     (let readSize = min (length (dataBuffer sv)) MAX_PAYLOAD_SIZE;
          (sq, c) = incOutboundSeqNum (ctx i sv)
      in enableAccumulateTimer i False (enableRetryTimer i True (upd_ctx i
           (\<lambda>_. c\<lparr>ctx_payloadCache := sol_payload sq ackSeq count nack (take readSize (dataBuffer sv)),
             ctx_expectedCharCount := readSize\<rparr>) sv)))"

definition prepareResponse :: "lan_env \<Rightarrow> io_env \<Rightarrow> byte \<Rightarrow> byte \<Rightarrow> byte \<Rightarrow> bool \<Rightarrow> server \<Rightarrow> unit res \<times> server" where
  "prepareResponse env io i ackSeq count nack sv =
     (if ctx_payloadCache (ctx i sv) \<noteq> [] \<or> length (dataBuffer sv) < unat (ctx_sendThreshold (ctx i sv))
      then sendPayload env io i (sol_payload 0 ackSeq count nack []) (enableAccumulateTimer i True sv)
      else (let sv' = fill_cache i ackSeq count nack sv
            in sendPayload env io i (ctx_payloadCache (ctx i sv')) sv'))"

text \<open>\<open>True\<close> is the return value 0: something was sent.\<close>

definition sendOutboundPayload :: "lan_env \<Rightarrow> io_env \<Rightarrow> byte \<Rightarrow> server \<Rightarrow> bool res \<times> server" where
  "sendOutboundPayload env io i sv =
     (if ctx_payloadCache (ctx i sv) \<noteq> [] then (Inr False, enableAccumulateTimer i True sv)
      else (let sv' = fill_cache i 0 0 False sv
            in case sendPayload env io i (ctx_payloadCache (ctx i sv')) sv' of
                 (Inl e, sv'') \<Rightarrow> (Inl e, sv'')
               | (Inr _, sv'') \<Rightarrow> (Inr True, sv'')))"

text \<open>The expected count is reset before it is used to erase.\<close>

definition resendPayload :: "lan_env \<Rightarrow> io_env \<Rightarrow> byte \<Rightarrow> bool \<Rightarrow> server \<Rightarrow> unit res \<times> server" where
  "resendPayload env io i clear sv =
     (case sendPayload env io i (ctx_payloadCache (ctx i sv)) sv of
        (Inl e, sv1) \<Rightarrow> (Inl e, sv1)
      | (Inr _, sv1) \<Rightarrow>
          (Inr (), if clear
             then (let sv2 = upd_ctx i (\<lambda>c. c\<lparr>ctx_payloadCache := [], ctx_expectedCharCount := 0\<rparr>) sv1
                   in buffer_erase (ctx_expectedCharCount (ctx i sv2)) sv2)
             else sv1))"

text \<open>
  A write to the console socket: \<open>True\<close> is the return value 0. The number of bytes that the socket
  took is not looked at.
\<close>

definition writeConsoleSocket :: "io_env \<Rightarrow> byte list \<Rightarrow> bool \<Rightarrow> server \<Rightarrow> bool res \<times> server" where
  "writeConsoleSocket io input breakFlag sv =
     (if \<not> sol_consoleSocket (srv_sol sv) then (Inl Null_Deref, sv)
      else (let n = srv_writes sv; sv' = sv\<lparr>srv_writes := n + 1\<rparr>
            in case io_console io n of
                 None \<Rightarrow> (Inr False, sv')
               | Some k \<Rightarrow> (Inr True, sv'\<lparr>srv_console := srv_console sv' @ [(breakFlag, take k input)]\<rparr>)))"

definition sysrqValue :: byte where "sysrqValue = 72"

text \<open>The parts of \<open>processInboundPayload\<close>: the acknowledgement, the break, the characters, the answer.\<close>

definition inbound_ack :: "byte \<Rightarrow> byte \<Rightarrow> byte \<Rightarrow> server \<Rightarrow> server" where
  "inbound_ack i ackSeqNum count sv =
     (if unat count = ctx_expectedCharCount (ctx i sv) \<and> ackSeqNum \<noteq> 0
      then upd_ctx i (\<lambda>c. c\<lparr>ctx_retryCounter := ctx_maxRetryCount c, ctx_expectedCharCount := 0, ctx_payloadCache := []\<rparr>)
             (enableRetryTimer i False (buffer_erase (unat count) sv))
      else sv)"

definition inbound_break :: "io_env \<Rightarrow> byte \<Rightarrow> bool \<Rightarrow> server \<Rightarrow> unit res \<times> server" where
  "inbound_break io seqNum isBreak sv =
     (if isBreak \<and> seqNum \<noteq> 0
      then (case writeConsoleSocket io [sysrqValue] True sv of (Inl e, sv') \<Rightarrow> (Inl e, sv') | (Inr _, sv') \<Rightarrow> (Inr (), sv'))
      else (Inr (), sv))"

text \<open>The result: acknowledged sequence number, accepted count, negative acknowledgement.\<close>

definition inbound_chars :: "io_env \<Rightarrow> byte \<Rightarrow> byte list \<Rightarrow> server \<Rightarrow> (byte \<times> byte \<times> bool) res \<times> server" where
  "inbound_chars io seqNum input sv =
     (if input \<noteq> [] \<and> seqNum \<noteq> 0
      then (case writeConsoleSocket io input False sv of
              (Inl e, sv') \<Rightarrow> (Inl e, sv')
            | (Inr ok, sv') \<Rightarrow> (Inr (if ok then (seqNum, of_nat (length input), False) else (0, 0, True)), sv'))
      else (Inr (if seqNum \<noteq> 0 then seqNum else 0, 0, False), sv))"

definition processInboundPayload :: "lan_env \<Rightarrow> io_env \<Rightarrow> byte \<Rightarrow> byte \<Rightarrow> byte \<Rightarrow> byte \<Rightarrow> bool \<Rightarrow> bool \<Rightarrow> byte list \<Rightarrow>
    server \<Rightarrow> unit res \<times> server" where
  "processInboundPayload env io i seqNum ackSeqNum count status isBreak input sv =
     (if seqNum \<noteq> 0 \<and> seqNum \<noteq> ctx_in (ctx i sv) then (Inr (), sv)
      else if ackSeqNum \<noteq> 0 \<and> ackSeqNum \<noteq> ctx_out (ctx i sv) then (Inr (), sv)
      else if status \<or> unat count \<noteq> ctx_expectedCharCount (ctx i sv) \<and> ackSeqNum \<noteq> 0 then
        (case resendPayload env io i False sv of
           (Inl e, sv1) \<Rightarrow> (Inl e, sv1)
         | (Inr _, sv1) \<Rightarrow> (Inr (), enableRetryTimer i True (enableRetryTimer i False sv1)))
      else
        (case inbound_break io seqNum isBreak (inbound_ack i ackSeqNum count sv) of
           (Inl e, sv1) \<Rightarrow> (Inl e, sv1)
         | (Inr _, sv1) \<Rightarrow>
             (case inbound_chars io seqNum input sv1 of
                (Inl e, sv2) \<Rightarrow> (Inl e, sv2)
              | (Inr (respAckSeqNum, acceptedCount, nack), sv2) \<Rightarrow>
                  if seqNum \<noteq> 0
                  then prepareResponse env io i respAckSeqNum acceptedCount nack (upd_ctx i incInboundSeqNum sv2)
                  else (Inr (), enableAccumulateTimer i True sv2))))"

text \<open>The handlers of the timers catch exceptions; the expired timer is no longer armed.\<close>

definition catch_exceptions :: "unit res \<times> server \<Rightarrow> unit res \<times> server" where
  "catch_exceptions x = (case x of (Inl e, sv) \<Rightarrow> (if is_exception e then Inr () else Inl e, sv) | (Inr _, sv) \<Rightarrow> (Inr (), sv))"

definition charAccTimerHandler :: "lan_env \<Rightarrow> io_env \<Rightarrow> byte \<Rightarrow> server \<Rightarrow> unit res \<times> server" where
  "charAccTimerHandler env io i sv0 =
     (let sv = upd_ctx i (\<lambda>c. c\<lparr>ctx_accumulateTimer := None\<rparr>) sv0
      in catch_exceptions
        (if dataBuffer sv \<noteq> []
         then (case sendOutboundPayload env io i sv of
                 (Inl e, sv') \<Rightarrow> (Inl e, sv')
               | (Inr sent, sv') \<Rightarrow> (Inr (), if sent then sv' else enableAccumulateTimer i True sv'))
         else (Inr (), enableAccumulateTimer i True sv)))"

definition retryTimerHandler :: "lan_env \<Rightarrow> io_env \<Rightarrow> byte \<Rightarrow> server \<Rightarrow> unit res \<times> server" where
  "retryTimerHandler env io i sv0 =
     (let sv = upd_ctx i (\<lambda>c. c\<lparr>ctx_retryTimer := None\<rparr>) sv0
      in catch_exceptions
        (if ctx_retryCounter (ctx i sv) \<noteq> 0
         then resendPayload env io i False
                (enableRetryTimer i True (upd_ctx i (\<lambda>c. c\<lparr>ctx_retryCounter := ctx_retryCounter c - 1\<rparr>) sv))
         else (case resendPayload env io i True (upd_ctx i (\<lambda>c. c\<lparr>ctx_retryCounter := ctx_maxRetryCount c\<rparr>) sv) of
                 (Inl e, sv') \<Rightarrow> (Inl e, sv')
               | (Inr _, sv') \<Rightarrow> (Inr (), enableAccumulateTimer i True (enableRetryTimer i False sv')))))"

section \<open>The SOL manager\<close>

definition consoleInputHandler :: "byte list \<Rightarrow> server \<Rightarrow> server" where
  "consoleInputHandler input sv = (if sol_consoleSocket (srv_sol sv) then buffer_write input sv else sv)"

definition startHostConsole :: "io_env \<Rightarrow> server \<Rightarrow> unit res \<times> server" where
  "startHostConsole io sv =
     (if sol_consoleSocket (srv_sol sv) then (Inr (), sv)
      else if io_connect io then (Inr (), upd_sol (\<lambda>m. m\<lparr>sol_consoleSocket := True\<rparr>) sv)
      else (Inl Runtime_Error, upd_sol (\<lambda>m. m\<lparr>sol_consoleSocket := True\<rparr>) sv))"

definition stopHostConsole :: "server \<Rightarrow> server" where
  "stopHostConsole = upd_sol (\<lambda>m. m\<lparr>sol_consoleSocket := False\<rparr>)"

text \<open>The configuration on D-Bus: the properties that can be read, with intervals in their units.\<close>

record sol_properties =
  prop_progress :: byte
  prop_enable :: bool
  prop_forceEncrypt :: bool
  prop_forceAuth :: bool
  prop_privilege :: byte
  prop_accumulateInterval :: byte
  prop_threshold :: byte
  prop_retryCount :: byte
  prop_retryInterval :: byte

definition updateSOLParameter :: "sol_properties option \<Rightarrow> server \<Rightarrow> server" where
  "updateSOLParameter ps =
     (case ps of
        None \<Rightarrow> id
      | Some p \<Rightarrow> upd_sol (\<lambda>m. m\<lparr>sol_progress := prop_progress p, sol_enable := prop_enable p,
          sol_forceEncrypt := prop_forceEncrypt p, sol_forceAuth := prop_forceAuth p,
          sol_minPrivilege := prop_privilege p,
          sol_accumulateInterval := unat (prop_accumulateInterval p) * accIntervalFactor,
          sol_sendThreshold := prop_threshold p, sol_retryCount := prop_retryCount p,
          sol_retryInterval := unat (prop_retryInterval p) * retryIntervalFactor\<rparr>))"

text \<open>
  A change of the configuration: names with a value of either type. A value of the wrong type makes
  \<open>std::get\<close> throw and leaves the rest of the list.
\<close>

datatype sol_variant = V_bool bool | V_byte byte

fun sol_change :: "string \<Rightarrow> sol_variant \<Rightarrow> sol_manager \<Rightarrow> sol_manager res" where
  "sol_change n (V_byte v) m =
     (if n = ''Progress'' then Inr (m\<lparr>sol_progress := v\<rparr>)
      else if n \<in> {''Enable'', ''ForceEncryption'', ''ForceAuthentication''} then Inl Runtime_Error
      else if n = ''Privilege'' then Inr (m\<lparr>sol_minPrivilege := v\<rparr>)
      else if n = ''AccumulateIntervalMS'' then Inr (m\<lparr>sol_accumulateInterval := unat v * accIntervalFactor\<rparr>)
      else if n = ''Threshold'' then Inr (m\<lparr>sol_sendThreshold := v\<rparr>)
      else if n = ''RetryCount'' then Inr (m\<lparr>sol_retryCount := v\<rparr>)
      else if n = ''RetryIntervalMS'' then Inr (m\<lparr>sol_retryInterval := unat v * retryIntervalFactor\<rparr>)
      else Inr m)"
| "sol_change n (V_bool b) m =
     (if n = ''Enable'' then Inr (m\<lparr>sol_enable := b\<rparr>)
      else if n = ''ForceEncryption'' then Inr (m\<lparr>sol_forceEncrypt := b\<rparr>)
      else if n = ''ForceAuthentication'' then Inr (m\<lparr>sol_forceAuth := b\<rparr>)
      else if n \<in> {''Progress'', ''Privilege'', ''AccumulateIntervalMS'', ''Threshold'', ''RetryCount'', ''RetryIntervalMS''}
      then Inl Runtime_Error
      else Inr m)"

fun procSolConfChange :: "(string \<times> sol_variant) list \<Rightarrow> sol_manager \<Rightarrow> unit res \<times> sol_manager" where
  "procSolConfChange [] m = (Inr (), m)"
| "procSolConfChange ((n, v) # ps) m =
     (case sol_change n v m of Inl e \<Rightarrow> (Inl e, m) | Inr m' \<Rightarrow> procSolConfChange ps m')"

definition isPayloadActive :: "byte \<Rightarrow> server \<Rightarrow> bool" where
  "isPayloadActive i sv \<longleftrightarrow> map_of (sol_payloadMap (srv_sol sv)) i \<noteq> None"

text \<open>
  Both \<open>getContext\<close> build the text of their error by adding the number to the pointer to a string
  literal: with a number beyond its end a string is read from outside the literal.
\<close>

definition bad_literal :: "nat \<Rightarrow> nat \<Rightarrow> 'a res" where
  "bad_literal len n = Inl (if n \<le> len then Runtime_Error else Out_Of_Bounds)"

definition getContext_instance :: "byte \<Rightarrow> server \<Rightarrow> byte res" where
  "getContext_instance i sv =
     (if isPayloadActive i sv then Inr i else bad_literal (length ''Invalid SOL payload instance '') (unat i))"

definition getContext_session :: "32 word \<Rightarrow> server \<Rightarrow> byte res" where
  "getContext_session sid sv =
     (case find (\<lambda>(i, c). ctx_sessionID c = sid) (sol_payloadMap (srv_sol sv)) of
        Some (i, c) \<Rightarrow> Inr i
      | None \<Rightarrow> bad_literal (length ''Invalid SOL SessionID '') (unat sid))"

text \<open>\<open>Context::makeContext\<close>: the session is looked up, the accumulate timer armed.\<close>

definition makeContext :: "byte \<Rightarrow> 32 word \<Rightarrow> server \<Rightarrow> sol_context res" where
  "makeContext i sid sv =
     rbind (getSession sid BMC_SESSION_ID (srv_mgr sv)) (\<lambda>r.
       Inr \<lparr>ctx_accumulateTimer = Some (sol_accumulateInterval (srv_sol sv)), ctx_retryTimer = None,
         ctx_maxRetryCount = sol_retryCount (srv_sol sv), ctx_retryCounter = sol_retryCount (srv_sol sv),
         ctx_sendThreshold = sol_sendThreshold (srv_sol sv), ctx_payloadInstance = i, ctx_sessionID = sid,
         ctx_session = r, ctx_expectedCharCount = 0, ctx_in = 1, ctx_out = 0, ctx_payloadCache = []\<rparr>)"

definition startPayloadInstance :: "io_env \<Rightarrow> byte \<Rightarrow> 32 word \<Rightarrow> server \<Rightarrow> unit res \<times> server" where
  "startPayloadInstance io i sid sv =
     (case (if sol_payloadMap (srv_sol sv) = [] then startHostConsole io sv else (Inr (), sv)) of
        (Inl e, sv1) \<Rightarrow> (Inl e, stopHostConsole sv1)
      | (Inr _, sv1) \<Rightarrow>
          (case makeContext i sid sv1 of
             Inl e \<Rightarrow> (Inl e, sv1)
           | Inr c \<Rightarrow> (Inr (), upd_sol (\<lambda>m. m\<lparr>sol_payloadMap :=
               (if map_of (sol_payloadMap m) i = None then omap_update i c (sol_payloadMap m) else sol_payloadMap m)\<rparr>) sv1)))"

definition stopPayloadInstance :: "byte \<Rightarrow> server \<Rightarrow> unit res \<times> server" where
  "stopPayloadInstance i sv =
     (if \<not> isPayloadActive i sv then (Inl Runtime_Error, sv)
      else (let sv1 = upd_sol (\<lambda>m. m\<lparr>sol_payloadMap := filter (\<lambda>(k, c). k \<noteq> i) (sol_payloadMap m)\<rparr>) sv
            in (Inr (), if sol_payloadMap (srv_sol sv1) = []
                 then buffer_erase (length (dataBuffer sv1)) (stopHostConsole sv1) else sv1)))"

definition stopAllPayloadInstance :: "server \<Rightarrow> server" where
  "stopAllPayloadInstance sv =
     (let sv1 = stopHostConsole (upd_sol (\<lambda>m. m\<lparr>sol_payloadMap := []\<rparr>) sv)
      in buffer_erase (length (dataBuffer sv1)) sv1)"

section \<open>The payload commands\<close>

definition IPMI_CC_PAYLOAD_ALREADY_ACTIVE :: byte where "IPMI_CC_PAYLOAD_ALREADY_ACTIVE = 0x80"
definition IPMI_CC_PAYLOAD_TYPE_DISABLED :: byte where "IPMI_CC_PAYLOAD_TYPE_DISABLED = 0x81"
definition IPMI_CC_PAYLOAD_WITHOUT_ENCRYPTION :: byte where "IPMI_CC_PAYLOAD_WITHOUT_ENCRYPTION = 0x84"
definition IPMI_CC_PAYLOAD_DEACTIVATED :: byte where "IPMI_CC_PAYLOAD_DEACTIVATED = 0x80"
definition IPMI_STD_PORT :: nat where "IPMI_STD_PORT = 623"
definition netfnTransport :: byte where "netfnTransport = 0x0C"
definition solActivatingCmd :: byte where "solActivatingCmd = 0x20"

lemmas payload_codes = IPMI_CC_PAYLOAD_ALREADY_ACTIVE_def IPMI_CC_PAYLOAD_TYPE_DISABLED_def
  IPMI_CC_PAYLOAD_WITHOUT_ENCRYPTION_def IPMI_CC_PAYLOAD_DEACTIVATED_def

text \<open>
  The outside of the payload commands: the configuration read from D-Bus, and whether the user layer
  grants a user the SOL payload on a channel.
\<close>

record sol_env =
  se_properties :: "sol_properties option"
  se_payloadAccess :: "byte \<Rightarrow> byte \<Rightarrow> bool"

definition activate_error :: "byte \<Rightarrow> byte list" where
  "activate_error cc = cc # replicate 12 0"

definition activatePayload :: "lan_env \<Rightarrow> io_env \<Rightarrow> sol_env \<Rightarrow> byte list \<Rightarrow> channel option \<Rightarrow> nat \<Rightarrow> 32 word \<Rightarrow> server \<Rightarrow>
    byte list res \<times> server" where
  "activatePayload env io se p ch own sessionID sv0 =
     (if length p \<noteq> 6 then (Inr [IPMI_CC_REQ_DATA_LEN_INVALID], sv0)
      else if p ! 0 AND 0x3F \<noteq> PT_SOL then (Inr (activate_error IPMI_CC_INVALID_FIELD_REQUEST), sv0)
      else
        (let sv = updateSOLParameter (se_properties se) sv0; inst = p ! 1 AND 0xF
         in if \<not> sol_enable (srv_sol sv) then (Inr (activate_error IPMI_CC_PAYLOAD_TYPE_DISABLED), sv)
            else if inst \<noteq> 1 then (Inr (activate_error IPMI_CC_INVALID_FIELD_REQUEST), sv)
            else case getSession sessionID BMC_SESSION_ID (srv_mgr sv) of
              Inl e \<Rightarrow> (Inl e, sv)
            | Inr r \<Rightarrow>
                (let s = obj (srv_mgr sv) r
                 in if p ! 2 AND 0x80 = 0 \<and> ses_cryptAlgo s \<noteq> None
                    then (Inr (activate_error IPMI_CC_PAYLOAD_WITHOUT_ENCRYPTION), sv)
                    else if \<not> se_payloadAccess se (si_channelNum (ses_info s)) (env_userGetUserId env (ses_userName s))
                    then (Inr (activate_error IPMI_CC_PAYLOAD_TYPE_DISABLED), sv)
                    else if isPayloadActive inst sv then (Inr (activate_error IPMI_CC_PAYLOAD_ALREADY_ACTIVE), sv)
                    else
                      (let sv1 = sv\<lparr>srv_mgr := upd_obj own (\<lambda>s. s\<lparr>ses_channelPtr := ch\<rparr>) (srv_mgr sv)\<rparr>
                       in case startPayloadInstance io inst sessionID sv1 of
                            (Inl e, sv2) \<Rightarrow>
                              (if is_exception e then Inr (activate_error IPMI_CC_UNSPECIFIED_ERROR) else Inl e, sv2)
                          | (Inr _, sv2) \<Rightarrow>
                              (Inr ([IPMI_CC_OK, 0, 0, 0, 0] @ to_le 2 MAX_PAYLOAD_SIZE @ to_le 2 MAX_PAYLOAD_SIZE @
                                 to_le 2 IPMI_STD_PORT @ [0xFF, 0xFF]), sv2)))))"

definition activating :: "lan_env \<Rightarrow> io_env \<Rightarrow> byte \<Rightarrow> 32 word \<Rightarrow> server \<Rightarrow> unit res \<times> server" where
  "activating env io i sid sv =
     (case getSession sid BMC_SESSION_ID (srv_mgr sv) of
        Inl e \<Rightarrow> (Inl e, sv)
      | Inr r \<Rightarrow> sendUnsolicitedIPMIPayload env io (ses_channelPtr (obj (srv_mgr sv) r)) sid netfnTransport
          solActivatingCmd [0, i, 1, 0] sv)"

definition deactivatePayload :: "lan_env \<Rightarrow> io_env \<Rightarrow> byte list \<Rightarrow> server \<Rightarrow> byte list res \<times> server" where
  "deactivatePayload env io p sv =
     (if length p \<noteq> 6 then (Inr [IPMI_CC_REQ_DATA_LEN_INVALID], sv)
      else if p ! 0 AND 0x3F \<noteq> PT_SOL \<or> p ! 1 AND 0xF \<noteq> 1 then (Inr [IPMI_CC_INVALID_FIELD_REQUEST], sv)
      else if \<not> isPayloadActive 1 sv then (Inr [IPMI_CC_PAYLOAD_DEACTIVATED], sv)
      else
        (let sid = ctx_sessionID (ctx 1 sv)
         in case stopPayloadInstance 1 sv of
              (Inl e, sv1) \<Rightarrow> (if is_exception e then Inr [IPMI_CC_UNSPECIFIED_ERROR] else Inl e, sv1)
            | (Inr _, sv1) \<Rightarrow>
                (case catch_exceptions (activating env io 1 sid sv1) of
                   (Inl e, sv2) \<Rightarrow> (Inl e, sv2)
                 | (Inr _, sv2) \<Rightarrow> (Inr [IPMI_CC_OK], sv2))))"

definition getPayloadStatus :: "byte list \<Rightarrow> server \<Rightarrow> byte list" where
  "getPayloadStatus p sv =
     (if length p \<noteq> 1 then [IPMI_CC_REQ_DATA_LEN_INVALID]
      else if p ! 0 \<noteq> PT_SOL then [IPMI_CC_UNSPECIFIED_ERROR, 0, 0, 0]
      else [IPMI_CC_OK, 1, (if isPayloadActive 1 sv then 1 else 0), 0])"

definition getPayloadInfo :: "byte list \<Rightarrow> server \<Rightarrow> byte list" where
  "getPayloadInfo p sv =
     (if length p \<noteq> 2 then [IPMI_CC_REQ_DATA_LEN_INVALID]
      else if p ! 0 \<noteq> PT_SOL \<or> p ! 1 \<noteq> 1 then IPMI_CC_INVALID_FIELD_REQUEST # replicate 12 0
      else [IPMI_CC_OK] @ id_bytes (if isPayloadActive 1 sv then ctx_sessionID (ctx 1 sv) else 0) @ replicate 8 0)"

text \<open>The handler of SOL packets; its reply, an empty vector, is never sent.\<close>

definition payloadHandler :: "lan_env \<Rightarrow> io_env \<Rightarrow> byte list \<Rightarrow> 32 word \<Rightarrow> server \<Rightarrow> byte list res \<times> server" where
  "payloadHandler env io p sessionID sv =
     (if length p < sol_header_size then (Inr [], sv)
      else case catch_exceptions (case getContext_session sessionID sv of
               Inl e \<Rightarrow> (Inl e, sv)
             | Inr i \<Rightarrow> processInboundPayload env io i (p ! 0) (p ! 1) (p ! 2) (p ! 3 AND 0x40 \<noteq> 0)
                 (p ! 3 AND 0x10 \<noteq> 0) (drop sol_header_size p) sv) of
             (Inl e, sv') \<Rightarrow> (Inl e, sv')
           | (Inr _, sv') \<Rightarrow> (Inr [], sv'))"

section \<open>What the operations change\<close>

lemma upd_sol_frame [simp]:
  "srv_mgr (upd_sol f sv) = srv_mgr sv" "srv_sends (upd_sol f sv) = srv_sends sv" "srv_wire (upd_sol f sv) = srv_wire sv"
  "srv_writes (upd_sol f sv) = srv_writes sv" "srv_console (upd_sol f sv) = srv_console sv"
  "srv_sol (upd_sol f sv) = f (srv_sol sv)"
  by (simp_all add: upd_sol_def)

lemma upd_ctx_frame [simp]:
  "srv_mgr (upd_ctx i f sv) = srv_mgr sv" "srv_sends (upd_ctx i f sv) = srv_sends sv" "srv_wire (upd_ctx i f sv) = srv_wire sv"
  "srv_writes (upd_ctx i f sv) = srv_writes sv" "srv_console (upd_ctx i f sv) = srv_console sv"
  "dataBuffer (upd_ctx i f sv) = dataBuffer sv" "sol_consoleSocket (srv_sol (upd_ctx i f sv)) = sol_consoleSocket (srv_sol sv)"
  by (simp_all add: upd_ctx_def dataBuffer_def)

lemma buffer_frame [simp]:
  "srv_mgr (buffer_erase n sv) = srv_mgr sv" "srv_wire (buffer_erase n sv) = srv_wire sv"
  "srv_console (buffer_erase n sv) = srv_console sv" "srv_writes (buffer_erase n sv) = srv_writes sv"
  "dataBuffer (buffer_erase n sv) = drop n (dataBuffer sv)" "ctx i (buffer_erase n sv) = ctx i sv"
  "sol_payloadMap (srv_sol (buffer_erase n sv)) = sol_payloadMap (srv_sol sv)"
  "sol_consoleSocket (srv_sol (buffer_erase n sv)) = sol_consoleSocket (srv_sol sv)"
  by (simp_all add: buffer_erase_def dataBuffer_def ctx_def)

text \<open>The daemon serves one payload at a time, instance 1.\<close>

definition has_ctx :: "server \<Rightarrow> bool" where
  "has_ctx sv \<longleftrightarrow> (\<exists>c. sol_payloadMap (srv_sol sv) = [(1, c)])"

lemma has_ctx_map: "has_ctx sv \<Longrightarrow> sol_payloadMap (srv_sol sv) = [(1, ctx 1 sv)]"
  by (auto simp: has_ctx_def ctx_def)

lemma has_ctx_upd [simp]: "has_ctx (upd_ctx 1 f sv) = has_ctx sv"
  by (cases "sol_payloadMap (srv_sol sv)") (auto simp: has_ctx_def upd_ctx_def)

lemma ctx_upd [simp]: "has_ctx sv \<Longrightarrow> ctx 1 (upd_ctx 1 f sv) = f (ctx 1 sv)"
  by (auto simp: has_ctx_def ctx_def upd_ctx_def)

lemma has_ctx_erase [simp]: "has_ctx (buffer_erase n sv) = has_ctx sv"
  by (simp add: has_ctx_def)

lemma timers_frame [simp]:
  "srv_mgr (enableAccumulateTimer i b sv) = srv_mgr sv" "srv_mgr (enableRetryTimer i b sv) = srv_mgr sv"
  "srv_wire (enableAccumulateTimer i b sv) = srv_wire sv" "srv_wire (enableRetryTimer i b sv) = srv_wire sv"
  "srv_console (enableAccumulateTimer i b sv) = srv_console sv" "srv_console (enableRetryTimer i b sv) = srv_console sv"
  "srv_writes (enableAccumulateTimer i b sv) = srv_writes sv" "srv_writes (enableRetryTimer i b sv) = srv_writes sv"
  "dataBuffer (enableAccumulateTimer i b sv) = dataBuffer sv" "dataBuffer (enableRetryTimer i b sv) = dataBuffer sv"
  "has_ctx (enableAccumulateTimer 1 b sv) = has_ctx sv" "has_ctx (enableRetryTimer 1 b sv) = has_ctx sv"
  "sol_consoleSocket (srv_sol (enableAccumulateTimer i b sv)) = sol_consoleSocket (srv_sol sv)"
  "sol_consoleSocket (srv_sol (enableRetryTimer i b sv)) = sol_consoleSocket (srv_sol sv)"
  by (simp_all add: enableAccumulateTimer_def enableRetryTimer_def)



text \<open>Sending touches neither the SOL manager nor the console.\<close>

lemma handler_send_frame [simp]:
  "srv_sol (snd (handler_send env io ch msg hdr r sv)) = srv_sol sv"
  "srv_console (snd (handler_send env io ch msg hdr r sv)) = srv_console sv"
  "srv_writes (snd (handler_send env io ch msg hdr r sv)) = srv_writes sv"
  by (auto simp: handler_send_def Let_def split: prod.split sum.split option.split)

lemma sendPayload_frame [simp]:
  "srv_sol (snd (sendPayload env io i out sv)) = srv_sol sv"
  "srv_console (snd (sendPayload env io i out sv)) = srv_console sv"
  "srv_writes (snd (sendPayload env io i out sv)) = srv_writes sv"
  by (simp_all add: sendPayload_def sendSOLPayload_def split: sum.split)

lemma same_sol: "srv_sol sv' = srv_sol sv \<Longrightarrow> has_ctx sv' = has_ctx sv \<and> ctx i sv' = ctx i sv \<and> dataBuffer sv' = dataBuffer sv"
  by (simp add: has_ctx_def ctx_def dataBuffer_def)

lemma sendPayload_sol [simp]:
  "has_ctx (snd (sendPayload env io i out sv)) = has_ctx sv" "ctx j (snd (sendPayload env io i out sv)) = ctx j sv"
  "dataBuffer (snd (sendPayload env io i out sv)) = dataBuffer sv"
  using same_sol [OF sendPayload_frame(1)] by simp_all

lemma writeConsole_frame [simp]:
  "srv_mgr (snd (writeConsoleSocket io xs b sv)) = srv_mgr sv" "srv_sol (snd (writeConsoleSocket io xs b sv)) = srv_sol sv"
  "srv_wire (snd (writeConsoleSocket io xs b sv)) = srv_wire sv"
  by (auto simp: writeConsoleSocket_def Let_def split: option.split)

lemma inbound_parts_frame [simp]:
  "srv_sol (snd (inbound_break io sq b sv)) = srv_sol sv" "srv_mgr (snd (inbound_break io sq b sv)) = srv_mgr sv"
  "srv_sol (snd (inbound_chars io sq xs sv)) = srv_sol sv" "srv_mgr (snd (inbound_chars io sq xs sv)) = srv_mgr sv"
  using writeConsole_frame [of io "[sysrqValue]" True sv] writeConsole_frame [of io xs False sv]
  by (auto simp: inbound_break_def inbound_chars_def split: prod.split sum.split simp del: writeConsole_frame)

lemma catch_exceptions_state [simp]: "snd (catch_exceptions x) = snd x"
  by (auto simp: catch_exceptions_def split: prod.split sum.split)

section \<open>The flow of console data\<close>

text \<open>
  What of the state decides which data is sent: the buffer and, of the context, the expected count,
  the sequence numbers and the cached payload. Every operation on a context is a function of it,
  whether or not its packets can be sent.
\<close>

record flow =
  fl_buffer :: "byte list"
  fl_expected :: nat
  fl_in :: byte
  fl_out :: byte
  fl_cache :: "byte list"
  fl_open :: bool

definition flow :: "server \<Rightarrow> flow" where
  "flow sv = \<lparr>fl_buffer = dataBuffer sv, fl_expected = ctx_expectedCharCount (ctx 1 sv), fl_in = ctx_in (ctx 1 sv),
     fl_out = ctx_out (ctx 1 sv), fl_cache = ctx_payloadCache (ctx 1 sv),
     fl_open = sol_consoleSocket (srv_sol sv)\<rparr>"

definition flow_fill :: "byte \<Rightarrow> byte \<Rightarrow> bool \<Rightarrow> flow \<Rightarrow> flow" where
  "flow_fill a n nack f = (let k = min (length (fl_buffer f)) MAX_PAYLOAD_SIZE; sq = next_seq (fl_out f)
     in f\<lparr>fl_expected := k, fl_out := sq, fl_cache := sol_payload sq a n nack (take k (fl_buffer f))\<rparr>)"

definition flow_answer :: "byte \<Rightarrow> byte \<Rightarrow> byte \<Rightarrow> bool \<Rightarrow> flow \<Rightarrow> flow" where
  "flow_answer threshold a n nack f =
     (if fl_cache f \<noteq> [] \<or> length (fl_buffer f) < unat threshold then f else flow_fill a n nack f)"

definition flow_ack :: "byte \<Rightarrow> byte \<Rightarrow> flow \<Rightarrow> flow" where
  "flow_ack ackSeq count f = (if unat count = fl_expected f \<and> ackSeq \<noteq> 0
     then f\<lparr>fl_buffer := drop (unat count) (fl_buffer f), fl_expected := 0, fl_cache := []\<rparr> else f)"

lemma flow_sel [simp]:
  "fl_buffer (flow sv) = dataBuffer sv" "fl_expected (flow sv) = ctx_expectedCharCount (ctx 1 sv)"
  "fl_in (flow sv) = ctx_in (ctx 1 sv)" "fl_out (flow sv) = ctx_out (ctx 1 sv)"
  "fl_cache (flow sv) = ctx_payloadCache (ctx 1 sv)" "fl_open (flow sv) = sol_consoleSocket (srv_sol sv)"
  by (simp_all add: flow_def)

lemma flow_same [simp]: "flow (snd (sendPayload env io i out sv)) = flow sv"
  by (simp add: flow_def)

lemma flow_timers [simp]:
  assumes "has_ctx sv"
  shows "flow (enableAccumulateTimer 1 b sv) = flow sv" "flow (enableRetryTimer 1 b sv) = flow sv"
    and "ctx_sendThreshold (ctx 1 (enableAccumulateTimer 1 b sv)) = ctx_sendThreshold (ctx 1 sv)"
    and "ctx_sendThreshold (ctx 1 (enableRetryTimer 1 b sv)) = ctx_sendThreshold (ctx 1 sv)"
  using assms by (simp_all add: flow_def enableAccumulateTimer_def enableRetryTimer_def)

lemma ctx_timers [simp]:
  assumes "has_ctx sv"
  shows "ctx_in (ctx 1 (enableAccumulateTimer 1 b sv)) = ctx_in (ctx 1 sv)" "ctx_in (ctx 1 (enableRetryTimer 1 b sv)) = ctx_in (ctx 1 sv)"
    and "ctx_out (ctx 1 (enableAccumulateTimer 1 b sv)) = ctx_out (ctx 1 sv)" "ctx_out (ctx 1 (enableRetryTimer 1 b sv)) = ctx_out (ctx 1 sv)"
    and "ctx_expectedCharCount (ctx 1 (enableAccumulateTimer 1 b sv)) = ctx_expectedCharCount (ctx 1 sv)"
    and "ctx_expectedCharCount (ctx 1 (enableRetryTimer 1 b sv)) = ctx_expectedCharCount (ctx 1 sv)"
    and "ctx_payloadCache (ctx 1 (enableAccumulateTimer 1 b sv)) = ctx_payloadCache (ctx 1 sv)"
    and "ctx_payloadCache (ctx 1 (enableRetryTimer 1 b sv)) = ctx_payloadCache (ctx 1 sv)"
  using assms by (simp_all add: enableAccumulateTimer_def enableRetryTimer_def)

lemma flow_upd_ctx: "has_ctx sv \<Longrightarrow> flow (upd_ctx 1 g sv) = \<lparr>fl_buffer = dataBuffer sv,
    fl_expected = ctx_expectedCharCount (g (ctx 1 sv)), fl_in = ctx_in (g (ctx 1 sv)), fl_out = ctx_out (g (ctx 1 sv)),
    fl_cache = ctx_payloadCache (g (ctx 1 sv)), fl_open = sol_consoleSocket (srv_sol sv)\<rparr>"
  by (simp add: flow_def)

lemma has_ctx_fill [simp]: "has_ctx (fill_cache 1 a n nack sv) = has_ctx sv"
  by (simp add: fill_cache_def incOutboundSeqNum_def Let_def)

lemma flow_fill_cache [simp]: "has_ctx sv \<Longrightarrow> flow (fill_cache 1 a n nack sv) = flow_fill a n nack (flow sv)"
  by (simp add: fill_cache_def incOutboundSeqNum_def Let_def flow_upd_ctx flow_fill_def)

lemma flow_prepareResponse:
  assumes "has_ctx sv"
  shows "flow (snd (prepareResponse env io 1 a n nack sv)) = flow_answer (ctx_sendThreshold (ctx 1 sv)) a n nack (flow sv)"
    and "has_ctx (snd (prepareResponse env io 1 a n nack sv))"
  using assms by (simp_all add: prepareResponse_def flow_answer_def Let_def)

lemma flow_sendOutbound:
  assumes "has_ctx sv"
  shows "flow (snd (sendOutboundPayload env io 1 sv)) = (if ctx_payloadCache (ctx 1 sv) = [] then flow_fill 0 0 False (flow sv) else flow sv)"
    and "has_ctx (snd (sendOutboundPayload env io 1 sv))"
proof -
  let ?sv = "fill_cache 1 0 0 False sv"
  have "snd (case sendPayload env io 1 x ?sv of (Inl e, s) \<Rightarrow> (Inl e, s) | (Inr _, s) \<Rightarrow> (Inr True, s)) =
      snd (sendPayload env io 1 x ?sv)" for x
    by (auto split: prod.split sum.split)
  then show "flow (snd (sendOutboundPayload env io 1 sv)) = (if ctx_payloadCache (ctx 1 sv) = [] then flow_fill 0 0 False (flow sv) else flow sv)"
    "has_ctx (snd (sendOutboundPayload env io 1 sv))"
    using assms by (simp_all add: sendOutboundPayload_def Let_def)
qed

lemma flow_resend:
  assumes "has_ctx sv" "resendPayload env io 1 clear sv = (x, sv')"
  shows "has_ctx sv'" "flow sv' = (if clear \<and> x = Inr () then (flow sv)\<lparr>fl_cache := [], fl_expected := 0\<rparr> else flow sv)"
proof -
  obtain y s where s: "sendPayload env io 1 (ctx_payloadCache (ctx 1 sv)) sv = (y, s)" by fastforce
  have h: "has_ctx s" "flow s = flow sv"
    using assms(1) sendPayload_sol(1) [of env io 1 "ctx_payloadCache (ctx 1 sv)" sv] flow_same [of env io 1 "ctx_payloadCache (ctx 1 sv)" sv]
    unfolding s by simp_all
  have e: "flow (buffer_erase 0 t) = flow t" for t by (simp add: flow_def)
  have "flow (upd_ctx 1 (\<lambda>c. c\<lparr>ctx_payloadCache := [], ctx_expectedCharCount := 0\<rparr>) s) = (flow sv)\<lparr>fl_cache := [], fl_expected := 0\<rparr>"
    using h(1) unfolding h(2) [symmetric] by (simp add: flow_upd_ctx)
  with h assms(2) show "has_ctx sv'" "flow sv' = (if clear \<and> x = Inr () then (flow sv)\<lparr>fl_cache := [], fl_expected := 0\<rparr> else flow sv)"
    by (cases y; cases clear; auto simp: resendPayload_def s Let_def e)+
qed

lemma flow_inbound_ack:
  assumes "has_ctx sv"
  shows "flow (inbound_ack 1 a n sv) = flow_ack a n (flow sv)" "has_ctx (inbound_ack 1 a n sv)"
    and "ctx_sendThreshold (ctx 1 (inbound_ack 1 a n sv)) = ctx_sendThreshold (ctx 1 sv)"
    and "sol_consoleSocket (srv_sol (inbound_ack 1 a n sv)) = sol_consoleSocket (srv_sol sv)"
proof -
  have "flow (buffer_erase k sv) = (flow sv)\<lparr>fl_buffer := drop k (dataBuffer sv)\<rparr>" for k by (simp add: flow_def)
  moreover have "ctx_sendThreshold (ctx 1 (enableRetryTimer 1 False (buffer_erase k sv))) = ctx_sendThreshold (ctx 1 sv)" for k
    using assms by simp
  ultimately show "flow (inbound_ack 1 a n sv) = flow_ack a n (flow sv)" "has_ctx (inbound_ack 1 a n sv)"
      "ctx_sendThreshold (ctx 1 (inbound_ack 1 a n sv)) = ctx_sendThreshold (ctx 1 sv)"
      "sol_consoleSocket (srv_sol (inbound_ack 1 a n sv)) = sol_consoleSocket (srv_sol sv)"
    using assms flow_timers(1,2) [of "buffer_erase (unat n) sv"]
    by (simp_all add: inbound_ack_def flow_ack_def flow_upd_ctx)
qed

lemma console_open_parts:
  assumes "sol_consoleSocket (srv_sol sv)"
  obtains sv1 where "inbound_break io sq b sv = (Inr (), sv1)" "srv_sol sv1 = srv_sol sv"
    and "\<exists>ra rn nk. fst (inbound_chars io sq xs sv) = Inr (ra, rn, nk)"
proof -
  have w: "\<exists>ok. fst (writeConsoleSocket io ys b' sv) = Inr ok" for ys b'
    using assms by (auto simp: writeConsoleSocket_def Let_def split: option.split)
  have "fst (inbound_break io sq b sv) = Inr ()"
    using w [of "[sysrqValue]" True] by (auto simp: inbound_break_def split: prod.split)
  then have e: "inbound_break io sq b sv = (Inr (), snd (inbound_break io sq b sv))" by (metis prod.collapse)
  have "\<exists>ra rn nk. fst (inbound_chars io sq xs sv) = Inr (ra, rn, nk)"
    using w [of xs False] by (auto simp: inbound_chars_def split: prod.split)
  from that [OF e inbound_parts_frame(1) this] show thesis .
qed

definition inbound_accepted :: "byte \<Rightarrow> byte \<Rightarrow> byte \<Rightarrow> bool \<Rightarrow> flow \<Rightarrow> bool" where
  "inbound_accepted sq a n status f \<longleftrightarrow> (sq = 0 \<or> sq = fl_in f) \<and> (a = 0 \<or> a = fl_out f) \<and>
     \<not> status \<and> (a = 0 \<or> unat n = fl_expected f)"

lemma flow_processInbound:
  assumes "has_ctx sv" "sol_consoleSocket (srv_sol sv)"
  obtains ra rn nk where
    "flow (snd (processInboundPayload env io 1 sq a n status brk xs sv)) =
       (if inbound_accepted sq a n status (flow sv)
        then (if sq \<noteq> 0 then flow_answer (ctx_sendThreshold (ctx 1 sv)) ra rn nk ((flow_ack a n (flow sv))\<lparr>fl_in := next_seq (fl_in (flow sv))\<rparr>)
              else flow_ack a n (flow sv))
        else flow sv)"
    and "has_ctx (snd (processInboundPayload env io 1 sq a n status brk xs sv))"
    and "inbound_accepted sq a n status (flow sv) \<Longrightarrow> sq = 0 \<Longrightarrow>
       ctx_accumulateTimer (ctx 1 (snd (processInboundPayload env io 1 sq a n status brk xs sv))) \<noteq> None"
proof (cases "inbound_accepted sq a n status (flow sv)")
  case False
  obtain x sv' where r: "resendPayload env io 1 False sv = (x, sv')" by fastforce
  have "flow sv' = flow sv" "has_ctx sv'" using flow_resend [OF assms(1) r] by simp_all
  then have "flow (snd (processInboundPayload env io 1 sq a n status brk xs sv)) = flow sv"
      "has_ctx (snd (processInboundPayload env io 1 sq a n status brk xs sv))"
    using False assms(1) by (cases x; auto simp: processInboundPayload_def r inbound_accepted_def)+
  with False show thesis by (intro that) simp_all
next
  case True
  let ?sv0 = "inbound_ack 1 a n sv"
  note k = flow_inbound_ack [OF assms(1), of a n]
  obtain sv1 where b: "inbound_break io sq brk ?sv0 = (Inr (), sv1)" and s1: "srv_sol sv1 = srv_sol ?sv0"
    using console_open_parts [of ?sv0 io sq brk] k(4) assms(2) by auto
  obtain ra rn nk where "fst (inbound_chars io sq xs sv1) = Inr (ra, rn, nk)"
    using console_open_parts [of sv1 io sq _ xs] s1 k(4) assms(2) by metis
  then obtain sv2 where c: "inbound_chars io sq xs sv1 = (Inr (ra, rn, nk), sv2)" by (metis prod.collapse)
  have s2: "srv_sol sv2 = srv_sol ?sv0" using s1 inbound_parts_frame(3) [of io sq xs sv1] unfolding c by simp
  have h2: "has_ctx sv2" "ctx 1 sv2 = ctx 1 ?sv0" "flow sv2 = flow ?sv0"
    using same_sol [OF s2] k(2) s2 by (simp_all add: flow_def)
  have e: "processInboundPayload env io 1 sq a n status brk xs sv =
      (if sq \<noteq> 0 then prepareResponse env io 1 ra rn nk (upd_ctx 1 incInboundSeqNum sv2)
       else (Inr (), enableAccumulateTimer 1 True sv2))"
  proof -
    have c1: "(sq \<noteq> 0 \<and> sq \<noteq> ctx_in (ctx 1 sv)) = False" and c2: "(a \<noteq> 0 \<and> a \<noteq> ctx_out (ctx 1 sv)) = False"
      and c3: "(status \<or> unat n \<noteq> ctx_expectedCharCount (ctx 1 sv) \<and> a \<noteq> 0) = False"
      using True by (auto simp: inbound_accepted_def)
    show ?thesis by (simp only: processInboundPayload_def c1 c2 c3 if_False b c sum.case prod.case)
  qed
  have fi: "fl_in (flow_ack a n (flow sv)) = fl_in (flow sv)" by (simp add: flow_ack_def)
  have inc: "flow (upd_ctx 1 incInboundSeqNum sv2) = (flow_ack a n (flow sv))\<lparr>fl_in := next_seq (fl_in (flow sv))\<rparr>"
  proof -
    have "flow (upd_ctx 1 incInboundSeqNum sv2) = (flow sv2)\<lparr>fl_in := next_seq (fl_in (flow sv2))\<rparr>"
      using h2(1) by (simp add: flow_upd_ctx incInboundSeqNum_def flow_def)
    then show ?thesis unfolding h2(3) k(1) fi .
  qed
  have th: "ctx_sendThreshold (ctx 1 (upd_ctx 1 incInboundSeqNum sv2)) = ctx_sendThreshold (ctx 1 sv)"
    using h2(1) k(3) by (simp add: incInboundSeqNum_def h2(2))
  have h3: "has_ctx (upd_ctx 1 incInboundSeqNum sv2)" using h2(1) by simp
  have acc: "ctx_accumulateTimer (ctx 1 (enableAccumulateTimer 1 True sv2)) \<noteq> None"
    using h2(1) by (simp add: enableAccumulateTimer_def)
  note p = flow_prepareResponse [OF h3, of env io ra rn nk, unfolded th inc]
  show thesis
  proof (cases "sq = 0")
    case z: True
    have "flow (enableAccumulateTimer 1 True sv2) = flow_ack a n (flow sv)" "has_ctx (enableAccumulateTimer 1 True sv2)"
      unfolding flow_timers(1) [OF h2(1)] using h2(1) by (simp_all only: h2(3) k(1) timers_frame)
    then show thesis
      by (intro that [of 0 0 False]) (use True acc e in \<open>simp_all only: z if_True if_False simp_thms snd_conv\<close>)
  next
    case False
    then show thesis
      by (intro that [of ra rn nk]) (use True p in \<open>simp_all only: e if_True if_False simp_thms\<close>)
  qed
qed

section \<open>Console data arrives in order\<close>

text \<open>What happens to an active payload: data from the host, timers, packets of the remote console.\<close>

datatype sol_event = Host_Data "byte list" | Accumulate_Expires | Retry_Expires
  | Inbound byte byte byte bool bool "byte list"

fun sol_step :: "lan_env \<Rightarrow> io_env \<Rightarrow> sol_event \<Rightarrow> server \<Rightarrow> server" where
  "sol_step env io (Host_Data xs) sv = consoleInputHandler xs sv"
| "sol_step env io Accumulate_Expires sv =
     (if ctx_accumulateTimer (ctx 1 sv) = None then sv else snd (charAccTimerHandler env io 1 sv))"
| "sol_step env io Retry_Expires sv =
     (if ctx_retryTimer (ctx 1 sv) = None then sv else snd (retryTimerHandler env io 1 sv))"
| "sol_step env io (Inbound sq a n status brk xs) sv = snd (processInboundPayload env io 1 sq a n status brk xs sv)"

definition sol_run :: "lan_env \<Rightarrow> io_env \<Rightarrow> sol_event list \<Rightarrow> server \<Rightarrow> server" where
  "sol_run env io evs sv = fold (sol_step env io) evs sv"

fun host_data :: "sol_event \<Rightarrow> byte list" where
  "host_data (Host_Data xs) = xs"
| "host_data _ = []"

text \<open>
  The data that a packet of the remote console acknowledges: that of the payload in the cache, if the
  packet is accepted and names its sequence number.
\<close>

fun acknowledged :: "server \<Rightarrow> sol_event \<Rightarrow> byte list" where
  "acknowledged sv (Inbound sq a n status brk xs) =
     (if inbound_accepted sq a n status (flow sv) \<and> a \<noteq> 0 then drop sol_header_size (ctx_payloadCache (ctx 1 sv)) else [])"
| "acknowledged sv _ = []"

fun acknowledged_data :: "lan_env \<Rightarrow> io_env \<Rightarrow> sol_event list \<Rightarrow> server \<Rightarrow> byte list" where
  "acknowledged_data env io [] sv = []"
| "acknowledged_data env io (ev # evs) sv = acknowledged sv ev @ acknowledged_data env io evs (sol_step env io ev sv)"

text \<open>
  A flow is in order if the payload in the cache carries the first bytes of the buffer, under the
  outbound sequence number and as many as are expected to be acknowledged.
\<close>

definition flow_ok :: "flow \<Rightarrow> bool" where
  "flow_ok f \<longleftrightarrow> fl_open f \<and> fl_expected f \<le> MAX_PAYLOAD_SIZE \<and> fl_expected f \<le> length (fl_buffer f) \<and>
     0 < fl_in f \<and> fl_in f < MAX_SOL_SEQUENCE_NUMBER \<and> fl_out f < MAX_SOL_SEQUENCE_NUMBER \<and>
     (if fl_cache f = [] then fl_expected f = 0
      else fl_out f \<noteq> 0 \<and> (\<exists>a n nack. fl_cache f = sol_payload (fl_out f) a n nack (take (fl_expected f) (fl_buffer f))))"

definition payload_ok :: "server \<Rightarrow> bool" where
  "payload_ok sv \<longleftrightarrow> has_ctx sv \<and> flow_ok (flow sv)"

lemma next_seq_range:
  assumes "n < MAX_SOL_SEQUENCE_NUMBER"
  shows "next_seq n \<noteq> 0" "0 < next_seq n" "next_seq n < MAX_SOL_SEQUENCE_NUMBER" "next_seq n \<noteq> n"
proof -
  have "unat n < 16" using assms by (simp add: MAX_SOL_SEQUENCE_NUMBER_def)
  then have "unat n \<in> set [0..<16]" by simp
  then have "(of_nat (unat n) :: byte) \<in> of_nat ` set [0..<16]" by (rule imageI)
  then have "n \<in> {0, 1, 2, 3, 4, 5, 6, 7, 8, 9, 10, 11, 12, 13, 14, 15}"
    by (simp add: upt_conv_Cons)
  then show "next_seq n \<noteq> 0" "0 < next_seq n" "next_seq n < MAX_SOL_SEQUENCE_NUMBER" "next_seq n \<noteq> n"
    by (elim insertE; simp add: next_seq_def MAX_SOL_SEQUENCE_NUMBER_def)+
qed

lemma flow_fill_ok:
  assumes "flow_ok f"
  shows "flow_ok (flow_fill a n nack f)"
proof -
  have "sol_payload sq a n nack xs \<noteq> []" for sq xs by (simp add: sol_payload_def)
  then show ?thesis
    using assms next_seq_range [of "fl_out f"] by (auto simp: flow_ok_def flow_fill_def Let_def)
qed

lemma flow_answer_ok: "flow_ok f \<Longrightarrow> flow_ok (flow_answer t a n nack f)"
  by (simp add: flow_answer_def flow_fill_ok)

lemma flow_append_ok: "flow_ok f \<Longrightarrow> flow_ok (f\<lparr>fl_buffer := fl_buffer f @ xs\<rparr>)"
  by (auto simp: flow_ok_def)

lemma flow_in_ok: "flow_ok f \<Longrightarrow> flow_ok (f\<lparr>fl_in := next_seq (fl_in f)\<rparr>)"
  using next_seq_range [of "fl_in f"] by (auto simp: flow_ok_def)

lemma flow_ack_ok: "flow_ok f \<Longrightarrow> flow_ok (flow_ack a n f)"
  by (auto simp: flow_ok_def flow_ack_def)

lemma flow_clear_ok: "flow_ok f \<Longrightarrow> flow_ok (f\<lparr>fl_cache := [], fl_expected := 0\<rparr>)"
  by (auto simp: flow_ok_def)

lemma flow_buffer [simp]:
  "fl_buffer (flow_answer t a n nack f) = fl_buffer f" "fl_buffer (flow_fill a n nack f) = fl_buffer f"
  by (simp_all add: flow_answer_def flow_fill_def Let_def)

text \<open>An accepted acknowledgement takes exactly the data of the cached payload from the buffer.\<close>

lemma flow_ack_buffer:
  assumes "flow_ok f" "inbound_accepted sq a n status f"
  shows "fl_buffer f = (if a \<noteq> 0 then drop sol_header_size (fl_cache f) else []) @ fl_buffer (flow_ack a n f)"
proof (cases "a = 0")
  case False
  with assms(2) have n: "unat n = fl_expected f" by (simp add: inbound_accepted_def)
  have "drop sol_header_size (fl_cache f) = take (fl_expected f) (fl_buffer f)"
    using assms(1) by (auto simp: flow_ok_def sol_payload_def sol_header_size_def split: if_splits)
  with False n show ?thesis by (simp add: flow_ack_def)
qed (simp add: flow_ack_def)

lemma timers_flow [simp]:
  assumes "has_ctx sv"
  shows "flow (upd_ctx 1 (\<lambda>c. c\<lparr>ctx_accumulateTimer := t\<rparr>) sv) = flow sv"
    and "flow (upd_ctx 1 (\<lambda>c. c\<lparr>ctx_retryTimer := t\<rparr>) sv) = flow sv"
    and "flow (upd_ctx 1 (\<lambda>c. c\<lparr>ctx_retryCounter := g c\<rparr>) sv) = flow sv"
  using assms by (simp_all add: flow_def)

lemma sol_step_flow:
  assumes "payload_ok sv"
  shows "payload_ok (sol_step env io ev sv) \<and>
     dataBuffer sv @ host_data ev = acknowledged sv ev @ dataBuffer (sol_step env io ev sv)"
proof -
  have h: "has_ctx sv" "flow_ok (flow sv)" "sol_consoleSocket (srv_sol sv)"
    using assms by (simp_all add: payload_ok_def) (simp add: flow_ok_def)
  have okI: "payload_ok t \<and> dataBuffer sv = dataBuffer t"
    if "has_ctx t \<and> flow_ok (flow t) \<and> fl_buffer (flow t) = dataBuffer sv" for t
    using that by (simp add: payload_ok_def)
  show ?thesis
  proof (cases ev)
    case (Host_Data xs)
    have "has_ctx (buffer_write xs sv)" "flow (buffer_write xs sv) = (flow sv)\<lparr>fl_buffer := fl_buffer (flow sv) @ xs\<rparr>"
      using h(1) by (simp_all add: buffer_write_def has_ctx_def flow_def dataBuffer_def ctx_def)
    then show ?thesis
      using h flow_append_ok [OF h(2), of xs] by (simp add: Host_Data consoleInputHandler_def payload_ok_def)
        (simp add: buffer_write_def dataBuffer_def)
  next
    case Accumulate_Expires
    let ?sv = "upd_ctx 1 (\<lambda>c. c\<lparr>ctx_accumulateTimer := None\<rparr>) sv"
    have s: "has_ctx ?sv" "flow ?sv = flow sv"
      using timers_flow [OF h(1)] h(1) by simp_all
    obtain x t where o: "sendOutboundPayload env io 1 ?sv = (x, t)" by fastforce
    have f: "flow t = (if ctx_payloadCache (ctx 1 ?sv) = [] then flow_fill 0 0 False (flow sv) else flow sv)" "has_ctx t"
      using flow_sendOutbound [OF s(1), of env io] by (simp_all add: o s(2))
    then have t: "has_ctx t \<and> flow_ok (flow t) \<and> fl_buffer (flow t) = dataBuffer sv"
      using h(2) by (simp add: flow_fill_ok)
    then have t': "has_ctx (enableAccumulateTimer 1 True t) \<and> flow_ok (flow (enableAccumulateTimer 1 True t)) \<and>
        fl_buffer (flow (enableAccumulateTimer 1 True t)) = dataBuffer sv"
      by simp
    have e: "has_ctx (enableAccumulateTimer 1 True ?sv) \<and> flow_ok (flow (enableAccumulateTimer 1 True ?sv)) \<and>
        fl_buffer (flow (enableAccumulateTimer 1 True ?sv)) = dataBuffer sv"
      using s h(1,2) by simp
    have "snd (charAccTimerHandler env io 1 sv) \<in> {t, enableAccumulateTimer 1 True t, enableAccumulateTimer 1 True ?sv}"
      by (cases x) (simp_all add: charAccTimerHandler_def Let_def o)
    then have "payload_ok (snd (charAccTimerHandler env io 1 sv)) \<and> dataBuffer sv = dataBuffer (snd (charAccTimerHandler env io 1 sv))"
      using okI [OF t] okI [OF t'] okI [OF e] by (elim insertE emptyE) (simp_all only:)
    then show ?thesis using assms by (simp add: Accumulate_Expires)
  next
    case Retry_Expires
    let ?sv = "upd_ctx 1 (\<lambda>c. c\<lparr>ctx_retryTimer := None\<rparr>) sv"
    let ?dec = "enableRetryTimer 1 True (upd_ctx 1 (\<lambda>c. c\<lparr>ctx_retryCounter := ctx_retryCounter c - 1\<rparr>) ?sv)"
    let ?max = "upd_ctx 1 (\<lambda>c. c\<lparr>ctx_retryCounter := ctx_maxRetryCount c\<rparr>) ?sv"
    have d: "has_ctx ?dec" "flow ?dec = flow sv" and m: "has_ctx ?max" "flow ?max = flow sv"
      using timers_flow [OF h(1)] timers_flow(3) [of ?sv] h(1) by simp_all
    obtain x t where r: "resendPayload env io 1 False ?dec = (x, t)" by fastforce
    obtain y u where q: "resendPayload env io 1 True ?max = (y, u)" by fastforce
    have t: "has_ctx t \<and> flow_ok (flow t) \<and> fl_buffer (flow t) = dataBuffer sv"
      using flow_resend [OF d(1) r] h(2) by (simp add: d(2))
    have u: "has_ctx u \<and> flow_ok (flow u) \<and> fl_buffer (flow u) = dataBuffer sv"
      using flow_resend [OF m(1) q] h(2) flow_clear_ok [OF h(2)] by (simp add: m(2))
    then have u': "has_ctx (enableAccumulateTimer 1 True (enableRetryTimer 1 False u)) \<and>
        flow_ok (flow (enableAccumulateTimer 1 True (enableRetryTimer 1 False u))) \<and>
        fl_buffer (flow (enableAccumulateTimer 1 True (enableRetryTimer 1 False u))) = dataBuffer sv"
      by simp
    have "snd (retryTimerHandler env io 1 sv) \<in> {t, u, enableAccumulateTimer 1 True (enableRetryTimer 1 False u)}"
      by (cases y) (simp_all add: retryTimerHandler_def Let_def r q)
    then have "payload_ok (snd (retryTimerHandler env io 1 sv)) \<and> dataBuffer sv = dataBuffer (snd (retryTimerHandler env io 1 sv))"
      using okI [OF t] okI [OF u] okI [OF u'] by (elim insertE emptyE) (simp_all only:)
    then show ?thesis using assms by (simp add: Retry_Expires)
  next
    case (Inbound sq a n status brk xs)
    let ?t = "snd (processInboundPayload env io 1 sq a n status brk xs sv)"
    let ?acc = "inbound_accepted sq a n status (flow sv)"
    obtain ra rn nk where f: "flow ?t = (if ?acc
        then (if sq \<noteq> 0 then flow_answer (ctx_sendThreshold (ctx 1 sv)) ra rn nk ((flow_ack a n (flow sv))\<lparr>fl_in := next_seq (fl_in (flow sv))\<rparr>)
              else flow_ack a n (flow sv))
        else flow sv)" and c: "has_ctx ?t"
      by (rule flow_processInbound [OF h(1,3), of env io sq a n status brk xs])
    have i: "fl_in (flow sv) = fl_in (flow_ack a n (flow sv))" by (simp add: flow_ack_def)
    have ok: "flow_ok (flow ?t)"
      unfolding f i using h(2) by (simp add: flow_answer_ok flow_in_ok flow_ack_ok del: flow_sel)
    have "fl_buffer (flow ?t) = (if ?acc then fl_buffer (flow_ack a n (flow sv)) else fl_buffer (flow sv))"
      unfolding f by simp
    then have "fl_buffer (flow sv) = acknowledged sv ev @ fl_buffer (flow ?t)"
      using flow_ack_buffer [OF h(2), of sq a n status] by (simp add: Inbound del: flow_sel(1))
    then show ?thesis using ok c by (simp add: Inbound payload_ok_def)
  qed
qed

lemma sol_run_flow:
  assumes "payload_ok sv"
  shows "payload_ok (sol_run env io evs sv) \<and>
     dataBuffer sv @ concat (map host_data evs) = acknowledged_data env io evs sv @ dataBuffer (sol_run env io evs sv)"
  using assms
proof (induction evs arbitrary: sv)
  case (Cons ev evs)
  note s = sol_step_flow [OF Cons.prems, of env io ev]
  have ok: "payload_ok (sol_step env io ev sv)" by (rule conjunct1 [OF s])
  note IH = Cons.IH [OF ok]
  have run: "sol_run env io (ev # evs) sv = sol_run env io evs (sol_step env io ev sv)" by (simp add: sol_run_def)
  have "dataBuffer sv @ concat (map host_data (ev # evs)) =
      (dataBuffer sv @ host_data ev) @ concat (map host_data evs)" by simp
  also have "\<dots> = acknowledged sv ev @ dataBuffer (sol_step env io ev sv) @ concat (map host_data evs)"
    unfolding conjunct2 [OF s] by simp
  also have "\<dots> = acknowledged_data env io (ev # evs) sv @ dataBuffer (sol_run env io (ev # evs) sv)"
    unfolding conjunct2 [OF IH] run by simp
  finally show ?case using IH by (simp only: run) 
qed (simp add: sol_run_def)

lemma startPayloadInstance_ok:
  assumes "startPayloadInstance io 1 sid sv0 = (Inr (), sv)" "sol_payloadMap (srv_sol sv0) = []"
  shows "payload_ok sv" "dataBuffer sv = dataBuffer sv0" "ctx_payloadCache (ctx 1 sv) = []"
    "ctx_accumulateTimer (ctx 1 sv) \<noteq> None" "ctx_sessionID (ctx 1 sv) = sid" "srv_mgr sv = srv_mgr sv0"
    "srv_console sv = srv_console sv0" "srv_writes sv = srv_writes sv0" "ctx_in (ctx 1 sv) = 1"
proof -
  from assms obtain sv1 c where h: "startHostConsole io sv0 = (Inr (), sv1)" and c: "makeContext 1 sid sv1 = Inr c"
    and sv: "sv = upd_sol (\<lambda>m. m\<lparr>sol_payloadMap := (if map_of (sol_payloadMap m) 1 = None
        then omap_update 1 c (sol_payloadMap m) else sol_payloadMap m)\<rparr>) sv1"
    by (auto simp: startPayloadInstance_def split: prod.splits sum.splits)
  have s1: "sol_consoleSocket (srv_sol sv1)" "sol_payloadMap (srv_sol sv1) = []" "dataBuffer sv1 = dataBuffer sv0"
      "srv_mgr sv1 = srv_mgr sv0" "srv_console sv1 = srv_console sv0" "srv_writes sv1 = srv_writes sv0"
    using h assms(2) by (auto simp: startHostConsole_def dataBuffer_def split: if_splits)
  have m: "sol_payloadMap (srv_sol sv) = [(1, c)]" using s1(2) by (simp add: sv)
  have cc: "ctx 1 sv = c" by (simp add: ctx_def m)
  have hc: "has_ctx sv" by (simp add: has_ctx_def m)
  from c obtain r where c': "c = \<lparr>ctx_accumulateTimer = Some (sol_accumulateInterval (srv_sol sv1)), ctx_retryTimer = None,
         ctx_maxRetryCount = sol_retryCount (srv_sol sv1), ctx_retryCounter = sol_retryCount (srv_sol sv1),
         ctx_sendThreshold = sol_sendThreshold (srv_sol sv1), ctx_payloadInstance = 1, ctx_sessionID = sid,
         ctx_session = r, ctx_expectedCharCount = 0, ctx_in = 1, ctx_out = 0, ctx_payloadCache = []\<rparr>"
    by (auto simp: makeContext_def rbind_Inr_iff)
  have "flow sv = \<lparr>fl_buffer = dataBuffer sv0, fl_expected = 0, fl_in = 1, fl_out = 0, fl_cache = [], fl_open = True\<rparr>"
    unfolding flow_def cc using s1 by (simp add: c' sv dataBuffer_def)
  then show "payload_ok sv" using hc by (simp add: payload_ok_def flow_ok_def MAX_SOL_SEQUENCE_NUMBER_def)
  show "dataBuffer sv = dataBuffer sv0" using s1(3) by (simp add: sv dataBuffer_def)
  show "srv_mgr sv = srv_mgr sv0" "srv_console sv = srv_console sv0" "srv_writes sv = srv_writes sv0" using s1 by (simp_all add: sv)
  show "ctx_payloadCache (ctx 1 sv) = []" "ctx_accumulateTimer (ctx 1 sv) \<noteq> None" "ctx_sessionID (ctx 1 sv) = sid"
    "ctx_in (ctx 1 sv) = 1"
    by (simp_all add: cc c')
qed

text \<open>
  C7. Nothing of the host's console output is lost, repeated among the acknowledged data or reordered:
  from the activation of a payload on, over any sequence of console data, timer expirations and
  packets, whether or not packets can be sent, the data of the acknowledged payloads followed by the
  buffer is the buffer at the start followed by what the host has written.
\<close>

theorem console_output_in_order:
  assumes "startPayloadInstance io0 1 sid sv0 = (Inr (), sv)" "sol_payloadMap (srv_sol sv0) = []"
  shows "acknowledged_data env io evs sv @ dataBuffer (sol_run env io evs sv) =
     dataBuffer sv0 @ concat (map host_data evs)"
  using sol_run_flow [OF startPayloadInstance_ok(1) [OF assms], of env io evs] startPayloadInstance_ok(2) [OF assms]
  by simp

section \<open>An attentive console gets everything\<close>

definition console_acks :: "lan_env \<Rightarrow> io_env \<Rightarrow> server \<Rightarrow> server" where
  "console_acks env io sv = (let p = ctx_payloadCache (ctx 1 sv)
     in if p = [] then sv
        else sol_step env io (Inbound 0 (p ! 0) (of_nat (length p - sol_header_size)) False False []) sv)"

definition sol_round :: "lan_env \<Rightarrow> io_env \<Rightarrow> server \<Rightarrow> server" where
  "sol_round env io sv = console_acks env io (sol_step env io Accumulate_Expires sv)"

definition sol_idle :: "server \<Rightarrow> bool" where
  "sol_idle sv \<longleftrightarrow> payload_ok sv \<and> ctx_payloadCache (ctx 1 sv) = [] \<and> ctx_accumulateTimer (ctx 1 sv) \<noteq> None"

lemma charAcc_flow:
  assumes "has_ctx sv" "ctx_payloadCache (ctx 1 sv) = []"
  shows "flow (snd (charAccTimerHandler env io 1 sv)) = (if dataBuffer sv = [] then flow sv else flow_fill 0 0 False (flow sv))"
    and "has_ctx (snd (charAccTimerHandler env io 1 sv))"
    and "dataBuffer sv = [] \<Longrightarrow> ctx_accumulateTimer (ctx 1 (snd (charAccTimerHandler env io 1 sv))) \<noteq> None"
proof -
  let ?sv = "upd_ctx 1 (\<lambda>c. c\<lparr>ctx_accumulateTimer := None\<rparr>) sv"
  have s: "has_ctx ?sv" "flow ?sv = flow sv" "ctx_payloadCache (ctx 1 ?sv) = []" using assms by simp_all
  obtain x t where o: "sendOutboundPayload env io 1 ?sv = (x, t)" by fastforce
  have x: "x \<noteq> Inr False" using o s(3) by (auto simp: sendOutboundPayload_def Let_def split: prod.splits sum.splits)
  have t: "flow t = flow_fill 0 0 False (flow sv)" "has_ctx t"
    using flow_sendOutbound [OF s(1), of env io] by (simp_all add: o s)
  have e: "snd (charAccTimerHandler env io 1 sv) = (if dataBuffer sv = [] then enableAccumulateTimer 1 True ?sv else t)"
    using x by (cases x) (auto simp: charAccTimerHandler_def Let_def o)
  have acc: "ctx_accumulateTimer (ctx 1 (enableAccumulateTimer 1 True ?sv)) \<noteq> None"
    using s(1) by (simp add: enableAccumulateTimer_def)
  show "flow (snd (charAccTimerHandler env io 1 sv)) = (if dataBuffer sv = [] then flow sv else flow_fill 0 0 False (flow sv))"
    "has_ctx (snd (charAccTimerHandler env io 1 sv))"
    "dataBuffer sv = [] \<Longrightarrow> ctx_accumulateTimer (ctx 1 (snd (charAccTimerHandler env io 1 sv))) \<noteq> None"
    unfolding e using s t acc by simp_all
qed

lemma sol_round_idle:
  assumes "sol_idle sv"
  shows "sol_idle (sol_round env io sv) \<and> dataBuffer (sol_round env io sv) = drop MAX_PAYLOAD_SIZE (dataBuffer sv)"
proof -
  let ?t = "snd (charAccTimerHandler env io 1 sv)"
  have h: "has_ctx sv" "flow_ok (flow sv)" "ctx_payloadCache (ctx 1 sv) = []" and a: "ctx_accumulateTimer (ctx 1 sv) \<noteq> None"
    using assms by (simp_all add: sol_idle_def payload_ok_def)
  note t = charAcc_flow [OF h(1,3), of env io]
  have r: "sol_round env io sv = console_acks env io ?t" using a by (auto simp: sol_round_def)
  show ?thesis
  proof (cases "dataBuffer sv = []")
    case True
    then have f: "flow ?t = flow sv" using t(1) by simp
    then have c: "ctx_payloadCache (ctx 1 ?t) = []" using h(3) by (metis flow_sel(5))
    have b: "dataBuffer ?t = []" using f True by (metis flow_sel(1))
    have "console_acks env io ?t = ?t" by (simp add: console_acks_def c)
    then show ?thesis using True t(2) t(3) [OF True] f c b h(2) by (simp add: r sol_idle_def payload_ok_def)
  next
    case False
    let ?k = "min (length (dataBuffer sv)) MAX_PAYLOAD_SIZE"
    let ?sq = "next_seq (ctx_out (ctx 1 sv))"
    have f: "flow ?t = flow_fill 0 0 False (flow sv)" using t(1) False by simp
    have sq: "?sq \<noteq> 0" using next_seq_range(1) [of "ctx_out (ctx 1 sv)"] h(2) by (simp add: flow_ok_def)
    have c: "ctx_payloadCache (ctx 1 ?t) = sol_payload ?sq 0 0 False (take ?k (dataBuffer sv))"
    proof -
      have "fl_cache (flow ?t) = sol_payload ?sq 0 0 False (take ?k (dataBuffer sv))" unfolding f by (simp add: flow_fill_def Let_def)
      then show ?thesis unfolding flow_sel .
    qed
    have len: "length (sol_payload ?sq 0 0 False (take ?k (dataBuffer sv))) - sol_header_size = ?k"
      by (simp add: sol_payload_def sol_header_size_def)
    have u: "unat (of_nat ?k :: byte) = ?k" by (simp add: unat_of_nat_byte MAX_PAYLOAD_SIZE_def min_def)
    have acc: "inbound_accepted 0 ?sq (of_nat ?k) False (flow ?t)"
      unfolding f by (simp add: inbound_accepted_def flow_fill_def Let_def u)
    have e: "console_acks env io ?t = snd (processInboundPayload env io 1 0 ?sq (of_nat ?k) False False [] ?t)"
      unfolding console_acks_def Let_def c len by (simp add: sol_payload_def)
    have opn: "sol_consoleSocket (srv_sol ?t)"
    proof -
      have "fl_open (flow ?t)" unfolding f using h(2) by (simp add: flow_fill_def Let_def flow_ok_def)
      then show ?thesis unfolding flow_sel .
    qed
    have g: "flow (console_acks env io ?t) = flow_ack ?sq (of_nat ?k) (flow ?t)" "has_ctx (console_acks env io ?t)"
        "ctx_accumulateTimer (ctx 1 (console_acks env io ?t)) \<noteq> None"
      unfolding e by (rule flow_processInbound [OF t(2) opn, of env io 0 ?sq "of_nat ?k" False False "[]"], use acc in \<open>simp del: flow_sel\<close>)+
    have ok: "flow_ok (flow (console_acks env io ?t))" unfolding g(1) f by (intro flow_ack_ok flow_fill_ok h(2))
    have "fl_expected (flow ?t) = ?k" "fl_buffer (flow ?t) = dataBuffer sv" unfolding f by (simp_all add: flow_fill_def Let_def)
    then have "fl_cache (flow (console_acks env io ?t)) = []" "fl_buffer (flow (console_acks env io ?t)) = drop ?k (dataBuffer sv)"
      unfolding g(1) flow_ack_def using sq u by simp_all
    then have "ctx_payloadCache (ctx 1 (console_acks env io ?t)) = []"
        "dataBuffer (console_acks env io ?t) = drop MAX_PAYLOAD_SIZE (dataBuffer sv)"
      unfolding flow_sel by (simp_all add: min_def)
    with ok g(2,3) show ?thesis by (simp only: r sol_idle_def payload_ok_def simp_thms)
  qed
qed

lemma sol_rounds_idle:
  assumes "sol_idle sv"
  shows "sol_idle ((sol_round env io ^^ k) sv) \<and> dataBuffer ((sol_round env io ^^ k) sv) = drop (MAX_PAYLOAD_SIZE * k) (dataBuffer sv)"
proof (induction k)
  case (Suc k)
  then show ?case using sol_round_idle [of "(sol_round env io ^^ k) sv" env io] by (simp add: add.commute)
qed (use assms in simp)


section \<open>Lost acknowledgements and failing consoles\<close>

lemma console_frame [simp]:
  "srv_console (fill_cache i a n nack sv) = srv_console sv" "srv_writes (fill_cache i a n nack sv) = srv_writes sv"
  "srv_console (inbound_ack i a n sv) = srv_console sv" "srv_writes (inbound_ack i a n sv) = srv_writes sv"
  "srv_console (snd (prepareResponse env io i a n nack sv)) = srv_console sv"
  "srv_console (snd (resendPayload env io i clear sv)) = srv_console sv"
proof -
  show f: "srv_console (fill_cache i a n nack sv) = srv_console sv" "srv_writes (fill_cache i a n nack sv) = srv_writes sv"
      "srv_console (inbound_ack i a n sv) = srv_console sv" "srv_writes (inbound_ack i a n sv) = srv_writes sv"
    by (simp_all add: fill_cache_def incOutboundSeqNum_def Let_def inbound_ack_def)
  show "srv_console (snd (prepareResponse env io i a n nack sv)) = srv_console sv"
    by (simp add: prepareResponse_def Let_def f)
  show "srv_console (snd (resendPayload env io i clear sv)) = srv_console sv"
    using sendPayload_frame(2) [of env io i "ctx_payloadCache (ctx i sv)" sv]
    by (auto simp: resendPayload_def Let_def split: prod.split sum.split simp del: sendPayload_frame)
qed

lemma refused_console:
  assumes "io_console io (srv_writes sv) = None"
  shows "srv_console (snd (processInboundPayload env io 1 sq a n st False xs sv)) = srv_console sv"
proof -
  have b: "inbound_break io sq False t = (Inr (), t)" for t by (simp add: inbound_break_def)
  have c: "srv_console (snd (inbound_chars io sq xs (inbound_ack 1 a n sv))) = srv_console sv"
    using assms by (auto simp: inbound_chars_def writeConsoleSocket_def Let_def)
  obtain y t where y: "inbound_chars io sq xs (inbound_ack 1 a n sv) = (y, t)" by fastforce
  have r: "srv_console (snd (resendPayload env io 1 False sv)) = srv_console sv" by simp
  obtain z u where z: "resendPayload env io 1 False sv = (z, u)" by fastforce
  show ?thesis
    unfolding processInboundPayload_def b y z sum.case prod.case
    using c r by (cases y; cases z) (simp_all add: y z split: prod.split)
qed

text \<open>
  The retransmission of a packet that was accepted is ignored without an answer. So when the
  acknowledgement of a packet with characters is lost, the remote console can repeat the packet as
  often as it likes; and when the socket of the console refused the characters, the negative
  acknowledgement names no packet and the characters are lost, since their repetition is not looked at.
\<close>

theorem retransmission_ignored:
  assumes "payload_ok sv" "sq \<noteq> 0" "inbound_accepted sq a n False (flow sv)"
    and "sv' = snd (processInboundPayload env io 1 sq a n False brk xs sv)"
  shows "processInboundPayload env io' 1 sq a' n' st brk' xs' sv' = (Inr (), sv') \<and>
     (\<not> brk \<and> io_console io (srv_writes sv) = None \<longrightarrow> srv_console sv' = srv_console sv)"
proof -
  have h: "has_ctx sv" "flow_ok (flow sv)" using assms(1) by (simp_all add: payload_ok_def)
  have opn: "sol_consoleSocket (srv_sol sv)" using h(2) by (simp add: flow_ok_def)
  obtain ra rn nk where "flow sv' = flow_answer (ctx_sendThreshold (ctx 1 sv)) ra rn nk
      ((flow_ack a n (flow sv))\<lparr>fl_in := next_seq (fl_in (flow sv))\<rparr>)"
    by (rule flow_processInbound [OF h(1) opn, of env io sq a n False brk xs])
      (use assms(2,3) in \<open>simp add: assms(4) del: flow_sel\<close>)
  then have "fl_in (flow sv') = next_seq (fl_in (flow sv))" by (simp add: flow_answer_def flow_fill_def Let_def del: flow_sel)
  moreover have "fl_in (flow sv) = sq" using assms(2,3) by (simp add: inbound_accepted_def del: flow_sel)
  ultimately have "ctx_in (ctx 1 sv') = next_seq sq" unfolding flow_sel by simp
  moreover have "sq < MAX_SOL_SEQUENCE_NUMBER" using h(2) \<open>fl_in (flow sv) = sq\<close> by (simp add: flow_ok_def)
  ultimately have "sq \<noteq> ctx_in (ctx 1 sv')" using next_seq_range(4) by metis
  then have "processInboundPayload env io' 1 sq a' n' st brk' xs' sv' = (Inr (), sv')"
    using assms(2) by (simp add: processInboundPayload_def)
  then show ?thesis using refused_console [of io sv env sq a n False xs] by (auto simp: assms(4))
qed

text \<open>
  Data that was not acknowledged in time is not given up, although the code means to erase it from
  the buffer: the last retry sends it once more, and the next packet carries it again under the next
  sequence number, so a remote console that did receive it sees it twice.
\<close>

theorem abandoned_data_sent_again:
  assumes "payload_ok sv" "ctx_payloadCache (ctx 1 sv) \<noteq> []" "ctx_expectedCharCount (ctx 1 sv) \<noteq> 0"
    and "ctx_retryCounter (ctx 1 sv) = 0" "ctx_retryTimer (ctx 1 sv) \<noteq> None"
    and "ctx_payloadCache (ctx 1 (sol_step env io Retry_Expires sv)) = []"
  shows "dataBuffer (sol_step env io Retry_Expires sv) = dataBuffer sv \<and>
     (\<exists>rest. ctx_payloadCache (ctx 1 (sol_step env io' Accumulate_Expires (sol_step env io Retry_Expires sv))) =
        [next_seq (ctx_payloadCache (ctx 1 sv) ! 0), 0, 0, 0] @ drop sol_header_size (ctx_payloadCache (ctx 1 sv)) @ rest)"
proof -
  define t where "t = sol_step env io Retry_Expires sv"
  have h: "has_ctx sv" "flow_ok (flow sv)" using assms(1) by (simp_all add: payload_ok_def)
  have t: "payload_ok t" "dataBuffer t = dataBuffer sv"
    using sol_step_flow [OF assms(1), of env io Retry_Expires] by (simp_all add: t_def)
  let ?max = "upd_ctx 1 (\<lambda>c. c\<lparr>ctx_retryCounter := ctx_maxRetryCount c\<rparr>) (upd_ctx 1 (\<lambda>c. c\<lparr>ctx_retryTimer := None\<rparr>) sv)"
  have m: "has_ctx ?max" "flow ?max = flow sv" using h(1) by simp_all
  obtain y u where q: "resendPayload env io 1 True ?max = (y, u)" by fastforce
  note fu = flow_resend [OF m(1) q, unfolded m(2)]
  have e: "t = (case y of Inl _ \<Rightarrow> u | Inr _ \<Rightarrow> enableAccumulateTimer 1 True (enableRetryTimer 1 False u))"
    using assms(4,5) h(1) by (cases y) (auto simp: t_def retryTimerHandler_def Let_def q)
  have y: "y = Inr ()"
  proof (cases y)
    case (Inl x)
    then have "fl_cache (flow t) \<noteq> []" using assms(2) fu by (simp add: e)
    then show ?thesis using assms(6) by (simp add: t_def)
  qed simp
  have f: "flow t = (flow sv)\<lparr>fl_cache := [], fl_expected := 0\<rparr>" using fu by (simp add: e y)
  have acc: "ctx_accumulateTimer (ctx 1 t) \<noteq> None"
    using fu(1) by (simp add: e y) (simp add: enableAccumulateTimer_def)
  obtain a n nack where c: "ctx_payloadCache (ctx 1 sv) =
      sol_payload (ctx_out (ctx 1 sv)) a n nack (take (ctx_expectedCharCount (ctx 1 sv)) (dataBuffer sv))"
    and k: "ctx_expectedCharCount (ctx 1 sv) \<le> MAX_PAYLOAD_SIZE" "ctx_expectedCharCount (ctx 1 sv) \<le> length (dataBuffer sv)"
    using h(2) assms(2) by (auto simp: flow_ok_def)
  have ne: "dataBuffer t \<noteq> []" using k(2) assms(3) t(2) by auto
  have "has_ctx t" using t(1) by (simp add: payload_ok_def)
  from charAcc_flow(1) [OF this assms(6) [folded t_def], of env io']
  have "flow (sol_step env io' Accumulate_Expires t) = flow_fill 0 0 False ((flow sv)\<lparr>fl_cache := [], fl_expected := 0\<rparr>)"
    using ne acc f by auto
  then have g: "fl_cache (flow (sol_step env io' Accumulate_Expires t)) = sol_payload (next_seq (ctx_out (ctx 1 sv))) 0 0 False
      (take (min (length (dataBuffer sv)) MAX_PAYLOAD_SIZE) (dataBuffer sv))"
    by (simp add: flow_fill_def Let_def del: flow_sel(5))
  let ?n = "ctx_expectedCharCount (ctx 1 sv)"
  let ?k = "min (length (dataBuffer sv)) MAX_PAYLOAD_SIZE"
  have "take ?k (dataBuffer sv) = take ?n (dataBuffer sv) @ drop ?n (take ?k (dataBuffer sv))"
    using k by (metis append_take_drop_id min.absorb1 min.boundedI take_take)
  then show ?thesis using g t(2) c unfolding t_def [symmetric] by (auto simp: sol_payload_def sol_header_size_def)
qed

section \<open>The properties at work\<close>

definition example_io :: io_env where
  "example_io = \<lparr>io_iv = (\<lambda>n. None), io_write = (\<lambda>n. True), io_console = (\<lambda>n. Some 255), io_connect = True\<rparr>"

definition example_server :: server where
  "example_server = \<lparr>srv_mgr = upd_obj 1 (\<lambda>s. s\<lparr>ses_channelPtr := Some (Sock_In6 (replicate 16 0) 5000)\<rparr>) example_setup,
     srv_sol = new_sol_manager, srv_sends = 0, srv_wire = [], srv_writes = 0, srv_console = []\<rparr>"

definition example_sol :: server where
  "example_sol = snd (startPayloadInstance example_io 1 1 example_server)"

lemma example_start:
  "startPayloadInstance example_io 1 1 example_server = (Inr (), example_sol)"
  "sol_payloadMap (srv_sol example_server) = []" "dataBuffer example_server = []"
proof -
  have g: "getSession 1 BMC_SESSION_ID (upd_obj 1 f example_setup) = Inr 1" for f using example_setup_facts(2) by simp
  have "fst (startPayloadInstance example_io 1 1 example_server) = Inr ()"
    by (simp add: startPayloadInstance_def startHostConsole_def makeContext_def example_server_def new_sol_manager_def example_io_def
        g [unfolded One_nat_def] del: getSession.simps)
  then show "startPayloadInstance example_io 1 1 example_server = (Inr (), example_sol)"
    unfolding example_sol_def by (metis prod.collapse)
qed (simp_all add: example_server_def new_sol_manager_def dataBuffer_def)

theorem console_output_in_order_witness:
  "acknowledged_data example_env example_io [Host_Data [0x68, 0x69], Accumulate_Expires, Inbound 0 1 2 False False []] example_sol @
     dataBuffer (sol_run example_env example_io [Host_Data [0x68, 0x69], Accumulate_Expires, Inbound 0 1 2 False False []] example_sol) =
     [0x68, 0x69]"
  unfolding console_output_in_order [OF example_start(1,2)] by (simp add: example_start(3))


theorem retransmission_ignored_witness:
  "\<exists>sv'. sv' = snd (processInboundPayload example_env (example_io\<lparr>io_console := (\<lambda>n. None)\<rparr>) 1 1 0 0 False False [0x41] example_sol) \<and>
     processInboundPayload example_env example_io 1 1 0 0 False False [0x41] sv' = (Inr (), sv') \<and> srv_console sv' = []"
proof -
  note s = startPayloadInstance_ok [OF example_start(1,2)]
  have acc: "inbound_accepted 1 0 0 False (flow example_sol)" by (simp add: inbound_accepted_def s(9))
  have one: "(1 :: byte) \<noteq> 0" by simp
  show ?thesis
    using retransmission_ignored [OF s(1) one acc refl, of example_env example_io 0 0 False False "[0x41]"
        "example_io\<lparr>io_console := (\<lambda>n. None)\<rparr>" False "[0x41]"] s(7)
    by (simp add: example_server_def)
qed

definition example_stuck :: server where
  "example_stuck = example_server\<lparr>srv_sol := new_sol_manager\<lparr>sol_dataBuffer := [0x68, 0x69], sol_consoleSocket := True,
     sol_payloadMap := [(1, \<lparr>ctx_accumulateTimer = None, ctx_retryTimer = Some 100, ctx_maxRetryCount = 7,
       ctx_retryCounter = 0, ctx_sendThreshold = 1, ctx_payloadInstance = 1, ctx_sessionID = 1, ctx_session = 1,
       ctx_expectedCharCount = 2, ctx_in = 1, ctx_out = 1, ctx_payloadCache = [1, 0, 0, 0, 0x68, 0x69]\<rparr>)]\<rparr>\<rparr>"

theorem abandoned_data_sent_again_witness:
  "dataBuffer (sol_step example_env example_io Retry_Expires example_stuck) = [0x68, 0x69] \<and>
     (\<exists>rest. ctx_payloadCache (ctx 1 (sol_step example_env example_io Accumulate_Expires
        (sol_step example_env example_io Retry_Expires example_stuck))) = [2, 0, 0, 0] @ [0x68, 0x69] @ rest)"
proof -
  have "\<exists>a n nack. [1, 0, 0, 0, 0x68, 0x69] = sol_payload 1 a n nack [0x68, 0x69]"
    by (rule exI [of _ 0], rule exI [of _ 0], rule exI [of _ False]) (simp add: sol_payload_def)
  then have ok: "payload_ok example_stuck"
    by (simp add: payload_ok_def has_ctx_def example_stuck_def flow_ok_def flow_def ctx_def dataBuffer_def
        MAX_PAYLOAD_SIZE_def MAX_SOL_SEQUENCE_NUMBER_def)
  have d: "dataBuffer example_stuck = [0x68, 0x69]" by (simp add: example_stuck_def dataBuffer_def)
  have c: "ctx_payloadCache (ctx 1 example_stuck) = [1, 0, 0, 0, 0x68, 0x69]"
    and e: "ctx_expectedCharCount (ctx 1 example_stuck) \<noteq> 0" "ctx_retryCounter (ctx 1 example_stuck) = 0"
      "ctx_retryTimer (ctx 1 example_stuck) \<noteq> None"
    by (simp_all add: example_stuck_def ctx_def)
  have r: "ctx_payloadCache (ctx 1 (sol_step example_env example_io Retry_Expires example_stuck)) = []" by code_simp
  have ne: "ctx_payloadCache (ctx 1 example_stuck) \<noteq> []" by (simp add: c)
  show ?thesis
    using abandoned_data_sent_again [OF ok ne e r, of example_io]
    by (simp add: c d sol_header_size_def next_seq_def MAX_SOL_SEQUENCE_NUMBER_def)
qed

end
