(* ===== verification/Lan_Server.thy ===== *)
theory Lan_Server
  imports Lan_Sol
begin

text \<open>
  The daemon of IPMI over LAN as a whole (\<open>src/devtool-mods/phosphor-ipmi-net-mods\<close>:
  \<open>socket_channel.hpp\<close>, \<open>command/channel_auth.cpp\<close>, \<open>command_table.cpp\<close>, \<open>comm_module.cpp\<close>,
  \<open>sol_module.cpp\<close>, \<open>message_handler.cpp\<close> and \<open>handleRmcpPacket\<close> of \<open>sd_event_loop.cpp\<close>): from a packet
  to the command it holds, to the reply or the request that is forwarded to the IPMI host daemon.

  A handler lives until its reply is sent; one whose request has been forwarded waits for the host in
  \<open>d_pending\<close>. Everything from outside is an argument: the packets with the address they come from,
  the time, random values, the user and channel layers, D-Bus.
\<close>

section \<open>Channels\<close>

definition isIpv4InIpv6 :: "byte list \<Rightarrow> bool" where
  "isIpv4InIpv6 a \<longleftrightarrow> take 12 a = replicate 10 0 @ [0xFF, 0xFF]"

text \<open>The IPv4 address is returned by reference and stays as it was for other addresses.\<close>

fun getRemoteAddress :: "channel \<Rightarrow> 32 word \<Rightarrow> 32 word" where
  "getRemoteAddress (Sock_In a port) ip = of_nat (le_val a)"
| "getRemoteAddress (Sock_In6 a port) ip = (if isIpv4InIpv6 a then of_nat (le_val (take 4 (drop 12 a))) else ip)"

fun getPort :: "channel \<Rightarrow> nat" where
  "getPort (Sock_In a port) = port"
| "getPort (Sock_In6 a port) = port"

section \<open>Channel authentication commands\<close>

text \<open>
  A record of the list of cipher suites with the defaults of absent keys filled in; only the IANA
  number of an OEM suite is optional.
\<close>

record cipher_suite =
  cs_oem :: "int option"
  cs_cipher :: int
  cs_auth :: int
  cs_integrity :: int
  cs_conf :: int

record chan_env =
  ce_convert :: "byte \<Rightarrow> byte"
  ce_isValidChannel :: "byte \<Rightarrow> bool"
  ce_hasSessionSupport :: "byte \<Rightarrow> bool"
  ce_isValidPrivLimit :: "byte \<Rightarrow> bool"
  ce_enabledUsers :: byte
  ce_isValidPayloadType :: "byte \<Rightarrow> bool"
  ce_doesDeviceExist :: "byte \<Rightarrow> bool"
  ce_cipherFile :: "cipher_suite list option"

definition GetChannelCapabilities :: "chan_env \<Rightarrow> byte list \<Rightarrow> byte list" where
  "GetChannelCapabilities ce p =
     (if length p \<noteq> 2 then [IPMI_CC_REQ_DATA_LEN_INVALID]
      else (let chNum = ce_convert ce (p ! 0 AND 0x0F)
            in if \<not> ce_isValidChannel ce chNum \<or> \<not> ce_hasSessionSupport ce chNum \<or> \<not> ce_isValidPrivLimit ce (p ! 1)
               then [IPMI_CC_INVALID_FIELD_REQUEST]
               else [IPMI_CC_OK, chNum, 0x80, (if 0 < ce_enabledUsers ce then 0x04 else 0), 0x02, 0, 0, 0, 0]))"

definition stdCipherSuite :: byte where "stdCipherSuite = 0xC0"
definition oemCipherSuite :: byte where "oemCipherSuite = 0xC1"
definition integrityTag :: byte where "integrityTag = 0x40"
definition confTag :: byte where "confTag = 0x80"

definition suite_algorithms :: "cipher_suite \<Rightarrow> byte list" where
  "suite_algorithms r = [word_of_int (cs_auth r), word_of_int (cs_integrity r) OR integrityTag, word_of_int (cs_conf r) OR confTag]"

definition suite_record :: "cipher_suite \<Rightarrow> byte list" where
  "suite_record r =
     (case cs_oem r of
        Some v \<Rightarrow> [oemCipherSuite, word_of_int (cs_cipher r), word_of_int v, word_of_int (v div 2 ^ 8), word_of_int (v div 2 ^ 16)]
      | None \<Rightarrow> [stdCipherSuite, word_of_int (cs_cipher r)]) @ suite_algorithms r"

text \<open>The second list is that of a \<open>std::set\<close>: each algorithm once, in ascending order.\<close>

definition getCipherRecords :: "cipher_suite list option \<Rightarrow> (byte list \<times> byte list) res" where
  "getCipherRecords file =
     (case file of
        None \<Rightarrow> Inl Runtime_Error
      | Some rs \<Rightarrow> Inr (concat (map suite_record rs), remdups (sort (concat (map suite_algorithms rs)))))"

text \<open>The records are read once and kept in static variables, here the second component.\<close>

definition cipher_page :: "chan_env \<Rightarrow> byte \<Rightarrow> byte \<Rightarrow> bool \<Rightarrow> byte list \<times> byte list \<Rightarrow> byte list" where
  "cipher_page ce rspChannel listIndex algoSelectBit recs =
     (let records = (if algoSelectBit then fst recs else snd recs);
          start = min (unat listIndex * 16) (length records);
          stop = min (unat listIndex * 16 + 16) (length records)
      in if \<not> ce_hasSessionSupport ce rspChannel \<or> \<not> ce_doesDeviceExist ce rspChannel then [IPMI_CC_INVALID_FIELD_REQUEST]
         else [IPMI_CC_OK, rspChannel] @ take (stop - start) (drop start records))"

definition getChannelCipherSuites :: "chan_env \<Rightarrow> byte list \<Rightarrow> (byte list \<times> byte list) option \<Rightarrow>
    byte list \<times> (byte list \<times> byte list) option" where
  "getChannelCipherSuites ce p cache =
     (if length p \<noteq> 3 then ([IPMI_CC_REQ_DATA_LEN_INVALID], cache)
      else if p ! 0 AND 0x0F \<noteq> p ! 0 \<or> p ! 1 AND 0x3F \<noteq> p ! 1 then ([IPMI_CC_INVALID_FIELD_REQUEST], cache)
      else
        (let listIndex = p ! 2 AND 0x3F; algoSelectBit = drop_bit 7 (p ! 2); rspChannel = ce_convert ce (p ! 0)
         in if listIndex OR push_bit 7 algoSelectBit \<noteq> p ! 2 then ([IPMI_CC_INVALID_FIELD_REQUEST], cache)
            else if \<not> ce_isValidChannel ce rspChannel then ([IPMI_CC_INVALID_FIELD_REQUEST], cache)
            else if \<not> ce_isValidPayloadType ce (p ! 1) then ([0x80], cache)
            else case cache of
                   Some recs \<Rightarrow> (cipher_page ce rspChannel listIndex (algoSelectBit \<noteq> 0) recs, cache)
                 | None \<Rightarrow>
                     (case getCipherRecords (ce_cipherFile ce) of
                        Inl e \<Rightarrow> ([IPMI_CC_UNSPECIFIED_ERROR], None)
                      | Inr recs \<Rightarrow> (cipher_page ce rspChannel listIndex (algoSelectBit \<noteq> 0) recs, Some recs))))"

section \<open>Commands and their table\<close>

definition cmd_netFnLun :: "32 word \<Rightarrow> byte" where
  "cmd_netFnLun c = ucast (drop_bit 8 c)"

definition cmd_netFn :: "32 word \<Rightarrow> byte" where
  "cmd_netFn c = drop_bit 2 (cmd_netFnLun c)"

text \<open>The mask has three bits, although a LUN has two.\<close>

definition cmd_lun :: "32 word \<Rightarrow> byte" where
  "cmd_lun c = cmd_netFnLun c AND 7"

definition cmd_cmd :: "32 word \<Rightarrow> byte" where
  "cmd_cmd c = ucast c"

datatype command_functor = F_openSession | F_RAKP12 | F_RAKP34 | F_GetChannelCapabilities | F_getChannelCipherSuites
  | F_setSessionPrivilegeLevel | F_closeSession | F_payloadHandler | F_activatePayload | F_deactivatePayload
  | F_getPayloadStatus | F_getPayloadInfo

record command_entry =
  e_functor :: command_functor
  e_privilege :: byte
  e_sessionless :: bool

type_synonym command_map = "(32 word \<times> command_entry) list"

definition registerCommand :: "32 word \<Rightarrow> command_entry \<Rightarrow> command_map \<Rightarrow> command_map" where
  "registerCommand c e t = (if map_of t c \<noteq> None then t else omap_update c e t)"

definition payload_command :: "byte \<Rightarrow> 32 word" where
  "payload_command pt = push_bit 16 (ucast pt)"

definition app_command :: "byte \<Rightarrow> 32 word" where
  "app_command c = push_bit 16 (ucast PT_IPMI) OR push_bit 10 0x06 OR ucast c"

definition Priv_HIGHEST_MATCHING :: byte where "Priv_HIGHEST_MATCHING = 0"

definition entry :: "command_functor \<Rightarrow> byte \<Rightarrow> bool \<Rightarrow> command_entry" where
  "entry f q sl = \<lparr>e_functor = f, e_privilege = q, e_sessionless = sl\<rparr>"

definition session_setup_commands :: "(32 word \<times> command_entry) list" where
  "session_setup_commands =
     [(payload_command PT_OPEN_SESSION_REQUEST, entry F_openSession Priv_HIGHEST_MATCHING True),
      (payload_command PT_RAKP1, entry F_RAKP12 Priv_HIGHEST_MATCHING True),
      (payload_command PT_RAKP3, entry F_RAKP34 Priv_HIGHEST_MATCHING True),
      (app_command 0x38, entry F_GetChannelCapabilities Priv_HIGHEST_MATCHING True),
      (app_command 0x54, entry F_getChannelCipherSuites Priv_HIGHEST_MATCHING True),
      (app_command 0x3B, entry F_setSessionPrivilegeLevel Priv_USER False),
      (app_command 0x3C, entry F_closeSession Priv_CALLBACK False)]"

definition sol_commands :: "(32 word \<times> command_entry) list" where
  "sol_commands =
     [(payload_command PT_SOL, entry F_payloadHandler Priv_HIGHEST_MATCHING False),
      (app_command 0x48, entry F_activatePayload Priv_USER False),
      (app_command 0x49, entry F_deactivatePayload Priv_USER False),
      (app_command 0x4A, entry F_getPayloadStatus Priv_USER False),
      (app_command 0x4B, entry F_getPayloadInfo Priv_USER False)]"

definition command_table :: command_map where
  "command_table = fold (\<lambda>(c, e). registerCommand c e) (session_setup_commands @ sol_commands) []"

section \<open>Handlers\<close>

record handler =
  h_sessionID :: "32 word"
  h_session :: nat
  h_channel :: channel
  h_header :: session_header
  h_msg :: message

record host_request =
  hr_netFn :: byte
  hr_lun :: byte
  hr_cmd :: byte
  hr_data :: "byte list"
  hr_userId :: byte
  hr_privilege :: byte
  hr_sessionId :: "32 word"

record daemon =
  d_srv :: server
  d_ciphers :: "(byte list \<times> byte list) option"
  d_pending :: "(handler \<times> host_request) list"

record event_env =
  ev_now :: int
  ev_rands :: "32 word list"
  ev_rnd :: "byte list option"
  ev_io :: io_env
  ev_sol :: sol_env
  ev_chan :: chan_env

definition on_mgr :: "(manager \<Rightarrow> 'a \<times> manager) \<Rightarrow> daemon \<Rightarrow> 'a \<times> daemon" where
  "on_mgr f d = (let (x, m) = f (srv_mgr (d_srv d)) in (x, d\<lparr>d_srv := (d_srv d)\<lparr>srv_mgr := m\<rparr>\<rparr>))"

definition on_srv :: "(server \<Rightarrow> 'a \<times> server) \<Rightarrow> daemon \<Rightarrow> 'a \<times> daemon" where
  "on_srv f d = (let (x, s) = f (d_srv d) in (x, d\<lparr>d_srv := s\<rparr>))"

fun run_functor :: "command_functor \<Rightarrow> lan_env \<Rightarrow> event_env \<Rightarrow> handler \<Rightarrow> byte list \<Rightarrow> daemon \<Rightarrow> byte list res \<times> daemon" where
  "run_functor F_openSession env ev h p d = on_mgr (openSession env (ev_now ev) (ev_rands ev) p) d"
| "run_functor F_RAKP12 env ev h p d = on_mgr (RAKP12 env (ev_now ev) (ev_rnd ev) p) d"
| "run_functor F_RAKP34 env ev h p d = on_mgr (RAKP34 env (ev_now ev) p) d"
| "run_functor F_GetChannelCapabilities env ev h p d = (Inr (GetChannelCapabilities (ev_chan ev) p), d)"
| "run_functor F_getChannelCipherSuites env ev h p d =
     (let (x, c) = getChannelCipherSuites (ev_chan ev) p (d_ciphers d) in (Inr x, d\<lparr>d_ciphers := c\<rparr>))"
| "run_functor F_setSessionPrivilegeLevel env ev h p d = on_mgr (setSessionPrivilegeLevel p (h_sessionID h)) d"
| "run_functor F_closeSession env ev h p d = on_mgr (closeSession env (ev_now ev) p (h_sessionID h)) d"
| "run_functor F_payloadHandler env ev h p d = on_srv (payloadHandler env (ev_io ev) p (h_sessionID h)) d"
| "run_functor F_activatePayload env ev h p d =
     on_srv (activatePayload env (ev_io ev) (ev_sol ev) p (Some (h_channel h)) (h_session h) (h_sessionID h)) d"
| "run_functor F_deactivatePayload env ev h p d = on_srv (deactivatePayload env (ev_io ev) p) d"
| "run_functor F_getPayloadStatus env ev h p d = (Inr (getPayloadStatus p (d_srv d)), d)"
| "run_functor F_getPayloadInfo env ev h p d = (Inr (getPayloadInfo p (d_srv d)), d)"

definition NetIpmidEntry_executeCommand :: "command_entry \<Rightarrow> lan_env \<Rightarrow> event_env \<Rightarrow> handler \<Rightarrow> byte list \<Rightarrow> daemon \<Rightarrow>
    byte list res \<times> daemon" where
  "NetIpmidEntry_executeCommand e env ev h p d =
     (if \<not> e_sessionless e \<and> h_sessionID h = 0 then (Inr [IPMI_CC_INSUFFICIENT_PRIVILEGE], d)
      else run_functor (e_functor e) env ev h p d)"

datatype outcome = Answer "byte list" | Forward host_request | Ignored

definition Table_executeCommand :: "lan_env \<Rightarrow> event_env \<Rightarrow> 32 word \<Rightarrow> handler \<Rightarrow> byte list \<Rightarrow> daemon \<Rightarrow> outcome res \<times> daemon" where
  "Table_executeCommand env ev c h p d =
     (case map_of command_table c of
        None \<Rightarrow>
          if h_sessionID h = 0 then (Inr Ignored, d)
          else
            (case getSession (h_sessionID h) BMC_SESSION_ID (srv_mgr (d_srv d)) of
               Inl e \<Rightarrow> (Inl e, d)
             | Inr r \<Rightarrow>
                 (let s = obj (srv_mgr (d_srv d)) r
                  in if ses_state s \<noteq> State_active then (Inr Ignored, d)
                     else (Inr (Forward \<lparr>hr_netFn = cmd_netFn c, hr_lun = cmd_lun c, hr_cmd = cmd_cmd c, hr_data = p,
                             hr_userId = env_userGetUserId env (ses_userName s), hr_privilege = ses_currentPrivilege s,
                             hr_sessionId = ses_bmcSessionID s\<rparr>), d)))
      | Some e \<Rightarrow>
          (let run = (case NetIpmidEntry_executeCommand e env ev h p d of
               (Inl x, d') \<Rightarrow> (Inl x, d') | (Inr out, d') \<Rightarrow> (Inr (Answer out), d'))
           in if h_sessionID h = 0 then run
              else case getSession (h_sessionID h) BMC_SESSION_ID (srv_mgr (d_srv d)) of
                     Inl x \<Rightarrow> (Inl x, d)
                   | Inr r \<Rightarrow>
                       if ses_state (obj (srv_mgr (d_srv d)) r) \<noteq> State_setupInProgress \<and>
                          ses_state (obj (srv_mgr (d_srv d)) r) \<noteq> State_active then (Inr Ignored, d)
                       else run))"

definition Handler_executeCommand :: "lan_env \<Rightarrow> event_env \<Rightarrow> handler \<Rightarrow> daemon \<Rightarrow> outcome res \<times> daemon" where
  "Handler_executeCommand env ev h d =
     (case getCommand (h_msg h) of
        Inl e \<Rightarrow> (Inl e, d)
      | Inr c \<Rightarrow>
          let payload = msg_payload (h_msg h)
          in if msg_payloadType (h_msg h) = PT_IPMI then
               (if h_sessionID h = 0 \<or> pa_ipmiEnabled (ses_userPrivAccess (obj (srv_mgr (d_srv d)) (h_session h))) then
                  (if length payload < 7 then (Inr Ignored, d)
                   else Table_executeCommand env ev c h (take (length payload - 7) (drop 6 payload)) d)
                else (Inr (Answer [IPMI_CC_INSUFFICIENT_PRIVILEGE]), d))
             else Table_executeCommand env ev c h payload d)"

text \<open>\<open>updSessionData\<close>: the session of the message takes over the channel that the packet came on.\<close>

definition touch_session :: "int \<Rightarrow> channel \<Rightarrow> session \<Rightarrow> session" where
  "touch_session now ch s = (updateLastTransactionTime now s)\<lparr>ses_channelPtr := Some ch,
     ses_info := (ses_info s)\<lparr>si_remotePort := getPort ch, si_remoteIPAddr := getRemoteAddress ch 0\<rparr>\<rparr>"

definition updSessionData :: "int \<Rightarrow> channel \<Rightarrow> session_header \<Rightarrow> message \<Rightarrow> daemon \<Rightarrow> handler res \<times> daemon" where
  "updSessionData now ch hdr msg d =
     (case getSession (msg_bmcSessionID msg) BMC_SESSION_ID (srv_mgr (d_srv d)) of
        Inl e \<Rightarrow> (Inl e, d)
      | Inr r \<Rightarrow>
          (Inr \<lparr>h_sessionID = msg_bmcSessionID msg, h_session = r, h_channel = ch, h_header = hdr,
             h_msg = msg\<lparr>msg_rcSessionID := ses_remoteConsoleSessionID (obj (srv_mgr (d_srv d)) r)\<rparr>\<rparr>,
           snd (on_mgr (\<lambda>m. ((), upd_obj r (touch_session now ch) m)) d)))"

text \<open>The destructor of a handler with a reply: exceptions of sending are caught.\<close>

definition send_reply :: "lan_env \<Rightarrow> event_env \<Rightarrow> handler \<Rightarrow> byte list \<Rightarrow> daemon \<Rightarrow> unit res \<times> daemon" where
  "send_reply env ev h out d =
     (case createResponse (h_msg h) out of
        Inl e \<Rightarrow> (Inl e, d)
      | Inr None \<Rightarrow> (Inr (), d)
      | Inr (Some msg) \<Rightarrow>
          on_srv (\<lambda>sv. catch_exceptions (handler_send env (ev_io ev) (Some (h_channel h)) msg (h_header h) (h_session h) sv)) d)"

definition processIncoming :: "lan_env \<Rightarrow> event_env \<Rightarrow> channel \<Rightarrow> byte list option \<Rightarrow> daemon \<Rightarrow> unit res \<times> daemon" where
  "processIncoming env ev ch packet d =
     (case packet of
        None \<Rightarrow> (Inr (), d)
      | Some p \<Rightarrow>
          (case parser_unflatten (env_crypto env) (srv_mgr (d_srv d)) p of
             Inl e \<Rightarrow> (Inl e, d)
           | Inr (msg, hdr) \<Rightarrow>
               (case updSessionData (ev_now ev) ch hdr msg d of
                  (Inl e, d1) \<Rightarrow> (Inl e, d1)
                | (Inr h, d1) \<Rightarrow>
                    (case Handler_executeCommand env ev h d1 of
                       (Inl e, d2) \<Rightarrow> (Inl e, d2)
                     | (Inr (Answer out), d2) \<Rightarrow> send_reply env ev h out d2
                     | (Inr (Forward q), d2) \<Rightarrow> (Inr (), d2\<lparr>d_pending := d_pending d2 @ [(h, q)]\<rparr>)
                     | (Inr Ignored, d2) \<Rightarrow> (Inr (), d2)))))"

definition handleRmcpPacket :: "lan_env \<Rightarrow> event_env \<Rightarrow> channel \<Rightarrow> byte list option \<Rightarrow> daemon \<Rightarrow> unit res \<times> daemon" where
  "handleRmcpPacket env ev ch packet d =
     (case processIncoming env ev ch packet d of
        (Inl e, d') \<Rightarrow> (if is_exception e then Inr () else Inl e, d')
      | (Inr _, d') \<Rightarrow> (Inr (), d'))"

text \<open>The answer of the host daemon to a forwarded request, or the failure of the D-Bus call.\<close>

definition host_reply :: "lan_env \<Rightarrow> event_env \<Rightarrow> nat \<Rightarrow> (byte \<times> byte list) option \<Rightarrow> daemon \<Rightarrow> unit res \<times> daemon" where
  "host_reply env ev i rsp d =
     (let h = fst (d_pending d ! i);
          out = (case rsp of None \<Rightarrow> [IPMI_CC_UNSPECIFIED_ERROR] | Some (cc, bs) \<Rightarrow> cc # bs);
          d' = d\<lparr>d_pending := take i (d_pending d) @ drop (Suc i) (d_pending d)\<rparr>
      in send_reply env ev h out d')"

section \<open>Objects after small changes\<close>

lemma obj_upd_gen: "obj (upd_obj r f m) r' = (if r' = r \<and> r < length (mgr_objs m) then f (obj m r) else obj m r')"
  by (cases "r < length (mgr_objs m)") (auto simp: obj_upd_obj, simp_all add: upd_obj_def obj_def list_update_beyond)

text \<open>A sent packet only advances the outbound sequence number of its session.\<close>

definition seq_upd :: "nat \<Rightarrow> (session \<Rightarrow> sequence_numbers) \<Rightarrow> manager \<Rightarrow> manager" where
  "seq_upd r g = upd_obj r (\<lambda>s. s\<lparr>ses_sequenceNums := g s\<rparr>)"

lemma seq_upd_simps [simp]:
  "ses_state (obj (seq_upd r g m) k) = ses_state (obj m k)" "ses_authAlgo (obj (seq_upd r g m) k) = ses_authAlgo (obj m k)"
  "ses_integrityAlgo (obj (seq_upd r g m) k) = ses_integrityAlgo (obj m k)" "ses_cryptAlgo (obj (seq_upd r g m) k) = ses_cryptAlgo (obj m k)"
  "ses_userName (obj (seq_upd r g m) k) = ses_userName (obj m k)" "ses_info (obj (seq_upd r g m) k) = ses_info (obj m k)"
  "ses_userPrivAccess (obj (seq_upd r g m) k) = ses_userPrivAccess (obj m k)" "ses_channelPtr (obj (seq_upd r g m) k) = ses_channelPtr (obj m k)"
  "ses_bmcSessionID (obj (seq_upd r g m) k) = ses_bmcSessionID (obj m k)"
  "ses_remoteConsoleSessionID (obj (seq_upd r g m) k) = ses_remoteConsoleSessionID (obj m k)"
  "getSession sid BMC_SESSION_ID (seq_upd r g m) = getSession sid BMC_SESSION_ID m"
  "mgr_sessionsMap (seq_upd r g m) = mgr_sessionsMap m" "length (mgr_objs (seq_upd r g m)) = length (mgr_objs m)"
  by (simp_all add: seq_upd_def obj_upd_gen ses_state_def)

lemma session_ok_seq [simp]: "session_ok (s\<lparr>ses_sequenceNums := n\<rparr>) = session_ok s"
  by (simp add: session_ok_def ses_state_def ses_currentPrivilege_def min_privilege_def)

lemma lan_ok_seq: "lan_ok m \<Longrightarrow> lan_ok (seq_upd r g m)"
  unfolding seq_upd_def by (rule lan_ok_upd_obj) (simp_all add: same_identity_def)

lemma seq_upd_id: "\<exists>g. m = seq_upd r g m"
  by (rule exI [of _ ses_sequenceNums]) (simp add: seq_upd_def upd_obj_def)

lemma flatten_seq: "\<exists>g. snd (parser_flatten c iv msg hdr r m) = seq_upd r g m"
  using seq_upd_id [of m r]
  by (cases hdr) (auto simp: ipmi20_flatten_def addSequenceNumber_def Let_def seq_upd_def split: prod.split)

lemma handler_send_seq: "\<exists>g. srv_mgr (snd (handler_send env io ch msg hdr r sv)) = seq_upd r g (srv_mgr sv)"
  using flatten_seq [of "env_crypto env" "io_iv io (srv_sends sv)" msg hdr r "srv_mgr sv"]
  by (auto simp: handler_send_def Let_def split: prod.split sum.split option.split)

lemma handler_send_lan_ok: "lan_ok (srv_mgr sv) \<Longrightarrow> lan_ok (srv_mgr (snd (handler_send env io ch msg hdr r sv)))"
  using handler_send_seq [of env io ch msg hdr r sv] lan_ok_seq by metis

lemma sendPayload_lan_ok: "lan_ok (srv_mgr sv) \<Longrightarrow> lan_ok (srv_mgr (snd (sendPayload env io i out sv)))"
  by (auto simp: sendPayload_def sendSOLPayload_def split: sum.split intro: handler_send_lan_ok)

lemma sol_mgr_frame [simp]:
  "srv_mgr (fill_cache i a n nack sv) = srv_mgr sv" "srv_mgr (inbound_ack i a n sv) = srv_mgr sv"
  by (simp_all add: fill_cache_def incOutboundSeqNum_def Let_def inbound_ack_def)

lemma prepareResponse_lan_ok: "lan_ok (srv_mgr sv) \<Longrightarrow> lan_ok (srv_mgr (snd (prepareResponse env io i a n nack sv)))"
  by (simp add: prepareResponse_def Let_def sendPayload_lan_ok)

lemma resendPayload_lan_ok: "lan_ok (srv_mgr sv) \<Longrightarrow> lan_ok (srv_mgr (snd (resendPayload env io i clear sv)))"
  using sendPayload_lan_ok [of sv env io i "ctx_payloadCache (ctx i sv)"]
  by (auto simp: resendPayload_def Let_def split: prod.split sum.split)

lemma sendOutbound_lan_ok: "lan_ok (srv_mgr sv) \<Longrightarrow> lan_ok (srv_mgr (snd (sendOutboundPayload env io i sv)))"
  using sendPayload_lan_ok [of "fill_cache i 0 0 False sv" env io i]
  by (auto simp: sendOutboundPayload_def Let_def split: prod.split sum.split) (metis snd_conv)+

lemma processInbound_lan_ok:
  assumes "lan_ok (srv_mgr sv)"
  shows "lan_ok (srv_mgr (snd (processInboundPayload env io i sq a n st brk xs sv)))"
proof -
  obtain z u where z: "resendPayload env io i False sv = (z, u)" by fastforce
  obtain x s1 where x: "inbound_break io sq brk (inbound_ack i a n sv) = (x, s1)" by fastforce
  obtain y s2 where y: "inbound_chars io sq xs s1 = (y, s2)" by fastforce
  have "lan_ok (srv_mgr u)" using resendPayload_lan_ok [OF assms, of env io i False] z by simp
  moreover have "srv_mgr s1 = srv_mgr sv" using inbound_parts_frame(2) [of io sq brk "inbound_ack i a n sv"] x by simp
  moreover have "srv_mgr s2 = srv_mgr s1" using inbound_parts_frame(4) [of io sq xs s1] y by simp
  ultimately show ?thesis
    unfolding processInboundPayload_def z x y sum.case prod.case
    using assms by (cases z; cases x; cases y) (simp_all add: y prepareResponse_lan_ok split: prod.split)
qed

lemma charAcc_lan_ok:
  assumes "lan_ok (srv_mgr sv)"
  shows "lan_ok (srv_mgr (snd (charAccTimerHandler env io i sv)))"
proof -
  let ?sv = "upd_ctx i (\<lambda>c. c\<lparr>ctx_accumulateTimer := None\<rparr>) sv"
  obtain x t where o: "sendOutboundPayload env io i ?sv = (x, t)" by fastforce
  have "lan_ok (srv_mgr t)" using sendOutbound_lan_ok [of ?sv env io i] assms o by simp
  then show ?thesis using assms by (cases x) (simp_all add: charAccTimerHandler_def Let_def o)
qed

lemma retry_lan_ok:
  assumes "lan_ok (srv_mgr sv)"
  shows "lan_ok (srv_mgr (snd (retryTimerHandler env io i sv)))"
proof -
  let ?max = "upd_ctx i (\<lambda>c. c\<lparr>ctx_retryCounter := ctx_maxRetryCount c\<rparr>) (upd_ctx i (\<lambda>c. c\<lparr>ctx_retryTimer := None\<rparr>) sv)"
  obtain y u where q: "resendPayload env io i True ?max = (y, u)" by fastforce
  have "lan_ok (srv_mgr u)" using resendPayload_lan_ok [of ?max env io i True] assms q by simp
  then show ?thesis using assms by (cases y) (simp_all add: retryTimerHandler_def Let_def q resendPayload_lan_ok)
qed

section \<open>The state of serial over LAN\<close>

text \<open>Either no payload is active, or instance 1 is and its flow is in order.\<close>

definition sol_ok :: "server \<Rightarrow> bool" where
  "sol_ok sv \<longleftrightarrow> sol_payloadMap (srv_sol sv) = [] \<or> payload_ok sv"

lemma sol_ok_same: "srv_sol sv' = srv_sol sv \<Longrightarrow> sol_ok sv' = sol_ok sv"
  by (simp add: sol_ok_def payload_ok_def has_ctx_def flow_def dataBuffer_def ctx_def)

lemma sol_ok_active: "sol_ok sv \<Longrightarrow> isPayloadActive i sv \<Longrightarrow> i = 1 \<and> payload_ok sv"
  by (auto simp: sol_ok_def isPayloadActive_def payload_ok_def has_ctx_def split: if_splits)

lemma payload_ok_config:
  assumes "payload_ok sv" "\<And>m. sol_payloadMap (f m) = sol_payloadMap m" "\<And>m. sol_dataBuffer (f m) = sol_dataBuffer m"
    and "\<And>m. sol_consoleSocket (f m) = sol_consoleSocket m"
  shows "payload_ok (upd_sol f sv)"
  using assms by (simp add: payload_ok_def has_ctx_def flow_def dataBuffer_def ctx_def)

lemma updateSOLParameter_frame [simp]:
  "srv_mgr (updateSOLParameter ps sv) = srv_mgr sv" "srv_console (updateSOLParameter ps sv) = srv_console sv"
  "sol_payloadMap (srv_sol (updateSOLParameter ps sv)) = sol_payloadMap (srv_sol sv)"
  "isPayloadActive i (updateSOLParameter ps sv) = isPayloadActive i sv"
  "dataBuffer (updateSOLParameter ps sv) = dataBuffer sv"
  by (simp_all add: updateSOLParameter_def isPayloadActive_def dataBuffer_def split: option.split)

lemma updateSOLParameter_ok: "sol_ok sv \<Longrightarrow> sol_ok (updateSOLParameter ps sv)"
  by (auto simp: sol_ok_def updateSOLParameter_def split: option.split intro: payload_ok_config)

lemma sol_change_frame:
  "sol_change n v m = Inr m' \<Longrightarrow> sol_payloadMap m' = sol_payloadMap m \<and> sol_dataBuffer m' = sol_dataBuffer m \<and>
     sol_consoleSocket m' = sol_consoleSocket m"
proof -
  define Q where "Q x = (\<forall>m'. x = Inr m' \<longrightarrow> sol_payloadMap m' = sol_payloadMap m \<and> sol_dataBuffer m' = sol_dataBuffer m \<and>
     sol_consoleSocket m' = sol_consoleSocket m)" for x :: "sol_manager res"
  have q: "Q (Inl e)" "sol_payloadMap x = sol_payloadMap m \<Longrightarrow> sol_dataBuffer x = sol_dataBuffer m \<Longrightarrow>
      sol_consoleSocket x = sol_consoleSocket m \<Longrightarrow> Q (Inr x)" for e x by (simp_all add: Q_def)
  have i: "Q x \<Longrightarrow> Q y \<Longrightarrow> Q (if b then x else y)" for b x y by simp
  have "Q (sol_change n v m)"
    by (cases v; simp only: sol_change.simps; intro i q; simp)
  then show "sol_change n v m = Inr m' \<Longrightarrow> sol_payloadMap m' = sol_payloadMap m \<and> sol_dataBuffer m' = sol_dataBuffer m \<and>
     sol_consoleSocket m' = sol_consoleSocket m" by (simp add: Q_def)
qed

lemma procSolConf_frame:
  "sol_payloadMap (snd (procSolConfChange ps m)) = sol_payloadMap m \<and> sol_dataBuffer (snd (procSolConfChange ps m)) = sol_dataBuffer m \<and>
     sol_consoleSocket (snd (procSolConfChange ps m)) = sol_consoleSocket m"
proof (induction ps m rule: procSolConfChange.induct)
  case (2 n v ps m)
  show ?case
  proof (cases "sol_change n v m")
    case (Inr m')
    then show ?thesis using 2 [OF Inr] sol_change_frame [OF Inr] by (simp del: sol_change.simps)
  qed (simp del: sol_change.simps)
qed simp

lemma getContext_session_active: "getContext_session sid sv = Inr i \<Longrightarrow> isPayloadActive i sv"
proof -
  assume "getContext_session sid sv = Inr i"
  then obtain c where "find (\<lambda>(i, c). ctx_sessionID c = sid) (sol_payloadMap (srv_sol sv)) = Some (i, c)"
    by (auto simp: getContext_session_def bad_literal_def split: option.splits)
  then have "(i, c) \<in> set (sol_payloadMap (srv_sol sv))" by (auto simp: find_Some_iff dest: nth_mem)
  then show ?thesis unfolding isPayloadActive_def map_of_eq_None_iff by force
qed

lemma payloadHandler_state:
  assumes "sol_ok sv"
  shows "snd (payloadHandler env io p sid sv) = sv \<or> payload_ok sv \<and>
     snd (payloadHandler env io p sid sv) = snd (processInboundPayload env io 1 (p ! 0) (p ! 1) (p ! 2) (p ! 3 AND 0x40 \<noteq> 0)
                 (p ! 3 AND 0x10 \<noteq> 0) (drop sol_header_size p) sv)"
proof (cases "length p < sol_header_size \<or> isl (getContext_session sid sv)")
  case True
  then show ?thesis
    by (auto simp: payloadHandler_def catch_exceptions_def isl_def split: sum.split)
next
  case False
  then obtain i where i: "getContext_session sid sv = Inr i" by (cases "getContext_session sid sv") simp_all
  have "i = 1" "payload_ok sv" using sol_ok_active [OF assms getContext_session_active [OF i]] by simp_all
  then show ?thesis using False i by (auto simp: payloadHandler_def catch_exceptions_def split: sum.split prod.split)
qed

lemma payloadHandler_ok:
  assumes "sol_ok sv"
  shows "sol_ok (snd (payloadHandler env io p sid sv))"
  using payloadHandler_state [OF assms, of env io p sid] assms
    conjunct1 [OF sol_step_flow [of sv env io "Inbound (p ! 0) (p ! 1) (p ! 2) (p ! 3 AND 0x40 \<noteq> 0)
                 (p ! 3 AND 0x10 \<noteq> 0) (drop sol_header_size p)"]]
  by (auto simp: sol_ok_def)

lemma stop_frame [simp]:
  "srv_mgr (stopHostConsole sv) = srv_mgr sv" "srv_mgr (stopAllPayloadInstance sv) = srv_mgr sv"
  "srv_mgr (snd (stopPayloadInstance i sv)) = srv_mgr sv" "srv_mgr (snd (startHostConsole io sv)) = srv_mgr sv"
  "srv_mgr (snd (startPayloadInstance io i sid sv)) = srv_mgr sv"
  by (auto simp: stopHostConsole_def stopAllPayloadInstance_def stopPayloadInstance_def startHostConsole_def
      startPayloadInstance_def Let_def split: prod.split sum.split)

lemma stopAll_ok: "sol_ok (stopAllPayloadInstance sv)"
  by (simp add: stopAllPayloadInstance_def Let_def sol_ok_def stopHostConsole_def)

lemma stopPayload_ok: "sol_ok sv \<Longrightarrow> sol_ok (snd (stopPayloadInstance 1 sv))"
  by (auto simp: stopPayloadInstance_def Let_def sol_ok_def payload_ok_def has_ctx_def isPayloadActive_def stopHostConsole_def)

lemma startPayload_ok:
  assumes "sol_ok sv" "\<not> isPayloadActive 1 sv"
  shows "sol_ok (snd (startPayloadInstance io 1 sid sv))"
proof -
  have e: "sol_payloadMap (srv_sol sv) = []" using assms by (auto simp: sol_ok_def payload_ok_def has_ctx_def isPayloadActive_def)
  obtain x sv' where s: "startPayloadInstance io 1 sid sv = (x, sv')" by fastforce
  show ?thesis
  proof (cases x)
    case (Inl f)
    then have "sol_payloadMap (srv_sol sv') = []"
      using s e by (auto simp: startPayloadInstance_def startHostConsole_def stopHostConsole_def split: prod.splits sum.splits if_splits)
    then show ?thesis by (simp add: s sol_ok_def)
  next
    case (Inr u)
    then show ?thesis using startPayloadInstance_ok(1) [of io sid sv sv'] s e by (simp add: sol_ok_def)
  qed
qed

lemma activatePayload_state:
  "snd (activatePayload env io se p ch own sid sv) \<in>
     {sv, updateSOLParameter (se_properties se) sv} \<or>
   \<not> isPayloadActive 1 sv \<and> snd (activatePayload env io se p ch own sid sv) =
     snd (startPayloadInstance io 1 sid ((updateSOLParameter (se_properties se) sv)
        \<lparr>srv_mgr := upd_obj own (\<lambda>s. s\<lparr>ses_channelPtr := ch\<rparr>) (srv_mgr sv)\<rparr>))"
  by (auto simp: activatePayload_def Let_def simp del: getSession.simps split: sum.split prod.split)

lemma session_ok_channel [simp]: "session_ok (s\<lparr>ses_channelPtr := ch\<rparr>) = session_ok s"
  by (simp add: session_ok_def ses_state_def ses_currentPrivilege_def min_privilege_def)

lemma lan_ok_channel: "lan_ok m \<Longrightarrow> lan_ok (upd_obj r (\<lambda>s. s\<lparr>ses_channelPtr := ch\<rparr>) m)"
  by (rule lan_ok_upd_obj) (simp_all add: same_identity_def)

lemma activatePayload_ok:
  assumes "sol_ok sv" "lan_ok (srv_mgr sv)"
  shows "sol_ok (snd (activatePayload env io se p ch own sid sv))" "lan_ok (srv_mgr (snd (activatePayload env io se p ch own sid sv)))"
proof -
  let ?u = "updateSOLParameter (se_properties se) sv"
  let ?v = "?u\<lparr>srv_mgr := upd_obj own (\<lambda>s. s\<lparr>ses_channelPtr := ch\<rparr>) (srv_mgr sv)\<rparr>"
  note u = updateSOLParameter_ok [OF assms(1), of "se_properties se"]
  have v: "sol_ok ?v" using u sol_ok_same [of ?v ?u] by simp
  have "isPayloadActive 1 ?v = isPayloadActive 1 sv" using updateSOLParameter_frame(4) [of 1 "se_properties se" sv] by (simp add: isPayloadActive_def)
  then have w: "\<not> isPayloadActive 1 sv \<Longrightarrow> sol_ok (snd (startPayloadInstance io 1 sid ?v))" using startPayload_ok [OF v] by simp
  consider "snd (activatePayload env io se p ch own sid sv) = sv" | "snd (activatePayload env io se p ch own sid sv) = ?u"
    | "\<not> isPayloadActive 1 sv" "snd (activatePayload env io se p ch own sid sv) = snd (startPayloadInstance io 1 sid ?v)"
    using activatePayload_state [of env io se p ch own sid sv] by blast
  then show "sol_ok (snd (activatePayload env io se p ch own sid sv))" "lan_ok (srv_mgr (snd (activatePayload env io se p ch own sid sv)))"
    by (cases; use assms u w lan_ok_channel [OF assms(2)] in simp)+
qed

lemma sendUnsolicited_frame [simp]:
  "srv_sol (snd (sendUnsolicitedIPMIPayload env io ch sid nf cmd out sv)) = srv_sol sv"
  by (auto simp: sendUnsolicitedIPMIPayload_def split: sum.split)

lemma activating_ok:
  shows "srv_sol (snd (activating env io i sid sv)) = srv_sol sv"
    and "lan_ok (srv_mgr sv) \<Longrightarrow> lan_ok (srv_mgr (snd (activating env io i sid sv)))"
  by (auto simp: activating_def sendUnsolicitedIPMIPayload_def split: sum.split intro: handler_send_lan_ok)

lemma deactivatePayload_state:
  "snd (deactivatePayload env io p sv) = sv \<or> snd (deactivatePayload env io p sv) = snd (stopPayloadInstance 1 sv) \<or>
   snd (deactivatePayload env io p sv) = snd (activating env io 1 (ctx_sessionID (ctx 1 sv)) (snd (stopPayloadInstance 1 sv)))"
proof -
  obtain x sv1 where s: "stopPayloadInstance 1 sv = (x, sv1)" by fastforce
  obtain y sv2 where a: "catch_exceptions (activating env io 1 (ctx_sessionID (ctx 1 sv)) sv1) = (y, sv2)" by fastforce
  then have "sv2 = snd (activating env io 1 (ctx_sessionID (ctx 1 sv)) sv1)" by (metis catch_exceptions_state snd_conv)
  then show ?thesis by (cases x; cases y) (simp_all add: deactivatePayload_def Let_def s a)
qed

lemma deactivatePayload_ok:
  assumes "sol_ok sv" "lan_ok (srv_mgr sv)"
  shows "sol_ok (snd (deactivatePayload env io p sv))" "lan_ok (srv_mgr (snd (deactivatePayload env io p sv)))"
proof -
  let ?s = "snd (stopPayloadInstance 1 sv)"
  let ?a = "snd (activating env io 1 (ctx_sessionID (ctx 1 sv)) ?s)"
  have s: "sol_ok ?s" "lan_ok (srv_mgr ?s)" using stopPayload_ok [OF assms(1)] assms(2) by simp_all
  have a: "sol_ok ?a" "lan_ok (srv_mgr ?a)"
    using sol_ok_same [OF activating_ok(1), of env io 1 "ctx_sessionID (ctx 1 sv)" ?s] s activating_ok(2) [OF s(2)] by simp_all
  show "sol_ok (snd (deactivatePayload env io p sv))" "lan_ok (srv_mgr (snd (deactivatePayload env io p sv)))"
    using deactivatePayload_state [of env io p sv] s a assms by metis+
qed

section \<open>The daemon as a state machine\<close>

definition daemon_ok :: "daemon \<Rightarrow> bool" where
  "daemon_ok d \<longleftrightarrow> lan_ok (srv_mgr (d_srv d)) \<and> sol_ok (d_srv d) \<and>
     (\<forall>(h, q) \<in> set (d_pending d). h_sessionID h \<noteq> 0 \<and> hr_sessionId q = h_sessionID h)"

definition daemon_init :: "lan_env \<Rightarrow> daemon \<Rightarrow> bool" where
  "daemon_init env d \<longleftrightarrow> (\<exists>is_lan own channel now. d = \<lparr>d_srv = \<lparr>srv_mgr = managerInit (env_info0 env) is_lan own channel now,
     srv_sol = new_sol_manager, srv_sends = 0, srv_wire = [], srv_writes = 0, srv_console = []\<rparr>,
     d_ciphers = None, d_pending = []\<rparr>)"

lemma on_simps [simp]:
  "d_srv (snd (on_mgr f d)) = (d_srv d)\<lparr>srv_mgr := snd (f (srv_mgr (d_srv d)))\<rparr>" "d_pending (snd (on_mgr f d)) = d_pending d"
  "fst (on_mgr f d) = fst (f (srv_mgr (d_srv d)))"
  "d_srv (snd (on_srv g d)) = snd (g (d_srv d))" "d_pending (snd (on_srv g d)) = d_pending d" "fst (on_srv g d) = fst (g (d_srv d))"
  by (simp_all add: on_mgr_def on_srv_def Let_def split: prod.split)

lemma sol_ok_mgr [simp]: "sol_ok (sv\<lparr>srv_mgr := m\<rparr>) = sol_ok sv"
  by (rule sol_ok_same) simp

lemma daemon_ok_mgr: "daemon_ok d \<Longrightarrow> (\<And>m. lan_ok m \<Longrightarrow> lan_ok (snd (f m))) \<Longrightarrow> daemon_ok (snd (on_mgr f d))"
  by (simp add: daemon_ok_def)

lemma daemon_ok_srv: "daemon_ok d \<Longrightarrow> (\<And>sv. sol_ok sv \<Longrightarrow> lan_ok (srv_mgr sv) \<Longrightarrow>
    sol_ok (snd (f sv)) \<and> lan_ok (srv_mgr (snd (f sv)))) \<Longrightarrow> daemon_ok (snd (on_srv f d))"
  by (simp add: daemon_ok_def)

lemma payloadHandler_lan_ok:
  "sol_ok sv \<Longrightarrow> lan_ok (srv_mgr sv) \<Longrightarrow> lan_ok (srv_mgr (snd (payloadHandler env io p sid sv)))"
  using payloadHandler_state [of sv env io p sid] by (auto simp: processInbound_lan_ok)

lemma touch_session_ok [simp]: "session_ok (touch_session now ch s) = session_ok s" "same_identity s (touch_session now ch s)"
  by (simp_all add: touch_session_def session_ok_def ses_state_def ses_currentPrivilege_def min_privilege_def same_identity_def
      updateLastTransactionTime_def)

lemma run_functor_ok:
  assumes "daemon_ok d" "info_ok (env_info0 env)"
  shows "daemon_ok (snd (run_functor f env ev h p d))"
proof (cases f)
  case F_getChannelCipherSuites
  then show ?thesis using assms(1) by (simp add: daemon_ok_def split: prod.split)
qed (simp_all add: assms daemon_ok_mgr daemon_ok_srv openSession_lan_ok RAKP12_lan_ok RAKP34_lan_ok setSessionPrivilegeLevel_lan_ok
      closeSession_lan_ok payloadHandler_ok payloadHandler_lan_ok activatePayload_ok deactivatePayload_ok)

lemma Table_state:
  "snd (Table_executeCommand env ev c h p d) = d \<or> (\<exists>f. snd (Table_executeCommand env ev c h p d) = snd (run_functor f env ev h p d))"
proof (cases "map_of command_table c")
  case None
  then show ?thesis by (simp add: Table_executeCommand_def Let_def del: getSession.simps split: sum.split)
next
  case (Some e)
  obtain x d' where n: "NetIpmidEntry_executeCommand e env ev h p d = (x, d')" by fastforce
  have "d' = d \<or> d' = snd (run_functor (e_functor e) env ev h p d)"
    using n by (auto simp: NetIpmidEntry_executeCommand_def split: if_splits)
  moreover have "snd (Table_executeCommand env ev c h p d) \<in> {d, d'}"
    by (cases x) (simp_all add: Table_executeCommand_def Some n Let_def del: getSession.simps split: sum.split)
  ultimately show ?thesis by blast
qed

lemma Handler_state:
  "snd (Handler_executeCommand env ev h d) = d \<or> (\<exists>f p. snd (Handler_executeCommand env ev h d) = snd (run_functor f env ev h p d))"
proof -
  have "snd (Handler_executeCommand env ev h d) = d \<or>
      (\<exists>c p. snd (Handler_executeCommand env ev h d) = snd (Table_executeCommand env ev c h p d))"
    by (auto simp: Handler_executeCommand_def Let_def split: sum.split)
  then show ?thesis
  proof (elim disjE exE)
    fix c p assume "snd (Handler_executeCommand env ev h d) = snd (Table_executeCommand env ev c h p d)"
    then show ?thesis using Table_state [of env ev c h p d] by auto
  qed simp
qed

lemma pending_frame [simp]:
  "d_pending (snd (run_functor f env ev h p d)) = d_pending d" "d_pending (snd (send_reply env ev h out d)) = d_pending d"
  by (cases f) (simp_all split: prod.split, simp_all add: send_reply_def split: sum.split option.split)

lemma send_reply_ok:
  assumes "daemon_ok d"
  shows "daemon_ok (snd (send_reply env ev h out d))" "d_pending (snd (send_reply env ev h out d)) = d_pending d"
proof -
  have "daemon_ok (snd (on_srv (\<lambda>sv. catch_exceptions (handler_send env io ch msg hdr r sv)) d))" for io ch msg hdr r
    by (rule daemon_ok_srv [OF assms]) (simp add: handler_send_lan_ok sol_ok_same [OF handler_send_frame(1)])
  then show "daemon_ok (snd (send_reply env ev h out d))" "d_pending (snd (send_reply env ev h out d)) = d_pending d"
    using assms by (auto simp: send_reply_def split: sum.split option.split)
qed

lemma updSessionData_ok:
  assumes "daemon_ok d" "updSessionData now ch hdr msg d = (x, d')"
  shows "daemon_ok d'" "d_pending d' = d_pending d"
proof -
  have t: "lan_ok m \<Longrightarrow> lan_ok (upd_obj r (touch_session now ch) m)" for r m by (rule lan_ok_upd_obj) simp_all
  have "daemon_ok (snd (on_mgr (\<lambda>m. ((), upd_obj r (touch_session now ch) m)) d))" for r
    by (rule daemon_ok_mgr [OF assms(1)]) (simp add: t)
  then show "daemon_ok d'" "d_pending d' = d_pending d"
    using assms by (auto simp: updSessionData_def simp del: getSession.simps split: sum.splits)
qed

text \<open>A request is forwarded only for a session that is active, with that session's id and privilege.\<close>

lemma Table_forward:
  assumes "Table_executeCommand env ev c h p d = (Inr (Forward q), d')"
  obtains r where "h_sessionID h \<noteq> 0" "getSession (h_sessionID h) BMC_SESSION_ID (srv_mgr (d_srv d)) = Inr r" "d' = d"
    and "ses_state (obj (srv_mgr (d_srv d)) r) = State_active" "hr_data q = p"
    and "hr_privilege q = ses_currentPrivilege (obj (srv_mgr (d_srv d)) r)" "hr_sessionId q = ses_bmcSessionID (obj (srv_mgr (d_srv d)) r)"
    and "map_of command_table c = None"
proof (cases "map_of command_table c")
  case None
  then show thesis using assms that
    by (auto simp: Table_executeCommand_def Let_def simp del: getSession.simps split: sum.splits if_splits)
next
  case (Some e)
  then show thesis using assms
    by (auto simp: Table_executeCommand_def Let_def simp del: getSession.simps split: sum.splits if_splits prod.splits)
qed

lemma Handler_forward:
  assumes "Handler_executeCommand env ev h d = (Inr (Forward q), d')"
  obtains c p where "Table_executeCommand env ev c h p d = (Inr (Forward q), d')"
    and "p = msg_payload (h_msg h) \<or> p = take (length (msg_payload (h_msg h)) - 7) (drop 6 (msg_payload (h_msg h)))"
  using assms that by (auto simp: Handler_executeCommand_def Let_def split: sum.splits if_splits)

text \<open>What one packet does: nothing more than a command's state change and a reply, or a forwarded request.\<close>

lemma processIncoming_cases:
  obtains (unchanged) "snd (processIncoming env ev ch packet d) = d"
  | (executed) p msg hdr h d1 x d2 where "packet = Some p" "parser_unflatten (env_crypto env) (srv_mgr (d_srv d)) p = Inr (msg, hdr)"
    and "updSessionData (ev_now ev) ch hdr msg d = (Inr h, d1)" "Handler_executeCommand env ev h d1 = (x, d2)"
    and "snd (processIncoming env ev ch packet d) =
      (case x of Inr (Answer out) \<Rightarrow> snd (send_reply env ev h out d2)
         | Inr (Forward q) \<Rightarrow> d2\<lparr>d_pending := d_pending d2 @ [(h, q)]\<rparr> | _ \<Rightarrow> d2)"
proof (cases packet)
  case None
  then show thesis using unchanged by (simp add: processIncoming_def)
next
  case (Some p)
  show thesis
  proof (cases "parser_unflatten (env_crypto env) (srv_mgr (d_srv d)) p")
    case (Inl e)
    then show thesis using unchanged by (simp add: processIncoming_def Some)
  next
    case (Inr mh)
    obtain msg hdr where mh: "mh = (msg, hdr)" by fastforce
    show thesis
    proof (cases "getSession (msg_bmcSessionID msg) BMC_SESSION_ID (srv_mgr (d_srv d))")
      case (Inl e)
      then show thesis using unchanged Inr by (simp add: processIncoming_def Some mh updSessionData_def del: getSession.simps)
    next
      case s: (Inr r)
      then obtain h d1 where u: "updSessionData (ev_now ev) ch hdr msg d = (Inr h, d1)"
        by (simp add: updSessionData_def del: getSession.simps)
      obtain x d2 where e: "Handler_executeCommand env ev h d1 = (x, d2)" by fastforce
      show thesis
        by (rule executed [OF Some Inr [unfolded mh] u e])
          (use Inr mh u e in \<open>auto simp: processIncoming_def Some split: sum.split outcome.split\<close>)
    qed
  qed
qed

lemma handleRmcp_state: "snd (handleRmcpPacket env ev ch packet d) = snd (processIncoming env ev ch packet d)"
  by (auto simp: handleRmcpPacket_def split: prod.split sum.split)

lemma handler_of_update:
  assumes "updSessionData now ch hdr msg d = (Inr h, d1)"
  shows "h_sessionID h = msg_bmcSessionID msg" "msg_payload (h_msg h) = msg_payload msg" "h_channel h = ch" "h_header h = hdr"
    and "getSession (msg_bmcSessionID msg) BMC_SESSION_ID (srv_mgr (d_srv d)) = Inr (h_session h)"
    and "d_srv d1 = (d_srv d)\<lparr>srv_mgr := upd_obj (h_session h) (touch_session now ch) (srv_mgr (d_srv d))\<rparr>"
    and "msg_payloadType (h_msg h) = msg_payloadType msg"
  using assms by (auto simp: updSessionData_def simp del: getSession.simps split: sum.splits)

lemma handleRmcp_ok:
  assumes "daemon_ok d" "info_ok (env_info0 env)"
  shows "daemon_ok (snd (handleRmcpPacket env ev ch packet d))"
  unfolding handleRmcp_state
proof (cases rule: processIncoming_cases [of env ev ch packet d])
  case unchanged
  then show "daemon_ok (snd (processIncoming env ev ch packet d))" using assms(1) by simp
next
  case (executed p msg hdr h d1 x d2)
  have d1: "daemon_ok d1" using updSessionData_ok [OF assms(1) executed(3)] by simp
  have d2: "daemon_ok d2" using Handler_state [of env ev h d1] run_functor_ok [OF d1 assms(2)] executed(4) d1 by (metis snd_conv)
  have fwd: "daemon_ok (d2\<lparr>d_pending := d_pending d2 @ [(h, q)]\<rparr>)" if x: "x = Inr (Forward q)" for q
  proof -
    obtain c p' where "Table_executeCommand env ev c h p' d1 = (Inr (Forward q), d2)"
      by (rule Handler_forward [OF executed(4) [unfolded x]])
    then obtain r where "h_sessionID h \<noteq> 0" "getSession (h_sessionID h) BMC_SESSION_ID (srv_mgr (d_srv d1)) = Inr r"
        "hr_sessionId q = ses_bmcSessionID (obj (srv_mgr (d_srv d1)) r)"
      by (rule Table_forward)
    then have "h_sessionID h \<noteq> 0 \<and> hr_sessionId q = h_sessionID h"
      using mgr_ok_getSession(2) [of "srv_mgr (d_srv d1)"] d1 by (metis daemon_ok_def lan_ok_mgr)
    then show ?thesis using d2 by (auto simp: daemon_ok_def)
  qed
  show "daemon_ok (snd (processIncoming env ev ch packet d))"
    unfolding executed(5) using d2 fwd send_reply_ok(1) [OF d2]
    by (cases x) (auto split: outcome.split)
qed

text \<open>
  The events of the daemon: a packet from any address, an answer of the host daemon, the cleaner of
  sessions, the timers of the active payload, console data, and changes of the SOL configuration.
\<close>

inductive daemon_step :: "lan_env \<Rightarrow> daemon \<Rightarrow> daemon \<Rightarrow> bool" for env where
  step_packet: "handleRmcpPacket env ev ch packet d = (Inr (), d') \<Longrightarrow> daemon_step env d d'"
| step_host: "i < length (d_pending d) \<Longrightarrow> host_reply env ev i rsp d = (Inr (), d') \<Longrightarrow> daemon_step env d d'"
| step_clean: "daemon_step env d (snd (on_mgr (\<lambda>m. ((), cleanStaleEntries now m)) d))"
| step_sol: "isPayloadActive 1 (d_srv d) \<Longrightarrow> ev \<in> {Accumulate_Expires, Retry_Expires} \<Longrightarrow>
    daemon_step env d (d\<lparr>d_srv := sol_step env io ev (d_srv d)\<rparr>)"
| step_console: "daemon_step env d (d\<lparr>d_srv := consoleInputHandler xs (d_srv d)\<rparr>)"
| step_config: "procSolConfChange ps (srv_sol (d_srv d)) = (Inr (), m) \<Longrightarrow>
    daemon_step env d (d\<lparr>d_srv := (d_srv d)\<lparr>srv_sol := m\<rparr>\<rparr>)"
| step_disable: "daemon_step env d (d\<lparr>d_srv := stopAllPayloadInstance (d_srv d)\<rparr>)"

lemma sol_step_server_ok:
  assumes "sol_ok sv" "isPayloadActive 1 sv \<or> (\<exists>xs. ev = Host_Data xs)"
  shows "sol_ok (sol_step env io ev sv)"
proof (cases "isPayloadActive 1 sv")
  case True
  then have "payload_ok sv" using sol_ok_active [OF assms(1)] by blast
  then show ?thesis using sol_step_flow by (simp add: sol_ok_def)
next
  case False
  then obtain xs where "ev = Host_Data xs" using assms(2) by blast
  moreover have "sol_payloadMap (srv_sol sv) = []"
    using False assms(1) by (auto simp: sol_ok_def payload_ok_def has_ctx_def isPayloadActive_def)
  ultimately show ?thesis by (simp add: sol_ok_def consoleInputHandler_def buffer_write_def)
qed

lemma sol_step_lan_ok: "lan_ok (srv_mgr sv) \<Longrightarrow> lan_ok (srv_mgr (sol_step env io ev sv))"
  by (cases ev) (simp_all add: consoleInputHandler_def buffer_write_def charAcc_lan_ok retry_lan_ok processInbound_lan_ok)

lemma daemon_init_ok: "info_ok (env_info0 env) \<Longrightarrow> daemon_init env d \<Longrightarrow> daemon_ok d"
  by (auto simp: daemon_init_def daemon_ok_def lan_ok_init sol_ok_def new_sol_manager_def)

lemma daemon_step_ok:
  assumes "daemon_ok d" "info_ok (env_info0 env)" "daemon_step env d d'"
  shows "daemon_ok d'"
  using assms(3)
proof cases
  case (step_packet ev ch packet)
  then show ?thesis using handleRmcp_ok [OF assms(1,2), of ev ch packet] by simp
next
  case (step_host i ev rsp)
  let ?d = "d\<lparr>d_pending := take i (d_pending d) @ drop (Suc i) (d_pending d)\<rparr>"
  have "daemon_ok ?d" using assms(1) by (auto simp: daemon_ok_def dest: in_set_takeD in_set_dropD)
  then show ?thesis using step_host(2) send_reply_ok(1) [of ?d] by (auto simp: host_reply_def Let_def) (metis snd_conv)+
next
  case (step_clean now)
  then show ?thesis using daemon_ok_mgr [OF assms(1), of "\<lambda>m. ((), cleanStaleEntries now m)"] lan_ok_clean by simp
next
  case (step_sol ev io)
  then show ?thesis using assms(1) sol_step_server_ok [of "d_srv d" ev env io] sol_step_lan_ok [of "d_srv d" env io ev]
    by (simp add: daemon_ok_def)
next
  case (step_console xs)
  then show ?thesis using assms(1) sol_step_server_ok [of "d_srv d" "Host_Data xs"] sol_step_lan_ok [of "d_srv d" _ _ "Host_Data xs"]
    by (simp add: daemon_ok_def)
next
  case (step_config ps m)
  have e: "(d_srv d)\<lparr>srv_sol := m\<rparr> = upd_sol (\<lambda>x. m) (d_srv d)" by (simp add: upd_sol_def)
  have "sol_ok (upd_sol (\<lambda>x. m) (d_srv d))"
    using assms(1) procSolConf_frame [of ps "srv_sol (d_srv d)"] step_config(2)
    by (auto simp: daemon_ok_def sol_ok_def payload_ok_def has_ctx_def flow_def dataBuffer_def ctx_def)
  then show ?thesis using assms(1) step_config(1) unfolding e by (simp add: daemon_ok_def)
next
  case step_disable
  then show ?thesis using assms(1) stopAll_ok by (simp add: daemon_ok_def)
qed

definition lan_inv :: "lan_env \<Rightarrow> daemon \<Rightarrow> bool" where
  "lan_inv env d \<longleftrightarrow> info_ok (env_info0 env) \<longrightarrow> daemon_ok d"

interpretation lan_machine: invariant_system "daemon_init env" "daemon_step env" "lan_inv env" for env
  by unfold_locales (auto simp: lan_inv_def daemon_init_ok intro: daemon_step_ok)

lemma reachable_daemon_ok: "daemon_init env d0 \<Longrightarrow> (daemon_step env)\<^sup>*\<^sup>* d0 d \<Longrightarrow> info_ok (env_info0 env) \<Longrightarrow> daemon_ok d"
  using lan_machine.inv_reachable [of env d0 d] by (simp add: lan_inv_def)

section \<open>What reaches the host\<close>

text \<open>The session of a forwarded request, found again after the packet has updated it.\<close>

lemma forward_session:
  assumes "daemon_ok d" "updSessionData now ch hdr msg d = (Inr h, d1)" "Handler_executeCommand env ev h d1 = (Inr (Forward q), d2)"
  shows "msg_bmcSessionID msg \<noteq> 0" "hr_sessionId q = msg_bmcSessionID msg"
    and "map_of (mgr_sessionsMap (srv_mgr (d_srv d))) (msg_bmcSessionID msg) = Some (h_session h)"
    and "session_ok (obj (srv_mgr (d_srv d)) (h_session h))" "ses_state (obj (srv_mgr (d_srv d)) (h_session h)) = State_active"
    and "hr_privilege q = ses_currentPrivilege (obj (srv_mgr (d_srv d)) (h_session h))"
    and "hr_data q = msg_payload msg \<or> hr_data q = take (length (msg_payload msg) - 7) (drop 6 (msg_payload msg))"
proof -
  let ?m = "srv_mgr (d_srv d)" and ?m1 = "srv_mgr (d_srv d1)" and ?r = "h_session h"
  note u = handler_of_update [OF assms(2)]
  obtain c pl where t: "Table_executeCommand env ev c h pl d1 = (Inr (Forward q), d2)"
    and pl: "pl = msg_payload (h_msg h) \<or> pl = take (length (msg_payload (h_msg h)) - 7) (drop 6 (msg_payload (h_msg h)))"
    by (rule Handler_forward [OF assms(3)])
  obtain r1 where r1: "h_sessionID h \<noteq> 0" "getSession (h_sessionID h) BMC_SESSION_ID ?m1 = Inr r1"
      "ses_state (obj ?m1 r1) = State_active" "hr_data q = pl" "hr_privilege q = ses_currentPrivilege (obj ?m1 r1)"
      "hr_sessionId q = ses_bmcSessionID (obj ?m1 r1)"
    by (rule Table_forward [OF t])
  have m: "lan_ok ?m" using assms(1) by (simp add: daemon_ok_def)
  note g = mgr_ok_getSession [OF lan_ok_mgr [OF m] u(5)]
  have m1: "?m1 = upd_obj ?r (touch_session now ch) ?m" using u(6) by simp
  have "getSession (h_sessionID h) BMC_SESSION_ID ?m1 = Inr ?r" using u(1,5) m1 by simp
  with r1(2) have rr: "r1 = ?r" by simp
  have o: "obj ?m1 ?r = touch_session now ch (obj ?m ?r)" using g(1) m1 by simp
  show "ses_state (obj ?m ?r) = State_active" "hr_privilege q = ses_currentPrivilege (obj ?m ?r)" "hr_sessionId q = msg_bmcSessionID msg"
    using r1(3,5,6) g(2) by (simp_all add: rr o touch_session_def ses_state_def ses_currentPrivilege_def updateLastTransactionTime_def)
  show "session_ok (obj ?m ?r)" by (rule lan_ok_obj [OF m g(1)])
  show "msg_bmcSessionID msg \<noteq> 0" using r1(1) u(1) by simp
  show "map_of (mgr_sessionsMap ?m) (msg_bmcSessionID msg) = Some ?r" by (rule g(3))
  show "hr_data q = msg_payload msg \<or> hr_data q = take (length (msg_payload msg) - 7) (drop 6 (msg_payload msg))"
    using pl r1(4) u(2) by simp
qed

text \<open>
  C2. In every reachable state a packet makes the daemon forward a request to the host only if its
  session is active and the packet was authenticated and encrypted with that session's keys; the
  request carries the session's id and privilege, which is at most USER or what user and channel allow.
\<close>

theorem forwarded_requests_are_authentic:
  assumes "daemon_init env d0" "(daemon_step env)\<^sup>*\<^sup>* d0 d" "info_ok (env_info0 env)"
    and "processIncoming env ev ch (Some p) d = (Inr (), d')" "d_pending d' = d_pending d @ [(h, q)]"
  shows "\<exists>r ia k2 body mac n payload. map_of (mgr_sessionsMap (srv_mgr (d_srv d))) (hr_sessionId q) = Some r \<and>
     ses_state (obj (srv_mgr (d_srv d)) r) = State_active \<and>
     ses_integrityAlgo (obj (srv_mgr (d_srv d)) r) = Some ia \<and> ses_cryptAlgo (obj (srv_mgr (d_srv d)) r) = Some k2 \<and>
     p = take 4 p @ body @ mac \<and> length mac = authCodeLength (ia_digest ia) \<and>
     integrity_hmac (env_crypto env) ia body = Inr mac \<and>
     decryptPayload (env_crypto env) k2 p 16 n = Inr payload \<and>
     (hr_data q = payload \<or> hr_data q = take (length payload - 7) (drop 6 payload)) \<and>
     (hr_privilege q \<le> Priv_USER \<or> hr_privilege q \<le> min_privilege (obj (srv_mgr (d_srv d)) r))"
proof -
  have ok: "daemon_ok d" by (rule reachable_daemon_ok [OF assms(1-3)])
  have st: "snd (processIncoming env ev ch (Some p) d) = d'" using assms(4) by simp
  show ?thesis
  proof (cases rule: processIncoming_cases [of env ev ch "Some p" d])
    case unchanged
    then show ?thesis using st assms(5) by simp
  next
    case (executed p' msg hdr h' d1 x d2)
    have pp: "p' = p" using executed(1) by simp
    note pd = updSessionData_ok [OF ok executed(3)]
    have d2: "d_pending d2 = d_pending d1"
      using Handler_state [of env ev h' d1] executed(4) pending_frame(1) by (metis snd_conv)
    have x: "x = Inr (Forward q)" and h: "h' = h"
      using executed(5) st assms(5) d2 pd(2) by (auto split: sum.splits outcome.splits)
    note f = forward_session [OF ok executed(3,4) [unfolded x]]
    let ?s = "obj (srv_mgr (d_srv d)) (h_session h')"
    obtain ia k2 where k: "ses_integrityAlgo ?s = Some ia" "ses_cryptAlgo ?s = Some k2"
      using f(4,5) by (auto simp: session_ok_def)
    have "hr_privilege q \<le> Priv_USER \<or> hr_privilege q \<le> min_privilege ?s"
      using f(4,6) by (simp add: session_ok_def)
    with authentic_packet [OF executed(2) [unfolded pp] f(1,3) k] f(2,3,5,7) k show ?thesis by metis
  qed
qed

section \<open>Packets in the clear\<close>

definition clear_packet :: "byte \<Rightarrow> 32 word \<Rightarrow> byte list \<Rightarrow> byte list" where
  "clear_packet pt sid payload = ipmi20_header pt sid 0 (length payload) @ payload"

definition clear_message :: "byte \<Rightarrow> 32 word \<Rightarrow> 32 word \<Rightarrow> byte list \<Rightarrow> message" where
  "clear_message pt sid rcid payload = \<lparr>msg_isPacketEncrypted = False, msg_isPacketAuthenticated = False, msg_payloadType = pt,
     msg_rcSessionID = rcid, msg_bmcSessionID = sid, msg_sessionSeqNum = Some 0,
     msg_rmcpMsgClass = RMCP_MESSAGE_CLASS_IPMI, msg_payload = payload\<rparr>"

text \<open>A session is open to packets in the clear if it is session zero or has no keys yet.\<close>

definition in_the_clear :: "manager \<Rightarrow> 32 word \<Rightarrow> nat \<Rightarrow> bool" where
  "in_the_clear m sid r \<longleftrightarrow> getSession sid BMC_SESSION_ID m = Inr r \<and>
     (sid \<noteq> 0 \<longrightarrow> ses_integrityAlgo (obj m r) = None \<and> ses_cryptAlgo (obj m r) = None \<and> ses_state (obj m r) = State_setupInProgress)"

definition clear_payload :: "byte \<Rightarrow> byte list \<Rightarrow> bool" where
  "clear_payload pt payload \<longleftrightarrow> pt AND 0xC0 = 0 \<and> payload \<noteq> [] \<and> length payload < 65536"

lemma clear_packet_parsed:
  assumes "in_the_clear m sid r" "clear_payload pt payload"
  shows "parser_unflatten c m (clear_packet pt sid payload) = Inr (clear_message pt sid MESSAGE_INVALID_SESSION_ID payload, Header_IPMI20)"
proof -
  have p: "clear_packet pt sid payload = ipmi20_header (payload_flags False False pt) sid 0 (length payload) @ payload @ []"
    by (simp add: clear_packet_def payload_flags_def)
  show ?thesis
    using parse_flattened [of sid m r pt payload "clear_packet pt sid payload" False False 0 "[]" c] assms p
    by (simp add: in_the_clear_def clear_payload_def clear_message_def del: getSession.simps)
qed

definition touched :: "int \<Rightarrow> channel \<Rightarrow> nat \<Rightarrow> daemon \<Rightarrow> daemon" where
  "touched now ch r d = d\<lparr>d_srv := (d_srv d)\<lparr>srv_mgr := upd_obj r (touch_session now ch) (srv_mgr (d_srv d))\<rparr>\<rparr>"

definition clear_handler :: "32 word \<Rightarrow> nat \<Rightarrow> channel \<Rightarrow> byte \<Rightarrow> 32 word \<Rightarrow> byte list \<Rightarrow> handler" where
  "clear_handler sid r ch pt rcid payload = \<lparr>h_sessionID = sid, h_session = r, h_channel = ch, h_header = Header_IPMI20,
     h_msg = clear_message pt sid rcid payload\<rparr>"

lemma clear_packet_handled:
  assumes "in_the_clear (srv_mgr (d_srv d)) sid r" "clear_payload pt payload"
    and "Handler_executeCommand env ev (clear_handler sid r ch pt (ses_remoteConsoleSessionID (obj (srv_mgr (d_srv d)) r)) payload)
      (touched (ev_now ev) ch r d) = (x, d2)"
  shows "processIncoming env ev ch (Some (clear_packet pt sid payload)) d =
     (case x of Inl e \<Rightarrow> (Inl e, d2)
      | Inr (Answer out) \<Rightarrow> send_reply env ev (clear_handler sid r ch pt (ses_remoteConsoleSessionID (obj (srv_mgr (d_srv d)) r)) payload) out d2
      | Inr (Forward q) \<Rightarrow> (Inr (), d2\<lparr>d_pending := d_pending d2 @
          [(clear_handler sid r ch pt (ses_remoteConsoleSessionID (obj (srv_mgr (d_srv d)) r)) payload, q)]\<rparr>)
      | Inr Ignored \<Rightarrow> (Inr (), d2))"
proof -
  have g: "getSession sid BMC_SESSION_ID (srv_mgr (d_srv d)) = Inr r" using assms(1) by (simp add: in_the_clear_def del: getSession.simps)
  have "updSessionData (ev_now ev) ch Header_IPMI20 (clear_message pt sid MESSAGE_INVALID_SESSION_ID payload) d =
      (Inr (clear_handler sid r ch pt (ses_remoteConsoleSessionID (obj (srv_mgr (d_srv d)) r)) payload), touched (ev_now ev) ch r d)"
    using g by (simp add: updSessionData_def clear_message_def clear_handler_def touched_def on_mgr_def del: getSession.simps)
  then show ?thesis
    unfolding processIncoming_def using clear_packet_parsed [OF assms(1,2), of "env_crypto env"] assms(3) by simp
qed

lemma clear_handler_sel [simp]:
  "h_sessionID (clear_handler sid r ch pt rcid payload) = sid" "h_session (clear_handler sid r ch pt rcid payload) = r"
  "h_channel (clear_handler sid r ch pt rcid payload) = ch" "h_header (clear_handler sid r ch pt rcid payload) = Header_IPMI20"
  "msg_payload (h_msg (clear_handler sid r ch pt rcid payload)) = payload"
  "msg_payloadType (h_msg (clear_handler sid r ch pt rcid payload)) = pt"
  by (simp_all add: clear_handler_def clear_message_def)

lemma touched_simps [simp]:
  "srv_sol (d_srv (touched now ch r d)) = srv_sol (d_srv d)" "srv_console (d_srv (touched now ch r d)) = srv_console (d_srv d)"
  "srv_writes (d_srv (touched now ch r d)) = srv_writes (d_srv d)" "d_pending (touched now ch r d) = d_pending d"
  "srv_mgr (d_srv (touched now ch r d)) = upd_obj r (touch_session now ch) (srv_mgr (d_srv d))"
  by (simp_all add: touched_def)

lemma touch_session_simps [simp]:
  "ses_state (touch_session now ch s) = ses_state s" "ses_integrityAlgo (touch_session now ch s) = ses_integrityAlgo s"
  "ses_cryptAlgo (touch_session now ch s) = ses_cryptAlgo s" "ses_authAlgo (touch_session now ch s) = ses_authAlgo s"
  "ses_userName (touch_session now ch s) = ses_userName s" "ses_userPrivAccess (touch_session now ch s) = ses_userPrivAccess s"
  "ses_channelPtr (touch_session now ch s) = Some ch" "si_channelNum (ses_info (touch_session now ch s)) = si_channelNum (ses_info s)"
  "ses_remoteConsoleSessionID (touch_session now ch s) = ses_remoteConsoleSessionID s"
  "ses_bmcSessionID (touch_session now ch s) = ses_bmcSessionID s"
  by (simp_all add: touch_session_def updateLastTransactionTime_def ses_state_def)

lemma in_the_clear_touch [simp]: "in_the_clear (upd_obj r (touch_session now ch) m) sid k = in_the_clear m sid k"
  by (simp add: in_the_clear_def obj_upd_gen)

lemma in_the_clear_seq [simp]: "in_the_clear (seq_upd r g m) sid k = in_the_clear m sid k"
  by (simp add: in_the_clear_def del: getSession.simps)

text \<open>The commands of the table run for session zero, if they may, and for sessions still in setup.\<close>

lemma Table_in_the_clear:
  assumes "in_the_clear (srv_mgr (d_srv d)) sid r" "h_sessionID h = sid" "map_of command_table c = Some (entry f q sl)" "sid = 0 \<Longrightarrow> sl"
  shows "Table_executeCommand env ev c h p d =
     (case run_functor f env ev h p d of (Inl x, d') \<Rightarrow> (Inl x, d') | (Inr out, d') \<Rightarrow> (Inr (Answer out), d'))"
proof -
  have e: "NetIpmidEntry_executeCommand (entry f q sl) env ev h p d = run_functor f env ev h p d"
    using assms(2,4) by (auto simp: NetIpmidEntry_executeCommand_def entry_def)
  show ?thesis
    using assms(1,2) by (simp add: Table_executeCommand_def assms(3) e Let_def in_the_clear_def del: getSession.simps)
qed

text \<open>Sending in the clear can only fail with an exception.\<close>

lemma handler_send_clear:
  assumes "\<not> msg_isPacketEncrypted msg" "\<not> msg_isPacketAuthenticated msg"
  shows "fst (handler_send env io (Some a) msg Header_IPMI20 r sv) \<in> {Inr (), Inl Runtime_Error}"
proof -
  obtain x m' where f: "ipmi20_flatten (env_crypto env) (io_iv io (srv_sends sv)) msg r (srv_mgr sv) = (x, m')" by fastforce
  have "\<exists>p. x = Inr p" using assms f by (auto simp: ipmi20_flatten_def Let_def split: prod.splits)
  then show ?thesis using f by (auto simp: handler_send_def Let_def split: if_splits)
qed

lemma send_reply_clear:
  assumes "clear_payload pt payload" "pt = PT_IPMI \<Longrightarrow> 6 \<le> length payload"
  obtains g d' where "send_reply env ev (clear_handler sid r ch pt rcid payload) out d = (Inr (), d')"
    and "srv_mgr (d_srv d') = seq_upd r g (srv_mgr (d_srv d))" "srv_sol (d_srv d') = srv_sol (d_srv d)"
    and "srv_console (d_srv d') = srv_console (d_srv d)" "srv_writes (d_srv d') = srv_writes (d_srv d)" "d_pending d' = d_pending d"
proof -
  let ?h = "clear_handler sid r ch pt rcid payload"
  have "pt = PT_IPMI \<Longrightarrow> slice payload 0 6 = Inr (take 6 payload)" using assms(2) by (simp add: slice_def)
  then have "\<exists>y. createResponse (h_msg ?h) out = Inr y"
    by (simp add: createResponse_def clear_handler_def clear_message_def Let_def)
  then obtain y where y: "createResponse (h_msg ?h) out = Inr y" by blast
  show thesis
  proof (cases y)
    case None
    obtain g where "srv_mgr (d_srv d) = seq_upd r g (srv_mgr (d_srv d))" using seq_upd_id by blast
    then show thesis using that [of d g] y None by (simp add: send_reply_def)
  next
    case (Some msg)
    let ?f = "\<lambda>sv. catch_exceptions (handler_send env (ev_io ev) (Some (h_channel ?h)) msg (h_header ?h) (h_session ?h) sv)"
    have hs: "h_channel ?h = ch" "h_header ?h = Header_IPMI20" "h_session ?h = r" by (simp_all add: clear_handler_def)
    have "\<not> msg_isPacketEncrypted msg" "\<not> msg_isPacketAuthenticated msg"
      using y Some by (auto simp: createResponse_def clear_handler_def clear_message_def copy_message_def slice_def Let_def split: if_splits)
    from handler_send_clear [OF this, of env "ev_io ev" ch r "d_srv d"]
    have "fst (?f (d_srv d)) = Inr ()" unfolding hs by (auto simp: catch_exceptions_def split: prod.split sum.split)
    then have e: "fst (send_reply env ev ?h out d) = Inr ()" by (simp add: send_reply_def y Some)
    have s: "snd (send_reply env ev ?h out d) = snd (on_srv ?f d)" by (simp add: send_reply_def y Some)
    obtain g where g: "srv_mgr (snd (handler_send env (ev_io ev) (Some ch) msg Header_IPMI20 r (d_srv d))) = seq_upd r g (srv_mgr (d_srv d))"
      using handler_send_seq by blast
    show thesis
      by (rule that [of "snd (send_reply env ev ?h out d)" g]) (use e g in \<open>simp_all add: s hs prod_eq_iff\<close>)
  qed
qed

lemma session_zero:
  assumes "mgr_ok m"
  obtains r where "in_the_clear m 0 r" "r < length (mgr_objs m)"
proof -
  have "0 \<in> fst ` set (mgr_sessionsMap m)" using assms by (simp add: mgr_ok_def)
  then obtain r where "map_of (mgr_sessionsMap m) 0 = Some r" by (metis map_of_eq_None_iff option.exhaust)
  then have "getSession 0 BMC_SESSION_ID m = Inr r" by simp
  then show thesis using that mgr_ok_getSession(1) [OF assms] by (simp add: in_the_clear_def)
qed

lemma table_entries:
  "map_of command_table (payload_command PT_OPEN_SESSION_REQUEST) = Some (entry F_openSession Priv_HIGHEST_MATCHING True)"
  "map_of command_table (payload_command PT_RAKP1) = Some (entry F_RAKP12 Priv_HIGHEST_MATCHING True)"
  "map_of command_table (payload_command PT_SOL) = Some (entry F_payloadHandler Priv_HIGHEST_MATCHING False)"
  "map_of command_table (app_command 0x48) = Some (entry F_activatePayload Priv_USER False)"
  by code_simp+

text \<open>A message of another type than IPMI is a command by its type alone.\<close>

lemma payload_type_command:
  assumes "in_the_clear (srv_mgr (d_srv d)) sid r" "pt \<noteq> PT_IPMI"
    and "map_of command_table (payload_command pt) = Some (entry f q sl)" "sid = 0 \<Longrightarrow> sl"
  shows "Handler_executeCommand env ev (clear_handler sid r ch pt rcid payload) d =
     (case run_functor f env ev (clear_handler sid r ch pt rcid payload) payload d of
        (Inl x, d') \<Rightarrow> (Inl x, d') | (Inr out, d') \<Rightarrow> (Inr (Answer out), d'))"
proof -
  have "getCommand (h_msg (clear_handler sid r ch pt rcid payload)) = Inr (payload_command pt)"
    using assms(2) by (simp add: getCommand_def clear_handler_def clear_message_def payload_command_def)
  then show ?thesis
    using Table_in_the_clear [OF assms(1) _ assms(3,4), of "clear_handler sid r ch pt rcid payload" env ev payload] assms(2)
    by (simp add: Handler_executeCommand_def Let_def)
qed

lemma openSession_new:
  assumes "mgr_ok m" "info_ok (env_info0 env)" "openSession env now rands p m = (x, m')"
    and "length (mgr_objs m') \<noteq> length (mgr_objs m)"
  obtains sid where "in_the_clear m' sid (length (mgr_objs m))" "sid \<noteq> 0"
    and "ses_authAlgo (obj m' (length (mgr_objs m))) = Some (new_auth_algo SHA256 4 1)"
    and "take 4 (drop 8 (projr x)) = id_bytes sid" "\<not> isl x"
proof -
  have p: "length p = 32" "algo_field p 12 = 3" "algo_field p 20 = 4" "algo_field p 28 = 1"
    using assms(3,4) by (auto simp: openSession_def Let_def auth_supported_def integrity_supported_def crypt_supported_def split: if_splits)
  define priv where "priv = (if p ! 1 AND 0xF = 0 then Priv_ADMIN else p ! 1 AND 0xF)"
  define rc :: "32 word" where "rc = of_nat (le_val (take 4 (drop 4 p)))"
  obtain y m2 where st: "startSession (env_info0 env) now rands rc priv 3 4 1 m = (y, m2)" by fastforce
  have o: "openSession env now rands p m = (case y of
       Inl e \<Rightarrow> (if is_exception e then Inr (open_session_error p INSUFFICIENT_RESOURCE) else Inl e, m2)
     | Inr r \<Rightarrow> (Inr (open_session_reply p (obj m2 r)),
          upd_obj r (\<lambda>s. set_state State_setupInProgress (updateLastTransactionTime now s)) m2))"
    unfolding openSession_def Let_def priv_def [symmetric] rc_def [symmetric] p auth_supported_def integrity_supported_def
      crypt_supported_def
    by (cases y) (simp_all add: st)
  have dg: "session_digest 3 = Some SHA256" by (simp add: session_digest_def)
  show thesis
  proof (cases y)
    case (Inl e)
    then have "mgr_objs m' = mgr_objs m"
      using startSession_failure [OF assms(1) st [unfolded Inl]] dg o assms(3) by simp
    then show thesis using assms(4) by simp
  next
    case (Inr r)
    obtain bmc where b: "bmc \<noteq> 0" "r = length (mgr_objs m)"
        "mgr_objs m2 = mgr_objs m @ [started (env_info0 env) rc bmc priv (handle_property m2 bmc) SHA256 4 1]"
        "mgr_sessionsMap m2 = omap_update bmc r (mgr_sessionsMap (cleanStaleEntries now m))"
      by (rule startSession_success [OF assms(1) st [unfolded Inr]]) (use dg in auto)
    have "omap_ok (mgr_sessionsMap (cleanStaleEntries now m))" using mgr_ok_clean [OF assms(1)] by (simp add: mgr_ok_def)
    then have g: "getSession bmc BMC_SESSION_ID m2 = Inr r" by (simp add: b(4) map_of_omap_update)
    have m': "m' = upd_obj r (\<lambda>s. set_state State_setupInProgress (updateLastTransactionTime now s)) m2"
      and x: "x = Inr (open_session_reply p (obj m2 r))" using o assms(3) Inr by simp_all
    have s: "obj m2 r = started (env_info0 env) rc bmc priv (handle_property m2 bmc) SHA256 4 1"
      using b(2,3) by (simp add: obj_def)
    have s': "obj m' r = set_state State_setupInProgress (updateLastTransactionTime now (obj m2 r))"
      using b(2,3) by (simp add: m')
    have id: "take 4 (drop 8 (open_session_reply p t)) = id_bytes (ses_bmcSessionID t)" for t
      using p(1) by (simp add: open_session_reply_def id_bytes_def)
    have "getSession bmc BMC_SESSION_ID m' = Inr r" using g by (simp add: m')
    then have "in_the_clear m' bmc r"
      by (simp add: in_the_clear_def s' s started_def new_session_def updateLastTransactionTime_def set_state_def ses_state_def
          del: getSession.simps)
    then show thesis
      by (intro that [of bmc, folded b(2)])
        (use b(1) in \<open>simp_all add: s' s x id started_def new_session_def updateLastTransactionTime_def set_state_def\<close>)
  qed
qed

lemma length_upd_obj [simp]: "length (mgr_objs (upd_obj r f m)) = length (mgr_objs m)"
  by (simp add: upd_obj_def)

text \<open>
  The state after an Open Session request in the clear that the table answers by making a session.
\<close>

lemma open_session_packet:
  assumes "daemon_ok d" "info_ok (env_info0 env)" "length req = 32"
    and "handleRmcpPacket env ev ch (Some (clear_packet PT_OPEN_SESSION_REQUEST 0 req)) d = (y, d1)"
    and "length (mgr_objs (srv_mgr (d_srv d1))) \<noteq> length (mgr_objs (srv_mgr (d_srv d)))"
  obtains sid where "in_the_clear (srv_mgr (d_srv d1)) sid (length (mgr_objs (srv_mgr (d_srv d))))" "sid \<noteq> 0"
    and "ses_authAlgo (obj (srv_mgr (d_srv d1)) (length (mgr_objs (srv_mgr (d_srv d))))) = Some (new_auth_algo SHA256 4 1)"
    and "srv_sol (d_srv d1) = srv_sol (d_srv d)" "srv_console (d_srv d1) = srv_console (d_srv d)" "srv_writes (d_srv d1) = srv_writes (d_srv d)"
proof -
  let ?m = "srv_mgr (d_srv d)"
  obtain r0 where r0: "in_the_clear ?m 0 r0" using session_zero [OF lan_ok_mgr] assms(1) by (metis daemon_ok_def)
  have cp: "clear_payload PT_OPEN_SESSION_REQUEST req"
    using assms(3) by (auto simp: clear_payload_def PT_OPEN_SESSION_REQUEST_def)
  let ?rc = "ses_remoteConsoleSessionID (obj ?m r0)"
  let ?h = "clear_handler 0 r0 ch PT_OPEN_SESSION_REQUEST ?rc req"
  let ?d = "touched (ev_now ev) ch r0 d"
  have okm: "mgr_ok (srv_mgr (d_srv ?d))"
    unfolding touched_simps using assms(1) by (intro mgr_ok_upd_same lan_ok_mgr) (simp_all add: daemon_ok_def)
  obtain x m2 where op: "openSession env (ev_now ev) (ev_rands ev) req (srv_mgr (d_srv ?d)) = (x, m2)" by fastforce
  let ?d2 = "?d\<lparr>d_srv := (d_srv ?d)\<lparr>srv_mgr := m2\<rparr>\<rparr>"
  have run: "run_functor F_openSession env ev ?h req ?d = (x, ?d2)" using op by (simp add: on_mgr_def)
  have ne: "PT_OPEN_SESSION_REQUEST \<noteq> PT_IPMI" by (simp add: payload_types)
  have c: "in_the_clear (srv_mgr (d_srv ?d)) 0 r0" using r0 by simp
  have ex: "Handler_executeCommand env ev ?h ?d = (case x of Inl e \<Rightarrow> (Inl e, ?d2) | Inr out \<Rightarrow> (Inr (Answer out), ?d2))"
    unfolding payload_type_command [OF c ne table_entries(1) TrueI] run by (cases x) simp_all
  have len: "length (mgr_objs (srv_mgr (d_srv ?d))) = length (mgr_objs ?m)" by simp
  show thesis
  proof (cases x)
    case (Inl e)
    have "snd (processIncoming env ev ch (Some (clear_packet PT_OPEN_SESSION_REQUEST 0 req)) d) = ?d2"
      using clear_packet_handled [OF r0 cp, of env ev ch "Inl e" ?d2] ex Inl by simp
    then have d1: "d1 = ?d2" using assms(4) handleRmcp_state by (metis snd_conv)
    have "length (mgr_objs m2) \<noteq> length (mgr_objs (srv_mgr (d_srv ?d)))" using assms(5) d1 len by simp
    then show thesis by (rule openSession_new [OF okm assms(2) op]) (simp add: Inl)
  next
    case (Inr out)
    obtain g d' where s: "send_reply env ev ?h out ?d2 = (Inr (), d')" "srv_mgr (d_srv d') = seq_upd r0 g (srv_mgr (d_srv ?d2))"
        "srv_sol (d_srv d') = srv_sol (d_srv ?d2)" "srv_console (d_srv d') = srv_console (d_srv ?d2)"
        "srv_writes (d_srv d') = srv_writes (d_srv ?d2)"
      by (rule send_reply_clear [OF cp, of env ev 0 r0 ch ?rc out ?d2]) (simp add: ne, rule that)
    have "snd (processIncoming env ev ch (Some (clear_packet PT_OPEN_SESSION_REQUEST 0 req)) d) = d'"
      using clear_packet_handled [OF r0 cp, of env ev ch "Inr (Answer out)" ?d2] ex Inr s(1) by simp
    then have d1: "d1 = d'" using assms(4) handleRmcp_state by (metis snd_conv)
    have ln: "length (mgr_objs m2) \<noteq> length (mgr_objs (srv_mgr (d_srv ?d)))" using assms(5) d1 len s(2) by simp
    obtain sid where "in_the_clear m2 sid (length (mgr_objs ?m))" "sid \<noteq> 0"
        "ses_authAlgo (obj m2 (length (mgr_objs ?m))) = Some (new_auth_algo SHA256 4 1)"
      by (rule openSession_new [OF okm assms(2) op ln, unfolded len])
    then show thesis by (intro that [of sid]) (simp_all add: d1 s)
  qed
qed

text \<open>
  C39. Two packets from anybody stop the daemon: after an Open Session request that was granted, for
  which no user name is needed, a packet of the SOL type on the new session, in the clear, makes the
  daemon read outside a string literal (when no SOL payload is active and the session id, a random
  number of 30 bits, is beyond the end of the literal).
\<close>

theorem two_packets_stop_the_daemon:
  assumes "daemon_init env d0" "(daemon_step env)\<^sup>*\<^sup>* d0 d" "info_ok (env_info0 env)" "sol_payloadMap (srv_sol (d_srv d)) = []"
    and "length req = 32" "handleRmcpPacket env ev ch (Some (clear_packet PT_OPEN_SESSION_REQUEST 0 req)) d = (Inr (), d1)"
    and "length (mgr_objs (srv_mgr (d_srv d1))) \<noteq> length (mgr_objs (srv_mgr (d_srv d)))"
    and "4 \<le> length payload" "length payload < 65536"
  shows "\<exists>sid. getSession sid BMC_SESSION_ID (srv_mgr (d_srv d1)) = Inr (length (mgr_objs (srv_mgr (d_srv d)))) \<and>
     (22 < unat sid \<longrightarrow> fst (handleRmcpPacket env ev' ch' (Some (clear_packet PT_SOL sid payload)) d1) = Inl Out_Of_Bounds)"
proof -
  let ?r = "length (mgr_objs (srv_mgr (d_srv d)))"
  have ok: "daemon_ok d" by (rule reachable_daemon_ok [OF assms(1-3)])
  obtain sid where s: "in_the_clear (srv_mgr (d_srv d1)) sid ?r" "sid \<noteq> 0" "srv_sol (d_srv d1) = srv_sol (d_srv d)"
    by (rule open_session_packet [OF ok assms(3,5,6,7)])
  have cp: "clear_payload PT_SOL payload" using assms(8,9) by (auto simp: clear_payload_def PT_SOL_def)
  let ?rc = "ses_remoteConsoleSessionID (obj (srv_mgr (d_srv d1)) ?r)"
  let ?h = "clear_handler sid ?r ch' PT_SOL ?rc payload"
  let ?d = "touched (ev_now ev') ch' ?r d1"
  have c: "in_the_clear (srv_mgr (d_srv ?d)) sid ?r" using s(1) by simp
  have ne: "PT_SOL \<noteq> PT_IPMI" by (simp add: payload_types)
  have "sol_payloadMap (srv_sol (d_srv ?d)) = []" using assms(4) s(3) by simp
  then have f: "fst (run_functor F_payloadHandler env ev' ?h payload ?d) = Inl Out_Of_Bounds" if "22 < unat sid"
    using that assms(8) by (simp add: payloadHandler_def getContext_session_def bad_literal_def sol_header_size_def catch_exceptions_def)
  have "\<exists>d2. Handler_executeCommand env ev' ?h ?d = (Inl Out_Of_Bounds, d2)" if u: "22 < unat sid"
  proof -
    obtain x d2 where run: "run_functor F_payloadHandler env ev' ?h payload ?d = (x, d2)" by fastforce
    have "x = Inl Out_Of_Bounds" using f [OF u] unfolding run by simp
    with payload_type_command [OF c ne table_entries(3), of env ev' ch' ?rc payload] s(2) run show ?thesis by simp
  qed
  then have "fst (handleRmcpPacket env ev' ch' (Some (clear_packet PT_SOL sid payload)) d1) = Inl Out_Of_Bounds" if "22 < unat sid"
    using clear_packet_handled [OF s(1) cp, of env ev' ch' "Inl Out_Of_Bounds"] that by (auto simp: handleRmcpPacket_def)
  then show ?thesis using s(1) by (auto simp: in_the_clear_def simp del: getSession.simps)
qed

section \<open>The console without a password\<close>

definition ipmi_request :: "byte \<Rightarrow> byte \<Rightarrow> byte list \<Rightarrow> byte list" where
  "ipmi_request netFnLun cmd data =
     (let h = [0x20, netFnLun]; body = [0x81, 0, cmd] @ data in h @ [crc8bit h] @ body @ [crc8bit body])"

text \<open>What RAKP message 1 leaves in a session, and what a session needs for its console commands.\<close>

definition named_session :: "lan_env \<Rightarrow> manager \<Rightarrow> 32 word \<Rightarrow> nat \<Rightarrow> byte list \<Rightarrow> priv_access \<Rightarrow> bool" where
  "named_session env m sid r name pa \<longleftrightarrow> in_the_clear m sid r \<and> sid \<noteq> 0 \<and> r < length (mgr_objs m) \<and>
     ses_userName (obj m r) = name \<and>
     ses_userPrivAccess (obj m r) = pa \<and> si_channelNum (ses_info (obj m r)) = env_interfaceIndex env"

lemma named_session_touch [simp]: "named_session env (upd_obj k (touch_session now ch) m) sid r name pa = named_session env m sid r name pa"
  by (simp add: named_session_def obj_upd_gen)

lemma named_session_seq [simp]: "named_session env (seq_upd k g m) sid r name pa = named_session env m sid r name pa"
  by (simp add: named_session_def)

lemma named_session_channel [simp]:
  "named_session env (upd_obj k (\<lambda>s. s\<lparr>ses_channelPtr := ch\<rparr>) m) sid r name pa = named_session env m sid r name pa"
  by (simp add: named_session_def in_the_clear_def obj_upd_gen ses_state_def)

lemma rakp1_packet:
  assumes "daemon_ok d" "in_the_clear (srv_mgr (d_srv d)) sid r" "sid \<noteq> 0" "ses_authAlgo (obj (srv_mgr (d_srv d)) r) = Some aa"
    and "length rc = 16" "user_granted env name passwd pa ca" "req AND reqMaxPrivMask > Priv_CALLBACK" "ev_rnd ev = Some bmc"
  obtains d' where "handleRmcpPacket env ev ch (Some (clear_packet PT_RAKP1 0 (rakp1_message tag sid rc req name))) d = (Inr (), d')"
    and "named_session env (srv_mgr (d_srv d')) sid r name pa" "srv_sol (d_srv d') = srv_sol (d_srv d)"
    and "srv_console (d_srv d') = srv_console (d_srv d)" "srv_writes (d_srv d') = srv_writes (d_srv d)"
proof -
  let ?m = "srv_mgr (d_srv d)" and ?p = "rakp1_message tag sid rc req name"
  obtain r0 where r0: "in_the_clear ?m 0 r0" using session_zero [OF lan_ok_mgr] assms(1) by (metis daemon_ok_def)
  have name: "length name \<le> 16" using assms(6) by (simp add: user_granted_def)
  have cp: "clear_payload PT_RAKP1 ?p"
    using name assms(5) by (simp add: clear_payload_def PT_RAKP1_def rakp1_message_def id_bytes_def)
  let ?rc = "ses_remoteConsoleSessionID (obj ?m r0)"
  let ?h = "clear_handler 0 r0 ch PT_RAKP1 ?rc ?p"
  let ?d = "touched (ev_now ev) ch r0 d"
  let ?m1 = "srv_mgr (d_srv ?d)"
  have okm: "mgr_ok ?m1"
    unfolding touched_simps using assms(1) by (intro mgr_ok_upd_same lan_ok_mgr) (simp_all add: daemon_ok_def)
  have c: "in_the_clear ?m1 sid r" "in_the_clear ?m1 0 r0" using assms(2) r0 by simp_all
  have g: "getSession sid BMC_SESSION_ID ?m1 = Inr r" using c(1) by (simp only: in_the_clear_def)
  have aa: "ses_authAlgo (obj ?m1 r) = Some aa" using assms(4) by (auto simp: obj_upd_gen)
  obtain reply m' where run: "RAKP12 env (ev_now ev) (Some bmc) ?p ?m1 = (Inr reply, m')"
    and m': "mgr_ok m'" "getSession sid BMC_SESSION_ID m' = Inr r" "ses_state (obj m' r) = ses_state (obj ?m1 r)"
      "ses_userName (obj m' r) = name" "ses_userPrivAccess (obj m' r) = pa" "si_channelNum (ses_info (obj m' r)) = env_interfaceIndex env"
      "ses_integrityAlgo (obj m' r) = ses_integrityAlgo (obj ?m1 r)" "ses_cryptAlgo (obj m' r) = ses_cryptAlgo (obj ?m1 r)"
    by (rule RAKP12_granted [OF okm assms(3) g aa assms(5-7), of "ev_now ev" bmc tag]) blast
  have n: "named_session env m' sid r name pa"
    using m' c(1) assms(3) mgr_ok_getSession(1) [OF m'(1,2)] by (simp add: named_session_def in_the_clear_def del: getSession.simps)
  let ?d2 = "?d\<lparr>d_srv := (d_srv ?d)\<lparr>srv_mgr := m'\<rparr>\<rparr>"
  have f: "run_functor F_RAKP12 env ev ?h ?p ?d = (Inr reply, ?d2)" using run by (simp add: on_mgr_def assms(8))
  have ne: "PT_RAKP1 \<noteq> PT_IPMI" by (simp add: payload_types)
  have ex: "Handler_executeCommand env ev ?h ?d = (Inr (Answer reply), ?d2)"
    unfolding payload_type_command [OF c(2) ne table_entries(2) TrueI] f by simp
  obtain gg d' where s: "send_reply env ev ?h reply ?d2 = (Inr (), d')" "srv_mgr (d_srv d') = seq_upd r0 gg (srv_mgr (d_srv ?d2))"
      "srv_sol (d_srv d') = srv_sol (d_srv ?d2)" "srv_console (d_srv d') = srv_console (d_srv ?d2)"
      "srv_writes (d_srv d') = srv_writes (d_srv ?d2)"
    by (rule send_reply_clear [OF cp, of env ev 0 r0 ch ?rc reply ?d2]) (simp add: ne, rule that)
  have "handleRmcpPacket env ev ch (Some (clear_packet PT_RAKP1 0 ?p)) d = (Inr (), d')"
    unfolding handleRmcpPacket_def using clear_packet_handled [OF r0 cp ex] s(1) by simp
  then show thesis by (rule that) (simp_all add: s n)
qed

lemma startPayloadInstance_starts:
  assumes "getSession sid BMC_SESSION_ID (srv_mgr sv) = Inr r" "sol_payloadMap (srv_sol sv) = []" "io_connect io"
  obtains sv' where "startPayloadInstance io 1 sid sv = (Inr (), sv')"
proof -
  obtain s1 where s1: "startHostConsole io sv = (Inr (), s1)" "srv_mgr s1 = srv_mgr sv"
    using assms(3) by (cases "sol_consoleSocket (srv_sol sv)") (simp_all add: startHostConsole_def)
  then have "\<exists>c. makeContext 1 sid s1 = Inr c" using assms(1) by (simp add: makeContext_def rbind_def del: getSession.simps)
  then show thesis using that s1(1) assms(2) by (auto simp: startPayloadInstance_def)
qed

lemma activatePayload_granted:
  assumes "getSession sid BMC_SESSION_ID (srv_mgr sv) = Inr r" "ses_cryptAlgo (obj (srv_mgr sv) r) = None"
    and "sol_payloadMap (srv_sol sv) = []" "sol_enable (srv_sol (updateSOLParameter (se_properties se) sv))" "io_connect io"
    and "se_payloadAccess se (si_channelNum (ses_info (obj (srv_mgr sv) r))) (env_userGetUserId env (ses_userName (obj (srv_mgr sv) r)))"
  obtains out sv' where "activatePayload env io se [1, 1, 0, 0, 0, 0] ch r sid sv = (Inr out, sv')"
    and "srv_mgr sv' = upd_obj r (\<lambda>s. s\<lparr>ses_channelPtr := ch\<rparr>) (srv_mgr sv)" "payload_ok sv'" "ctx_sessionID (ctx 1 sv') = sid"
    and "ctx_in (ctx 1 sv') = 1" "srv_console sv' = srv_console sv" "srv_writes sv' = srv_writes sv"
proof -
  let ?u = "updateSOLParameter (se_properties se) sv"
  let ?v = "?u\<lparr>srv_mgr := upd_obj r (\<lambda>s. s\<lparr>ses_channelPtr := ch\<rparr>) (srv_mgr ?u)\<rparr>"
  have e: "sol_payloadMap (srv_sol ?v) = []" using assms(3) by simp
  have w: "srv_writes ?u = srv_writes sv" by (simp add: updateSOLParameter_def split: option.split)
  have g: "getSession sid BMC_SESSION_ID (srv_mgr ?u) = Inr r" using assms(1) by simp
  have i: "\<not> isPayloadActive 1 ?u" using assms(3) by (simp add: isPayloadActive_def)
  have gv: "getSession sid BMC_SESSION_ID (srv_mgr ?v) = Inr r" using assms(1) by simp
  obtain sv' where st: "startPayloadInstance io 1 sid ?v = (Inr (), sv')"
    by (rule startPayloadInstance_starts [OF gv e assms(5)])
  have a: "activatePayload env io se [1, 1, 0, 0, 0, 0] ch r sid sv =
      (Inr ([IPMI_CC_OK, 0, 0, 0, 0] @ to_le 2 MAX_PAYLOAD_SIZE @ to_le 2 MAX_PAYLOAD_SIZE @ to_le 2 IPMI_STD_PORT @ [0xFF, 0xFF]), sv')"
    using g assms(2,4,6) i st by (simp add: activatePayload_def Let_def PT_SOL_def del: getSession.simps)
  note o = startPayloadInstance_ok [OF st e]
  show thesis by (rule that [OF a]) (use o w in simp_all)
qed

lemma activate_packet:
  assumes "named_session env (srv_mgr (d_srv d)) sid r name pa" "pa_ipmiEnabled pa"
    and "sol_payloadMap (srv_sol (d_srv d)) = []" "sol_enable (srv_sol (updateSOLParameter (se_properties (ev_sol ev)) (d_srv d)))"
    and "io_connect (ev_io ev)" "se_payloadAccess (ev_sol ev) (env_interfaceIndex env) (env_userGetUserId env name)"
  obtains d' where "handleRmcpPacket env ev ch (Some (clear_packet PT_IPMI sid (ipmi_request 0x18 0x48 [1, 1, 0, 0, 0, 0]))) d = (Inr (), d')"
    and "named_session env (srv_mgr (d_srv d')) sid r name pa" "payload_ok (d_srv d')" "ctx_sessionID (ctx 1 (d_srv d')) = sid"
    and "ctx_in (ctx 1 (d_srv d')) = 1"
    and "srv_console (d_srv d') = srv_console (d_srv d)" "srv_writes (d_srv d') = srv_writes (d_srv d)"
proof -
  let ?p = "ipmi_request 0x18 0x48 [1, 1, 0, 0, 0, 0]" and ?m = "srv_mgr (d_srv d)"
  let ?rc = "ses_remoteConsoleSessionID (obj ?m r)"
  let ?h = "clear_handler sid r ch PT_IPMI ?rc ?p"
  let ?d = "touched (ev_now ev) ch r d"
  have nm: "named_session env (srv_mgr (d_srv ?d)) sid r name pa" using assms(1) by simp
  then have c: "in_the_clear (srv_mgr (d_srv ?d)) sid r" "sid \<noteq> 0" "ses_userPrivAccess (obj (srv_mgr (d_srv ?d)) r) = pa"
      "r < length (mgr_objs (srv_mgr (d_srv ?d)))"
    unfolding named_session_def by blast+
  have cp: "clear_payload PT_IPMI ?p" by (simp add: clear_payload_def PT_IPMI_def ipmi_request_def Let_def)
  have cmd: "getCommand (h_msg ?h) = Inr (app_command 0x48)"
    by (simp add: getCommand_def clear_handler_def clear_message_def ipmi_request_def Let_def app_command_def PT_IPMI_def)
  have data: "take (length ?p - 7) (drop 6 ?p) = [1, 1, 0, 0, 0, 0]" "\<not> length ?p < 7"
    by (simp_all add: ipmi_request_def Let_def)
  have u: "updateSOLParameter ps (d_srv ?d) = (updateSOLParameter ps (d_srv d))\<lparr>srv_mgr := srv_mgr (d_srv ?d)\<rparr>" for ps
    by (simp add: touched_def updateSOLParameter_def upd_sol_def split: option.split)
  have pre: "getSession sid BMC_SESSION_ID (srv_mgr (d_srv ?d)) = Inr r" "ses_cryptAlgo (obj (srv_mgr (d_srv ?d)) r) = None"
      "sol_payloadMap (srv_sol (d_srv ?d)) = []" "sol_enable (srv_sol (updateSOLParameter (se_properties (ev_sol ev)) (d_srv ?d)))"
      "io_connect (ev_io ev)" "se_payloadAccess (ev_sol ev) (si_channelNum (ses_info (obj (srv_mgr (d_srv ?d)) r)))
         (env_userGetUserId env (ses_userName (obj (srv_mgr (d_srv ?d)) r)))"
  proof -
    show "getSession sid BMC_SESSION_ID (srv_mgr (d_srv ?d)) = Inr r" using c(1) by (simp only: in_the_clear_def)
    show "ses_cryptAlgo (obj (srv_mgr (d_srv ?d)) r) = None" using c(1,2) unfolding in_the_clear_def by blast
    show "sol_payloadMap (srv_sol (d_srv ?d)) = []" "io_connect (ev_io ev)" using assms(3,5) by simp_all
    show "sol_enable (srv_sol (updateSOLParameter (se_properties (ev_sol ev)) (d_srv ?d)))" unfolding u using assms(4) by simp
    show "se_payloadAccess (ev_sol ev) (si_channelNum (ses_info (obj (srv_mgr (d_srv ?d)) r)))
         (env_userGetUserId env (ses_userName (obj (srv_mgr (d_srv ?d)) r)))"
      using nm assms(6) unfolding named_session_def by metis
  qed
  obtain out sv' where act: "activatePayload env (ev_io ev) (ev_sol ev) [1, 1, 0, 0, 0, 0] (Some ch) r sid (d_srv ?d) = (Inr out, sv')"
    and sv': "srv_mgr sv' = upd_obj r (\<lambda>s. s\<lparr>ses_channelPtr := Some ch\<rparr>) (srv_mgr (d_srv ?d))" "payload_ok sv'" "ctx_sessionID (ctx 1 sv') = sid"
      "ctx_in (ctx 1 sv') = 1" "srv_console sv' = srv_console (d_srv ?d)" "srv_writes sv' = srv_writes (d_srv ?d)"
    by (rule activatePayload_granted [OF pre])
  let ?d2 = "?d\<lparr>d_srv := sv'\<rparr>"
  have run: "run_functor F_activatePayload env ev ?h [1, 1, 0, 0, 0, 0] ?d = (Inr out, ?d2)" using act by (simp add: on_srv_def)
  have "Table_executeCommand env ev (app_command 0x48) ?h [1, 1, 0, 0, 0, 0] ?d =
      (case run_functor F_activatePayload env ev ?h [1, 1, 0, 0, 0, 0] ?d of (Inl x, d') \<Rightarrow> (Inl x, d') | (Inr out, d') \<Rightarrow> (Inr (Answer out), d'))"
    by (rule Table_in_the_clear [OF c(1) clear_handler_sel(1) table_entries(4)]) (use c(2) in simp)
  then have t: "Table_executeCommand env ev (app_command 0x48) ?h [1, 1, 0, 0, 0, 0] ?d = (Inr (Answer out), ?d2)"
    unfolding run by simp
  have ex: "Handler_executeCommand env ev ?h ?d = (Inr (Answer out), ?d2)"
    unfolding Handler_executeCommand_def cmd using t data c(3) assms(2) by (simp add: Let_def)
  have cl: "in_the_clear ?m sid r" using c(1) by simp
  obtain gg d' where s: "send_reply env ev ?h out ?d2 = (Inr (), d')" "srv_mgr (d_srv d') = seq_upd r gg (srv_mgr (d_srv ?d2))"
      "srv_sol (d_srv d') = srv_sol (d_srv ?d2)" "srv_console (d_srv d') = srv_console (d_srv ?d2)"
      "srv_writes (d_srv d') = srv_writes (d_srv ?d2)"
    by (rule send_reply_clear [OF cp, of env ev sid r ch ?rc out ?d2]) (use data(2) in simp, rule that)
  have "handleRmcpPacket env ev ch (Some (clear_packet PT_IPMI sid ?p)) d = (Inr (), d')"
    unfolding handleRmcpPacket_def using clear_packet_handled [OF cl cp ex] s(1) by simp
  moreover have "named_session env (srv_mgr (d_srv d')) sid r name pa"
    using nm by (simp add: s sv')
  moreover have "payload_ok (d_srv d')" using sv'(2) s(3) by (simp add: payload_ok_def has_ctx_def flow_def dataBuffer_def ctx_def)
  moreover have "ctx 1 (d_srv d') = ctx 1 sv'" using s(3) by (simp add: ctx_def)
  ultimately show thesis using that [of d'] sv' s by simp
qed

lemma send_reply_console [simp]: "srv_console (d_srv (snd (send_reply env ev h out d))) = srv_console (d_srv d)"
  by (auto simp: send_reply_def split: sum.split option.split)

text \<open>Characters in a packet with the expected sequence number go to the console, whatever happens to the answer.\<close>

lemma payloadHandler_types:
  assumes "payload_ok sv" "ctx_sessionID (ctx 1 sv) = sid" "ctx_in (ctx 1 sv) = 1" "io_console io (srv_writes sv) = Some k" "chars \<noteq> []"
  shows "srv_console (snd (payloadHandler env io ([1, 0, 0, 0] @ chars) sid sv)) = srv_console sv @ [(False, take k chars)]"
proof -
  have h: "has_ctx sv" "sol_consoleSocket (srv_sol sv)" using assms(1) by (simp_all add: payload_ok_def flow_ok_def)
  have g: "getContext_session sid sv = Inr 1" using assms(2) by (simp add: getContext_session_def has_ctx_map [OF h(1)])
  have a: "inbound_ack 1 0 0 sv = sv" by (simp add: inbound_ack_def)
  obtain sv2 where c: "inbound_chars io 1 chars sv = (Inr (1, of_nat (length chars), False), sv2)"
    and sv2: "srv_console sv2 = srv_console sv @ [(False, take k chars)]"
    using assms(4,5) h(2) by (simp add: inbound_chars_def writeConsoleSocket_def Let_def)
  have "srv_console (snd (processInboundPayload env io 1 1 0 0 False False chars sv)) = srv_console sv @ [(False, take k chars)]"
    using assms(3) by (simp add: processInboundPayload_def a inbound_break_def c sv2)
  moreover have "srv_console (snd (payloadHandler env io ([1, 0, 0, 0] @ chars) sid sv)) =
      srv_console (snd (processInboundPayload env io 1 1 0 0 False False chars sv))"
    by (simp add: payloadHandler_def g sol_header_size_def catch_exceptions_def split: prod.split sum.split)
  ultimately show ?thesis by simp
qed

lemma sol_packet:
  assumes "named_session env (srv_mgr (d_srv d)) sid r name pa" "payload_ok (d_srv d)" "ctx_sessionID (ctx 1 (d_srv d)) = sid"
    and "ctx_in (ctx 1 (d_srv d)) = 1" "io_console (ev_io ev) (srv_writes (d_srv d)) = Some k" "chars \<noteq> []" "length chars < 65532"
  shows "srv_console (d_srv (snd (handleRmcpPacket env ev ch (Some (clear_packet PT_SOL sid ([1, 0, 0, 0] @ chars))) d))) =
    srv_console (d_srv d) @ [(False, take k chars)]"
proof -
  let ?p = "[1, 0, 0, 0] @ chars" and ?m = "srv_mgr (d_srv d)"
  let ?h = "clear_handler sid r ch PT_SOL (ses_remoteConsoleSessionID (obj ?m r)) ?p"
  let ?d = "touched (ev_now ev) ch r d"
  have c: "in_the_clear ?m sid r" "sid \<noteq> 0" using assms(1) unfolding named_session_def by blast+
  have ct: "in_the_clear (srv_mgr (d_srv ?d)) sid r" using c(1) by simp
  have cp: "clear_payload PT_SOL ?p" using assms(7) by (simp add: clear_payload_def PT_SOL_def)
  have ne: "PT_SOL \<noteq> PT_IPMI" by (simp add: payload_types)
  have same: "payload_ok (d_srv ?d)" "ctx 1 (d_srv ?d) = ctx 1 (d_srv d)"
    using assms(2) by (simp_all add: payload_ok_def has_ctx_def flow_def dataBuffer_def ctx_def)
  obtain x d2 where run: "run_functor F_payloadHandler env ev ?h ?p ?d = (x, d2)" by fastforce
  have "srv_console (d_srv (snd (run_functor F_payloadHandler env ev ?h ?p ?d))) = srv_console (d_srv d) @ [(False, take k chars)]"
    using payloadHandler_types [OF same(1), of sid "ev_io ev" k chars env] assms(3-6) by (simp add: same(2))
  then have con: "srv_console (d_srv d2) = srv_console (d_srv d) @ [(False, take k chars)]" unfolding run by simp
  have "Handler_executeCommand env ev ?h ?d =
      (case run_functor F_payloadHandler env ev ?h ?p ?d of (Inl x, d') \<Rightarrow> (Inl x, d') | (Inr out, d') \<Rightarrow> (Inr (Answer out), d'))"
    by (rule payload_type_command [OF ct ne table_entries(3)]) (use c(2) in simp)
  then have ex: "Handler_executeCommand env ev ?h ?d = (map_sum id Answer x, d2)" unfolding run by (cases x) simp_all
  show ?thesis
    unfolding handleRmcp_state clear_packet_handled [OF c(1) cp ex] using con by (cases x) simp_all
qed

text \<open>
  C11. Four packets in the clear type on the console of the host without a password: Open Session,
  RAKP message 1 with the name of a user, Activate Payload and SOL data. The password of the user,
  \<open>passwd\<close>, occurs in none of them, and no proof of its knowledge, RAKP message 3, is sent.
\<close>

theorem console_without_password:
  assumes "daemon_init env d0" "(daemon_step env)\<^sup>*\<^sup>* d0 d" "info_ok (env_info0 env)" "sol_payloadMap (srv_sol (d_srv d)) = []"
    and "length req = 32" "handleRmcpPacket env ev ch (Some (clear_packet PT_OPEN_SESSION_REQUEST 0 req)) d = (Inr (), d1)"
    and "length (mgr_objs (srv_mgr (d_srv d1))) \<noteq> length (mgr_objs (srv_mgr (d_srv d)))"
    and "user_granted env name passwd pa ca" "pa_ipmiEnabled pa" "ev_rnd ev1 = Some bmc" "length rc = 16" "lvl AND reqMaxPrivMask > Priv_CALLBACK"
    and "sol_enable (srv_sol (updateSOLParameter (se_properties (ev_sol ev2)) (d_srv d)))" "io_connect (ev_io ev2)"
    and "se_payloadAccess (ev_sol ev2) (env_interfaceIndex env) (env_userGetUserId env name)"
    and "io_console (ev_io ev3) (srv_writes (d_srv d)) = Some k" "chars \<noteq> []" "length chars < 65532"
  shows "\<exists>sid d2 d3.
     handleRmcpPacket env ev1 ch (Some (clear_packet PT_RAKP1 0 (rakp1_message tag sid rc lvl name))) d1 = (Inr (), d2) \<and>
     handleRmcpPacket env ev2 ch (Some (clear_packet PT_IPMI sid (ipmi_request 0x18 0x48 [1, 1, 0, 0, 0, 0]))) d2 = (Inr (), d3) \<and>
     srv_console (d_srv (snd (handleRmcpPacket env ev3 ch (Some (clear_packet PT_SOL sid ([1, 0, 0, 0] @ chars))) d3))) =
       srv_console (d_srv d) @ [(False, take k chars)]"
proof -
  let ?r = "length (mgr_objs (srv_mgr (d_srv d)))"
  have ok: "daemon_ok d" by (rule reachable_daemon_ok [OF assms(1-3)])
  obtain sid where s: "in_the_clear (srv_mgr (d_srv d1)) sid ?r" "sid \<noteq> 0"
      "ses_authAlgo (obj (srv_mgr (d_srv d1)) ?r) = Some (new_auth_algo SHA256 4 1)"
      "srv_sol (d_srv d1) = srv_sol (d_srv d)" "srv_console (d_srv d1) = srv_console (d_srv d)" "srv_writes (d_srv d1) = srv_writes (d_srv d)"
    by (rule open_session_packet [OF ok assms(3,5,6,7)])
  have ok1: "daemon_ok d1" using handleRmcp_ok [OF ok assms(3), of ev ch "Some (clear_packet PT_OPEN_SESSION_REQUEST 0 req)"] assms(6) by simp
  obtain d2 where p1: "handleRmcpPacket env ev1 ch (Some (clear_packet PT_RAKP1 0 (rakp1_message tag sid rc lvl name))) d1 = (Inr (), d2)"
    and d2: "named_session env (srv_mgr (d_srv d2)) sid ?r name pa" "srv_sol (d_srv d2) = srv_sol (d_srv d1)"
      "srv_console (d_srv d2) = srv_console (d_srv d1)" "srv_writes (d_srv d2) = srv_writes (d_srv d1)"
    by (rule rakp1_packet [OF ok1 s(1,2,3) assms(11,8,12,10)])
  have sol: "srv_sol (d_srv d2) = srv_sol (d_srv d)" using d2(2) s(4) by simp
  have en: "sol_enable (srv_sol (updateSOLParameter (se_properties (ev_sol ev2)) (d_srv d2)))"
    using assms(13) sol by (simp add: updateSOLParameter_def split: option.splits)
  have e: "sol_payloadMap (srv_sol (d_srv d2)) = []" using assms(4) sol by simp
  obtain d3 where p2: "handleRmcpPacket env ev2 ch (Some (clear_packet PT_IPMI sid (ipmi_request 0x18 0x48 [1, 1, 0, 0, 0, 0]))) d2 = (Inr (), d3)"
    and d3: "named_session env (srv_mgr (d_srv d3)) sid ?r name pa" "payload_ok (d_srv d3)" "ctx_sessionID (ctx 1 (d_srv d3)) = sid"
      "ctx_in (ctx 1 (d_srv d3)) = 1" "srv_console (d_srv d3) = srv_console (d_srv d2)" "srv_writes (d_srv d3) = srv_writes (d_srv d2)"
    by (rule activate_packet [OF d2(1) assms(9) e en assms(14,15)])
  have "srv_writes (d_srv d3) = srv_writes (d_srv d)" using d3(6) d2(4) s(6) by simp
  then have "io_console (ev_io ev3) (srv_writes (d_srv d3)) = Some k" using assms(16) by simp
  from sol_packet [OF d3(1-4) this assms(17,18), of ch]
  have "srv_console (d_srv (snd (handleRmcpPacket env ev3 ch (Some (clear_packet PT_SOL sid ([1, 0, 0, 0] @ chars))) d3))) =
      srv_console (d_srv d) @ [(False, take k chars)]" using d3(5) d2(3) s(5) by simp
  with p1 p2 show ?thesis by blast
qed

section \<open>The properties at work\<close>

definition example_channel :: channel where
  "example_channel = Sock_In [10, 0, 0, 0] 40"

definition example_event :: event_env where
  "example_event = \<lparr>ev_now = 1000, ev_rands = [77, 78, 79], ev_rnd = Some (replicate 16 8), ev_io = example_io,
     ev_sol = \<lparr>se_properties = None, se_payloadAccess = (\<lambda>ch u. True)\<rparr>,
     ev_chan = \<lparr>ce_convert = id, ce_isValidChannel = (\<lambda>c. True), ce_hasSessionSupport = (\<lambda>c. True), ce_isValidPrivLimit = (\<lambda>c. True),
       ce_enabledUsers = 2, ce_isValidPayloadType = (\<lambda>t. True), ce_doesDeviceExist = (\<lambda>c. True), ce_cipherFile = None\<rparr>\<rparr>"

definition example_daemon :: daemon where
  "example_daemon = \<lparr>d_srv = \<lparr>srv_mgr = managerInit (env_info0 example_env) (\<lambda>c. c = 1) 1 ''eth0'' 0,
     srv_sol = new_sol_manager, srv_sends = 0, srv_wire = [], srv_writes = 0, srv_console = []\<rparr>,
     d_ciphers = None, d_pending = []\<rparr>"

definition example_open_request :: "byte list" where
  "example_open_request = [1, 0, 0, 0, 5, 0, 0, 0, 0, 0, 0, 8, 3, 0, 0, 0, 1, 0, 0, 8, 4, 0, 0, 0, 2, 0, 0, 8, 1, 0, 0, 0]"

text \<open>The daemon during a login of user \<open>A\<close>: the session, the packets sent so far.\<close>

definition example_state :: "session \<Rightarrow> byte list list \<Rightarrow> daemon" where
  "example_state s packets = \<lparr>d_srv = \<lparr>srv_mgr =
       \<lparr>mgr_objs = [touch_session 1000 example_channel (new_session example_info 0 0 0), s],
        mgr_sessionsMap = [(0, 0), (77, 1)], mgr_sessionHandleMap = [0, 77] @ replicate 61 0,
        mgr_chName = ''eth0'', mgr_networkInstance = 0, mgr_expiry = 1000001000, mgr_waiting = True\<rparr>,
     srv_sol = new_sol_manager, srv_sends = length packets, srv_wire = map (\<lambda>p. (example_channel, p)) packets,
     srv_writes = 0, srv_console = []\<rparr>, d_ciphers = None, d_pending = []\<rparr>"

definition example_reply1 :: "byte list" where
  "example_reply1 = ipmi20_header PT_OPEN_SESSION_RESPONSE 0 0 36 @
     [1, 0, 4, 0, 5, 0, 0, 0, 77, 0, 0, 0, 0, 0, 0, 8, 3, 0, 0, 0, 1, 0, 0, 8, 4, 0, 0, 0, 2, 0, 0, 8, 1, 0, 0, 0]"

definition example_reply2 :: "byte list" where
  "example_reply2 = ipmi20_header PT_RAKP2 0 0 72 @ [1, 0, 0, 0, 5, 0, 0, 0] @ replicate 16 8 @ replicate 16 7 @
     [1, 2, 3] @ replicate 17 0 @ [5, 0, 0, 0, 77, 0, 0, 0, 3, 3, 3, 3]"

definition example_reply3 :: "byte list" where
  "example_reply3 = ipmi20_header PT_RAKP4 0 0 24 @ [2, 0, 0, 0, 5, 0, 0, 0, 1, 2, 3] @ replicate 13 0"

definition example_fresh :: session where
  "example_fresh = updateLastTransactionTime 1000 (set_state State_setupInProgress (started example_info 5 77 4 1 SHA256 4 1))"

definition example_named :: session where
  "example_named = example_fresh\<lparr>ses_info := \<lparr>si_state = State_setupInProgress, si_currentPrivilege = 2, si_channelNum = 1,
       si_userID = 2, si_sessionHandle = 1, si_remotePort = 0, si_remoteIPAddr = 0\<rparr>, ses_reqMaxPrivLevel := 0x13,
     ses_userPrivAccess := \<lparr>pa_privilege = 3, pa_ipmiEnabled = True\<rparr>,
     ses_channelAccess := \<lparr>ca_accessMode = 2, ca_privLimit = 4\<rparr>, ses_userName := [0x41],
     ses_authAlgo := Some ((new_auth_algo SHA256 4 1)\<lparr>aa_userKey := [1, 2, 3] @ replicate 17 0,
       aa_bmcRandomNum := Some (replicate 16 8), aa_rcRandomNum := Some (replicate 16 3)\<rparr>)\<rparr>"

definition example_sik :: "byte list" where
  "example_sik = [1, 2, 3] @ replicate 17 0 @ replicate 12 3"

definition example_logged_in :: session where
  "example_logged_in = set_state State_active (example_named\<lparr>
     ses_authAlgo := map_option (\<lambda>aa. aa\<lparr>aa_sessionIntegrityKey := example_sik\<rparr>) (ses_authAlgo example_named),
     ses_integrityAlgo := Some \<lparr>ia_digest = SHA256, ia_k1 = example_sik\<rparr>, ses_cryptAlgo := Some example_sik\<rparr>)"

definition example_chassis_packet :: "byte list" where
  "example_chassis_packet = [6, 0, 255, 7, 6, 192, 77, 0, 0, 0, 1, 0, 0, 0, 32, 0] @ replicate 16 0 @
     [122, 90, 186, 219, 90, 91, 36, 91, 88, 89, 94, 95, 92, 93, 82, 82, 255, 255, 2, 7, 1, 2, 3] @ replicate 13 0"

lemma example_step1:
  "handleRmcpPacket example_env example_event example_channel (Some (clear_packet PT_OPEN_SESSION_REQUEST 0 example_open_request))
     example_daemon = (Inr (), example_state example_fresh [example_reply1])"
  by code_simp

lemma example_step2:
  "handleRmcpPacket example_env example_event example_channel (Some (clear_packet PT_RAKP1 0 (rakp1_message 1 77 (replicate 16 3) 0x13 [0x41])))
     (example_state example_fresh [example_reply1]) = (Inr (), example_state example_named [example_reply1, example_reply2])"
  by code_simp

lemma example_step3:
  "handleRmcpPacket example_env example_event example_channel (Some (clear_packet PT_RAKP3 0
     (rakp3_message 2 77 (console_code3 example_crypto [1, 2, 3] 5 (replicate 16 8) 0x13 [0x41]))))
     (example_state example_named [example_reply1, example_reply2]) =
     (Inr (), example_state example_logged_in [example_reply1, example_reply2, example_reply3])"
  by code_simp

lemma example_forward:
  "(case processIncoming example_env example_event example_channel (Some example_chassis_packet)
       (example_state example_logged_in [example_reply1, example_reply2, example_reply3]) of
     (x, d) \<Rightarrow> (isl x, map (\<lambda>(h, q). hr_data q) (d_pending d))) = (False, [[]])" by code_simp

lemma example_login_run:
  "daemon_init example_env example_daemon" "info_ok (env_info0 example_env)"
  "(daemon_step example_env)\<^sup>*\<^sup>* example_daemon (example_state example_logged_in [example_reply1, example_reply2, example_reply3])"
proof -
  show "daemon_init example_env example_daemon" unfolding daemon_init_def example_daemon_def by blast
  show "info_ok (env_info0 example_env)" by (simp add: example_env_def example_info_def info_ok_def)
  note r1 = r_into_rtranclp [of "daemon_step example_env", OF step_packet [OF example_step1]]
  note r2 = rtranclp.rtrancl_into_rtrancl [OF r1 step_packet [OF example_step2]]
  show "(daemon_step example_env)\<^sup>*\<^sup>* example_daemon (example_state example_logged_in [example_reply1, example_reply2, example_reply3])"
    by (rule rtranclp.rtrancl_into_rtrancl [OF r2 step_packet [OF example_step3]])
qed

lemma example_daemon_sel [simp]:
  "sol_payloadMap (srv_sol (d_srv example_daemon)) = []" "length (mgr_objs (srv_mgr (d_srv example_daemon))) = 1"
  "length (mgr_objs (srv_mgr (d_srv (example_state s ps)))) = 2" "srv_writes (d_srv example_daemon) = 0" "srv_console (d_srv example_daemon) = []"
  "mgr_sessionsMap (srv_mgr (d_srv (example_state s ps))) = [(0, 0), (77, 1)]" "obj (srv_mgr (d_srv (example_state s ps))) 1 = s"
  by (simp_all add: example_daemon_def new_sol_manager_def example_state_def obj_def managerInit_def scheduleSessionCleaner_def Let_def)

theorem forwarded_requests_are_authentic_witness:
  "\<exists>d' h q ia body mac. processIncoming example_env example_event example_channel (Some example_chassis_packet)
       (example_state example_logged_in [example_reply1, example_reply2, example_reply3]) = (Inr (), d') \<and>
     d_pending d' = [(h, q)] \<and> ses_integrityAlgo example_logged_in = Some ia \<and>
     example_chassis_packet = take 4 example_chassis_packet @ body @ mac \<and> integrity_hmac example_crypto ia body = Inr mac \<and>
     (hr_privilege q \<le> Priv_USER \<or> hr_privilege q \<le> min_privilege example_logged_in)"
proof -
  let ?d = "example_state example_logged_in [example_reply1, example_reply2, example_reply3]"
  obtain x d' where p: "processIncoming example_env example_event example_channel (Some example_chassis_packet) ?d = (x, d')" by fastforce
  have x: "x = Inr ()" "\<exists>h q. d_pending d' = [(h, q)]"
    using example_forward by (cases x; auto simp: p)+
  then obtain h q where q: "d_pending d' = d_pending ?d @ [(h, q)]" by (auto simp: example_state_def)
  from forwarded_requests_are_authentic [OF example_login_run(1,3,2) p [unfolded x] q]
  obtain r ia body mac where r: "map_of (mgr_sessionsMap (srv_mgr (d_srv ?d))) (hr_sessionId q) = Some r"
      "ses_state (obj (srv_mgr (d_srv ?d)) r) = State_active" "ses_integrityAlgo (obj (srv_mgr (d_srv ?d)) r) = Some ia"
      "example_chassis_packet = take 4 example_chassis_packet @ body @ mac" "integrity_hmac (env_crypto example_env) ia body = Inr mac"
      "hr_privilege q \<le> Priv_USER \<or> hr_privilege q \<le> min_privilege (obj (srv_mgr (d_srv ?d)) r)" by blast
  have "ses_state (obj (srv_mgr (d_srv ?d)) 0) = State_inactive"
    by (simp add: obj_def example_state_def touch_session_def updateLastTransactionTime_def new_session_def example_info_def ses_state_def)
  then have one: "r = 1" using r(1,2) by (auto split: if_splits)
  have c: "env_crypto example_env = example_crypto" by (simp add: example_env_def)
  have sel: "obj (srv_mgr (d_srv ?d)) 1 = example_logged_in" by (rule example_daemon_sel(7))
  have pending: "d_pending d' = [(h, q)]" using q by (simp add: example_state_def)
  show ?thesis
    using p [unfolded x(1)] pending r(3-6) [unfolded one sel c] by blast
qed

theorem two_packets_stop_the_daemon_witness:
  "fst (handleRmcpPacket example_env example_event example_channel (Some (clear_packet PT_SOL 77 [1, 0, 0, 0]))
     (example_state example_fresh [example_reply1])) = Inl Out_Of_Bounds"
proof -
  let ?d1 = "example_state example_fresh [example_reply1]"
  have "\<exists>sid. getSession sid BMC_SESSION_ID (srv_mgr (d_srv ?d1)) = Inr (length (mgr_objs (srv_mgr (d_srv example_daemon)))) \<and>
     (22 < unat sid \<longrightarrow> fst (handleRmcpPacket example_env example_event example_channel (Some (clear_packet PT_SOL sid [1, 0, 0, 0])) ?d1) = Inl Out_Of_Bounds)"
    by (rule two_packets_stop_the_daemon [OF example_login_run(1) rtranclp.rtrancl_refl example_login_run(2) _ _ example_step1])
      (simp_all add: example_open_request_def)
  then obtain sid where s: "getSession sid BMC_SESSION_ID (srv_mgr (d_srv ?d1)) = Inr 1"
    "22 < unat sid \<Longrightarrow> fst (handleRmcpPacket example_env example_event example_channel (Some (clear_packet PT_SOL sid [1, 0, 0, 0])) ?d1) = Inl Out_Of_Bounds"
    by (auto simp del: getSession.simps)
  from s(1) have "sid = 77" by (auto simp: of_opt_def split: if_splits)
  then show ?thesis using s(2) by simp
qed

theorem console_without_password_witness:
  "\<exists>sid d2 d3.
     handleRmcpPacket example_env example_event example_channel (Some (clear_packet PT_RAKP1 0
       (rakp1_message 1 sid (replicate 16 3) 0x13 [0x41]))) (example_state example_fresh [example_reply1]) = (Inr (), d2) \<and>
     handleRmcpPacket example_env example_event example_channel (Some (clear_packet PT_IPMI sid
       (ipmi_request 0x18 0x48 [1, 1, 0, 0, 0, 0]))) d2 = (Inr (), d3) \<and>
     srv_console (d_srv (snd (handleRmcpPacket example_env example_event example_channel
       (Some (clear_packet PT_SOL sid ([1, 0, 0, 0] @ [0x6C, 0x73, 0x0A]))) d3))) = [] @ [(False, take 255 [0x6C, 0x73, 0x0A])]"
proof -
  have new: "length (mgr_objs (srv_mgr (d_srv (example_state example_fresh [example_reply1])))) \<noteq> length (mgr_objs (srv_mgr (d_srv example_daemon)))"
    by simp
  have req: "length example_open_request = 32" by (simp add: example_open_request_def)
  have ev: "ev_rnd example_event = Some (replicate 16 8)" "io_connect (ev_io example_event)"
    "se_payloadAccess (ev_sol example_event) c u" "io_console (ev_io example_event) n = Some 255" for c u n
    by (simp_all add: example_event_def example_io_def)
  have sol: "sol_enable (srv_sol (updateSOLParameter (se_properties (ev_sol example_event)) (d_srv example_daemon)))"
    by (simp add: example_event_def updateSOLParameter_def example_daemon_def new_sol_manager_def)
  have lvl: "(0x13 :: byte) AND reqMaxPrivMask > Priv_CALLBACK" by (simp add: reqMaxPrivMask_def Priv_CALLBACK_def)
  show ?thesis
    using console_without_password [OF example_login_run(1) rtranclp.rtrancl_refl example_login_run(2) example_daemon_sel(1) req example_step1 new
        example_users(1) _ ev(1) _ lvl sol ev(2,3,4), of "replicate 16 3" "[0x6C, 0x73, 0x0A]" 1]
    by (simp only: example_daemon_sel) simp
qed

end
