(* ===== verification/Spec2Isabelle.thy ===== *)
theory Spec2Isabelle
  imports Bridge_Link Chassis_Sensors Fru_Device Lan_Server
begin

text \<open>
  \<^bold>\<open>The NGC Chassis Manager: a verification library.\<close>

  The program is the firmware of the chassis manager of a VITA 46.11 chassis, a set of OpenBMC
  daemons in C++. The parts modelled, and how they interact:

  \<^item> The IPMB bridge (\<open>src/devtool-mods/ipmb_directory-mods\<close>) carries IPMI messages over I2C. It
    offers \<open>sendRequest\<close> on D-Bus and forwards requests from the bus to the IPMI host.
    \<open>Ipmb_Frame\<close> models the wire format (\<open>ipmbutils.cpp\<close>, \<open>ipmbbridged.hpp\<close>, the conversions of
    \<open>IpmbRequest\<close> and \<open>IpmbResponse\<close>); \<open>Ipmb_Channel\<close> the table of outstanding requests, sequence
    numbers, the \<open>requestAdd\<close> coroutine cut at its timer, reception and the command filter;
    \<open>Ipmb_Bridge\<close> the daemon with its channels, its configuration and its step relation.
  \<^item> The chassis manager (\<open>src/devtool-mods/vita4611\<close>) enumerates the devices of the chassis over the
    bridge, reads their sensor data records, polls and converts their sensors, and serves the VITA
    46.11 commands. \<open>Sensor_Conversion\<close> models \<open>convert_sensor_reading\<close>; \<open>Vita_Device\<close> one device
    (\<open>VITA4611Device\<close>); \<open>Vita_Manager\<close> the manager (\<open>VITA4611_ChassisManager\<close>), its commands,
    pass-through, polling and request queue. Both take \<open>sendRequest\<close> as a parameter \<open>ipmb\<close>.
  \<^item> \<open>Bridge_Link\<close> puts the manager on top of the bridge: \<open>bridge_ipmb\<close> instantiates \<open>ipmb\<close> with the
    model of the daemon over a bus of devices.
  \<^item> The fan controller (\<open>lcr-fanloop-app\<close>), modelled in \<open>Fan_Loop\<close>: regulator, linear
    characteristic, rounds. The chassis manager stops and restarts it by \<open>Set Fan Policy\<close>.
  \<^item> The GPIO tool and monitor (\<open>lcr-gpio-app\<close>, \<open>lcr-gpiomonitor-app\<close>), modelled in \<open>Gpio\<close>.
  \<^item> The boot and supervision manager (\<open>lcr-MANAGER-app\<close>), modelled in \<open>Boot_Manager\<close>: it waits for
    the front panel switch and the fan controller, enables the power supply, checks the voltages,
    releases the reset line, and then watches alarms; it keeps the system log.
  \<^item> The sensor applications, modelled in \<open>Chassis_Sensors\<close>: the voltage and temperature daemons
    (\<open>lcr-ADC-app\<close>, \<open>lcr-temperature-app\<close>) publish readings with limits and alarms, which the fan
    controller and the supervision read; the health sensor (\<open>lcr-mandatory-sensors-app\<close>); the tools
    to display sensors and set thresholds (\<open>lcr-interface-app\<close>) and to keep the thresholds in flash
    (\<open>lcr-memory-app\<close>).
  \<^item> The FRU device daemon (\<open>src/devtool-mods/entity-manager-mods/src\<close>) reads the inventory EEPROMs.
    \<open>Fru_Data\<close> models the caching reader (\<open>fru_reader.cpp\<close>) and the parser of the contents
    (\<open>fru_utils.cpp\<close>), \<open>Fru_Update\<close> the update of a property and writing it back, \<open>Fru_Device\<close>
    scanning a bus and the D-Bus objects (\<open>fru_device.cpp\<close>).
  \<^item> IPMI over LAN (\<open>src/devtool-mods/phosphor-ipmi-net-mods\<close>) is the door to the chassis from the
    network. \<open>Lan_Session\<close> models sessions and their manager (\<open>session.hpp\<close>, \<open>sessions_manager.cpp\<close>),
    \<open>Lan_Message\<close> the packets and their integrity and encryption (\<open>message_parsers.cpp\<close>,
    \<open>integrity_algo.cpp\<close>, \<open>crypt_algo.cpp\<close>), \<open>Lan_Auth\<close> session setup and the session commands
    (\<open>open_session.cpp\<close>, \<open>rakp12.cpp\<close>, \<open>rakp34.cpp\<close>, \<open>session_cmds.cpp\<close>), \<open>Lan_Sol\<close> serial over LAN
    (\<open>sol_manager.cpp\<close>, \<open>sol_context.cpp\<close>, \<open>payload_cmds.cpp\<close>), \<open>Lan_Server\<close> the command table,
    the handlers and the daemon (\<open>command_table.cpp\<close>, \<open>message_handler.cpp\<close>, \<open>channel_auth.cpp\<close>).
    A session that is set up lets commands through to the IPMI host daemon, and so to the chassis
    manager, which serves them there.

  \<^bold>\<open>How the code is modelled.\<close> Classes are records, operations are functions on them with the
  source's names. \<open>Prelude\<close> holds the types shared: a \<open>fault\<close> is undefined behaviour or an exception
  that nothing catches, \<open>'a res\<close> a result or a fault, and operations that talk to the outside are
  state transformers over it. Bytes are \<open>8 word\<close>, so arithmetic wraps as in the code; \<open>size_t\<close>
  differences that wrap are written out. A member that the code leaves uninitialised is \<open>None\<close> and
  reading it is a fault. \<open>double\<close> is \<open>real\<close>: rounding is not modelled, but division by zero and
  conversions out of range are. Loops of the code are recursive functions; all of them terminate by
  a proof, none needs fuel. Daemons are step relations whose steps are the handlers of the event
  loop or, for \<open>lcr-MANAGER-app\<close>, of its threads; data races inside a handler are not modelled.

  Objects that the code shares by pointers, the sessions of IPMI over LAN, live in a store and a
  pointer is an index into it, so that an object outlives its entry in the map as it does in the code.

  \<^bold>\<open>Outside.\<close> I2C, D-Bus, systemd, libgpiod, the file system and the JSON files are parameters: an
  argument that says what each call yields, for every outcome. So are, for IPMI over LAN, the
  datagrams, the steady clock, random values, the primitives of OpenSSL, and the user and channel
  layers of the IPMI host library. What a theorem needs of them is a named hypothesis, e.g.
  \<open>bus_conforms\<close> (devices answer by the IPMB specification), \<open>serves_sdr\<close>, or \<open>crypto_ok\<close> (decryption
  inverts encryption, a digest has its length); that a digest cannot be forged is never assumed, the
  theorems say that what is accepted carries the digest computed with the key.

  \<^bold>\<open>Interfaces.\<close> \<open>Prelude\<close> has the locale \<open>invariant_system\<close> of a step relation with an inductive
  invariant; the daemons interpret it (\<open>bridge_machine\<close>, \<open>monitor_machine\<close>, \<open>boot_machine\<close>,
  \<open>adc_machine\<close>, \<open>fru_machine\<close>, \<open>lan_machine\<close>), and what is shown of reachable states rests on it. Its
  locale \<open>ordered_map\<close> is \<open>std::map\<close> as a sorted list, interpreted as \<open>omap\<close>. \<open>Ipmb_Frame\<close> has
  \<open>frame_codec\<close>, interpreted on requests and on responses; \<open>Bridge_Link\<close> has \<open>ipmb_transport\<close>, what
  the manager relies on, interpreted on the bridge; \<open>Vita_Manager\<close> has \<open>command_service\<close>, interpreted
  on its commands as \<open>chm\<close>; \<open>Chassis_Sensors\<close> has \<open>publisher\<close>, a loop that publishes readings,
  interpreted on the voltage and on the temperature daemon.

  \<^bold>\<open>What is shown.\<close>

  \<^item> Bridge: round trips of requests and responses, detection of corrupted bytes; in every reachable
    state each waiting call owns its slot; a call returns after six tries at most with the answer
    to its own request or a timeout; which inputs lead to undefined behaviour.
  \<^item> Chassis manager: chunked reads yield the whole record, a record yields the sensor it describes,
    conversion is the formula of the IPMI specification, enumerated devices stay reachable under any
    requests, pass-through forwards once; and the errors found (see each theorem).
  \<^item> Composition, in this theory: what devices answer on the bus reaches the manager through the
    bridge, up to the sensor list; what a silent device does; and that a voltage out of its limits
    leads, over the sensors published, to the power supply being switched off.
  \<^item> Fans: duty cycles stay in range over any run, the regulator keeps its limits, the linear
    characteristic is monotone; what the loss of all sensors does.
  \<^item> GPIO: which commands drive which line; what the monitor publishes.
  \<^item> Boot: reset is released only in order, an alarm is final, the log is bounded and survives a
    restart, service checks end.
  \<^item> Sensors: alarms follow readings and thresholds, thresholds set by the tool take effect; what an
    unreadable sensor does to the others, what the health sensor leaves out, and why thresholds
    loaded from flash may be broken.

  \<^item> FRU: the cached contents are those of the EEPROM, no contents that pass validation make the
    parser leave the buffer but those named, an update replaces exactly one field and reads back,
    objects never share a path; which contents and rescans are not handled.
  \<^item> IPMI over LAN: packets written are read back; an honest console logs in, and a session becomes
    active only with the code that the user's password gives; what is forwarded to the host daemon
    came in an authenticated and encrypted packet of an active session, with a privilege within the
    limits of that session; the session table recovers when full and active sessions
    are spared; console output arrives in order and is drained. And what goes wrong: the console of
    the host is open without a password, two packets stop the daemon, a failed lookup lets a
    session act for another user.

  \<^bold>\<open>Not modelled.\<close> Debug output, registration of handlers and of D-Bus objects, and destructors without
  an effect on the state. Of the FRU daemon: threads and timers of a scan, the blacklist, matching of
  device files. Of IPMI over LAN: \<open>main.cpp\<close> and the setup of sockets, \<open>guid.cpp\<close>, sessions that belong
  to the daemon of another network instance. The upstream OpenBMC sources kept in the repository with
  small edits are glue between D-Bus, JSON and HTTP and are left out: the web server, the sensor
  daemons, the entity manager proper, the IPMI host daemon, fan presence. So are \<open>ipmitool\<close>, which is
  a vendored third-party tool and runs on another machine, and the boot code and hardware description, which the
  FPGA tools generate.
\<close>

section \<open>From the bus to the sensor list\<close>

text \<open>
  C3. In every reachable state of the bridge with a free slot on the channel, a request to a device
  of a conforming bus comes back to the D-Bus caller as a successful reply that carries the
  device's own completion code and data, with the request's command; and the bridge is ready for
  the next request, on the same bus.
\<close>

theorem device_answers_reach_the_manager:
  assumes "bridge_init br0" "bridge_step\<^sup>*\<^sup>* br0 br" "getChannel c (br_channels br) = Some k"
    and "s < 64" "ch_outstandingRequests (br_channels br ! k) ! s = None" "bus_conforms seg bus"
    and "addr \<noteq> 0x40" "unat netfn < 64" "length d \<le> 251" "seg addr netfn cmd d = Some (cc, r)" "length r \<le> 250"
  shows "\<exists>br'. bridge_ipmb c addr netfn 0 cmd d (bus, br) = (Reply (0, netfn OR 1, 0, cmd, cc, r), (bus, br')) \<and>
     link_ready c br'"
proof -
  have ready: "bridge_ready c seg (bus, br)"
    using reachable_link_ready [OF assms(1-5)] assms(6) by (simp add: bridge_ready_def)
  obtain w' where w': "bridge_ipmb c addr netfn 0 cmd d (bus, br) = (Reply (0, ipmbRespNetFn netfn, 0, cmd, cc, r), w')"
      "bridge_ready c seg w'"
    using bridge_transport.answered [OF ready assms(7-11)] by blast
  then have "fst w' = bus" using bridge_ipmb_bus [of c addr netfn 0 cmd d bus br] by simp
  with w' show ?thesis by (cases w') (auto simp: bridge_ready_def ipmbRespNetFn_def)
qed

definition example_segment :: segment where
  "example_segment a netfn cmd d =
     (if a = 0x82 \<and> netfn = NETFN_APP \<and> cmd = IPMI_GET_DEVICE_ID_CMD then Some (0, [0x11])
      else if a = 0x82 \<and> netfn = NETFN_VITA4611 \<and> cmd = VITA4611_GETVSOCAPS_CMD then Some (0, [3, 1, 0, 0, 1, 0, 0])
      else if a = 0x82 \<and> netfn = NETFN_S_E \<and> cmd = IPMITOOL_CMD_GET_SDR
      then Some (0, [1, 0] @ take (unat (d ! 5)) (drop (unat (d ! 4)) example_sdr))
      else None)"

theorem device_answers_reach_the_manager_witness:
  "\<exists>br'. bridge_ipmb 0 0x82 6 0 1 [] (example_bus example_segment, shipped_bridge) =
     (Reply (0, 7, 0, 1, 0, [0x11]), (example_bus example_segment, br')) \<and> link_ready 0 br'"
proof -
  have chan: "getChannel 0 (br_channels shipped_bridge) = Some 0"
    and free: "ch_outstandingRequests (br_channels shipped_bridge ! 0) ! 0 = None"
    by (simp_all add: shipped_channels)
  have "example_segment 0x82 6 1 [] = Some (0, [0x11])"
    by (simp add: example_segment_def NETFN_APP_def IPMI_GET_DEVICE_ID_CMD_def)
  from device_answers_reach_the_manager [OF shipped_init rtranclp.rtrancl_refl chan _ free
      example_bus_conforms [of example_segment] _ _ _ this]
  show ?thesis by simp
qed

text \<open>
  C12. A full sensor data record that a device serves on a conforming bus ends up in the manager's
  sensor list as it is: read in chunks over the bridge, the record's sensor is found under its
  number with exactly the name, units, coefficients and thresholds of the record, and no other
  sensor changes.
\<close>

theorem sensor_record_discovered_over_the_bridge:
  assumes "bus_conforms seg bus" "link_ready (dev_channel dev) br" "ipmi_address dev \<noteq> 0x40" "length nxt = 2"
    and "\<And>off cnt :: byte. unat cnt \<le> 22 \<Longrightarrow> unat off + unat cnt \<le> length R \<Longrightarrow>
      seg (ipmi_address dev) NETFN_S_E IPMITOOL_CMD_GET_SDR [fst res_id, snd res_id, n, 0, off, cnt]
        = Some (0, nxt @ take (unat cnt) (drop (unat off) R))"
    and "length R = 5 + unat (R ! 4)" "R ! 3 = 1" "48 + unat (R ! 47 AND 0x1F) \<le> length R"
  shows "\<exists>dev' br'. read_one_sdr bridge_ipmb res_id n dev (bus, br) = (Inr dev', (bus, br')) \<and>
    find_sensor (R ! 7) dev' = Some (full_sdr_record (nxt @ take 5 R) (drop 5 R) (take (unat (R ! 47 AND 0x1F)) (drop 48 R))) \<and>
    (\<forall>m. m \<noteq> R ! 7 \<longrightarrow> find_sensor m dev' = find_sensor m dev)"
proof -
  let ?ready = "\<lambda>w. bridge_ready (dev_channel dev) seg w \<and> fst w = bus"
  have serves: "serves_sdr (bridge_ready (dev_channel dev) seg) bridge_ipmb dev res_id n nxt R"
    by (rule bridge_transport.serves_sdr_on_segment) (use assms in auto)
  have "serves_sdr ?ready bridge_ipmb dev res_id n nxt R"
    using serves bridge_ipmb_bus unfolding serves_sdr_def by (metis fst_conv prod.collapse snd_conv)
  from read_one_full_sdr [OF this _ assms(6-8), of "(bus, br)"] assms(1,2) show ?thesis
    by (fastforce simp: bridge_ready_def)
qed

theorem sensor_record_discovered_over_the_bridge_witness:
  "\<exists>dev' br'. read_one_sdr bridge_ipmb (0, 0) 0 (device_blank 0 0x82) (example_bus example_segment, shipped_bridge)
      = (Inr dev', (example_bus example_segment, br')) \<and>
    map_option SDR_Name (find_sensor 1 dev') = Some [0x41]"
proof -
  let ?dev = "device_blank 0 0x82"
  have R: "length example_sdr = 5 + unat (example_sdr ! 4)" "example_sdr ! 3 = 1" "example_sdr ! 7 = 1"
    "48 + unat (example_sdr ! 47 AND 0x1F) \<le> length example_sdr"
    "take (unat (example_sdr ! 47 AND 0x1F)) (drop 48 example_sdr) = [0x41]"
    by (simp_all add: example_sdr_def example_body_def nth_append)
  have dev: "link_ready (dev_channel ?dev) shipped_bridge" "ipmi_address ?dev = 0x82"
    using shipped_link_ready by (simp_all add: device_blank_def)
  have seg: "example_segment (ipmi_address ?dev) NETFN_S_E IPMITOOL_CMD_GET_SDR [fst (0, 0), snd (0, 0), 0, 0, off, cnt]
      = Some (0, [1, 0] @ take (unat cnt) (drop (unat off) example_sdr))" for off cnt :: byte
    by (simp add: dev(2) example_segment_def NETFN_S_E_def NETFN_APP_def NETFN_VITA4611_def)
  have nxt: "length [1 :: byte, 0] = 2" and addr: "ipmi_address ?dev \<noteq> 0x40" by (simp_all add: dev(2))
  from sensor_record_discovered_over_the_bridge [OF example_bus_conforms [of example_segment] dev(1) addr nxt seg R(1,2,4)]
  show ?thesis using R(3,5) by (auto simp: full_sdr_record_def)
qed

text \<open>
  A request addressed to 0x40 is sent to the device of the request before it, and this is how
  the manager learns a device's capabilities: \<open>queryVsoCapabilities\<close> asks 0x40, the bridge keeps the
  remote address of the preceding \<open>Get Device ID\<close>, and on a conforming bus the capabilities stored
  are those of the device that was probed.
\<close>

theorem capabilities_come_from_the_probed_device:
  assumes "bus_conforms seg bus" "link_ready 0 br" "addr \<noteq> 0x40"
    and "seg addr NETFN_APP IPMI_GET_DEVICE_ID_CMD [] = Some (0, idr)" "length idr \<le> 250"
    and "seg addr NETFN_VITA4611 VITA4611_GETVSOCAPS_CMD [0x03] = Some (0, caps)" "length caps \<le> 250"
    and "VSOCaps_of caps = Inr c"
  shows "\<exists>br'. io_bind (queryDeviceId bridge_ipmb addr (device_blank 0 addr)) (queryVsoCapabilities bridge_ipmb) (bus, br) =
     (Inr ((device_blank 0 addr)\<lparr>DeviceIDData := idr, validDeviceID := True,
         isVITA4611Device := Some True, vsocaps := Some c\<rparr>), (bus, br'))"
proof -
  obtain k where k: "getChannel 0 (br_channels br) = Some k" using assms(2) by (auto elim: link_readyE)
  have ready: "bridge_ready 0 seg (bus, br)" using assms(1,2) by (simp add: bridge_ready_def)
  have sizes: "unat NETFN_APP < 64" "unat NETFN_VITA4611 < 64"
    by (simp_all add: NETFN_APP_def NETFN_VITA4611_def)
  have "seg (wire_address addr (br_channels br ! k)) NETFN_APP IPMI_GET_DEVICE_ID_CMD [] = Some (0, idr)"
    using assms(3,4) by (simp add: wire_address_def)
  from bridge_answers_wire [OF ready k sizes(1) _ this assms(5)] obtain br1 where
    one: "bridge_ipmb 0 addr NETFN_APP 0 IPMI_GET_DEVICE_ID_CMD [] (bus, br)
        = (Reply (0, ipmbRespNetFn NETFN_APP, 0, IPMI_GET_DEVICE_ID_CMD, 0, idr), (bus, br1))"
    and ready1: "bridge_ready 0 seg (bus, br1)" and k1: "getChannel 0 (br_channels br1) = Some k"
    and a: "ch_rqSlaveAddress (br_channels br1 ! k) = addr"
    using assms(3) by (auto simp: wire_address_def)
  have "seg (wire_address 0x40 (br_channels br1 ! k)) NETFN_VITA4611 VITA4611_GETVSOCAPS_CMD [0x03] = Some (0, caps)"
    using assms(6) a by (simp add: wire_address_def)
  from bridge_answers_wire [OF ready1 k1 sizes(2) _ this assms(7)] obtain br2 where
    two: "bridge_ipmb 0 0x40 NETFN_VITA4611 0 VITA4611_GETVSOCAPS_CMD [0x03] (bus, br1)
        = (Reply (0, ipmbRespNetFn NETFN_VITA4611, 0, VITA4611_GETVSOCAPS_CMD, 0, caps), (bus, br2))"
    by auto
  have "dev_channel (device_blank 0 addr) = 0" by (simp add: device_blank_def)
  then show ?thesis
    using one two assms(8)
    by (simp add: io_bind_def queryDeviceId_def queryVsoCapabilities_def request_data_def sendIPMBRequest_def
        response_data_def)
qed

theorem capabilities_come_from_the_probed_device_witness:
  "\<exists>dev br'. io_bind (queryDeviceId bridge_ipmb 0x82 (device_blank 0 0x82)) (queryVsoCapabilities bridge_ipmb)
       (example_bus example_segment, shipped_bridge) = (Inr dev, (example_bus example_segment, br')) \<and>
     isVITA4611Device dev = Some True \<and> map_option IPMCIdentifier (vsocaps dev) = Some 1"
proof -
  have seg: "example_segment 0x82 NETFN_APP IPMI_GET_DEVICE_ID_CMD [] = Some (0, [0x11])"
    "example_segment 0x82 NETFN_VITA4611 VITA4611_GETVSOCAPS_CMD [0x03] = Some (0, [3, 1, 0, 0, 1, 0, 0])"
    by (simp_all add: example_segment_def NETFN_APP_def NETFN_VITA4611_def)
  have caps: "VSOCaps_of [3, 1, 0, 0, 1, 0, 0] = Inr \<lparr>VSOIdentifier = 3, IPMCIdentifier = 1, IPMBCapabilities = 0,
      VSOStandard = 0, VSORevision = 1, MaxFRUDeviceID = 0, IPMCFRUDeviceID = 0\<rparr>"
    by (simp add: VSOCaps_of_def)
  from capabilities_come_from_the_probed_device [OF example_bus_conforms [of example_segment] shipped_link_ready _ seg(1) _ seg(2) _ caps]
  show ?thesis by auto
qed

text \<open>
  A device that acknowledges the address probe and then stays silent on IPMB takes the manager
  down at enumeration: the bridge's timeout status is not looked at, the empty data of the reply
  count as a device id and as a capabilities record, and reading the latter leaves the buffer.
\<close>

theorem silent_device_breaks_enumeration:
  assumes "bridge_init br0" "bridge_step\<^sup>*\<^sup>* br0 br" "getChannel 0 (br_channels br) = Some k"
    and "s < 64" "ch_outstandingRequests (br_channels br ! k) ! s = None"
    and "filter responds probe_addresses \<noteq> []"
  shows "fst (enumerateI2CDevices bridge_ipmb responds cm (\<lambda>_. [], br)) = Inl Out_Of_Bounds"
proof -
  obtain a as where probe: "filter responds probe_addresses = a # as"
    using assms(6) by (cases "filter responds probe_addresses") auto
  have link: "link_ready 0 br" by (rule reachable_link_ready [OF assms(1-5)])
  obtain br1 where one: "request_data bridge_ipmb 0 (push_bit 1 a) NETFN_APP IPMI_GET_DEVICE_ID_CMD [] (\<lambda>_. [], br)
      = (Inr (Some []), (\<lambda>_. [], br1))" and link1: "link_ready 0 br1"
    using request_data_timeout [OF link, of "[]" "push_bit 1 a" NETFN_APP IPMI_GET_DEVICE_ID_CMD] by auto
  obtain br2 where two: "request_data bridge_ipmb 0 0x40 NETFN_VITA4611 VITA4611_GETVSOCAPS_CMD [0x03] (\<lambda>_. [], br1)
      = (Inr (Some []), (\<lambda>_. [], br2))"
    using request_data_timeout [OF link1, of "[0x03]" "0x40" NETFN_VITA4611 VITA4611_GETVSOCAPS_CMD] by auto
  have "VITA4611Device_new bridge_ipmb 0 (push_bit 1 a) (\<lambda>_. [], br) = (Inl Out_Of_Bounds, (\<lambda>_. [], br2))"
    using one two
    by (simp add: VITA4611Device_new_def queryDeviceId_def queryVsoCapabilities_def io_bind_def VSOCaps_of_def
        device_blank_def)
  then show ?thesis
    by (simp add: enumerateI2CDevices_def probe io_bind_Inl)
qed

theorem silent_device_breaks_enumeration_witness:
  "fst (enumerateI2CDevices bridge_ipmb (\<lambda>a. a = 0x41) example_cm (\<lambda>_. [], shipped_bridge)) = Inl Out_Of_Bounds"
proof -
  have chan: "getChannel 0 (br_channels shipped_bridge) = Some 0"
    and free: "ch_outstandingRequests (br_channels shipped_bridge ! 0) ! 0 = None"
    by (simp_all add: shipped_channels)
  have "(0x41 :: byte) \<in> set (filter (\<lambda>a. a = 0x41) probe_addresses)"
    by (auto simp: probe_addresses_def image_iff intro!: bexI [of _ 65])
  then have "filter (\<lambda>a. a = (0x41 :: byte)) probe_addresses \<noteq> []" by force
  from silent_device_breaks_enumeration [OF shipped_init rtranclp.rtrancl_refl chan _ free this] show ?thesis by simp
qed

section \<open>From a voltage to the power supply\<close>


lemma example_supervised:
  "\<exists>s. boot_step\<^sup>*\<^sup>* example_boot s \<and> bs_phase s = Running \<and> bs_watching s \<and> \<not> bs_alarm s"
proof -
  obtain s where s: "boot_step\<^sup>*\<^sup>* example_boot s" "bs_phase s = Running" "\<not> bs_watching s" "\<not> bs_alarm s"
    "ipmi_service_status (bs_mgr s)"
    using example_run by blast
  have "boot_step s (s\<lparr>bs_watching := True\<rparr>)" by (rule boot_step.ipmi_active) (use s in simp_all)
  with s show ?thesis by (intro exI [of _ "s\<lparr>bs_watching := True\<rparr>"]) (auto intro: rtranclp.rtrancl_into_rtrancl)
qed


end
